(* ===== verification/Prelude.thy ===== *)
theory Prelude
  imports Complex_Main "HOL-Library.AList"
begin

text \<open>
  Shared vocabulary of the development: the JavaScript values the two TypeScript packages compute
  with, and the generic lemmas about them.

  \<^item> JavaScript numbers are \<open>real\<close> (exact; rounding of doubles is not modelled). Sequence numbers,
    watermarks and counters, which the protocol defines as integers, are \<open>int\<close> or \<open>nat\<close>.
  \<^item> A JavaScript \<open>Map\<close> is an association list in insertion order; \<open>set\<close> is \<^const>\<open>AList.update\<close>
    (an existing key keeps its place), \<open>delete\<close> is \<^const>\<open>AList.delete\<close>.
  \<^item> A JavaScript \<open>Set\<close> is a duplicate-free list in insertion order.
  \<^item> \<open>undefined\<close> and \<open>null\<close> are \<open>None\<close>.
  \<^item> A variable that holds a timer handle is a value of type \<open>timer\<close>.
\<close>

named_theorems js_simps \<open>evaluation rules for the JavaScript library functions\<close>
named_theorems inv_intros \<open>operations keep the invariant of their component\<close>

type_synonym jsnum = real

section \<open>Numbers\<close>

text \<open>\<open>Math.round\<close> rounds half up.\<close>

definition js_round :: "jsnum \<Rightarrow> int" where
  "js_round x = \<lfloor>x + 1 / 2\<rfloor>"

definition is_integer :: "jsnum \<Rightarrow> bool" where
  "is_integer x \<longleftrightarrow> of_int \<lfloor>x\<rfloor> = x"

lemma is_integer_of_int [simp]: "is_integer (of_int n)"
  by (simp add: is_integer_def)

lemma is_integer_numeral [simp]: "is_integer (numeral n)" "is_integer 0" "is_integer 1"
  by (simp_all add: is_integer_def)

lemma js_round_mono: "x \<le> y \<Longrightarrow> js_round x \<le> js_round y"
  by (simp add: js_round_def floor_mono)

lemma js_round_of_int [simp]: "js_round (of_int n) = n"
  unfolding js_round_def by linarith

lemma js_round_close: "\<bar>of_int (js_round x) - x\<bar> \<le> 1 / 2"
  unfolding js_round_def by linarith

section \<open>Decimal text\<close>

definition digit_char :: "nat \<Rightarrow> char" where
  "digit_char d = char_of (48 + d)"

definition digit_val :: "char \<Rightarrow> nat" where
  "digit_val c = of_char c - 48"

definition is_digit :: "char \<Rightarrow> bool" where
  "is_digit c \<longleftrightarrow> 48 \<le> (of_char c :: nat) \<and> (of_char c :: nat) \<le> 57"

fun nat_str :: "nat \<Rightarrow> string" where
  "nat_str n = (if n < 10 then [digit_char n] else nat_str (n div 10) @ [digit_char (n mod 10)])"

declare nat_str.simps [simp del]

definition str_nat :: "string \<Rightarrow> nat" where
  "str_nat s = foldl (\<lambda>a c. 10 * a + digit_val c) 0 s"

lemma of_char_digit_char [simp]: "d < 10 \<Longrightarrow> (of_char (digit_char d) :: nat) = 48 + d"
  by (simp add: digit_char_def)

lemma digit_val_digit_char [simp]: "d < 10 \<Longrightarrow> digit_val (digit_char d) = d"
  by (simp add: digit_val_def)

lemma is_digit_digit_char [simp]: "d < 10 \<Longrightarrow> is_digit (digit_char d)"
  by (simp add: is_digit_def)

lemma digit_val_less: "is_digit c \<Longrightarrow> digit_val c < 10"
  by (auto simp: is_digit_def digit_val_def)

lemma digit_char_digit_val [simp]: "is_digit c \<Longrightarrow> digit_char (digit_val c) = c"
  by (auto simp: is_digit_def digit_val_def digit_char_def)

lemma nat_str_nonempty [simp]: "nat_str n \<noteq> []"
  by (subst nat_str.simps) simp

lemma nat_str_digits: "c \<in> set (nat_str n) \<Longrightarrow> is_digit c"
proof (induction n rule: nat_str.induct)
  case (1 n)
  then show ?case
    by (cases "n < 10") (auto simp: nat_str.simps [of n])
qed

lemma list_all_digits_nat_str [simp]: "list_all is_digit (nat_str n)"
  by (simp add: list_all_iff nat_str_digits)

lemma str_nat_snoc [simp]: "str_nat (s @ [c]) = 10 * str_nat s + digit_val c"
  by (simp add: str_nat_def)

lemma str_nat_Nil [simp]: "str_nat [] = 0"
  by (simp add: str_nat_def)

lemma str_nat_nat_str [simp]: "str_nat (nat_str n) = n"
proof (induction n rule: nat_str.induct)
  case (1 n)
  show ?case
  proof (cases "n < 10")
    case True
    then show ?thesis by (simp add: nat_str.simps [of n] str_nat_def)
  next
    case False
    with 1 show ?thesis by (simp add: nat_str.simps [of n])
  qed
qed

lemma nat_str_inj [simp]: "nat_str m = nat_str n \<longleftrightarrow> m = n"
  by (metis str_nat_nat_str)

text \<open>No leading zero: only \<open>0\<close> itself starts with one.\<close>

lemma hd_nat_str: "0 < n \<Longrightarrow> hd (nat_str n) \<noteq> digit_char 0"
proof (induction n rule: nat_str.induct)
  case (1 n)
  show ?case
  proof (cases "n < 10")
    case True
    have "digit_char n \<noteq> digit_char 0"
      using True "1.prems" by (metis digit_val_digit_char less_numeral_extra(3) zero_less_numeral)
    with True show ?thesis by (simp add: nat_str.simps [of n])
  next
    case False
    with 1 show ?thesis by (simp add: nat_str.simps [of n] hd_append)
  qed
qed

lemma length_nat_str_le: "n < 10 ^ k \<Longrightarrow> 0 < k \<Longrightarrow> length (nat_str n) \<le> k"
proof (induction n arbitrary: k rule: nat_str.induct)
  case (1 n)
  show ?case
  proof (cases "n < 10")
    case True
    with "1.prems" show ?thesis by (simp add: nat_str.simps [of n])
  next
    case False
    with "1.prems" obtain j where k: "k = Suc j"
      by (cases k) auto
    with "1.prems" False have j: "0 < j"
      by (cases j) auto
    from k "1.prems" False have "n div 10 < 10 ^ j" by (simp add: less_mult_imp_div_less)
    with 1 False j have "length (nat_str (n div 10)) \<le> j" by blast
    with False k show ?thesis by (simp add: nat_str.simps [of n])
  qed
qed

lemma str_nat_less: "list_all is_digit s \<Longrightarrow> str_nat s < 10 ^ length s"
proof (induction s rule: rev_induct)
  case Nil
  then show ?case by simp
next
  case (snoc c s)
  then have "str_nat s < 10 ^ length s" "digit_val c < 10"
    by (auto simp: digit_val_less)
  then show ?case by simp
qed

definition int_str :: "int \<Rightarrow> string" where
  "int_str n = (if n < 0 then CHR ''-'' # nat_str (nat (- n)) else nat_str (nat n))"

section \<open>Insertion-ordered sets\<close>

definition set_add :: "'a \<Rightarrow> 'a list \<Rightarrow> 'a list" where
  "set_add x s = (if x \<in> set s then s else s @ [x])"

definition set_delete :: "'a \<Rightarrow> 'a list \<Rightarrow> 'a list" where
  "set_delete x s = filter (\<lambda>y. y \<noteq> x) s"

lemma set_set_add [simp]: "set (set_add x s) = insert x (set s)"
  by (auto simp: set_add_def)

lemma set_set_delete [simp]: "set (set_delete x s) = set s - {x}"
  by (auto simp: set_delete_def)

lemma distinct_set_add [simp]: "distinct (set_add x s) \<longleftrightarrow> distinct s"
  by (auto simp: set_add_def)

lemma distinct_set_delete [simp]: "distinct s \<Longrightarrow> distinct (set_delete x s)"
  by (simp add: set_delete_def)

lemma length_set_add: "length (set_add x s) = (if x \<in> set s then length s else Suc (length s))"
  by (simp add: set_add_def)

lemma length_set_delete_le: "length (set_delete x s) \<le> length s"
  by (simp add: set_delete_def)

lemma length_set_delete_less: "x \<in> set s \<Longrightarrow> length (set_delete x s) < length s"
  unfolding set_delete_def by (rule length_filter_less) auto

section \<open>Insertion-ordered maps\<close>

text \<open>The contract of a keyed container: what a lookup returns after each update.\<close>

locale keyed =
  fixes get :: "'m \<Rightarrow> 'k \<Rightarrow> 'v option"
    and put :: "'k \<Rightarrow> 'v \<Rightarrow> 'm \<Rightarrow> 'm"
    and del :: "'k \<Rightarrow> 'm \<Rightarrow> 'm"
  assumes get_put: "get (put k v m) = (get m)(k \<mapsto> v)"
    and get_del: "get (del k m) = (get m)(k := None)"
begin

lemma get_put_same: "get (put k v m) k = Some v"
  by (simp add: get_put)

lemma get_put_other: "k' \<noteq> k \<Longrightarrow> get (put k v m) k' = get m k'"
  by (simp add: get_put)

lemma get_del_same: "get (del k m) k = None"
  by (simp add: get_del)

lemma put_put: "get (put k v (put k v' m)) = get (put k v m)"
  by (simp add: get_put)

lemma dom_put: "dom (get (put k v m)) = insert k (dom (get m))"
  by (simp add: get_put)

lemma dom_del: "dom (get (del k m)) = dom (get m) - {k}"
  by (simp add: get_del)

end

interpretation js_map: keyed map_of AList.update AList.delete
  by unfold_locales (simp_all add: update_conv' delete_conv')

lemmas js_map_simps [simp] = js_map.get_put js_map.get_del

lemma keys_delete [simp]: "fst ` set (AList.delete k m) = fst ` set m - {k}"
  by (metis dom_map_of_conv_image_fst js_map.dom_del)

lemma keys_update [simp]: "fst ` set (AList.update k v m) = insert k (fst ` set m)"
  by (metis dom_map_of_conv_image_fst js_map.dom_put)

section \<open>Timers\<close>

text \<open>
  A field of type \<open>ReturnType<typeof setTimeout> | undefined\<close>: \<open>Unset\<close> is \<open>undefined\<close>,
  \<open>Armed d x\<close> a pending timer with delay \<open>d\<close> whose callback captured \<open>x\<close>, and \<open>Spent\<close> a handle
  that still sits in the field (it is truthy) though its timer was cancelled or has fired.
\<close>

datatype 'a timer = Unset | Armed jsnum 'a | Spent

definition timer_truthy :: "'a timer \<Rightarrow> bool" where
  "timer_truthy t \<longleftrightarrow> t \<noteq> Unset"

text \<open>\<open>if (t) clearTimeout(t)\<close>: the field keeps the handle.\<close>

definition clear_timeout :: "'a timer \<Rightarrow> 'a timer" where
  "clear_timeout t = (case t of Unset \<Rightarrow> Unset | _ \<Rightarrow> Spent)"

lemma clear_timeout_simps [simp]:
  "clear_timeout Unset = Unset" "clear_timeout (Armed d x) = Spent" "clear_timeout Spent = Spent"
  by (simp_all add: clear_timeout_def)

lemma clear_timeout_not_armed [simp]: "clear_timeout t \<noteq> Armed d x"
  by (cases t) simp_all

section \<open>Runs\<close>

text \<open>A component driven by a sequence of inputs, and invariants of its runs.\<close>

definition run :: "('e \<Rightarrow> 's \<Rightarrow> 's) \<Rightarrow> 'e list \<Rightarrow> 's \<Rightarrow> 's" where
  "run step es s = fold step es s"

lemma run_Nil [simp]: "run step [] s = s"
  by (simp add: run_def)

lemma run_Cons [simp]: "run step (e # es) s = run step es (step e s)"
  by (simp add: run_def)

lemma run_append [simp]: "run step (es @ fs) s = run step fs (run step es s)"
  by (simp add: run_def)

locale preserved =
  fixes step :: "'e \<Rightarrow> 's \<Rightarrow> 's"
    and good :: "'s \<Rightarrow> bool"
  assumes step_good: "good s \<Longrightarrow> good (step e s)"
begin

lemma run_good: "good s \<Longrightarrow> good (run step es s)"
  by (induction es arbitrary: s) (auto intro: step_good)

end

end
