(* ===== verification/Emitter.thy ===== *)
theory Emitter
  imports Prelude
begin

text \<open>
  The typed event emitter, \<open>packages/client-ts/src/emitter.ts\<close> (the agent package has the same
  file). A listener is a function of the application, named here by a number; \<open>once\<close> registers a
  fresh wrapper (the first argument of \<open>Once\<close> is its identity), which unsubscribes itself before it
  calls the listener. What a listener does inside is
  the application's: whether it throws is the parameter \<open>throws\<close>.
\<close>

datatype listener = Listener nat | Once nat nat

fun target :: "listener \<Rightarrow> nat" where
  "target (Listener n) = n"
| "target (Once w n) = n"

type_synonym emitter = "(string \<times> listener list) list"

definition listeners :: "emitter \<Rightarrow> string \<Rightarrow> listener list" where
  "listeners em event = (case map_of em event of Some s \<Rightarrow> s | None \<Rightarrow> [])"

definition on :: "string \<Rightarrow> listener \<Rightarrow> emitter \<Rightarrow> emitter" where
  "on event l em = AList.update event (set_add l (listeners em event)) em"

definition off :: "string \<Rightarrow> listener \<Rightarrow> emitter \<Rightarrow> emitter" where
  "off event l em =
     (case map_of em event of
        Some s \<Rightarrow> AList.update event (set_delete l s) em
      | None \<Rightarrow> em)"

definition once :: "string \<Rightarrow> nat \<Rightarrow> nat \<Rightarrow> emitter \<Rightarrow> emitter" where
  "once event w n em = on event (Once w n) em"

definition removeAllListeners :: "string option \<Rightarrow> emitter \<Rightarrow> emitter" where
  "removeAllListeners event em = (case event of None \<Rightarrow> [] | Some e \<Rightarrow> AList.delete e em)"

text \<open>One entry per call of a listener; \<open>Reported\<close> is a caught exception (handed to the error
  handler, or rethrown in a microtask when there is none).\<close>

datatype call = Called nat | Reported nat

definition call_listener :: "(nat \<Rightarrow> bool) \<Rightarrow> string \<Rightarrow> listener \<Rightarrow> emitter \<times> call list \<Rightarrow> emitter \<times> call list" where
  "call_listener throws event l st =
     (let em = (case l of Once _ _ \<Rightarrow> off event l (fst st) | Listener _ \<Rightarrow> fst st)
      in (em, snd st @ [Called (target l)] @ (if throws (target l) then [Reported (target l)] else [])))"

text \<open>\<open>emit\<close> iterates over a copy of the set.\<close>

definition emit :: "(nat \<Rightarrow> bool) \<Rightarrow> string \<Rightarrow> emitter \<Rightarrow> emitter \<times> call list" where
  "emit throws event em = fold (call_listener throws event) (listeners em event) (em, [])"

fun is_called :: "call \<Rightarrow> bool" where
  "is_called (Called _) = True"
| "is_called (Reported _) = False"

text \<open>
  \<open>emit\<close> of a conversation, whose constructor installs an error handler
  (\<open>packages/client-ts/src/conversation.ts\<close>): a listener that throws (anything but a
  \<open>ConvergerError\<close>) makes the handler emit \<open>error\<close>, from inside the loop. The first argument bounds the
  depth of nested \<open>emit\<close>s; \<open>None\<close> is that the bound was reached.
\<close>

function (sequential) session_emit :: "nat \<Rightarrow> (nat \<Rightarrow> bool) \<Rightarrow> string \<Rightarrow> emitter \<Rightarrow> (emitter \<times> call list) option"
  and session_calls :: "nat \<Rightarrow> (nat \<Rightarrow> bool) \<Rightarrow> string \<Rightarrow> listener list \<Rightarrow> emitter \<Rightarrow> call list \<Rightarrow> (emitter \<times> call list) option"
where
  "session_emit 0 throws event em = None"
| "session_emit (Suc f) throws event em = session_calls f throws event (listeners em event) em []"
| "session_calls f throws event [] em cs = Some (em, cs)"
| "session_calls f throws event (l # ls) em cs =
     (let (em', cs') = call_listener throws event l (em, cs) in
      if throws (target l)
      then (case session_emit f throws ''error'' em' of
              None \<Rightarrow> None
            | Some (em'', cs'') \<Rightarrow> session_calls f throws event ls em'' (cs' @ cs''))
      else session_calls f throws event ls em' cs')"
  by pat_completeness auto
termination
  by (relation "measures [case_sum fst fst, case_sum (\<lambda>_. 0) (\<lambda>(f, throws, event, ls, em, cs). Suc (length ls))]") auto

lemma listeners_on [simp]:
  "listeners (on event l em) e = (if e = event then set_add l (listeners em event) else listeners em e)"
  by (simp add: on_def listeners_def)

lemma listeners_off [simp]:
  "listeners (off event l em) e = (if e = event then set_delete l (listeners em event) else listeners em e)"
  by (auto simp: off_def listeners_def set_delete_def split: option.splits)

lemma call_listener_simps [simp]:
  "call_listener throws event (Listener n) (em, cs) = (em, cs @ Called n # (if throws n then [Reported n] else []))"
  "call_listener throws event (Once w n) (em, cs)
     = (off event (Once w n) em, cs @ Called n # (if throws n then [Reported n] else []))"
  by (simp_all add: call_listener_def)

lemma emit_fold_calls:
  "filter is_called (snd (fold (call_listener throws event) ls (em, calls)))
     = filter is_called calls @ map (Called \<circ> target) ls"
proof (induction ls arbitrary: em calls)
  case (Cons l ls)
  then show ?case by (cases l) auto
qed simp

lemma emit_fold_listeners:
  "listeners (fst (fold (call_listener throws event) ls (em, calls))) e
     = (if e = event then filter (\<lambda>l. \<not> (l \<in> set ls \<and> (\<exists>w n. l = Once w n))) (listeners em event)
        else listeners em e)"
proof (induction ls arbitrary: em calls)
  case (Cons l ls)
  then show ?case
    by (cases l) (auto simp: set_delete_def intro!: filter_cong)
qed simp

section \<open>Properties\<close>

text \<open>
  \<open>emit\<close> calls every listener that was subscribed when it started, each once and in subscription
  order, no matter which of them throw, and leaves the subscriptions as they were except that the
  \<open>once\<close> listeners it called are gone.
\<close>

theorem emit_calls_every_listener:
  "filter is_called (snd (emit throws event em)) = map (Called \<circ> target) (listeners em event)
   \<and> listeners (fst (emit throws event em)) event = filter (\<lambda>l. \<forall>w n. l \<noteq> Once w n) (listeners em event)"
proof -
  have "listeners (fst (emit throws event em)) event = filter (\<lambda>l. \<not> (l \<in> set (listeners em event) \<and> (\<exists>w n. l = Once w n))) (listeners em event)"
    by (simp add: emit_def emit_fold_listeners)
  also have "\<dots> = filter (\<lambda>l. \<forall>w n. l \<noteq> Once w n) (listeners em event)"
    by (rule filter_cong) auto
  finally show ?thesis by (simp add: emit_def emit_fold_calls)
qed

lemma session_calls_stuck:
  assumes "Listener n \<in> set ls" "throws n" "\<And>em. Listener n \<in> set (listeners em ''error'') \<Longrightarrow> session_emit f throws ''error'' em = None"
    and "Listener n \<in> set (listeners em ''error'')"
  shows "session_calls f throws ''error'' ls em cs = None"
  using assms(1, 4)
proof (induction ls arbitrary: em cs)
  case (Cons l ls)
  have keep: "Listener n \<in> set (listeners (fst (call_listener throws ''error'' l (em, cs))) ''error'')"
    using Cons.prems(2) by (cases l) auto
  show ?case
  proof (cases "throws (target l)")
    case True
    with keep assms(3) show ?thesis by (simp add: split_beta Let_def)
  next
    case False
    with Cons.prems(1) assms(2) have "Listener n \<in> set ls" by auto
    with False keep Cons.IH show ?thesis by (simp add: split_beta Let_def)
  qed
qed simp



end
