(* ===== verification/Storage.thy ===== *)
theory Storage
  imports Prelude
begin

text \<open>
  Key-value storage of the client, \<open>packages/client-ts/src/storage/storage.ts\<close>. The interface
  \<open>KeyValueStorage\<close> is the locale \<open>key_value_storage\<close>; \<open>MemoryStorage\<close> provides it, and so does
  \<open>WebStorage\<close> over a Web Storage object.
\<close>

locale key_value_storage = keyed getItem setItem removeItem
  for getItem :: "'s \<Rightarrow> string \<Rightarrow> string option"
    and setItem :: "string \<Rightarrow> string \<Rightarrow> 's \<Rightarrow> 's"
    and removeItem :: "string \<Rightarrow> 's \<Rightarrow> 's"
begin

text \<open>Applying queued writes in order.\<close>

lemma fold_setItem_other:
  "k \<notin> fst ` set ws \<Longrightarrow> getItem (fold (\<lambda>(k, v). setItem k v) ws s) k = getItem s k"
  by (induction ws arbitrary: s) (auto simp: get_put)

lemma fold_setItem_last:
  "getItem (fold (\<lambda>(k, v). setItem k v) (ws @ [(k, v)]) s) k = Some v"
  by (simp add: get_put)

end

section \<open>MemoryStorage\<close>

type_synonym memory_storage = "(string \<times> string) list"

definition memory_getItem :: "memory_storage \<Rightarrow> string \<Rightarrow> string option" where
  "memory_getItem items key = map_of items key"

definition memory_setItem :: "string \<Rightarrow> string \<Rightarrow> memory_storage \<Rightarrow> memory_storage" where
  "memory_setItem key v items = AList.update key v items"

definition memory_removeItem :: "string \<Rightarrow> memory_storage \<Rightarrow> memory_storage" where
  "memory_removeItem key items = AList.delete key items"

interpretation memory: key_value_storage memory_getItem memory_setItem memory_removeItem
  by unfold_locales (auto simp: memory_getItem_def memory_setItem_def memory_removeItem_def)

section \<open>WebStorage\<close>

text \<open>The Web Storage object: a map of strings, in the browser's hands.\<close>

record web_storage_like =
  ws_items :: "string \<rightharpoonup> string"

definition web_getItem :: "web_storage_like \<Rightarrow> string \<Rightarrow> string option" where
  "web_getItem st key = ws_items st key"

definition web_setItem :: "string \<Rightarrow> string \<Rightarrow> web_storage_like \<Rightarrow> web_storage_like" where
  "web_setItem key v st = st\<lparr>ws_items := (ws_items st)(key \<mapsto> v)\<rparr>"

definition web_removeItem :: "string \<Rightarrow> web_storage_like \<Rightarrow> web_storage_like" where
  "web_removeItem key st = st\<lparr>ws_items := (ws_items st)(key := None)\<rparr>"

interpretation web: key_value_storage web_getItem web_setItem web_removeItem
  by unfold_locales (auto simp: web_getItem_def web_setItem_def web_removeItem_def)

section \<open>defaultStorage\<close>

text \<open>What \<open>globalThis\<close> offers: \<open>LsThrows\<close> when reading the object, or the probe write, throws.\<close>

datatype local_storage = LsMissing | LsThrows | LsWorks web_storage_like

datatype default_storage = UseMemory memory_storage | UseWeb web_storage_like

definition probe_key :: string where "probe_key = ''__converger_probe__''"

definition defaultStorage :: "bool \<Rightarrow> bool \<Rightarrow> local_storage \<Rightarrow> default_storage" where
  "defaultStorage has_window has_document ls =
     (if \<not> has_window \<or> \<not> has_document then UseMemory []
      else (case ls of
              LsMissing \<Rightarrow> UseMemory []
            | LsThrows \<Rightarrow> UseMemory []
            | LsWorks st \<Rightarrow> UseWeb (web_removeItem probe_key (web_setItem probe_key ''1'' st))))"

text \<open>The probe leaves every other item alone.\<close>

lemma defaultStorage_probe:
  "defaultStorage True True (LsWorks st) = UseWeb st' \<Longrightarrow> k \<noteq> probe_key \<Longrightarrow> web_getItem st' k = web_getItem st k"
  by (auto simp: defaultStorage_def web.get_put web.get_del)

end
