(* ===== verification/Backoff.thy ===== *)
theory Backoff
  imports Prelude
begin

text \<open>
  Jittered exponential reconnect delays: \<open>packages/client-ts/src/backoff.ts\<close> and
  \<open>packages/agent-ts/src/backoff.ts\<close>. The random source is the argument \<open>u\<close>, the value that
  \<open>random()\<close> returned.
\<close>

section \<open>Policy\<close>

text \<open>\<open>maxAttempts\<close> is a number or \<open>Number.POSITIVE_INFINITY\<close>.\<close>

datatype bound = Finite jsnum | Infinite

fun exceeds :: "nat \<Rightarrow> bound \<Rightarrow> bool" where
  "exceeds n (Finite b) \<longleftrightarrow> of_nat n > b"
| "exceeds n Infinite \<longleftrightarrow> False"

fun reaches :: "nat \<Rightarrow> bound \<Rightarrow> bool" where
  "reaches n (Finite b) \<longleftrightarrow> of_nat n \<ge> b"
| "reaches n Infinite \<longleftrightarrow> False"

record reconnect_options =
  o_enabled :: "bool option"
  o_initialDelayMs :: "jsnum option"
  o_maxDelayMs :: "jsnum option"
  o_factor :: "jsnum option"
  o_jitter :: "jsnum option"
  o_maxAttempts :: "bound option"

definition no_reconnect_options :: reconnect_options where
  "no_reconnect_options = \<lparr>o_enabled = None, o_initialDelayMs = None, o_maxDelayMs = None,
     o_factor = None, o_jitter = None, o_maxAttempts = None\<rparr>"

text \<open>\<open>ReconnectOptions | false | undefined\<close>.\<close>

datatype reconnect_arg = ReconnectUndefined | ReconnectFalse | ReconnectOptions reconnect_options

record resolved_reconnect =
  enabled :: bool
  initialDelayMs :: jsnum
  maxDelayMs :: jsnum
  factor :: jsnum
  jitter :: jsnum
  maxAttempts :: bound

definition or_default :: "'a option \<Rightarrow> 'a \<Rightarrow> 'a" where
  "or_default v d = (case v of Some x \<Rightarrow> x | None \<Rightarrow> d)"

lemma or_default_simps [simp]: "or_default (Some x) d = x" "or_default None d = d"
  by (simp_all add: or_default_def)

definition reconnect_object :: "reconnect_arg \<Rightarrow> reconnect_options" where
  "reconnect_object arg =
     (case arg of
        ReconnectFalse \<Rightarrow> no_reconnect_options\<lparr>o_enabled := Some False\<rparr>
      | ReconnectUndefined \<Rightarrow> no_reconnect_options
      | ReconnectOptions opts \<Rightarrow> opts)"

definition resolveReconnect :: "reconnect_arg \<Rightarrow> resolved_reconnect" where
  "resolveReconnect arg =
     (let opts = reconnect_object arg in
      \<lparr>enabled = or_default (o_enabled opts) True,
       initialDelayMs = or_default (o_initialDelayMs opts) 1000,
       maxDelayMs = or_default (o_maxDelayMs opts) 10000,
       factor = or_default (o_factor opts) 2,
       jitter = min 1 (max 0 (or_default (o_jitter opts) (1 / 2))),
       maxAttempts = or_default (o_maxAttempts opts) Infinite\<rparr>)"

definition agent_resolveReconnect :: "reconnect_arg \<Rightarrow> resolved_reconnect" where
  "agent_resolveReconnect arg =
     (let opts = reconnect_object arg in
      \<lparr>enabled = or_default (o_enabled opts) True,
       initialDelayMs = or_default (o_initialDelayMs opts) 1000,
       maxDelayMs = or_default (o_maxDelayMs opts) 30000,
       factor = or_default (o_factor opts) 2,
       jitter = min 1 (max 0 (or_default (o_jitter opts) (1 / 2))),
       maxAttempts = or_default (o_maxAttempts opts) Infinite\<rparr>)"

section \<open>Delay\<close>

definition backoff_base :: "nat \<Rightarrow> resolved_reconnect \<Rightarrow> jsnum" where
  "backoff_base attempt p = min (maxDelayMs p) (initialDelayMs p * factor p ^ (attempt - 1))"

definition backoff_floor :: "jsnum option \<Rightarrow> jsnum" where
  "backoff_floor retryAfterMs = (case retryAfterMs of Some r \<Rightarrow> if r > 0 then r else 0 | None \<Rightarrow> 0)"

definition backoffDelay :: "nat \<Rightarrow> resolved_reconnect \<Rightarrow> jsnum option \<Rightarrow> jsnum \<Rightarrow> int" where
  "backoffDelay attempt p retryAfterMs u =
     (let base = backoff_base attempt p;
          delay = base * (1 - jitter p) + u * base * jitter p
      in js_round (max delay (backoff_floor retryAfterMs)))"

definition agent_backoffDelay :: "nat \<Rightarrow> resolved_reconnect \<Rightarrow> jsnum option \<Rightarrow> jsnum \<Rightarrow> int" where
  "agent_backoffDelay attempt p retryAfterMs u =
     (let base = backoff_base attempt p;
          delay = base * (1 - jitter p) + u * base * jitter p
      in js_round (max delay (backoff_floor retryAfterMs)))"

text \<open>The policies \<open>resolveReconnect\<close> makes of non-negative durations.\<close>

definition policy_ok :: "resolved_reconnect \<Rightarrow> bool" where
  "policy_ok p \<longleftrightarrow> 0 \<le> initialDelayMs p \<and> 0 \<le> maxDelayMs p \<and> 1 \<le> factor p \<and> 0 \<le> jitter p \<and> jitter p \<le> 1"

lemma resolveReconnect_jitter:
  "0 \<le> jitter (resolveReconnect arg) \<and> jitter (resolveReconnect arg) \<le> 1"
  by (simp add: resolveReconnect_def Let_def)

lemma resolveReconnect_default_ok: "policy_ok (resolveReconnect ReconnectUndefined)"
  by (simp add: policy_ok_def resolveReconnect_def reconnect_object_def no_reconnect_options_def)

lemma backoff_floor_nonneg [simp]: "0 \<le> backoff_floor r"
  by (simp add: backoff_floor_def split: option.splits)

lemma backoff_base_nonneg: "policy_ok p \<Longrightarrow> 0 \<le> backoff_base n p"
  by (simp add: policy_ok_def backoff_base_def)

lemma backoff_base_le_max: "backoff_base n p \<le> maxDelayMs p"
  by (simp add: backoff_base_def)

lemma backoff_base_mono:
  assumes "policy_ok p" "m \<le> n"
  shows "backoff_base m p \<le> backoff_base n p"
proof -
  have "initialDelayMs p * factor p ^ (m - 1) \<le> initialDelayMs p * factor p ^ (n - 1)"
    using assms by (intro mult_left_mono power_increasing) (auto simp: policy_ok_def)
  then show ?thesis unfolding backoff_base_def by (rule min.mono [OF order_refl])
qed

text \<open>The drawn delay lies in \<open>[base * (1 - jitter), base]\<close>, "equal jitter".\<close>

lemma jittered_bounds:
  fixes base j u :: jsnum
  assumes "0 \<le> base" "0 \<le> j" "j \<le> 1" "0 \<le> u" "u < 1"
  shows "base * (1 - j) \<le> base * (1 - j) + u * base * j"
    and "base * (1 - j) + u * base * j \<le> base"
proof -
  show "base * (1 - j) \<le> base * (1 - j) + u * base * j"
    using assms by simp
  have "u * (base * j) \<le> 1 * (base * j)"
    using assms by (intro mult_right_mono) auto
  then show "base * (1 - j) + u * base * j \<le> base"
    by (simp add: algebra_simps)
qed

lemma backoffDelay_ge_floor: "js_round (backoff_floor r) \<le> backoffDelay n p r u"
  by (auto simp: backoffDelay_def Let_def intro: js_round_mono)

lemma backoffDelay_bounds:
  assumes "policy_ok p" "0 \<le> u" "u < 1"
  shows "js_round (max (backoff_base n p * (1 - jitter p)) (backoff_floor r)) \<le> backoffDelay n p r u
       \<and> backoffDelay n p r u \<le> js_round (max (backoff_base n p) (backoff_floor r))"
  using assms jittered_bounds [of "backoff_base n p" "jitter p" u] backoff_base_nonneg [OF assms(1), of n]
  by (auto simp: backoffDelay_def Let_def policy_ok_def intro!: js_round_mono max.mono)

section \<open>Property\<close>

text \<open>
  Bounds of the reconnect delay: with a sane policy and a random number in [0, 1), the delay lies
  between the jittered and the full exponential delay (which never exceeds the maximum), never below
  the server's \<open>retryAfterMs\<close>, and the exponential delay grows with the attempt.
\<close>

theorem reconnect_delay_bounds:
  assumes "policy_ok p" "0 \<le> u" "u < 1" "m \<le> n"
  shows "js_round (max (backoff_base n p * (1 - jitter p)) (backoff_floor r)) \<le> backoffDelay n p r u
    \<and> backoffDelay n p r u \<le> js_round (max (maxDelayMs p) (backoff_floor r))
    \<and> js_round (backoff_floor r) \<le> backoffDelay n p r u
    \<and> backoff_base m p \<le> backoff_base n p"
proof -
  have "js_round (max (backoff_base n p) (backoff_floor r)) \<le> js_round (max (maxDelayMs p) (backoff_floor r))"
    by (intro js_round_mono max.mono backoff_base_le_max) simp
  with backoffDelay_bounds [OF assms(1-3), of n r] backoffDelay_ge_floor [of r n p u] backoff_base_mono [OF assms(1, 4)]
  show ?thesis by linarith
qed

theorem reconnect_delay_bounds_witness:
  "backoffDelay 4 (resolveReconnect ReconnectUndefined) (Some 9000) (1/2) \<le> js_round (max (maxDelayMs (resolveReconnect ReconnectUndefined)) (backoff_floor (Some 9000)))"
  using reconnect_delay_bounds [OF resolveReconnect_default_ok, of "1/2" 3 4 "Some 9000"] by simp

end
