(* ===== verification/Json.thy ===== *)
theory Json
  imports Prelude
begin

text \<open>
  JSON values and texts: the part of the language's library (\<open>JSON.parse\<close>, \<open>JSON.stringify\<close>,
  property access with \<open>typeof\<close> tests) that every wire and storage path of the packages uses.
  Strings are lists of 8-bit code units, so \<open>\u\<close> escapes above \<open>00ff\<close> are rejected here.
  The round trip is proved for values whose numbers are integers, which covers everything the
  packages write themselves.
\<close>

datatype json =
    JNull
  | JBool bool
  | JNum jsnum
  | JStr string
  | JArr "json list"
  | JObj "(string \<times> json) list"

section \<open>Property access\<close>

text \<open>\<open>value[key]\<close>: \<open>None\<close> is \<open>undefined\<close>.\<close>

fun field :: "json \<Rightarrow> string \<Rightarrow> json option" where
  "field (JObj fs) k = map_of fs k"
| "field _ k = None"

text \<open>\<open>value?.[key]\<close> on a possibly missing value.\<close>

definition ofield :: "json option \<Rightarrow> string \<Rightarrow> json option" where
  "ofield v k = (case v of None \<Rightarrow> None | Some j \<Rightarrow> field j k)"

lemma ofield_simps [simp]: "ofield None k = None" "ofield (Some j) k = field j k"
  by (simp_all add: ofield_def)

text \<open>\<open>typeof v === "string" ? v : undefined\<close>, and the same for numbers and booleans.\<close>

fun as_str :: "json option \<Rightarrow> string option" where
  "as_str (Some (JStr s)) = Some s"
| "as_str _ = None"

fun as_num :: "json option \<Rightarrow> jsnum option" where
  "as_num (Some (JNum x)) = Some x"
| "as_num _ = None"

fun as_bool :: "json option \<Rightarrow> bool option" where
  "as_bool (Some (JBool b)) = Some b"
| "as_bool _ = None"

text \<open>A number with an integer value.\<close>

definition as_int :: "json option \<Rightarrow> int option" where
  "as_int v = (case as_num v of Some x \<Rightarrow> if is_integer x then Some \<lfloor>x\<rfloor> else None | None \<Rightarrow> None)"

text \<open>\<open>typeof value === "object" && value !== null && !Array.isArray(value)\<close>.\<close>

fun isRecord :: "json \<Rightarrow> bool" where
  "isRecord (JObj _) = True"
| "isRecord _ = False"

fun as_record :: "json option \<Rightarrow> json option" where
  "as_record (Some (JObj fs)) = Some (JObj fs)"
| "as_record _ = None"

lemma as_record_Some [simp]: "as_record v = Some r \<longleftrightarrow> v = Some r \<and> isRecord r"
  by (cases v rule: as_record.cases) auto

lemma as_str_Some [simp]: "as_str v = Some s \<longleftrightarrow> v = Some (JStr s)"
  by (cases v rule: as_str.cases) auto

lemma as_num_Some [simp]: "as_num v = Some x \<longleftrightarrow> v = Some (JNum x)"
  by (cases v rule: as_num.cases) auto

section \<open>JSON.parse\<close>

definition is_ws :: "char \<Rightarrow> bool" where
  "is_ws c \<longleftrightarrow> c = CHR '' '' \<or> c = CHR 0x09 \<or> c = CHR 0x0A \<or> c = CHR 0x0D"

definition skip_ws :: "string \<Rightarrow> string" where
  "skip_ws s = dropWhile is_ws s"

definition hex_val :: "char \<Rightarrow> nat option" where
  "hex_val c =
     (let n = of_char c :: nat in
      if 48 \<le> n \<and> n \<le> 57 then Some (n - 48)
      else if 97 \<le> n \<and> n \<le> 102 then Some (n - 87)
      else if 65 \<le> n \<and> n \<le> 70 then Some (n - 55)
      else None)"

text \<open>\<open>\uXXXX\<close>: the four hexadecimal digits after the \<open>u\<close>.\<close>

fun hex4 :: "string \<Rightarrow> (nat \<times> string) option" where
  "hex4 (a # b # c # d # r) =
     (case (hex_val a, hex_val b, hex_val c, hex_val d) of
        (Some w, Some x, Some y, Some z) \<Rightarrow> Some (4096 * w + 256 * x + 16 * y + z, r)
      | _ \<Rightarrow> None)"
| "hex4 _ = None"

definition simple_escape :: "char \<Rightarrow> char option" where
  "simple_escape e =
     (if e = CHR 0x22 then Some (CHR 0x22)
      else if e = CHR 0x5C then Some (CHR 0x5C)
      else if e = CHR ''/'' then Some (CHR ''/'')
      else if e = CHR ''b'' then Some (CHR 0x08)
      else if e = CHR ''f'' then Some (CHR 0x0C)
      else if e = CHR ''n'' then Some (CHR 0x0A)
      else if e = CHR ''r'' then Some (CHR 0x0D)
      else if e = CHR ''t'' then Some (CHR 0x09)
      else None)"

lemma hex4_shorter: "hex4 s = Some (n, r) \<Longrightarrow> length r < length s"
  by (cases s rule: hex4.cases) (auto split: option.splits)

text \<open>The characters of a string literal after its opening quote.\<close>

function (sequential) json_chars :: "string \<Rightarrow> (string \<times> string) option" where
  "json_chars [] = None"
| "json_chars (c # cs) =
     (if c = CHR 0x22 then Some ([], cs)
      else if c = CHR 0x5C then
        (case cs of
           [] \<Rightarrow> None
         | e # es \<Rightarrow>
             (if e = CHR ''u'' then
                (case hex4 es of
                   Some (n, r) \<Rightarrow> (if n < 256 then map_option (map_prod ((#) (char_of n)) id) (json_chars r) else None)
                 | None \<Rightarrow> None)
              else
                (case simple_escape e of
                   Some d \<Rightarrow> map_option (map_prod ((#) d) id) (json_chars es)
                 | None \<Rightarrow> None)))
      else if (of_char c :: nat) < 32 then None
      else map_option (map_prod ((#) c) id) (json_chars cs))"
  by pat_completeness auto
termination
  by (relation "measure length") (auto dest: hex4_shorter)

definition json_digits :: "string \<Rightarrow> string \<times> string" where
  "json_digits s = (takeWhile is_digit s, dropWhile is_digit s)"

definition json_frac :: "string \<Rightarrow> (jsnum \<times> string) option" where
  "json_frac s =
     (case s of
        c # cs \<Rightarrow>
          (if c = CHR ''.'' then
             (let (ds, r) = json_digits cs in
              if ds = [] then None else Some (of_nat (str_nat ds) / 10 ^ length ds, r))
           else Some (0, s))
      | [] \<Rightarrow> Some (0, s))"

definition json_exp :: "string \<Rightarrow> (jsnum \<times> string) option" where
  "json_exp s =
     (case s of
        c # cs \<Rightarrow>
          (if c = CHR ''e'' \<or> c = CHR ''E'' then
             (let neg = (case cs of d # _ \<Rightarrow> d = CHR ''-'' | [] \<Rightarrow> False);
                  cs' = (case cs of d # ds \<Rightarrow> if d = CHR ''-'' \<or> d = CHR ''+'' then ds else cs | [] \<Rightarrow> []);
                  (ds, r) = json_digits cs' in
              if ds = [] then None
              else Some (if neg then 1 / 10 ^ str_nat ds else 10 ^ str_nat ds, r))
           else Some (1, s))
      | [] \<Rightarrow> Some (1, s))"

definition json_number :: "string \<Rightarrow> (json \<times> string) option" where
  "json_number s =
     (let neg = (case s of c # _ \<Rightarrow> c = CHR ''-'' | [] \<Rightarrow> False);
          s' = (if neg then tl s else s);
          (ds, r) = json_digits s' in
      if ds = [] \<or> (1 < length ds \<and> hd ds = CHR ''0'') then None
      else (case json_frac r of
              None \<Rightarrow> None
            | Some (f, r') \<Rightarrow>
                (case json_exp r' of
                   None \<Rightarrow> None
                 | Some (e, r'') \<Rightarrow>
                     Some (JNum ((if neg then - 1 else 1) * (of_nat (str_nat ds) + f) * e), r''))))"

definition json_lit :: "string \<Rightarrow> json \<Rightarrow> string \<Rightarrow> (json \<times> string) option" where
  "json_lit w v s = (if take (length w) s = w then Some (v, drop (length w) s) else None)"

text \<open>
  The recursive-descent parser. The fuel bounds the nesting and the length of the input;
  \<open>JSON_parse\<close> gives it more than the number of characters.
\<close>

fun json_value :: "nat \<Rightarrow> string \<Rightarrow> (json \<times> string) option"
and json_elems :: "nat \<Rightarrow> json list \<Rightarrow> string \<Rightarrow> (json \<times> string) option"
and json_members :: "nat \<Rightarrow> (string \<times> json) list \<Rightarrow> string \<Rightarrow> (json \<times> string) option" where
  "json_value 0 s = None"
| "json_value (Suc n) s =
     (case s of
        [] \<Rightarrow> None
      | c # cs \<Rightarrow>
          if c = CHR ''{'' then
            (case skip_ws cs of
               [] \<Rightarrow> None
             | d # r \<Rightarrow> if d = CHR ''}'' then Some (JObj [], r) else json_members n [] (d # r))
          else if c = CHR ''['' then
            (case skip_ws cs of
               [] \<Rightarrow> None
             | d # r \<Rightarrow> if d = CHR '']'' then Some (JArr [], r) else json_elems n [] (d # r))
          else if c = CHR 0x22 then map_option (map_prod JStr id) (json_chars cs)
          else if c = CHR ''t'' then json_lit ''true'' (JBool True) s
          else if c = CHR ''f'' then json_lit ''false'' (JBool False) s
          else if c = CHR ''n'' then json_lit ''null'' JNull s
          else json_number s)"
| "json_elems 0 acc s = None"
| "json_elems (Suc n) acc s =
     (case json_value n s of
        None \<Rightarrow> None
      | Some (v, r) \<Rightarrow>
          (case skip_ws r of
             [] \<Rightarrow> None
           | d # r' \<Rightarrow>
               if d = CHR '','' then json_elems n (acc @ [v]) (skip_ws r')
               else if d = CHR '']'' then Some (JArr (acc @ [v]), r')
               else None))"
| "json_members 0 acc s = None"
| "json_members (Suc n) acc s =
     (case s of
        [] \<Rightarrow> None
      | q # cs \<Rightarrow>
          if q \<noteq> CHR 0x22 then None
          else
            (case json_chars cs of
               None \<Rightarrow> None
             | Some (k, r) \<Rightarrow>
                 (case skip_ws r of
                    [] \<Rightarrow> None
                  | d # r' \<Rightarrow>
                      if d \<noteq> CHR '':'' then None
                      else
                        (case json_value n (skip_ws r') of
                           None \<Rightarrow> None
                         | Some (v, t) \<Rightarrow>
                             (case skip_ws t of
                                [] \<Rightarrow> None
                              | e # t' \<Rightarrow>
                                  if e = CHR '','' then json_members n (AList.update k v acc) (skip_ws t')
                                  else if e = CHR ''}'' then Some (JObj (AList.update k v acc), t')
                                  else None)))))"

text \<open>\<open>JSON.parse\<close>: \<open>None\<close> is the \<open>SyntaxError\<close> it throws.\<close>

definition JSON_parse :: "string \<Rightarrow> json option" where
  "JSON_parse s =
     (case json_value (Suc (length s)) (skip_ws s) of
        None \<Rightarrow> None
      | Some (v, r) \<Rightarrow> if skip_ws r = [] then Some v else None)"

section \<open>JSON.stringify\<close>

definition hex_digit :: "nat \<Rightarrow> char" where
  "hex_digit d = char_of (if d < 10 then 48 + d else 87 + d)"

definition escape_char :: "char \<Rightarrow> string" where
  "escape_char c =
     (if c = CHR 0x22 then [CHR 0x5C, CHR 0x22]
      else if c = CHR 0x5C then [CHR 0x5C, CHR 0x5C]
      else if c = CHR 0x08 then [CHR 0x5C, CHR ''b'']
      else if c = CHR 0x0C then [CHR 0x5C, CHR ''f'']
      else if c = CHR 0x0A then [CHR 0x5C, CHR ''n'']
      else if c = CHR 0x0D then [CHR 0x5C, CHR ''r'']
      else if c = CHR 0x09 then [CHR 0x5C, CHR ''t'']
      else if (of_char c :: nat) < 32 then
        [CHR 0x5C, CHR ''u'', CHR ''0'', CHR ''0'', hex_digit (of_char c div 16), hex_digit (of_char c mod 16)]
      else [c])"

fun escape_str :: "string \<Rightarrow> string" where
  "escape_str [] = []"
| "escape_str (c # cs) = escape_char c @ escape_str cs"

definition quote :: "string \<Rightarrow> string" where
  "quote s = CHR 0x22 # escape_str s @ [CHR 0x22]"

text \<open>Decimals of a fraction in \<open>[0,1)\<close>, at most the given number of them.\<close>

fun frac_digits :: "nat \<Rightarrow> jsnum \<Rightarrow> string" where
  "frac_digits 0 x = []"
| "frac_digits (Suc n) x =
     (if x = 0 then [] else digit_char (nat \<lfloor>10 * x\<rfloor>) # frac_digits n (10 * x - of_int \<lfloor>10 * x\<rfloor>))"

definition num_str :: "jsnum \<Rightarrow> string" where
  "num_str x =
     (if is_integer x then int_str \<lfloor>x\<rfloor>
      else (if x < 0 then ''-'' else []) @ nat_str (nat \<lfloor>\<bar>x\<bar>\<rfloor>) @ ''.'' @ frac_digits 17 (\<bar>x\<bar> - of_int \<lfloor>\<bar>x\<bar>\<rfloor>))"

function (sequential) JSON_stringify :: "json \<Rightarrow> string"
and str_elems :: "json \<Rightarrow> json list \<Rightarrow> string"
and str_members :: "string \<Rightarrow> json \<Rightarrow> (string \<times> json) list \<Rightarrow> string" where
  "JSON_stringify JNull = ''null''"
| "JSON_stringify (JBool b) = (if b then ''true'' else ''false'')"
| "JSON_stringify (JNum x) = num_str x"
| "JSON_stringify (JStr s) = quote s"
| "JSON_stringify (JArr []) = ''[]''"
| "JSON_stringify (JArr (x # xs)) = CHR ''['' # str_elems x xs"
| "JSON_stringify (JObj []) = ''{}''"
| "JSON_stringify (JObj ((k, v) # fs)) = CHR ''{'' # str_members k v fs"
| "str_elems x [] = JSON_stringify x @ '']''"
| "str_elems x (y # ys) = JSON_stringify x @ '','' @ str_elems y ys"
| "str_members k v [] = quote k @ '':'' @ JSON_stringify v @ ''}''"
| "str_members k v ((k', v') # fs) = quote k @ '':'' @ JSON_stringify v @ '','' @ str_members k' v' fs"
  by pat_completeness auto
termination
  by (relation "measure (case_sum (\<lambda>j. 2 * size j)
        (case_sum (\<lambda>(x, xs). 2 * size x + 2 * size_list size xs + 1)
                  (\<lambda>(k, v, fs). 2 * size v + 2 * size_list (size_prod (\<lambda>_. 0) size) fs + 1)))") auto


section \<open>Round trip\<close>

fun json_ok :: "json \<Rightarrow> bool" where
  "json_ok (JNum x) = is_integer x"
| "json_ok (JArr xs) = (\<forall>x \<in> set xs. json_ok x)"
| "json_ok (JObj fs) = (distinct (map fst fs) \<and> (\<forall>p \<in> set fs. json_ok (snd p)))"
| "json_ok _ = True"

lemma hex_val_hex_digit: "d < 16 \<Longrightarrow> hex_val (hex_digit d) = Some d"
  by (auto simp: hex_val_def hex_digit_def Let_def)

lemma json_chars_plain:
  "c \<noteq> CHR 0x22 \<Longrightarrow> c \<noteq> CHR 0x5C \<Longrightarrow> \<not> (of_char c :: nat) < 32 \<Longrightarrow>
   json_chars (c # cs) = map_option (map_prod ((#) c) id) (json_chars cs)"
  by simp

lemma json_chars_control:
  assumes "(of_char c :: nat) < 32"
  shows "json_chars (CHR 0x5C # CHR ''u'' # CHR ''0'' # CHR ''0''
           # hex_digit (of_char c div 16) # hex_digit (of_char c mod 16) # r)
       = map_option (map_prod ((#) c) id) (json_chars r)"
proof -
  have "hex_val CHR ''0'' = Some 0" by (simp add: hex_val_def Let_def)
  moreover have "hex_val (hex_digit (of_char c div 16)) = Some (of_char c div 16)"
    using assms by (intro hex_val_hex_digit) simp
  moreover have "hex_val (hex_digit (of_char c mod 16)) = Some (of_char c mod 16)"
    by (intro hex_val_hex_digit) simp
  moreover have "16 * ((of_char c :: nat) div 16) + of_char c mod 16 = of_char c"
    by simp
  ultimately have "hex4 (CHR ''0'' # CHR ''0'' # hex_digit (of_char c div 16) # hex_digit (of_char c mod 16) # r)
      = Some (of_char c, r)"
    by simp
  then show ?thesis using assms by simp
qed

lemma json_chars_escape_char:
  "json_chars (escape_char c @ r) = map_option (map_prod ((#) c) id) (json_chars r)"
proof (cases "(of_char c :: nat) < 32 \<and>
    c \<notin> {CHR 0x08, CHR 0x0C, CHR 0x0A, CHR 0x0D, CHR 0x09, CHR 0x22, CHR 0x5C}")
  case True
  then have "escape_char c = [CHR 0x5C, CHR ''u'', CHR ''0'', CHR ''0'',
      hex_digit (of_char c div 16), hex_digit (of_char c mod 16)]"
    by (simp add: escape_char_def)
  with True show ?thesis by (simp only: append.simps json_chars_control)
next
  case False
  then show ?thesis
    by (auto simp: escape_char_def simple_escape_def)
qed

lemma json_chars_escape_str:
  "json_chars (escape_str s @ CHR 0x22 # r) = Some (s, r)"
  by (induction s) (simp_all add: json_chars_escape_char)

lemma json_chars_quote: "json_chars (tl (quote s) @ r) = Some (s, r)"
  by (simp add: quote_def json_chars_escape_str)

text \<open>What may follow a number without extending it.\<close>

definition num_end :: "string \<Rightarrow> bool" where
  "num_end r \<longleftrightarrow> r = [] \<or> (\<not> is_digit (hd r) \<and> hd r \<notin> {CHR ''.'', CHR ''e'', CHR ''E''})"

lemma num_end_delim [simp]: "num_end []" "num_end (CHR '','' # r)" "num_end (CHR '']'' # r)" "num_end (CHR ''}'' # r)"
  by (simp_all add: num_end_def is_digit_def)

lemma json_digits_nat_str: "num_end r \<Longrightarrow> json_digits (nat_str n @ r) = (nat_str n, r)"
  by (cases r) (auto simp: json_digits_def num_end_def takeWhile_append dropWhile_append nat_str_digits)

lemma frac_exp_end: "num_end r \<Longrightarrow> json_frac r = Some (0, r) \<and> json_exp r = Some (1, r)"
  by (cases r) (auto simp: json_frac_def json_exp_def num_end_def)

lemma nat_str_no_leading_zero: "\<not> (1 < length (nat_str n) \<and> hd (nat_str n) = CHR ''0'')"
proof (cases "n = 0")
  case True
  then show ?thesis by (simp add: nat_str.simps)
next
  case False
  then have "hd (nat_str n) \<noteq> digit_char 0" by (simp add: hd_nat_str)
  moreover have "digit_char 0 = CHR ''0''" by (simp add: digit_char_def char_of_eq_iff take_bit_eq_mod)
  ultimately show ?thesis by simp
qed

lemma nat_str_Cons: "\<exists>c cs. nat_str n = c # cs \<and> is_digit c"
  by (metis list.exhaust list.set_intros(1) nat_str_digits nat_str_nonempty)

lemma is_digit_not_minus: "is_digit c \<Longrightarrow> c \<noteq> CHR ''-''"
  by (auto simp: is_digit_def)

lemma json_number_int_str:
  assumes "num_end r"
  shows "json_number (int_str n @ r) = Some (JNum (of_int n), r)"
proof (cases "n < 0")
  case True
  then show ?thesis
    using assms nat_str_no_leading_zero [of "nat (- n)"]
    by (simp add: int_str_def json_number_def json_digits_nat_str frac_exp_end)
next
  case False
  obtain c cs where c: "nat_str (nat n) = c # cs" "is_digit c" using nat_str_Cons by blast
  then have "(case nat_str (nat n) @ r of c # _ \<Rightarrow> c = CHR ''-'' | [] \<Rightarrow> False) = False"
    by (simp add: is_digit_not_minus)
  then show ?thesis
    using assms False nat_str_no_leading_zero [of "nat n"]
    by (simp add: int_str_def json_number_def json_digits_nat_str frac_exp_end)
qed

definition json_first :: "char \<Rightarrow> bool" where
  "json_first c \<longleftrightarrow> \<not> is_ws c \<and> c \<noteq> CHR '']'' \<and> c \<noteq> CHR ''}''"

definition num_first :: "char \<Rightarrow> bool" where
  "num_first c \<longleftrightarrow> is_digit c \<or> c = CHR ''-''"

lemma int_str_first: "\<exists>c cs. int_str n = c # cs \<and> num_first c"
  using nat_str_Cons [of "nat n"] by (auto simp: int_str_def num_first_def)

lemma num_first_dispatch:
  "num_first c \<Longrightarrow> json_first c \<and> c \<notin> {CHR ''{'', CHR ''['', CHR 0x22, CHR ''t'', CHR ''f'', CHR ''n''}"
  by (auto simp: num_first_def json_first_def is_ws_def is_digit_def)

lemma stringify_first:
  assumes "json_ok j"
  shows "\<exists>c cs. JSON_stringify j = c # cs \<and> json_first c"
proof (cases j)
  case (JNum x)
  then show ?thesis
    using assms int_str_first [of "\<lfloor>x\<rfloor>"] num_first_dispatch by (auto simp: num_str_def)
next
  case (JArr xs)
  then show ?thesis by (cases xs) (auto simp: json_first_def is_ws_def)
next
  case (JObj fs)
  then show ?thesis by (cases fs) (auto simp: json_first_def is_ws_def)
qed (auto simp: quote_def json_first_def is_ws_def)

lemma skip_ws_first [simp]: "json_first c \<Longrightarrow> skip_ws (c # s) = c # s"
  by (simp add: skip_ws_def json_first_def)

lemma skip_ws_delim [simp]:
  "skip_ws [] = []" "skip_ws (CHR '','' # s) = CHR '','' # s" "skip_ws (CHR '']'' # s) = CHR '']'' # s"
  "skip_ws (CHR ''}'' # s) = CHR ''}'' # s" "skip_ws (CHR '':'' # s) = CHR '':'' # s"
  "skip_ws (CHR 0x22 # s) = CHR 0x22 # s"
  by (simp_all add: skip_ws_def is_ws_def)

lemma skip_ws_stringify [simp]: "json_ok j \<Longrightarrow> skip_ws (JSON_stringify j @ s) = JSON_stringify j @ s"
  using stringify_first [of j] by auto

lemma json_value_num:
  assumes "is_integer x" "num_end r"
  shows "json_value (Suc n) (num_str x @ r) = Some (JNum x, r)"
proof -
  obtain c cs where c: "int_str \<lfloor>x\<rfloor> = c # cs" "num_first c" using int_str_first by blast
  have "json_value (Suc n) (int_str \<lfloor>x\<rfloor> @ r) = json_number (int_str \<lfloor>x\<rfloor> @ r)"
    using c num_first_dispatch [OF c(2)] by simp
  with assms show ?thesis by (simp add: num_str_def json_number_int_str is_integer_def)
qed

lemma str_elems_first:
  "json_ok x \<Longrightarrow> \<exists>c cs. str_elems x xs = c # cs \<and> json_first c"
  using stringify_first [of x] by (cases xs) auto

lemma update_fresh: "k \<notin> fst ` set m \<Longrightarrow> AList.update k v m = m @ [(k, v)]"
  by (induction m) auto

lemma str_members_first: "\<exists>cs. str_members k v fs = CHR 0x22 # cs"
  by (cases "(k, v, fs)" rule: str_members.cases) (auto simp: quote_def)

lemma stringify_parse:
  "json_ok j \<Longrightarrow> num_end r \<Longrightarrow> length (JSON_stringify j) < n \<Longrightarrow>
     json_value n (JSON_stringify j @ r) = Some (j, r)"
  "json_ok x \<Longrightarrow> (\<And>y. y \<in> set xs \<Longrightarrow> json_ok y) \<Longrightarrow> length (str_elems x xs) < n \<Longrightarrow>
     json_elems n acc' (str_elems x xs @ r) = Some (JArr (acc' @ x # xs), r)"
  "json_ok v \<Longrightarrow> (\<And>p. p \<in> set fs \<Longrightarrow> json_ok (snd p)) \<Longrightarrow> distinct (map fst acc @ k # map fst fs) \<Longrightarrow>
     length (str_members k v fs) < n \<Longrightarrow>
     json_members n acc (str_members k v fs @ r) = Some (JObj (acc @ (k, v) # fs), r)"
proof (induction j and x xs and k v fs arbitrary: n r and n acc' r and n acc r
    rule: JSON_stringify_str_elems_str_members.induct)
  case 1
  then show ?case by (cases n) (simp_all add: json_lit_def)
next
  case (2 b)
  then show ?case by (cases n) (simp_all add: json_lit_def)
next
  case (3 x)
  then obtain m where "n = Suc m" by (cases n) auto
  with 3 show ?case by (simp only: JSON_stringify.simps json_ok.simps json_value_num)
next
  case (4 s)
  then show ?case by (cases n) (simp_all add: quote_def json_chars_escape_str)
next
  case 5
  then show ?case by (cases n) simp_all
next
  case (6 x xs)
  from "6.prems" obtain m where m: "n = Suc m" by (cases n) auto
  obtain c cs where c: "str_elems x xs = c # cs" "json_first c"
    using "6.prems" str_elems_first [of x xs] by auto
  have "json_elems m [] (str_elems x xs @ r) = Some (JArr ([] @ x # xs), r)"
    by (rule "6.IH") (use "6.prems" m in auto)
  with c m show ?case by (auto simp: json_first_def)
next
  case 7
  then show ?case by (cases n) simp_all
next
  case (8 k v fs)
  from "8.prems" obtain m where m: "n = Suc m" by (cases n) auto
  obtain cs where c: "str_members k v fs = CHR 0x22 # cs"
    using str_members_first by blast
  have "json_members m [] (str_members k v fs @ r) = Some (JObj ([] @ (k, v) # fs), r)"
    by (rule "8.IH") (use "8.prems" m in auto)
  with c m show ?case by simp
next
  case (9 x)
  from "9.prems" obtain m where m: "n = Suc m" by (cases n) auto
  have "json_value m (JSON_stringify x @ CHR '']'' # r) = Some (x, CHR '']'' # r)"
    by (rule "9.IH") (use "9.prems" m in auto)
  with m show ?case by simp
next
  case (10 x y ys)
  from "10.prems" obtain m where m: "n = Suc m" by (cases n) auto
  have "json_value m (JSON_stringify x @ CHR '','' # str_elems y ys @ r) = Some (x, CHR '','' # str_elems y ys @ r)"
    by (rule "10.IH"(1)) (use "10.prems" m in auto)
  moreover have "json_elems m (acc' @ [x]) (str_elems y ys @ r) = Some (JArr ((acc' @ [x]) @ y # ys), r)"
    by (rule "10.IH"(2)) (use "10.prems" m in auto)
  moreover have "skip_ws (str_elems y ys @ r) = str_elems y ys @ r"
    using "10.prems" str_elems_first [of y ys] by auto
  ultimately show ?case using m by simp
next
  case (11 k v)
  from "11.prems" obtain m where m: "n = Suc m" by (cases n) auto
  have "json_value m (JSON_stringify v @ CHR ''}'' # r) = Some (v, CHR ''}'' # r)"
    by (rule "11.IH") (use "11.prems" m in auto)
  with m "11.prems" show ?case
    by (simp add: quote_def json_chars_escape_str update_fresh)
next
  case (12 k v k' v' fs)
  from "12.prems" obtain m where m: "n = Suc m" by (cases n) auto
  have "json_value m (JSON_stringify v @ CHR '','' # str_members k' v' fs @ r)
      = Some (v, CHR '','' # str_members k' v' fs @ r)"
    by (rule "12.IH"(1)) (use "12.prems" m in auto)
  moreover have ok: "json_ok v'" using "12.prems"(2) [of "(k', v')"] by simp
  have "json_members m (acc @ [(k, v)]) (str_members k' v' fs @ r)
      = Some (JObj ((acc @ [(k, v)]) @ (k', v') # fs), r)"
    by (rule "12.IH"(2)) (use ok "12.prems" m in auto)
  moreover have "skip_ws (str_members k' v' fs @ r) = str_members k' v' fs @ r"
    using str_members_first [of k' v' fs] by auto
  ultimately show ?case using m "12.prems"
    by (simp add: quote_def json_chars_escape_str update_fresh)
qed

theorem JSON_parse_stringify: "json_ok j \<Longrightarrow> JSON_parse (JSON_stringify j) = Some j"
  using stringify_parse(1) [of j "[]" "Suc (length (JSON_stringify j))"]
    skip_ws_stringify [of j "[]"]
  by (simp add: JSON_parse_def)

section \<open>Values as texts\<close>

text \<open>\<open>array.join(sep)\<close> of texts.\<close>

fun join_str :: "string \<Rightarrow> string list \<Rightarrow> string" where
  "join_str sep [] = []"
| "join_str sep [x] = x"
| "join_str sep (x # xs) = x @ sep @ join_str sep xs"

text \<open>\<open>String(value)\<close>.\<close>

fun js_str :: "json \<Rightarrow> string" where
  "js_str JNull = ''null''"
| "js_str (JBool b) = (if b then ''true'' else ''false'')"
| "js_str (JNum x) = num_str x"
| "js_str (JStr t) = t"
| "js_str (JArr xs) = join_str '','' (map (\<lambda>x. if x = JNull then [] else js_str x) xs)"
| "js_str (JObj _) = ''[object Object]''"

definition js_string :: "json option \<Rightarrow> string" where
  "js_string v = (case v of None \<Rightarrow> ''undefined'' | Some j \<Rightarrow> js_str j)"

text \<open>\<open>v[k]\<close>; \<open>None\<close> is the \<open>TypeError\<close> of reading a property of \<open>undefined\<close> or \<open>null\<close>.\<close>

definition property_of :: "json option \<Rightarrow> string \<Rightarrow> json option option" where
  "property_of v k = (if v = None \<or> v = Some JNull then None else Some (ofield v k))"

end
