(* ===== verification/Frames.thy ===== *)
theory Frames
  imports Json
begin

text \<open>
  Protocol v1 frames of the client, \<open>packages/client-ts/src/protocol/frames.ts\<close>: the server frames
  as a tagged union (the tag is \<open>frame.type\<close>; every type the session does not handle itself is a
  \<open>Message\<close>), the client frames, the close codes and the predicate \<open>isPersistent\<close>.
\<close>

definition PROTOCOL_VERSION :: string where "PROTOCOL_VERSION = ''converger/1''"
definition SUBPROTOCOL :: string where "SUBPROTOCOL = ''converger.v1''"

section \<open>Server to client\<close>

record welcome_data =
  w_protocol :: string
  w_compat :: "json option"
  w_scope :: "string option"
  w_conversationId :: string
  w_userId :: "string option"
  w_connectionId :: "string option"
  w_watermark :: "int option"
  w_pending :: "json option"
  w_expiresAt :: "jsnum option"
  w_capabilities :: "json option"
  w_limits :: "json option"

text \<open>
  A message frame: the fields every persistent frame carries. \<open>a_seq\<close> keeps the raw value, which
  \<open>isPersistent\<close> examines; \<open>a_body\<close> is the whole frame object.
\<close>

record activity_frame =
  a_type :: string
  a_seq :: "json option"
  a_id :: "string option"
  a_from :: "string option"
  a_clientId :: "string option"
  a_body :: json

record ack_frame =
  ak_clientId :: string
  ak_id :: string
  ak_seq :: "int option"
  ak_timestamp :: "jsnum option"
  ak_duplicate :: bool

record error_data =
  ed_code :: string
  ed_message :: string
  ed_number :: "jsnum option"
  ed_retryable :: "bool option"
  ed_retryAfterMs :: "jsnum option"
  ed_clientId :: "string option"
  ed_frameType :: "string option"
  ed_details :: "json option"

record replay_truncated =
  rt_watermark :: int
  rt_headSeq :: int

datatype server_frame =
    Welcome welcome_data
  | Ack ack_frame
  | Error error_data
  | DeliveryStatus json
  | Presence json
  | TokenRefreshed "jsnum option"
  | ReplayTruncated replay_truncated
  | Heartbeat "int option"
  | Message activity_frame

fun frame_type :: "server_frame \<Rightarrow> string" where
  "frame_type (Welcome _) = ''welcome''"
| "frame_type (Ack _) = ''ack''"
| "frame_type (Error _) = ''error''"
| "frame_type (DeliveryStatus _) = ''deliveryStatus''"
| "frame_type (Presence _) = ''presence''"
| "frame_type (TokenRefreshed _) = ''tokenRefreshed''"
| "frame_type (ReplayTruncated _) = ''replayTruncated''"
| "frame_type (Heartbeat _) = ''heartbeat''"
| "frame_type (Message a) = a_type a"

section \<open>Client to server\<close>

record hello_frame =
  h_protocol :: string
  h_conversationId :: "string option"
  h_userId :: "string option"
  h_watermark :: "int option"
  h_token :: "string option"

record client_message =
  m_clientId :: "string option"
  m_text :: string
  m_attachments :: "json option"
  m_metadata :: "json option"
  m_meta :: "json option"
  m_replyTo :: "string option"

datatype client_frame =
    Hello hello_frame
  | Text client_message
  | Sync int
  | Ping "string option"
  | Auth string
  | Typing bool
  | Read int

section \<open>Classification\<close>

definition CONTROL_TYPES :: "string list" where
  "CONTROL_TYPES = [''welcome'', ''ack'', ''error'', ''deliveryStatus'', ''presence'', ''heartbeat'',
     ''tokenRefreshed'', ''replayTruncated'', ''run'', ''genui_components'', ''skills'']"

text \<open>\<open>Number.isInteger(frame.seq) && frame.seq > 0\<close>.\<close>

definition positive_int :: "json option \<Rightarrow> bool" where
  "positive_int v \<longleftrightarrow> (case as_num v of Some x \<Rightarrow> is_integer x \<and> x > 0 | None \<Rightarrow> False)"

definition isPersistent :: "activity_frame \<Rightarrow> bool" where
  "isPersistent a \<longleftrightarrow> a_type a \<notin> set CONTROL_TYPES \<and> positive_int (a_seq a)"

text \<open>The sequence number of a persistent frame.\<close>

definition seq_of :: "activity_frame \<Rightarrow> int" where
  "seq_of a = (case as_num (a_seq a) of Some x \<Rightarrow> \<lfloor>x\<rfloor> | None \<Rightarrow> 0)"

lemma isPersistent_seq: "isPersistent a \<Longrightarrow> 1 \<le> seq_of a"
  by (auto simp: isPersistent_def positive_int_def seq_of_def is_integer_def split: option.splits)

lemma isPersistent_raw: "isPersistent a \<Longrightarrow> a_seq a = Some (JNum (of_int (seq_of a)))"
  by (auto simp: isPersistent_def positive_int_def seq_of_def is_integer_def split: option.splits)

section \<open>Close codes and retryable errors\<close>

definition Close_normal :: int where "Close_normal = 1000"
definition Close_conversationNotFound :: int where "Close_conversationNotFound = 1008"
definition Close_unsupportedProtocol :: int where "Close_unsupportedProtocol = 4400"
definition Close_unauthorized :: int where "Close_unauthorized = 4401"
definition Close_forbidden :: int where "Close_forbidden = 4403"

definition RETRYABLE_SEND_ERRORS :: "string list" where
  "RETRYABLE_SEND_ERRORS = [''rate_limited'', ''too_many_in_flight'', ''unavailable'', ''internal'']"

section \<open>Frames from JSON\<close>

text \<open>
  The cast \<open>value as ServerFrame\<close> of the transports, read field by field as the interfaces declare
  them. A field of another type than declared is read as absent (an absent required string is
  empty).
\<close>

definition str_field :: "json option \<Rightarrow> string \<Rightarrow> string" where
  "str_field v k = (case as_str (ofield v k) of Some s \<Rightarrow> s | None \<Rightarrow> [])"

definition welcome_of_json :: "json option \<Rightarrow> welcome_data" where
  "welcome_of_json d =
     \<lparr>w_protocol = str_field d ''protocol'', w_compat = ofield d ''compat'',
      w_scope = as_str (ofield d ''scope''), w_conversationId = str_field d ''conversationId'',
      w_userId = as_str (ofield d ''userId''), w_connectionId = as_str (ofield d ''connectionId''),
      w_watermark = as_int (ofield d ''watermark''), w_pending = ofield d ''pending'',
      w_expiresAt = as_num (ofield d ''expiresAt''), w_capabilities = ofield d ''capabilities'',
      w_limits = ofield d ''limits''\<rparr>"

definition ack_of_json :: "json \<Rightarrow> ack_frame" where
  "ack_of_json j =
     \<lparr>ak_clientId = str_field (Some j) ''clientId'', ak_id = str_field (Some j) ''id'',
      ak_seq = as_int (field j ''seq''), ak_timestamp = as_num (field j ''timestamp''),
      ak_duplicate = (field j ''duplicate'' = Some (JBool True))\<rparr>"

definition error_of_json :: "json option \<Rightarrow> error_data" where
  "error_of_json d =
     \<lparr>ed_code = str_field d ''code'', ed_message = str_field d ''message'',
      ed_number = as_num (ofield d ''number''), ed_retryable = as_bool (ofield d ''retryable''),
      ed_retryAfterMs = as_num (ofield d ''retryAfterMs''), ed_clientId = as_str (ofield d ''clientId''),
      ed_frameType = as_str (ofield d ''frameType''), ed_details = as_record (ofield d ''details'')\<rparr>"

definition activity_of_json :: "string \<Rightarrow> json \<Rightarrow> activity_frame" where
  "activity_of_json t j =
     \<lparr>a_type = t, a_seq = field j ''seq'', a_id = as_str (field j ''id''), a_from = as_str (field j ''from''),
      a_clientId = as_str (field j ''clientId''), a_body = j\<rparr>"

definition int_field :: "json option \<Rightarrow> string \<Rightarrow> int" where
  "int_field v k = (case as_int (ofield v k) of Some n \<Rightarrow> n | None \<Rightarrow> 0)"

definition frame_of_json :: "string \<Rightarrow> json \<Rightarrow> server_frame" where
  "frame_of_json t j =
     (let d = field j ''data'' in
      if t = ''welcome'' then Welcome (welcome_of_json d)
      else if t = ''ack'' then Ack (ack_of_json j)
      else if t = ''error'' then Error (error_of_json d)
      else if t = ''deliveryStatus'' then DeliveryStatus j
      else if t = ''presence'' then Presence j
      else if t = ''tokenRefreshed'' then TokenRefreshed (as_num (ofield d ''expiresAt''))
      else if t = ''replayTruncated'' then
        ReplayTruncated \<lparr>rt_watermark = int_field d ''watermark'', rt_headSeq = int_field d ''headSeq''\<rparr>
      else if t = ''heartbeat'' then Heartbeat (as_int (field j ''headSeq''))
      else Message (activity_of_json t j))"

lemma frame_type_of_json: "frame_type (frame_of_json t j) = t"
  by (simp add: frame_of_json_def Let_def activity_of_json_def)

end
