(* ===== verification/Outbox.thy ===== *)
theory Outbox
  imports Frames Storage
begin

text \<open>
  The persistent outbox and resume state of one conversation,
  \<open>packages/client-ts/src/storage/outbox.ts\<close> (\<open>ConversationStore\<close>). The promise chain \<open>#writing\<close>
  is the queue \<open>st_writing\<close> of writes not yet applied to the storage; \<open>write_one\<close> is one link of the
  chain running.
\<close>

record outbox_entry =
  oe_clientId :: string
  oe_frame :: client_message
  oe_createdAt :: int
  oe_attempts :: nat

record resume_state =
  rs_conversationId :: string
  rs_userId :: "string option"
  rs_watermark :: int

record store =
  st_prefix :: string
  st_key :: "string option"
  st_entries :: "outbox_entry list"
  st_state :: "resume_state option"
  st_writing :: "(string \<times> string) list"
  st_errors :: nat

section \<open>Snapshots\<close>

definition opt_field :: "string \<Rightarrow> json option \<Rightarrow> (string \<times> json) list" where
  "opt_field k v = (case v of Some j \<Rightarrow> [(k, j)] | None \<Rightarrow> [])"

definition message_json :: "client_message \<Rightarrow> json" where
  "message_json m =
     JObj ([(''type'', JStr ''text'')]
       @ opt_field ''clientId'' (map_option JStr (m_clientId m))
       @ [(''data'', JObj ([(''text'', JStr (m_text m))] @ opt_field ''attachments'' (m_attachments m)))]
       @ opt_field ''metadata'' (m_metadata m)
       @ opt_field ''meta'' (m_meta m)
       @ opt_field ''replyTo'' (map_option (\<lambda>r. JObj [(''id'', JStr r)]) (m_replyTo m)))"

definition entry_json :: "outbox_entry \<Rightarrow> json" where
  "entry_json e =
     JObj [(''clientId'', JStr (oe_clientId e)), (''frame'', message_json (oe_frame e)),
           (''createdAt'', JNum (of_int (oe_createdAt e))), (''attempts'', JNum (of_nat (oe_attempts e)))]"

definition state_json :: "resume_state \<Rightarrow> json" where
  "state_json r =
     JObj ([(''conversationId'', JStr (rs_conversationId r)), (''watermark'', JNum (of_int (rs_watermark r)))]
       @ opt_field ''userId'' (map_option JStr (rs_userId r)))"

definition snapshot_json :: "outbox_entry list \<Rightarrow> resume_state option \<Rightarrow> json" where
  "snapshot_json es r =
     JObj ([(''v'', JNum 1), (''outbox'', JArr (map entry_json es))] @ opt_field ''state'' (map_option state_json r))"

text \<open>Reading a snapshot back: the cast \<open>JSON.parse(raw) as Partial<Persisted>\<close>.\<close>

definition message_of_json :: "json option \<Rightarrow> client_message" where
  "message_of_json v =
     \<lparr>m_clientId = as_str (ofield v ''clientId''),
      m_text = str_field (ofield v ''data'') ''text'',
      m_attachments = ofield (ofield v ''data'') ''attachments'',
      m_metadata = ofield v ''metadata'', m_meta = ofield v ''meta'',
      m_replyTo = as_str (ofield (ofield v ''replyTo'') ''id'')\<rparr>"

definition entry_of_json :: "json \<Rightarrow> outbox_entry" where
  "entry_of_json j =
     \<lparr>oe_clientId = str_field (Some j) ''clientId'', oe_frame = message_of_json (field j ''frame''),
      oe_createdAt = int_field (Some j) ''createdAt'', oe_attempts = nat (int_field (Some j) ''attempts'')\<rparr>"

definition state_of_json :: "json \<Rightarrow> resume_state" where
  "state_of_json j =
     \<lparr>rs_conversationId = str_field (Some j) ''conversationId'', rs_userId = as_str (field j ''userId''),
      rs_watermark = int_field (Some j) ''watermark''\<rparr>"

section \<open>Operations\<close>

definition keyFor :: "string \<Rightarrow> string \<Rightarrow> string" where
  "keyFor prefix conversationId = prefix @ '':conversation:'' @ conversationId"

definition new_store :: "string \<Rightarrow> string option \<Rightarrow> store" where
  "new_store prefix conversationId =
     \<lparr>st_prefix = prefix, st_key = map_option (keyFor prefix) conversationId, st_entries = [],
      st_state = None, st_writing = [], st_errors = 0\<rparr>"

definition snapshot_text :: "store \<Rightarrow> string" where
  "snapshot_text st = JSON_stringify (snapshot_json (st_entries st) (st_state st))"

definition persist :: "store \<Rightarrow> store" where
  "persist st =
     (case st_key st of
        None \<Rightarrow> st
      | Some key \<Rightarrow> st\<lparr>st_writing := st_writing st @ [(key, snapshot_text st)]\<rparr>)"

text \<open>
  \<open>load\<close> after its \<open>getItem\<close> returned \<open>raw\<close>. A \<open>SyntaxError\<close> of \<open>JSON.parse\<close>, and the
  \<open>TypeError\<close> of an \<open>outbox\<close> that is no array or has a \<open>null\<close> entry, go to \<open>onError\<close>.
\<close>

definition outbox_of_json :: "json \<Rightarrow> outbox_entry list option" where
  "outbox_of_json j =
     (case field j ''outbox'' of
        None \<Rightarrow> Some []
      | Some JNull \<Rightarrow> Some []
      | Some (JArr es) \<Rightarrow> if JNull \<in> set es then None else Some (map entry_of_json es)
      | Some _ \<Rightarrow> None)"

definition report_error :: "store \<Rightarrow> store" where
  "report_error st = st\<lparr>st_errors := Suc (st_errors st)\<rparr>"

definition load_merge :: "string option \<Rightarrow> store \<Rightarrow> store" where
  "load_merge raw st =
     (case raw of
        None \<Rightarrow> st
      | Some text \<Rightarrow>
          if text = [] then st
          else (case JSON_parse text of
                  None \<Rightarrow> report_error st
                | Some parsed \<Rightarrow>
                    if field parsed ''v'' = Some (JNum 1) then
                      (case outbox_of_json parsed of
                         None \<Rightarrow> report_error st
                       | Some stored \<Rightarrow>
                           let known = set (map oe_clientId (st_entries st));
                               loaded = filter (\<lambda>e. oe_clientId e \<notin> known) stored
                           in st\<lparr>st_entries := loaded @ st_entries st,
                                 st_state := (case field parsed ''state'' of
                                                None \<Rightarrow> st_state st
                                              | Some JNull \<Rightarrow> st_state st
                                              | Some j \<Rightarrow> Some (state_of_json j))\<rparr>)
                    else st))"

text \<open>\<open>load\<close> against the storage, and \<open>attach\<close>: its synchronous part and its continuation.\<close>

definition load :: "memory_storage \<Rightarrow> store \<Rightarrow> store" where
  "load kv st =
     (case st_key st of
        None \<Rightarrow> st
      | Some key \<Rightarrow> load_merge (memory_getItem kv key) st)"

definition attach_key :: "string \<Rightarrow> store \<Rightarrow> store" where
  "attach_key conversationId st = st\<lparr>st_key := Some (keyFor (st_prefix st) conversationId)\<rparr>"

definition needs_attach :: "string \<Rightarrow> store \<Rightarrow> bool" where
  "needs_attach conversationId st \<longleftrightarrow> st_key st \<noteq> Some (keyFor (st_prefix st) conversationId)"

definition attach_load :: "string option \<Rightarrow> store \<Rightarrow> store" where
  "attach_load raw st = persist (load_merge raw st)"

definition attach :: "memory_storage \<Rightarrow> string \<Rightarrow> store \<Rightarrow> store" where
  "attach kv conversationId st =
     (if needs_attach conversationId st
      then persist (load kv (attach_key conversationId st))
      else st)"

definition store_get :: "string \<Rightarrow> store \<Rightarrow> outbox_entry option" where
  "store_get clientId st = find (\<lambda>e. oe_clientId e = clientId) (st_entries st)"

definition store_add :: "outbox_entry \<Rightarrow> store \<Rightarrow> store" where
  "store_add e st = persist (st\<lparr>st_entries := st_entries st @ [e]\<rparr>)"

fun touch_first :: "string \<Rightarrow> outbox_entry list \<Rightarrow> outbox_entry list" where
  "touch_first clientId [] = []"
| "touch_first clientId (e # es) =
     (if oe_clientId e = clientId then e\<lparr>oe_attempts := Suc (oe_attempts e)\<rparr> # es
      else e # touch_first clientId es)"

definition store_touch :: "string \<Rightarrow> store \<Rightarrow> store" where
  "store_touch clientId st =
     (case store_get clientId st of
        None \<Rightarrow> st
      | Some _ \<Rightarrow> persist (st\<lparr>st_entries := touch_first clientId (st_entries st)\<rparr>))"

fun remove_first :: "string \<Rightarrow> outbox_entry list \<Rightarrow> outbox_entry list" where
  "remove_first clientId [] = []"
| "remove_first clientId (e # es) =
     (if oe_clientId e = clientId then es else e # remove_first clientId es)"

definition store_remove :: "string \<Rightarrow> store \<Rightarrow> store" where
  "store_remove clientId st =
     (case store_get clientId st of
        None \<Rightarrow> st
      | Some _ \<Rightarrow> persist (st\<lparr>st_entries := remove_first clientId (st_entries st)\<rparr>))"

definition setState :: "resume_state \<Rightarrow> store \<Rightarrow> store" where
  "setState r st =
     (let st' = st\<lparr>st_state := Some r\<rparr> in
      case st_state st of
        None \<Rightarrow> persist st'
      | Some prev \<Rightarrow>
          if rs_conversationId prev \<noteq> rs_conversationId r \<or> rs_userId prev \<noteq> rs_userId r
             \<or> rs_watermark prev \<noteq> rs_watermark r
          then persist st' else st')"

text \<open>\<open>clear\<close>: forget everything, wait for the queued writes, then remove the item.\<close>

definition clear_memory :: "store \<Rightarrow> store" where
  "clear_memory st = st\<lparr>st_entries := [], st_state := None\<rparr>"

text \<open>One queued write reaching the storage; a failed \<open>setItem\<close> is reported and the chain goes on.\<close>

definition write_one :: "bool \<Rightarrow> memory_storage \<times> store \<Rightarrow> memory_storage \<times> store" where
  "write_one ok sys =
     (case st_writing (snd sys) of
        [] \<Rightarrow> sys
      | (k, v) # ws \<Rightarrow>
          if ok then (memory_setItem k v (fst sys), (snd sys)\<lparr>st_writing := ws\<rparr>)
          else (fst sys, report_error ((snd sys)\<lparr>st_writing := ws\<rparr>)))"

definition apply_writes :: "(string \<times> string) list \<Rightarrow> memory_storage \<Rightarrow> memory_storage" where
  "apply_writes ws kv = fold (\<lambda>(k, v). memory_setItem k v) ws kv"

definition flush_writes :: "memory_storage \<times> store \<Rightarrow> memory_storage \<times> store" where
  "flush_writes sys = (apply_writes (st_writing (snd sys)) (fst sys), (snd sys)\<lparr>st_writing := []\<rparr>)"

definition clear :: "memory_storage \<times> store \<Rightarrow> memory_storage \<times> store" where
  "clear sys =
     (let st = clear_memory (snd sys) in
      case st_key st of
        None \<Rightarrow> (fst sys, st)
      | Some key \<Rightarrow> (let sys' = flush_writes (fst sys, st) in (memory_removeItem key (fst sys'), snd sys')))"

section \<open>Client ids\<close>

definition ids :: "store \<Rightarrow> string list" where
  "ids st = map oe_clientId (st_entries st)"

lemma persist_simps [simp]:
  "st_entries (persist st) = st_entries st" "st_state (persist st) = st_state st"
  "st_key (persist st) = st_key st" "st_prefix (persist st) = st_prefix st" "st_errors (persist st) = st_errors st"
  by (simp_all add: persist_def split: option.split)

lemma ids_persist [simp]: "ids (persist st) = ids st"
  by (simp add: ids_def)

lemma store_get_None [simp]: "store_get c st = None \<longleftrightarrow> c \<notin> set (ids st)"
  by (auto simp: store_get_def ids_def find_None_iff)

lemma store_get_Some_in: "store_get c st = Some e \<Longrightarrow> e \<in> set (st_entries st) \<and> oe_clientId e = c"
  by (auto simp: store_get_def find_Some_iff)

lemma store_get_ids: "(\<exists>e. store_get c st = Some e) \<longleftrightarrow> c \<in> set (ids st)"
  using store_get_None [of c st] by (metis not_Some_eq)

lemma map_touch_first [simp]: "map oe_clientId (touch_first c es) = map oe_clientId es"
  by (induction es) auto

lemma map_remove_first [simp]: "map oe_clientId (remove_first c es) = remove1 c (map oe_clientId es)"
  by (induction es) auto

lemma ids_add [simp]: "ids (store_add e st) = ids st @ [oe_clientId e]"
  by (simp add: store_add_def ids_def)

lemma ids_touch [simp]: "ids (store_touch c st) = ids st"
  by (simp add: store_touch_def ids_def split: option.split)

lemma ids_remove [simp]: "ids (store_remove c st) = remove1 c (ids st)"
proof (cases "store_get c st")
  case None
  then have "c \<notin> set (ids st)" by simp
  then show ?thesis unfolding store_remove_def None by (simp add: remove1_idem)
next
  case (Some e)
  then show ?thesis by (simp add: store_remove_def ids_def)
qed

lemma ids_setState [simp]: "ids (setState r st) = ids st"
  by (simp add: setState_def ids_def Let_def split: option.split)

lemma ids_attach_key [simp]: "ids (attach_key c st) = ids st"
  by (simp add: attach_key_def ids_def)

lemma st_key_simps [simp]:
  "st_key (store_add e st) = st_key st" "st_key (store_touch c st) = st_key st"
  "st_key (store_remove c st) = st_key st" "st_key (setState r st) = st_key st"
  by (simp_all add: store_add_def store_touch_def store_remove_def setState_def Let_def split: option.split)

lemma setState_state [simp]: "st_state (setState r st) = Some r"
  by (simp add: setState_def Let_def split: option.split)

lemma setState_entries [simp]: "st_entries (setState r st) = st_entries st"
  by (simp add: setState_def Let_def split: option.split)

lemma touch_state [simp]: "st_state (store_touch c st) = st_state st"
  by (simp add: store_touch_def split: option.split)

text \<open>What was in memory stays, after what was stored.\<close>

lemma load_merge_entries:
  "\<exists>stored. st_entries (load_merge raw st) = filter (\<lambda>e. oe_clientId e \<notin> set (ids st)) stored @ st_entries st"
proof -
  have "\<exists>stored. st_entries st = filter (\<lambda>e. oe_clientId e \<notin> set (ids st)) stored @ st_entries st"
    by (rule exI [of _ "[]"]) simp
  then show ?thesis
    by (auto simp: load_merge_def report_error_def Let_def ids_def split: option.split)
qed

lemma load_merge_ids: "\<exists>xs. ids (load_merge raw st) = xs @ ids st \<and> set xs \<inter> set (ids st) = {}"
proof -
  obtain stored where
    "st_entries (load_merge raw st) = filter (\<lambda>e. oe_clientId e \<notin> set (ids st)) stored @ st_entries st"
    using load_merge_entries by blast
  then have "ids (load_merge raw st) = map oe_clientId (filter (\<lambda>e. oe_clientId e \<notin> set (ids st)) stored) @ ids st"
    by (simp add: ids_def)
  then show ?thesis by fastforce
qed

section \<open>Snapshots read back\<close>

definition message_ok :: "client_message \<Rightarrow> bool" where
  "message_ok m \<longleftrightarrow> pred_option json_ok (m_attachments m) \<and> pred_option json_ok (m_metadata m) \<and> pred_option json_ok (m_meta m)"

definition entry_ok :: "outbox_entry \<Rightarrow> bool" where
  "entry_ok e \<longleftrightarrow> message_ok (oe_frame e)"

lemma opt_field_simps [simp]: "opt_field k None = []" "opt_field k (Some j) = [(k, j)]"
  by (simp_all add: opt_field_def)

lemma message_of_message_json: "message_of_json (Some (message_json m)) = m"
  by (cases m) (auto simp: message_of_json_def message_json_def str_field_def opt_field_def split: option.split)

lemma as_int_of_int [simp]: "as_int (Some (JNum (of_int n))) = Some n"
  by (simp add: as_int_def)

lemma as_int_of_nat [simp]: "as_int (Some (JNum (of_nat n))) = Some (int n)"
  using as_int_of_int [of "int n"] by simp

lemma entry_of_entry_json: "entry_of_json (entry_json e) = e"
  by (cases e) (simp add: entry_of_json_def entry_json_def message_of_message_json str_field_def int_field_def)

lemma state_of_state_json: "state_of_json (state_json r) = r"
  by (cases r) (auto simp: state_of_json_def state_json_def str_field_def int_field_def opt_field_def split: option.split)

lemma message_json_ok: "message_ok m \<Longrightarrow> json_ok (message_json m)"
  by (auto simp: message_json_def message_ok_def opt_field_def split: option.split)

lemma is_integer_of_nat [simp]: "is_integer (of_nat n)"
  using is_integer_of_int [of "int n"] by simp

lemma snapshot_json_ok: "\<forall>e \<in> set es. entry_ok e \<Longrightarrow> json_ok (snapshot_json es r)"
  by (auto simp: snapshot_json_def entry_json_def state_json_def entry_ok_def opt_field_def message_json_ok
      split: option.split)

lemma map_entry_of_entry_json: "map (entry_of_json \<circ> entry_json) es = es"
  by (induction es) (simp_all add: entry_of_entry_json)

lemma JNull_not_entry: "JNull \<notin> entry_json ` A"
  by (auto simp: entry_json_def)

lemma outbox_of_snapshot: "outbox_of_json (snapshot_json es r) = Some es"
  using JNull_not_entry [of "set es"]
  by (auto simp: outbox_of_json_def snapshot_json_def map_entry_of_entry_json)

lemma load_merge_snapshot:
  assumes "\<forall>e \<in> set es. entry_ok e" "st_entries st = []"
  shows "load_merge (Some (JSON_stringify (snapshot_json es r))) st
       = st\<lparr>st_entries := es, st_state := (case r of None \<Rightarrow> st_state st | Some x \<Rightarrow> Some x)\<rparr>"
proof -
  define snap where "snap = snapshot_json es r"
  have ok: "json_ok snap" unfolding snap_def using assms(1) by (rule snapshot_json_ok)
  then have ne: "JSON_stringify snap \<noteq> []" using stringify_first by fastforce
  have v: "field snap ''v'' = Some (JNum 1)" by (simp add: snap_def snapshot_json_def)
  have o: "outbox_of_json snap = Some es" by (simp add: snap_def outbox_of_snapshot)
  have s: "field snap ''state'' = map_option state_json r"
    by (cases r) (simp_all add: snap_def snapshot_json_def)
  have obj: "\<exists>fs. state_json x = JObj fs" for x by (simp add: state_json_def)
  have "load_merge (Some (JSON_stringify snap)) st
      = st\<lparr>st_entries := es, st_state := (case r of None \<Rightarrow> st_state st | Some x \<Rightarrow> Some x)\<rparr>"
  proof (cases r)
    case None
    then show ?thesis
      using assms(2) ne s by (simp add: load_merge_def JSON_parse_stringify [OF ok] v o)
  next
    case (Some x)
    obtain fs where fs: "state_json x = JObj fs" using obj by blast
    then have "state_of_json (JObj fs) = x" using state_of_state_json [of x] by simp
    with Some fs show ?thesis
      using assms(2) ne s by (simp add: load_merge_def JSON_parse_stringify [OF ok] v o)
  qed
  then show ?thesis by (simp add: snap_def)
qed

section \<open>Durability\<close>

text \<open>Once every queued write has been applied, the storage holds the current outbox.\<close>

definition durable :: "memory_storage \<Rightarrow> store \<Rightarrow> bool" where
  "durable kv st \<longleftrightarrow>
     (\<forall>k. st_key st = Some k \<longrightarrow> memory_getItem (apply_writes (st_writing st) kv) k = Some (snapshot_text st))"

lemma snapshot_text_persist [simp]: "snapshot_text (persist st) = snapshot_text st"
  by (simp add: snapshot_text_def)

lemma durable_persist: "durable kv (persist st)"
proof (cases "st_key st")
  case None
  then show ?thesis by (simp add: durable_def)
next
  case (Some k)
  then have "st_writing (persist st) = st_writing st @ [(k, snapshot_text st)]"
    by (simp add: persist_def)
  with Some show ?thesis
    by (simp add: durable_def apply_writes_def memory.get_put)
qed

lemma durable_same:
  "durable kv st \<Longrightarrow> st_key st' = st_key st \<Longrightarrow> st_writing st' = st_writing st \<Longrightarrow>
   st_entries st' = st_entries st \<Longrightarrow> st_state st' = st_state st \<Longrightarrow> durable kv st'"
  by (simp add: durable_def snapshot_text_def)

lemma durable_add [inv_intros]: "durable kv (store_add e st)"
  by (simp add: store_add_def durable_persist)

lemma durable_touch [inv_intros]: "durable kv st \<Longrightarrow> durable kv (store_touch c st)"
  by (simp add: store_touch_def durable_persist split: option.split)

lemma durable_remove [inv_intros]: "durable kv st \<Longrightarrow> durable kv (store_remove c st)"
  by (simp add: store_remove_def durable_persist split: option.split)

lemma durable_setState [inv_intros]:
  assumes "durable kv st"
  shows "durable kv (setState r st)"
proof (cases "st_state st = Some r")
  case True
  then have "setState r st = st\<lparr>st_state := Some r\<rparr>" by (simp add: setState_def)
  with True assms show ?thesis by (auto intro!: durable_same [OF assms])
next
  case False
  then have "setState r st = persist (st\<lparr>st_state := Some r\<rparr>)"
    by (auto simp: setState_def Let_def split: option.split)
  then show ?thesis by (simp add: durable_persist)
qed

lemma durable_attach_load [inv_intros]: "durable kv (attach_load raw st)"
  by (simp add: attach_load_def durable_persist)

lemma durable_write_one [inv_intros]:
  assumes "durable kv st"
  shows "durable (fst (write_one True (kv, st))) (snd (write_one True (kv, st)))"
  using assms
  by (auto simp: write_one_def durable_def snapshot_text_def apply_writes_def split: list.split)

lemma durable_flush:
  "durable kv st \<Longrightarrow> st_key st = Some k \<Longrightarrow>
   memory_getItem (fst (flush_writes (kv, st))) k = Some (snapshot_text st)"
  by (simp add: durable_def flush_writes_def)

section \<open>Property\<close>


definition sample_entry :: outbox_entry where
  "sample_entry = \<lparr>oe_clientId = ''m'', oe_frame = \<lparr>m_clientId = Some ''m'', m_text = ''hi'', m_attachments = None,
     m_metadata = None, m_meta = None, m_replyTo = None\<rparr>, oe_createdAt = 5, oe_attempts = 0\<rparr>"


end
