(* ===== verification/Transport.thy ===== *)
theory Transport
  imports Outbox
begin

text \<open>
  What the transports of the client share, \<open>packages/client-ts/src/transport/types.ts\<close>: how a
  connection attempt is described, opened and closed, the helpers on URLs and close reasons, and the
  part of the web platform the transports and the REST helpers use (\<open>encodeURIComponent\<close>,
  \<open>URLSearchParams\<close>). Effects of a transport (calls of its handlers, socket and \<open>fetch\<close> calls) are
  appended to a log of type \<open>t_effect list\<close>.
\<close>

section \<open>Types\<close>

record transport_close =
  tc_code :: int
  tc_reason :: string
  tc_retryAfterMs :: "jsnum option"
  tc_opened :: bool

record transport_caps =
  cap_auth :: bool
  cap_sync :: bool
  cap_signals :: bool
  cap_requiresConversationId :: bool

text \<open>
  A transport factory: the name it carries and the name and capabilities of the transports it
  makes. A transport is identified by the connection attempt it was made for.
\<close>

record factory =
  f_transportName :: "string option"
  f_name :: string
  f_caps :: transport_caps

record transport =
  t_id :: nat
  t_name :: string
  t_caps :: transport_caps

record connect_params =
  p_baseUrl :: string
  p_token :: string
  p_conversationId :: "string option"
  p_userId :: "string option"
  p_watermark :: "int option"

text \<open>A string or undefined value in a condition.\<close>

definition truthy :: "string option \<Rightarrow> bool" where
  "truthy v \<longleftrightarrow> v \<noteq> None \<and> v \<noteq> Some []"

text \<open>
  Calls of the handlers (\<open>OnOpen\<close>, \<open>OnFrame\<close>, \<open>OnClose\<close>) and of the platform. A \<open>fetch\<close> carries its
  headers and body.
\<close>

datatype t_effect =
    OnOpen
  | OnFrame server_frame
  | OnClose transport_close
  | SocketNew string "string list"
  | SocketSend string
  | SocketClose int string
  | FetchGet string "(string \<times> string) list"
  | FetchPost string "(string \<times> string) list" string
  | Abort

text \<open>
  What the platform answers during one callback: the clock, whether \<open>socket.readyState\<close> is \<open>OPEN\<close>,
  whether \<open>socket.send\<close> returns (it may throw), \<open>Date.parse\<close> (\<open>None\<close> is \<open>NaN\<close>), and the message of a
  \<open>TypeError\<close>.
\<close>

record tenv =
  te_now :: jsnum
  te_ready :: bool
  te_sends :: bool
  te_date_parse :: "string \<Rightarrow> jsnum option"
  te_typeError :: string

text \<open>
  The result of \<open>new WebSocket(url)\<close>: no implementation, an exception with its message, or a socket.
\<close>

datatype ws_result = NoWebSocket | WsThrows string | WsCreated

section \<open>Reports of a close\<close>

fun is_close :: "t_effect \<Rightarrow> bool" where
  "is_close (OnClose _) = True"
| "is_close _ = False"

definition closes :: "t_effect list \<Rightarrow> nat" where
  "closes os = length (filter is_close os)"

lemma closes_simps [simp]:
  "closes [] = 0" "closes (os @ os') = closes os + closes os'"
  "closes (e # os) = (if is_close e then Suc (closes os) else closes os)"
  by (simp_all add: closes_def)

text \<open>
  The contract of \<open>TransportHandlers.onClose\<close> (called exactly once per attempt), for a transport
  given by its step function, whether it was connected, whether it is closed and its log.
\<close>

locale transport_contract =
  fixes step :: "'i \<Rightarrow> 's \<Rightarrow> 's"
    and connected :: "'s \<Rightarrow> bool"
    and closed :: "'s \<Rightarrow> bool"
    and log :: "'s \<Rightarrow> t_effect list"
    and fresh :: "'s \<Rightarrow> bool"
  assumes fresh: "fresh s \<Longrightarrow> \<not> closed s \<and> closes (log s) = 0"
    and step_closed: "closed s \<Longrightarrow> closed (step i s)"
    and step_closes: "closes (log (step i s)) =
      closes (log s) + (if connected (step i s) \<and> closed (step i s) \<and> \<not> closed s then 1 else 0)"
    and step_connected: "connected s \<Longrightarrow> connected (step i s)"
begin

lemma run_connected: "connected s \<Longrightarrow> connected (run step is s)"
  by (induction "is" arbitrary: s) (auto intro: step_connected)

lemma run_closed: "closed s \<Longrightarrow> closed (run step is s)"
  by (induction "is" arbitrary: s) (auto intro: step_closed)

lemma run_closes_closed: "closed s \<Longrightarrow> closes (log (run step is s)) = closes (log s)"
proof (induction "is" arbitrary: s)
  case (Cons i "is")
  then show ?case using step_closed [of s i] step_closes [of i s] by simp
qed simp

text \<open>On a connected transport the close is reported exactly once, and it is when it closes.\<close>

lemma run_closes_open:
  "connected s \<Longrightarrow> \<not> closed s \<Longrightarrow>
     closes (log (run step is s)) = closes (log s) + (if closed (run step is s) then 1 else 0)"
proof (induction "is" arbitrary: s)
  case (Cons i "is")
  then show ?case
    using step_closes [of i s] step_connected [of s i] run_closes_closed [of "step i s" "is"] run_closed [of "step i s" "is"]
    by (cases "closed (step i s)") auto
qed simp

lemma at_most_one_close:
  assumes "fresh s"
  shows "closes (log (run step is s)) \<le> 1"
proof -
  have "closes (log (run step is s)) \<le> closes (log s) + (if closed s then 0 else 1)" for s
  proof (induction "is" arbitrary: s)
    case (Cons i "is")
    then show ?case using Cons [of "step i s"] step_closes [of i s] step_closed [of s i] by (auto split: if_splits)
  qed simp
  from this [of s] show ?thesis using fresh [OF assms] by simp
qed

end

section \<open>URLs\<close>

definition to_lower :: "char \<Rightarrow> char" where
  "to_lower c = (let n = (of_char c :: nat) in if 65 \<le> n \<and> n \<le> 90 then char_of (n + 32) else c)"

text \<open>\<open>trimBaseUrl\<close> of \<open>rest/client.ts\<close>: the trailing slashes go.\<close>

definition trimBaseUrl :: "string \<Rightarrow> string" where
  "trimBaseUrl s = rev (dropWhile (\<lambda>c. c = CHR ''/'') (rev s))"

text \<open>\<open>/^http(s?):\/\//i\<close>: the optional \<open>s\<close> and the rest of the text.\<close>

definition http_prefix :: "string \<Rightarrow> (string \<times> string) option" where
  "http_prefix u =
     (if map to_lower (take 4 u) = ''http'' then
        (let r = drop 4 u in
         if map to_lower (take 1 r) = ''s'' \<and> take 3 (drop 1 r) = ''://'' then Some (take 1 r, drop 4 r)
         else if take 3 r = ''://'' then Some ([], drop 3 r)
         else None)
      else None)"

definition toWebSocketUrl :: "string \<Rightarrow> string" where
  "toWebSocketUrl baseUrl =
     (let u = trimBaseUrl baseUrl in
      case http_prefix u of Some (s, r) \<Rightarrow> ''ws'' @ s @ ''://'' @ r | None \<Rightarrow> u)"

definition upper_hex :: "nat \<Rightarrow> char" where
  "upper_hex d = (if d < 10 then char_of (48 + d) else char_of (55 + d))"

definition pct_byte :: "nat \<Rightarrow> string" where
  "pct_byte n = [CHR ''%'', upper_hex (n div 16), upper_hex (n mod 16)]"

text \<open>The UTF-8 bytes of a code unit below 256.\<close>

definition utf8_bytes :: "char \<Rightarrow> nat list" where
  "utf8_bytes c = (let n = of_char c in if n < 128 then [n] else [192 + n div 64, 128 + n mod 64])"

definition is_alnum :: "char \<Rightarrow> bool" where
  "is_alnum c \<longleftrightarrow>
     (let n = (of_char c :: nat) in 65 \<le> n \<and> n \<le> 90 \<or> 97 \<le> n \<and> n \<le> 122 \<or> 48 \<le> n \<and> n \<le> 57)"

definition component_char :: "char \<Rightarrow> bool" where
  "component_char c \<longleftrightarrow> is_alnum c \<or> c \<in> set [CHR ''-'', CHR ''_'', CHR ''.'', CHR ''!'', CHR ''~'', CHR ''*'', CHR 0x27, CHR ''('', CHR '')'']"

definition pct_char :: "(char \<Rightarrow> bool) \<Rightarrow> char \<Rightarrow> string" where
  "pct_char keep c = (if keep c then [c] else concat (map pct_byte (utf8_bytes c)))"

definition encodeURIComponent :: "string \<Rightarrow> string" where
  "encodeURIComponent s = concat (map (pct_char component_char) s)"

text \<open>\<open>URLSearchParams.toString()\<close> of the given pairs.\<close>

definition form_char :: "char \<Rightarrow> string" where
  "form_char c = (if c = CHR '' '' then ''+'' else pct_char (\<lambda>c. is_alnum c \<or> c \<in> set ''*-._'') c)"

definition form_text :: "string \<Rightarrow> string" where
  "form_text s = concat (map form_char s)"

fun search_params :: "(string \<times> string) list \<Rightarrow> string" where
  "search_params [] = []"
| "search_params [(k, v)] = form_text k @ ''='' @ form_text v"
| "search_params ((k, v) # ps) = form_text k @ ''='' @ form_text v @ ''&'' @ search_params ps"

text \<open>\<open>qs ? `?${qs}` : ""\<close>.\<close>

definition query_suffix :: "(string \<times> string) list \<Rightarrow> string" where
  "query_suffix ps = (let qs = search_params ps in if qs = [] then [] else CHR ''?'' # qs)"

section \<open>Close reasons\<close>

definition retryAfterFromReason :: "string \<Rightarrow> jsnum option" where
  "retryAfterFromReason reason =
     (if reason = [] \<or> hd reason \<noteq> CHR ''{'' then None
      else (case JSON_parse reason of Some j \<Rightarrow> as_num (field j ''retryAfterMs'') | None \<Rightarrow> None))"

definition or_else :: "'a option \<Rightarrow> 'a option \<Rightarrow> 'a option" where
  "or_else a b = (case a of None \<Rightarrow> b | Some x \<Rightarrow> Some x)"

text \<open>The message of \<open>requireWebSocket\<close>.\<close>

definition no_websocket_message :: string where
  "no_websocket_message = ''no WebSocket implementation: use Node 22+ or a browser, or pass the `WebSocket` option (e.g. from the `ws` package)''"

section \<open>Received texts\<close>

text \<open>
  A text that parses to an object with a string \<open>type\<close> (an array has no such property), with that type.
\<close>

definition typed_object :: "string \<Rightarrow> (string \<times> json) option" where
  "typed_object text =
     (case JSON_parse text of
        None \<Rightarrow> None
      | Some j \<Rightarrow> (case as_str (field j ''type'') of Some t \<Rightarrow> Some (t, j) | None \<Rightarrow> None))"

text \<open>Whether reading a property of \<open>frame.data\<close> returns (it throws on \<open>undefined\<close> and \<open>null\<close>).\<close>

definition has_data :: "json \<Rightarrow> bool" where
  "has_data j \<longleftrightarrow> field j ''data'' \<noteq> None \<and> field j ''data'' \<noteq> Some JNull"

section \<open>Client frames as JSON\<close>

definition hello_json :: "hello_frame \<Rightarrow> json" where
  "hello_json h =
     JObj ([(''type'', JStr ''hello''), (''protocol'', JStr (h_protocol h))]
       @ opt_field ''token'' (map_option JStr (h_token h))
       @ opt_field ''conversationId'' (map_option JStr (h_conversationId h))
       @ opt_field ''userId'' (map_option JStr (h_userId h))
       @ opt_field ''watermark'' (map_option (\<lambda>n. JNum (of_int n)) (h_watermark h)))"

fun client_frame_json :: "client_frame \<Rightarrow> json" where
  "client_frame_json (Hello h) = hello_json h"
| "client_frame_json (Text m) = message_json m"
| "client_frame_json (Sync w) = JObj [(''type'', JStr ''sync''), (''watermark'', JNum (of_int w))]"
| "client_frame_json (Ping n) = JObj ([(''type'', JStr ''ping'')] @ opt_field ''nonce'' (map_option JStr n))"
| "client_frame_json (Auth t) = JObj [(''type'', JStr ''auth''), (''token'', JStr t)]"
| "client_frame_json (Typing b) = JObj [(''type'', JStr ''typing''), (''isTyping'', JBool b)]"
| "client_frame_json (Read w) = JObj [(''type'', JStr ''read''), (''watermark'', JNum (of_int w))]"

section \<open>Sample values\<close>

definition sample_params :: connect_params where
  "sample_params = \<lparr>p_baseUrl = ''https://h/'', p_token = ''t'', p_conversationId = Some ''c'', p_userId = None, p_watermark = Some 4\<rparr>"

definition sample_tenv :: "jsnum \<Rightarrow> tenv" where
  "sample_tenv now = \<lparr>te_now = now, te_ready = True, te_sends = True,
     te_date_parse = (\<lambda>_. None), te_typeError = ''TypeError''\<rparr>"

end
