(* ===== verification/Errors.thy ===== *)
theory Errors
  imports Frames
begin

text \<open>
  Errors of the client, \<open>packages/client-ts/src/errors.ts\<close>: the error classes, the \<open>Retry-After\<close>
  header and the mapping of REST error bodies. \<open>Date.parse\<close> of a non-ISO date is implementation
  defined, so it is the parameter \<open>date_parse\<close>.
\<close>

datatype error_class = ConvergerError | ConvergerProtocolError | ConvergerApiError | ConvergerClosedError

record conv_error =
  e_class :: error_class
  e_code :: string
  e_message :: string
  e_status :: "int option"
  e_number :: "jsnum option"
  e_retryable :: bool
  e_retryAfterMs :: "jsnum option"
  e_details :: "json option"
  e_requestId :: "string option"
  e_clientId :: "string option"
  e_frameType :: "string option"

definition converger_error :: "string \<Rightarrow> string \<Rightarrow> conv_error" where
  "converger_error code message =
     \<lparr>e_class = ConvergerError, e_code = code, e_message = message, e_status = None, e_number = None,
      e_retryable = False, e_retryAfterMs = None, e_details = None, e_requestId = None,
      e_clientId = None, e_frameType = None\<rparr>"

definition closed_error :: "string \<Rightarrow> string \<Rightarrow> conv_error" where
  "closed_error message code = (converger_error code message)\<lparr>e_class := ConvergerClosedError\<rparr>"

definition protocol_error :: "error_data \<Rightarrow> conv_error" where
  "protocol_error d =
     \<lparr>e_class = ConvergerProtocolError, e_code = ed_code d,
      e_message = (if ed_message d = [] then ed_code d else ed_message d),
      e_status = None, e_number = ed_number d, e_retryable = (ed_retryable d = Some True),
      e_retryAfterMs = ed_retryAfterMs d, e_details = ed_details d, e_requestId = None,
      e_clientId = ed_clientId d, e_frameType = ed_frameType d\<rparr>"

text \<open>The getter \<open>ConvergerApiError.retryable\<close>.\<close>

definition api_retryable :: "int \<Rightarrow> bool" where
  "api_retryable status \<longleftrightarrow> status = 429 \<or> status = 503 \<or> status \<ge> 500"

definition STATUS_CODES :: "(int \<times> string) list" where
  "STATUS_CODES =
     [(400, ''bad_request''), (401, ''unauthorized''), (403, ''forbidden''), (404, ''not_found''),
      (409, ''conflict''), (413, ''payload_too_large''), (415, ''unsupported_media_type''),
      (422, ''invalid_message''), (429, ''rate_limited''), (502, ''bad_gateway''), (503, ''unavailable'')]"

section \<open>Retry-After\<close>

definition is_js_ws :: "char \<Rightarrow> bool" where
  "is_js_ws c \<longleftrightarrow> c \<in> {CHR 0x09, CHR 0x0A, CHR 0x0B, CHR 0x0C, CHR 0x0D, CHR '' '', CHR 0xA0}"

definition js_trim :: "string \<Rightarrow> string" where
  "js_trim s = rev (dropWhile is_js_ws (rev (dropWhile is_js_ws s)))"

text \<open>
  \<open>Number(text)\<close> for decimal texts: \<open>None\<close> is \<open>NaN\<close> or an infinity. White space around the
  literal is ignored and the empty text is 0.
\<close>

definition js_decimal :: "string \<Rightarrow> jsnum option" where
  "js_decimal s =
     (let (ds, r) = json_digits s;
          (fs, r') = (case r of c # cs \<Rightarrow> if c = CHR ''.'' then json_digits cs else ([], r) | [] \<Rightarrow> ([], r))
      in if ds = [] \<and> fs = [] then None
         else (case json_exp r' of
                 Some (e, r'') \<Rightarrow>
                   if r'' = [] then Some ((of_nat (str_nat ds) + of_nat (str_nat fs) / 10 ^ length fs) * e) else None
               | None \<Rightarrow> None))"

definition js_Number :: "string \<Rightarrow> jsnum option" where
  "js_Number s =
     (case js_trim s of
        [] \<Rightarrow> Some 0
      | c # cs \<Rightarrow>
          if c = CHR ''-'' then map_option uminus (js_decimal cs)
          else if c = CHR ''+'' then js_decimal cs
          else js_decimal (c # cs))"

definition parseRetryAfter :: "(string \<Rightarrow> jsnum option) \<Rightarrow> string option \<Rightarrow> jsnum \<Rightarrow> jsnum option" where
  "parseRetryAfter date_parse value now =
     (case value of
        None \<Rightarrow> None
      | Some v \<Rightarrow>
          if v = [] then None
          else (case js_Number v of
                  Some seconds \<Rightarrow> Some (max 0 (of_int (js_round (seconds * 1000))))
                | None \<Rightarrow>
                    (case date_parse v of
                       None \<Rightarrow> None
                     | Some d \<Rightarrow> Some (max 0 (d - now)))))"

section \<open>REST errors\<close>

text \<open>The regular expression \<open>[a-z][a-z0-9_]*\<close>, anchored at both ends.\<close>

definition is_lower :: "char \<Rightarrow> bool" where
  "is_lower c \<longleftrightarrow> 97 \<le> (of_char c :: nat) \<and> (of_char c :: nat) \<le> 122"

definition code_like :: "string \<Rightarrow> bool" where
  "code_like s \<longleftrightarrow>
     (case s of [] \<Rightarrow> False
      | c # cs \<Rightarrow> is_lower c \<and> list_all (\<lambda>d. is_lower d \<or> is_digit d \<or> d = CHR ''_'') cs)"

record api_parts =
  p_code :: string
  p_message :: string
  p_details :: "json option"
  p_requestId :: "string option"

definition envelope_parts :: "json \<Rightarrow> api_parts \<Rightarrow> api_parts" where
  "envelope_parts error p =
     p\<lparr>p_code := (case as_str (field error ''code'') of Some c \<Rightarrow> c | None \<Rightarrow> p_code p),
       p_message := (case as_str (field error ''message'') of Some m \<Rightarrow> m | None \<Rightarrow> p_message p),
       p_details := (case as_record (field error ''details'') of Some d \<Rightarrow> Some d | None \<Rightarrow> p_details p),
       p_requestId := (case as_str (field error ''request_id'') of Some r \<Rightarrow> Some r | None \<Rightarrow> p_requestId p)\<rparr>"

definition text_parts :: "json \<Rightarrow> string \<Rightarrow> api_parts \<Rightarrow> api_parts" where
  "text_parts body error p =
     (if code_like error then
        p\<lparr>p_code := error,
          p_message := (case as_str (field body ''detail'') of Some d \<Rightarrow> d | None \<Rightarrow> error)\<rparr>
      else p\<lparr>p_message := error\<rparr>)"

definition errors_parts :: "(string \<times> json) list \<Rightarrow> api_parts \<Rightarrow> api_parts" where
  "errors_parts fs p =
     (case as_str (map_of fs ''detail'') of
        Some d \<Rightarrow> if length fs = 1 then p\<lparr>p_message := d\<rparr>
                  else p\<lparr>p_details := Some (JObj fs), p_message := ''validation failed''\<rparr>
      | None \<Rightarrow> p\<lparr>p_details := Some (JObj fs), p_message := ''validation failed''\<rparr>)"

definition body_parts :: "json \<Rightarrow> api_parts \<Rightarrow> api_parts" where
  "body_parts body p =
     (case body of
        JObj fs \<Rightarrow>
          (case map_of fs ''error'' of
             Some (JObj es) \<Rightarrow> envelope_parts (JObj es) p
           | Some (JStr s) \<Rightarrow> text_parts body s p
           | _ \<Rightarrow> (case map_of fs ''errors'' of
                    Some (JObj es) \<Rightarrow> errors_parts es p
                  | _ \<Rightarrow> p))
      | JStr s \<Rightarrow> if js_trim s \<noteq> [] then p\<lparr>p_message := take 500 (js_trim s)\<rparr> else p
      | _ \<Rightarrow> p)"

definition fallback_code :: "int \<Rightarrow> string" where
  "fallback_code status =
     (case map_of STATUS_CODES status of
        Some c \<Rightarrow> c
      | None \<Rightarrow> if status \<ge> 500 then ''internal'' else ''http_error'')"

definition apiErrorFrom :: "(string \<Rightarrow> jsnum option) \<Rightarrow> jsnum \<Rightarrow> int \<Rightarrow> json \<Rightarrow> string option \<Rightarrow> conv_error" where
  "apiErrorFrom date_parse now status body retryAfter =
     (let p = body_parts body \<lparr>p_code = fallback_code status, p_message = ''HTTP '' @ int_str status,
                p_details = None, p_requestId = None\<rparr>
      in \<lparr>e_class = ConvergerApiError, e_code = p_code p, e_message = p_message p, e_status = Some status,
          e_number = None, e_retryable = api_retryable status,
          e_retryAfterMs = parseRetryAfter date_parse retryAfter now,
          e_details = p_details p, e_requestId = p_requestId p, e_clientId = None, e_frameType = None\<rparr>)"

lemma parseRetryAfter_nonneg: "parseRetryAfter dp v now = Some r \<Longrightarrow> 0 \<le> r"
  by (auto simp: parseRetryAfter_def split: option.splits if_splits)

lemma body_parts_code:
  "p_code (body_parts body p) = p_code p \<or>
   (\<exists>c. p_code (body_parts body p) = c \<and>
      (field body ''error'' = Some (JStr c) \<and> code_like c \<or>
       ofield (field body ''error'') ''code'' = Some (JStr c)))"
  by (auto simp: body_parts_def envelope_parts_def text_parts_def errors_parts_def
      split: json.splits option.splits if_splits)

text \<open>
  The code of an API error is stable: it is the body's own code when the body names one, and the
  status table's otherwise; the retry decision depends on the status alone.
\<close>

lemma apiErrorFrom_envelope:
  assumes "map_of fs ''error'' = Some (JObj es)" "map_of es ''code'' = Some (JStr c)"
  shows "e_code (apiErrorFrom dp now status (JObj fs) ra) = c"
  using assms by (simp add: apiErrorFrom_def body_parts_def envelope_parts_def Let_def)

lemma apiErrorFrom_no_body:
  "e_code (apiErrorFrom dp now status JNull ra) = fallback_code status"
  by (simp add: apiErrorFrom_def body_parts_def Let_def)

end
