(* ===== verification/Watermark.thy ===== *)
theory Watermark
  imports Json
begin

text \<open>
  Watermarks, \<open>packages/client-ts/src/protocol/watermark.ts\<close>: the integer form, the decimal form
  and the opaque form \<open>base64url("seq:N")\<close>, with the library's \<open>btoa\<close> and \<open>atob\<close>.
\<close>

section \<open>Base64\<close>

definition b64_char :: "nat \<Rightarrow> char" where
  "b64_char n =
     (if n < 26 then char_of (65 + n)
      else if n < 52 then char_of (71 + n)
      else if n < 62 then char_of (n - 4)
      else if n = 62 then CHR ''+'' else CHR ''/'')"

definition b64_val :: "char \<Rightarrow> nat option" where
  "b64_val c =
     (let n = of_char c :: nat in
      if 65 \<le> n \<and> n \<le> 90 then Some (n - 65)
      else if 97 \<le> n \<and> n \<le> 122 then Some (n - 71)
      else if 48 \<le> n \<and> n \<le> 57 then Some (n + 4)
      else if c = CHR ''+'' then Some 62
      else if c = CHR ''/'' then Some 63
      else None)"

fun to_sextets :: "nat list \<Rightarrow> nat list" where
  "to_sextets [] = []"
| "to_sextets [x] = [x div 4, (x mod 4) * 16]"
| "to_sextets [x, y] = [x div 4, (x mod 4) * 16 + y div 16, (y mod 16) * 4]"
| "to_sextets (x # y # z # r) =
     x div 4 # ((x mod 4) * 16 + y div 16) # ((y mod 16) * 4 + z div 64) # (z mod 64) # to_sextets r"

fun of_sextets :: "nat list \<Rightarrow> nat list option" where
  "of_sextets [] = Some []"
| "of_sextets [p] = None"
| "of_sextets [p, q] = Some [p * 4 + q div 16]"
| "of_sextets [p, q, r] = Some [p * 4 + q div 16, (q mod 16) * 16 + r div 4]"
| "of_sextets (p # q # r # s # t) =
     map_option (\<lambda>bs. (p * 4 + q div 16) # ((q mod 16) * 16 + r div 4) # ((r mod 4) * 64 + s) # bs) (of_sextets t)"

definition btoa :: "string \<Rightarrow> string" where
  "btoa s =
     (let b = map b64_char (to_sextets (map of_char s)) in
      b @ replicate ((4 - length b mod 4) mod 4) (CHR ''=''))"

definition is_ascii_ws :: "char \<Rightarrow> bool" where
  "is_ascii_ws c \<longleftrightarrow> c \<in> {CHR 0x09, CHR 0x0A, CHR 0x0C, CHR 0x0D, CHR '' ''}"

text \<open>The trailing \<open>=\<close> the forgiving decoder drops: at most two.\<close>

definition strip_pad2 :: "string \<Rightarrow> string" where
  "strip_pad2 s =
     (case rev s of
        a # b # r \<Rightarrow> if a = CHR ''='' \<and> b = CHR ''='' then rev r
                     else if a = CHR ''='' then rev (b # r) else s
      | [a] \<Rightarrow> if a = CHR ''='' then [] else s
      | [] \<Rightarrow> [])"

definition atob :: "string \<Rightarrow> string option" where
  "atob s =
     (let t = filter (\<lambda>c. \<not> is_ascii_ws c) s;
          t' = (if length t mod 4 = 0 then strip_pad2 t else t)
      in if length t' mod 4 = 1 then None
         else (case those (map b64_val t') of
                 None \<Rightarrow> None
               | Some vs \<Rightarrow> map_option (map char_of) (of_sextets vs)))"

definition strip_eq :: "string \<Rightarrow> string" where
  "strip_eq s = rev (dropWhile (\<lambda>c. c = CHR ''='') (rev s))"

definition url_char :: "char \<Rightarrow> char" where
  "url_char c = (if c = CHR ''+'' then CHR ''-'' else if c = CHR ''/'' then CHR ''_'' else c)"

definition std_char :: "char \<Rightarrow> char" where
  "std_char c = (if c = CHR ''-'' then CHR ''+'' else if c = CHR ''_'' then CHR ''/'' else c)"

definition base64UrlEncode :: "string \<Rightarrow> string" where
  "base64UrlEncode text = strip_eq (map url_char (btoa text))"

definition base64UrlDecode :: "string \<Rightarrow> string option" where
  "base64UrlDecode value =
     (let padded = map std_char value in
      atob (padded @ replicate ((4 - length padded mod 4) mod 4) (CHR ''='')))"

section \<open>Watermarks\<close>

definition encodeOpaqueWatermark :: "int \<Rightarrow> string" where
  "encodeOpaqueWatermark seq = base64UrlEncode (''seq:'' @ int_str seq)"

text \<open>The regular expression \<open>(0|[1-9][0-9]{0,15})\<close>, anchored at both ends.\<close>

definition decimal_watermark :: "string \<Rightarrow> bool" where
  "decimal_watermark s \<longleftrightarrow>
     s = ''0'' \<or>
     (s \<noteq> [] \<and> list_all is_digit s \<and> hd s \<noteq> CHR ''0'' \<and> length s \<le> 16)"

definition seq_watermark :: "string \<Rightarrow> string option" where
  "seq_watermark s = (if take 4 s = ''seq:'' \<and> decimal_watermark (drop 4 s) then Some (drop 4 s) else None)"

definition parseWatermark :: "json option \<Rightarrow> int option" where
  "parseWatermark v =
     (case v of
        Some (JNum x) \<Rightarrow> if is_integer x \<and> x \<ge> 0 then Some \<lfloor>x\<rfloor> else None
      | Some (JStr s) \<Rightarrow>
          if s = [] then None
          else if decimal_watermark s then Some (int (str_nat s))
          else (case base64UrlDecode s of
                  None \<Rightarrow> None
                | Some d \<Rightarrow> map_option (\<lambda>t. int (str_nat t)) (seq_watermark d))
      | _ \<Rightarrow> None)"

section \<open>Round trips\<close>

lemma b64_val_b64_char [simp]: "n < 64 \<Longrightarrow> b64_val (b64_char n) = Some n"
  by (auto simp: b64_val_def b64_char_def Let_def)

lemma b64_char_ok:
  assumes "n < 64"
  shows "b64_char n \<noteq> CHR ''=''" "\<not> is_ascii_ws (b64_char n)" "std_char (url_char (b64_char n)) = b64_char n"
    "url_char (b64_char n) \<noteq> CHR ''=''"
proof -
  have v: "b64_val (b64_char n) = Some n" using assms by simp
  then show "b64_char n \<noteq> CHR ''=''" by (auto simp: b64_val_def)
  from v show "\<not> is_ascii_ws (b64_char n)" by (auto simp: b64_val_def is_ascii_ws_def)
  from v show "std_char (url_char (b64_char n)) = b64_char n"
    by (auto simp: b64_val_def std_char_def url_char_def)
  from v show "url_char (b64_char n) \<noteq> CHR ''=''"
    by (auto simp: b64_val_def url_char_def)
qed

lemma to_sextets_bound: "\<forall>b \<in> set bs. b < 256 \<Longrightarrow> \<forall>v \<in> set (to_sextets bs). v < 64"
  by (induction bs rule: to_sextets.induct) auto

lemma split_digit:
  fixes a b k :: nat
  assumes "b < k"
  shows "(a * k + b) div k = a" "(a * k + b) mod k = b"
  using assms by simp_all

lemma byte_div: "(y::nat) < 256 \<Longrightarrow> y div 16 < 16" "(y::nat) < 256 \<Longrightarrow> y div 64 < 4"
  using less_mult_imp_div_less [of y 16 16] less_mult_imp_div_less [of y 4 64] by simp_all

lemma of_to_sextets: "\<forall>b \<in> set bs. b < 256 \<Longrightarrow> of_sextets (to_sextets bs) = Some bs"
proof (induction bs rule: to_sextets.induct)
  case (3 x y)
  then have y: "y div 16 < 16" by (simp add: byte_div)
  show ?case by (simp add: split_digit [OF y] y)
next
  case (4 x y z r)
  then have y: "y div 16 < 16" and z: "z div 64 < 4" by (simp_all add: byte_div)
  from 4 show ?case by (simp add: split_digit [OF y] split_digit [OF z] y z)
qed simp_all

lemma to_sextets_length: "length (to_sextets bs) mod 4 \<noteq> 1"
  by (induction bs rule: to_sextets.induct) auto

lemma those_map_b64: "\<forall>v \<in> set vs. v < 64 \<Longrightarrow> those (map (b64_val \<circ> b64_char) vs) = Some vs"
  by (induction vs) auto

lemma strip_eq_append: "\<forall>c \<in> set b. c \<noteq> CHR ''='' \<Longrightarrow> strip_eq (b @ replicate k (CHR ''='')) = b"
proof -
  assume "\<forall>c \<in> set b. c \<noteq> CHR ''=''"
  then have "dropWhile (\<lambda>c. c = CHR ''='') (rev b) = rev b"
    unfolding dropWhile_eq_self_iff by (metis hd_in_set set_rev)
  moreover have "dropWhile (\<lambda>c. c = CHR ''='') (replicate k (CHR ''='') @ rev b)
      = dropWhile (\<lambda>c. c = CHR ''='') (rev b)"
    by (induction k) auto
  ultimately show ?thesis by (simp add: strip_eq_def)
qed

lemma strip_pad2_append:
  assumes "\<forall>c \<in> set b. c \<noteq> CHR ''=''" "k \<le> 2"
  shows "strip_pad2 (b @ replicate k (CHR ''='')) = b"
proof (cases "rev b")
  case Nil
  then have "b = []" by simp
  moreover have "k = 0 \<or> k = 1 \<or> k = 2" using assms(2) by linarith
  ultimately show ?thesis by (auto simp: strip_pad2_def numeral_2_eq_2)
next
  case (Cons a r)
  then have b: "b = rev r @ [a]" by (metis rev.simps(2) rev_rev_ident)
  with assms(1) have a: "a \<noteq> CHR ''=''" by simp
  moreover have "k = 0 \<or> k = 1 \<or> k = 2" using assms(2) by linarith
  ultimately show ?thesis
    by (auto simp: b strip_pad2_def numeral_2_eq_2 split: list.split)
qed

lemma base64Url_roundtrip: "base64UrlDecode (base64UrlEncode s) = Some s"
proof -
  define vs where "vs = to_sextets (map of_char s :: nat list)"
  define b where "b = map b64_char vs"
  have vs: "\<forall>v \<in> set vs. v < 64"
    unfolding vs_def by (rule to_sextets_bound) auto
  have len: "length b mod 4 \<noteq> 1"
    using to_sextets_length [of "map of_char s"] by (simp add: b_def vs_def)
  have b_eq: "\<forall>c \<in> set b. c \<noteq> CHR ''=''" and b_ws: "\<forall>c \<in> set b. \<not> is_ascii_ws c"
    using vs by (auto simp: b_def b64_char_ok)
  define k where "k = (4 - length b mod 4) mod 4"
  have m: "length b mod 4 = 0 \<or> length b mod 4 = 2 \<or> length b mod 4 = 3"
    using len mod_less_divisor [of 4 "length b"] by linarith
  then have k: "k \<le> 2" by (auto simp: k_def)
  have enc: "base64UrlEncode s = map url_char b"
  proof -
    have "map url_char (btoa s) = map url_char b @ replicate k (CHR ''='')"
      by (simp add: btoa_def b_def vs_def k_def Let_def url_char_def)
    moreover have "\<forall>c \<in> set (map url_char b). c \<noteq> CHR ''=''"
      using vs by (auto simp: b_def b64_char_ok)
    ultimately show ?thesis by (simp only: base64UrlEncode_def strip_eq_append)
  qed
  have std: "map std_char (map url_char b) = b"
    using vs by (auto simp: b_def b64_char_ok)
  have ws: "filter (\<lambda>c. \<not> is_ascii_ws c) (b @ replicate k (CHR ''='')) = b @ replicate k (CHR ''='')"
    using b_ws by (auto simp: filter_id_conv is_ascii_ws_def)
  have "(length b mod 4 + k) mod 4 = 0" using m by (auto simp: k_def)
  then have len4: "length (b @ replicate k (CHR ''='')) mod 4 = 0"
    by (simp only: length_append length_replicate mod_add_left_eq)
  have dec: "those (map b64_val b) = Some vs"
    using those_map_b64 [OF vs] by (simp add: b_def)
  have "atob (b @ replicate k (CHR ''='')) = Some s"
    unfolding atob_def Let_def ws len4 strip_pad2_append [OF b_eq k]
    using len dec by (simp add: vs_def of_to_sextets o_def)
  then show ?thesis
    using std by (simp add: base64UrlDecode_def enc k_def Let_def)
qed

lemma decimal_nat_str: "n < 10 ^ 16 \<Longrightarrow> decimal_watermark (nat_str n)"
proof (cases "n = 0")
  case True
  then show ?thesis by (simp add: decimal_watermark_def nat_str.simps digit_char_def char_of_eq_iff take_bit_eq_mod)
next
  case False
  assume "n < 10 ^ 16"
  then have "length (nat_str n) \<le> 16" by (intro length_nat_str_le) auto
  moreover have "digit_char 0 = CHR ''0''" by (simp add: digit_char_def char_of_eq_iff take_bit_eq_mod)
  ultimately show ?thesis using False hd_nat_str [of n] by (simp add: decimal_watermark_def)
qed

lemma parse_decimal: "n < 10 ^ 16 \<Longrightarrow> parseWatermark (Some (JStr (nat_str n))) = Some (int n)"
  by (simp add: parseWatermark_def decimal_nat_str)

text \<open>The opaque form starts with \<open>c2Vx\<close>, so it is never taken for a decimal.\<close>

lemma opaque_first: "\<exists>r. encodeOpaqueWatermark n = ''c2Vx'' @ r"
proof -
  define r where "r = map of_char (CHR '':'' # int_str n) @ ([] :: nat list)"
  have "to_sextets (map of_char (''seq:'' @ int_str n)) = 28 # 54 # 21 # 49 # to_sextets r"
    by (simp add: r_def)
  moreover have "map b64_char [28, 54, 21, 49] = ''c2Vx''"
    by (simp add: b64_char_def char_of_eq_iff take_bit_eq_mod)
  ultimately have b: "btoa (''seq:'' @ int_str n)
      = ''c2Vx'' @ map b64_char (to_sextets r) @ replicate ((4 - length (to_sextets r) mod 4) mod 4) (CHR ''='')"
    by (simp add: btoa_def Let_def)
  have "dropWhile (\<lambda>c. c = CHR ''='') (xs @ rev ''c2Vx'') = dropWhile (\<lambda>c. c = CHR ''='') xs @ rev ''c2Vx''" for xs
    by (induction xs) auto
  then have "strip_eq (''c2Vx'' @ xs) = ''c2Vx'' @ strip_eq xs" for xs
    unfolding strip_eq_def by (metis rev_append rev_rev_ident)
  then show ?thesis
    unfolding encodeOpaqueWatermark_def base64UrlEncode_def b by (auto simp: url_char_def)
qed

lemma parse_opaque:
  assumes "n < 10 ^ 16"
  shows "parseWatermark (Some (JStr (encodeOpaqueWatermark (int n)))) = Some (int n)"
proof -
  obtain r where r: "encodeOpaqueWatermark (int n) = ''c2Vx'' @ r" using opaque_first by blast
  then have "\<not> decimal_watermark (encodeOpaqueWatermark (int n))" "encodeOpaqueWatermark (int n) \<noteq> []"
    by (auto simp: decimal_watermark_def is_digit_def)
  then show ?thesis using assms
    by (simp add: parseWatermark_def encodeOpaqueWatermark_def base64Url_roundtrip seq_watermark_def
        int_str_def decimal_nat_str)
qed

lemma parseWatermark_nonneg: "parseWatermark v = Some n \<Longrightarrow> 0 \<le> n"
  by (auto simp: parseWatermark_def split: option.splits json.splits if_splits)

section \<open>Property\<close>

text \<open>
  C31. Watermark round trips: every watermark a session can hold exactly (below 2^53) is read back from
  both of its text forms, the decimal and the opaque base64url one; and whatever the client accepts as
  a watermark is a non-negative integer.
\<close>

theorem watermark_roundtrip:
  assumes "n < 2 ^ 53"
  shows "parseWatermark (Some (JStr (nat_str n))) = Some (int n)
    \<and> parseWatermark (Some (JStr (encodeOpaqueWatermark (int n)))) = Some (int n)
    \<and> (\<forall>v k. parseWatermark v = Some k \<longrightarrow> 0 \<le> k)"
proof -
  have "n < 10 ^ 16" using assms by (rule less_le_trans) simp
  then show ?thesis by (simp add: parse_decimal parse_opaque) (blast intro: parseWatermark_nonneg)
qed

theorem watermark_roundtrip_witness:
  "parseWatermark (Some (JStr (encodeOpaqueWatermark 4711))) = Some 4711"
  using watermark_roundtrip [of 4711] by simp

end
