(* ===== verification/Token.thy ===== *)
theory Token
  imports Errors Watermark
begin

text \<open>
  Tokens of the client, \<open>packages/client-ts/src/token.ts\<close>: decoding a JWT's claims, the expiry of a
  token and the \<open>TokenManager\<close>. The provider is the application's, so a request to it is an output
  (\<open>ProviderCall\<close>) and its answer an input of \<open>fetch_settled\<close>.
\<close>

section \<open>JWT claims\<close>

text \<open>
  \<open>TextDecoder\<close> for UTF-8, restricted to code points below 256 (ASCII and two-byte sequences that
  start with \<open>C2\<close> or \<open>C3\<close>); any other byte stands for one replacement character.
\<close>

fun utf8_decode :: "string \<Rightarrow> string" where
  "utf8_decode [] = []"
| "utf8_decode [c] = (if (of_char c :: nat) < 128 then [c] else [CHR 0x1A])"
| "utf8_decode (c # d # cs) =
     (if (of_char c :: nat) < 128 then c # utf8_decode (d # cs)
      else if (c = CHR 0xC2 \<or> c = CHR 0xC3) \<and> 128 \<le> (of_char d :: nat) \<and> (of_char d :: nat) < 192
        then char_of ((if c = CHR 0xC3 then 64 else 0) + (of_char d :: nat)) # utf8_decode cs
      else CHR 0x1A # utf8_decode (d # cs))"

text \<open>\<open>token.split(".")\<close>.\<close>

fun split_dots :: "string \<Rightarrow> string list" where
  "split_dots [] = [[]]"
| "split_dots (c # cs) =
     (if c = CHR ''.'' then [] # split_dots cs
      else (case split_dots cs of p # ps \<Rightarrow> (c # p) # ps | [] \<Rightarrow> [[c]]))"

definition token_part :: "string \<Rightarrow> string option" where
  "token_part token = (case split_dots token of _ # p # _ \<Rightarrow> (if p = [] then None else Some p) | _ \<Rightarrow> None)"

definition decodeToken :: "string \<Rightarrow> json option" where
  "decodeToken token =
     (case token_part token of
        None \<Rightarrow> None
      | Some part \<Rightarrow>
          (case base64UrlDecode part of
             None \<Rightarrow> None
           | Some binary \<Rightarrow>
               (case JSON_parse (utf8_decode binary) of
                  Some (JObj fs) \<Rightarrow> Some (JObj fs)
                | Some (JArr xs) \<Rightarrow> Some (JArr xs)
                | _ \<Rightarrow> None)))"

section \<open>Expiry\<close>

record token_info =
  ti_token :: string
  ti_expiresAt :: "jsnum option"
  ti_expiresIn :: "jsnum option"

text \<open>What a provider may return; \<open>TokenMissing\<close> is any value without a string \<open>token\<close>.\<close>

datatype token_value = TokenString string | TokenObject token_info | TokenMissing

record active_token =
  at_token :: string
  at_expiresAt :: "jsnum option"
  at_claims :: "json option"
  at_receivedAt :: jsnum

definition invalid_token_error :: conv_error where
  "invalid_token_error = converger_error ''invalid_token'' ''the tokenProvider returned no token''"

definition info_of :: "token_value \<Rightarrow> token_info option" where
  "info_of v =
     (case v of
        TokenString s \<Rightarrow> Some \<lparr>ti_token = s, ti_expiresAt = None, ti_expiresIn = None\<rparr>
      | TokenObject i \<Rightarrow> Some i
      | TokenMissing \<Rightarrow> None)"

definition normalise :: "token_value \<Rightarrow> jsnum \<Rightarrow> conv_error + active_token" where
  "normalise v now =
     (case info_of v of
        None \<Rightarrow> Inl invalid_token_error
      | Some i \<Rightarrow>
          if ti_token i = [] then Inl invalid_token_error
          else
            let claims = decodeToken (ti_token i);
                expiresAt =
                  (case ti_expiresAt i of
                     Some e \<Rightarrow> Some e
                   | None \<Rightarrow>
                       (case ti_expiresIn i of
                          Some s \<Rightarrow> Some (now + s * 1000)
                        | None \<Rightarrow> map_option (\<lambda>x. x * 1000) (as_num (ofield claims ''exp''))))
            in Inr \<lparr>at_token = ti_token i, at_expiresAt = expiresAt, at_claims = claims, at_receivedAt = now\<rparr>)"

section \<open>TokenManager\<close>

datatype token_reason = Initial | Refresh | Rejected

record token_manager =
  tm_skewMs :: jsnum
  tm_current :: "active_token option"
  tm_pending :: bool

datatype token_output = ProviderCall token_reason "string option"

definition new_token_manager :: "jsnum \<Rightarrow> active_token option \<Rightarrow> token_manager" where
  "new_token_manager skew initial = \<lparr>tm_skewMs = skew, tm_current = initial, tm_pending = False\<rparr>"

definition needsRefresh :: "token_manager \<Rightarrow> active_token \<Rightarrow> jsnum \<Rightarrow> bool" where
  "needsRefresh tm tok now \<longleftrightarrow>
     (case at_expiresAt tok of None \<Rightarrow> False | Some e \<Rightarrow> e - now \<le> min (tm_skewMs tm) 5000)"

text \<open>\<open>fetch\<close>: at most one request at a time; a second caller joins the pending one.\<close>

definition fetch :: "token_reason \<Rightarrow> token_manager \<Rightarrow> token_manager \<times> token_output list" where
  "fetch reason tm =
     (if tm_pending tm then (tm, [])
      else (tm\<lparr>tm_pending := True\<rparr>, [ProviderCall reason (map_option at_token (tm_current tm))]))"

text \<open>\<open>get\<close>: the current token, or the request it waits for.\<close>

definition get :: "jsnum \<Rightarrow> token_manager \<Rightarrow> active_token option \<times> token_manager \<times> token_output list" where
  "get now tm =
     (case tm_current tm of
        Some tok \<Rightarrow>
          if \<not> needsRefresh tm tok now then (Some tok, tm, [])
          else (None, fetch Refresh tm)
      | None \<Rightarrow> (None, fetch Initial tm))"

text \<open>The provider answered (\<open>Inr\<close>), or threw (\<open>Inl\<close>; \<open>Some\<close> for a \<open>ConvergerError\<close>).\<close>

definition provider_failed :: conv_error where
  "provider_failed = converger_error ''token_provider_failed'' ''the tokenProvider failed''"

definition fetch_settled ::
  "conv_error option + token_value \<Rightarrow> jsnum \<Rightarrow> token_manager \<Rightarrow> token_manager \<times> (conv_error + active_token)" where
  "fetch_settled answer now tm =
     (case answer of
        Inl err \<Rightarrow> (tm\<lparr>tm_pending := False\<rparr>, Inl (case err of Some e \<Rightarrow> e | None \<Rightarrow> provider_failed))
      | Inr v \<Rightarrow>
          (case normalise v now of
             Inl e \<Rightarrow> (tm\<lparr>tm_pending := False\<rparr>, Inl e)
           | Inr tok \<Rightarrow> (tm\<lparr>tm_pending := False, tm_current := Some tok\<rparr>, Inr tok)))"

definition setExpiry :: "jsnum option \<Rightarrow> token_manager \<Rightarrow> token_manager" where
  "setExpiry expiresAt tm =
     (case (tm_current tm, expiresAt) of
        (Some tok, Some e) \<Rightarrow> tm\<lparr>tm_current := Some (tok\<lparr>at_expiresAt := Some e\<rparr>)\<rparr>
      | _ \<Rightarrow> tm)"

definition skewFor :: "token_manager \<Rightarrow> active_token option \<Rightarrow> jsnum" where
  "skewFor tm tok =
     (case tok of
        None \<Rightarrow> tm_skewMs tm
      | Some t \<Rightarrow>
          (case at_expiresAt t of
             None \<Rightarrow> tm_skewMs tm
           | Some e \<Rightarrow>
               if e = 0 then tm_skewMs tm
               else let lifetime = e - at_receivedAt t in
                    if lifetime > 0 then min (tm_skewMs tm) (lifetime / 2) else tm_skewMs tm))"

definition refreshDelay :: "jsnum \<Rightarrow> token_manager \<Rightarrow> jsnum option" where
  "refreshDelay now tm =
     (case tm_current tm of
        None \<Rightarrow> None
      | Some t \<Rightarrow>
          (case at_expiresAt t of
             None \<Rightarrow> None
           | Some e \<Rightarrow> Some (max 0 (e - skewFor tm (Some t) - now))))"

section \<open>createRefreshingTokenProvider\<close>

text \<open>
  The provider's state is the latest token. The refresh endpoint is the argument \<open>refresh\<close>: given a
  token, the error it fails with, or the new token and its lifetime in seconds.
\<close>

definition value_token :: "token_value \<Rightarrow> string" where
  "value_token v = (case v of TokenString s \<Rightarrow> s | TokenObject i \<Rightarrow> ti_token i | TokenMissing \<Rightarrow> [])"

definition refreshing_provider ::
  "(string \<Rightarrow> conv_error + string \<times> jsnum) \<Rightarrow> token_reason \<Rightarrow> token_value \<Rightarrow> token_value \<times> (conv_error + token_value)" where
  "refreshing_provider refresh reason latest =
     (if reason = Initial then (latest, Inr latest)
      else
        (case refresh (value_token latest) of
           Inl e \<Rightarrow> (latest, Inl e)
         | Inr (token, expires_in) \<Rightarrow>
             (let v = TokenObject \<lparr>ti_token = token, ti_expiresAt = None, ti_expiresIn = Some expires_in\<rparr>
              in (v, Inr v))))"

section \<open>Facts\<close>

lemma normalise_Inr:
  "normalise v now = Inr tok \<Longrightarrow> at_token tok \<noteq> [] \<and> at_receivedAt tok = now"
  by (auto simp: normalise_def Let_def split: option.splits if_splits)

lemma fetch_pending: "tm_pending (fst (fetch r tm))"
  by (simp add: fetch_def)

lemma fetch_once: "snd (fetch r (fst (fetch r' tm))) = []"
  by (simp add: fetch_def)

lemma setExpiry_simps [simp]:
  "tm_pending (setExpiry e tm) = tm_pending tm" "tm_skewMs (setExpiry e tm) = tm_skewMs tm"
  by (auto simp: setExpiry_def split: option.split)

lemma skewFor_le_half:
  assumes "at_expiresAt t = Some e" "e \<noteq> 0" "at_receivedAt t < e"
  shows "skewFor tm (Some t) \<le> (e - at_receivedAt t) / 2"
  using assms by (simp add: skewFor_def Let_def min_def)

lemma skewFor_le_skew: "skewFor tm t \<le> tm_skewMs tm"
  by (auto simp: skewFor_def Let_def split: option.split)

lemma refreshDelay_nonneg: "refreshDelay now tm = Some d \<Longrightarrow> 0 \<le> d"
  by (auto simp: refreshDelay_def split: option.splits)

section \<open>Properties\<close>

text \<open>
  When a token is refreshed: the refresh falls due no later than the token's expiry and, for a token
  received before it expires, not before half of its lifetime is over, whatever skew is configured.
\<close>

theorem refresh_due_in_time:
  assumes "tm_current tm = Some t" "at_expiresAt t = Some e" "0 < e" "at_receivedAt t < e" "0 \<le> tm_skewMs tm"
  shows "\<exists>d. refreshDelay now tm = Some d \<and> 0 \<le> d \<and> (now \<le> e \<longrightarrow> now + d \<le> e)
    \<and> at_receivedAt t + (e - at_receivedAt t) / 2 \<le> now + d"
proof -
  have half: "skewFor tm (Some t) \<le> (e - at_receivedAt t) / 2"
    using assms by (intro skewFor_le_half) auto
  have skew: "0 \<le> skewFor tm (Some t)"
    using assms by (simp add: skewFor_def Let_def)
  have "refreshDelay now tm = Some (max 0 (e - skewFor tm (Some t) - now))"
    using assms by (simp add: refreshDelay_def)
  moreover have "at_receivedAt t + (e - at_receivedAt t) / 2 \<le> now + max 0 (e - skewFor tm (Some t) - now)"
    using half by (auto simp: field_simps max_def)
  ultimately show ?thesis using skew by auto
qed

theorem refresh_due_in_time_witness:
  "let t = \<lparr>at_token = ''t'', at_expiresAt = Some 100000, at_claims = None, at_receivedAt = 40000\<rparr> in
   \<exists>d. refreshDelay 40000 (new_token_manager 60000 (Some t)) = Some d \<and> 70000 \<le> 40000 + d"
  using refresh_due_in_time [of "new_token_manager 60000 (Some \<lparr>at_token = ''t'', at_expiresAt = Some 100000, at_claims = None, at_receivedAt = 40000\<rparr>)"
      "\<lparr>at_token = ''t'', at_expiresAt = Some 100000, at_claims = None, at_receivedAt = 40000\<rparr>" 100000 40000]
  by (auto simp: new_token_manager_def Let_def)



end
