(* ===== verification/Rest.thy ===== *)
theory Rest
  imports Transport Token
begin

text \<open>
  The REST helpers, \<open>packages/client-ts/src/rest/client.ts\<close>, over the schema types of
  \<open>rest/openapi.ts\<close>. The platform's \<open>fetch\<close> is a parameter: a function from the request to the
  response, or \<open>Inl\<close> when the promise rejects. \<open>getToken\<close> is the result of awaiting the token. Abort
  signals are not modelled.
\<close>

section \<open>Schema types\<close>

text \<open>
  \<open>components["schemas"]["Activity"]\<close>: the fields the client reads, \<open>None\<close> for \<open>null\<close> and absent.
  The casts read a field of another type than declared as absent.
\<close>

record rest_activity =
  ra_id :: string
  ra_type :: string
  ra_from :: "string option"
  ra_text :: "string option"
  ra_timestamp :: string
  ra_attachments :: "json list option"
  ra_channelData :: "(string \<times> json) list option"
  ra_replyToId :: "string option"

definition activity_of_rest :: "json \<Rightarrow> rest_activity" where
  "activity_of_rest j =
     \<lparr>ra_id = str_field (Some j) ''id'', ra_type = str_field (Some j) ''type'',
      ra_from = as_str (ofield (field j ''from'') ''id''), ra_text = as_str (field j ''text''),
      ra_timestamp = str_field (Some j) ''timestamp'',
      ra_attachments = (case field j ''attachments'' of Some (JArr xs) \<Rightarrow> Some xs | _ \<Rightarrow> None),
      ra_channelData = (case field j ''channelData'' of Some (JObj fs) \<Rightarrow> Some fs | _ \<Rightarrow> None),
      ra_replyToId = as_str (field j ''replyToId'')\<rparr>"

record activity_set =
  as_activities :: "json list"
  as_watermark :: "json option"
  as_has_more :: bool

definition set_of_json :: "json \<Rightarrow> activity_set" where
  "set_of_json j =
     \<lparr>as_activities = (case field j ''activities'' of Some (JArr xs) \<Rightarrow> xs | _ \<Rightarrow> []),
      as_watermark = (case field j ''watermark'' of Some JNull \<Rightarrow> None | w \<Rightarrow> w),
      as_has_more = (field j ''has_more'' = Some (JBool True))\<rparr>"

record token_response =
  tr_conversationId :: "string option"
  tr_token :: string
  tr_expires_in :: jsnum

definition num_field :: "json \<Rightarrow> string \<Rightarrow> jsnum" where
  "num_field j k = (case as_num (field j k) of Some x \<Rightarrow> x | None \<Rightarrow> 0)"

definition token_of_json :: "json \<Rightarrow> token_response" where
  "token_of_json j =
     \<lparr>tr_conversationId = as_str (field j ''conversationId''), tr_token = str_field (Some j) ''token'',
      tr_expires_in = num_field j ''expires_in''\<rparr>"

record conversation_response =
  cr_conversationId :: string
  cr_token :: string
  cr_expires_in :: jsnum

definition conversation_of_json :: "json \<Rightarrow> conversation_response" where
  "conversation_of_json j =
     \<lparr>cr_conversationId = str_field (Some j) ''conversationId'', cr_token = str_field (Some j) ''token'',
      cr_expires_in = num_field j ''expires_in''\<rparr>"

section \<open>Requests\<close>

datatype form_part = FormFile string string string | FormText string string

datatype request_body = TextBody string | FormBody "form_part list"

record http_request =
  rq_method :: string
  rq_url :: string
  rq_headers :: "(string \<times> string) list"
  rq_body :: "request_body option"

record http_response =
  rp_status :: int
  rp_text :: string
  rp_retryAfter :: "string option"

type_synonym fetch_like = "http_request \<Rightarrow> unit + http_response"

definition rp_ok :: "http_response \<Rightarrow> bool" where
  "rp_ok r \<longleftrightarrow> 200 \<le> rp_status r \<and> rp_status r \<le> 299"

definition globalFetch :: "fetch_like option \<Rightarrow> conv_error + fetch_like" where
  "globalFetch g =
     (case g of
        Some f \<Rightarrow> Inr f
      | None \<Rightarrow> Inl (converger_error ''no_fetch'' ''no global fetch: pass the `fetch` option (Node 18+ and every modern browser have one)''))"

definition readBody :: "http_response \<Rightarrow> json" where
  "readBody r =
     (if rp_text r = [] then JNull
      else (case JSON_parse (rp_text r) of Some j \<Rightarrow> j | None \<Rightarrow> JStr (rp_text r)))"

text \<open>\<open>Date.parse\<close> and the clock, for the \<open>Retry-After\<close> header.\<close>

record rest_env =
  re_date_parse :: "string \<Rightarrow> jsnum option"
  re_now :: jsnum

definition network_error :: "string \<Rightarrow> conv_error" where
  "network_error url = converger_error ''network_error'' (''request to '' @ url @ '' failed'')"

definition rest_request :: "rest_env \<Rightarrow> fetch_like \<Rightarrow> http_request \<Rightarrow> conv_error + json" where
  "rest_request env fetchImpl rq =
     (case fetchImpl rq of
        Inl _ \<Rightarrow> Inl (network_error (rq_url rq))
      | Inr response \<Rightarrow>
          (let body = readBody response in
           if \<not> rp_ok response
           then Inl (apiErrorFrom (re_date_parse env) (re_now env) (rp_status response) body (rp_retryAfter response))
           else Inr body))"

definition bearer :: "string \<Rightarrow> string \<times> string" where
  "bearer token = (''authorization'', ''Bearer '' @ token)"

definition accept_json :: "string \<times> string" where
  "accept_json = (''accept'', ''application/json'')"

definition generateToken ::
  "rest_env \<Rightarrow> fetch_like \<Rightarrow> string \<Rightarrow> string \<Rightarrow> string option \<Rightarrow> bool \<Rightarrow> conv_error + token_response" where
  "generateToken env fetchImpl baseUrl secret userId channel_scope =
     map_sum id token_of_json (rest_request env fetchImpl
       \<lparr>rq_method = ''POST'', rq_url = trimBaseUrl baseUrl @ ''/api/v1/converger/tokens/generate'',
        rq_headers = [bearer secret, (''content-type'', ''application/json''), accept_json],
        rq_body = Some (TextBody (JSON_stringify (JObj
          (opt_field ''user'' (map_option (\<lambda>u. JObj [(''id'', JStr u)]) userId)
           @ (if channel_scope then [(''scope'', JStr ''channel'')] else [])))))\<rparr>)"

definition refreshToken :: "rest_env \<Rightarrow> fetch_like \<Rightarrow> string \<Rightarrow> string \<Rightarrow> conv_error + token_response" where
  "refreshToken env fetchImpl baseUrl token =
     map_sum id token_of_json (rest_request env fetchImpl
       \<lparr>rq_method = ''POST'', rq_url = trimBaseUrl baseUrl @ ''/api/v1/converger/tokens/refresh'',
        rq_headers = [bearer token, accept_json], rq_body = None\<rparr>)"

section \<open>RestClient\<close>

record rest_client =
  rc_baseUrl :: string
  rc_getToken :: "conv_error + string"
  rc_fetch :: fetch_like
  rc_env :: rest_env

definition new_rest_client ::
  "rest_env \<Rightarrow> fetch_like option \<Rightarrow> fetch_like option \<Rightarrow> string \<Rightarrow> conv_error + string \<Rightarrow> conv_error + rest_client" where
  "new_rest_client env own_fetch global_fetch baseUrl getToken =
     map_sum id (\<lambda>f. \<lparr>rc_baseUrl = trimBaseUrl baseUrl, rc_getToken = getToken, rc_fetch = f, rc_env = env\<rparr>)
       (case own_fetch of Some f \<Rightarrow> Inr f | None \<Rightarrow> globalFetch global_fetch)"

text \<open>The options of \<open>#call\<close>.\<close>

record call_init =
  ci_body :: "request_body option"
  ci_json :: "json option"
  ci_headers :: "(string \<times> string) list"
  ci_token :: "string option"

definition no_init :: call_init where
  "no_init = \<lparr>ci_body = None, ci_json = None, ci_headers = [], ci_token = None\<rparr>"

definition call_request :: "rest_client \<Rightarrow> string \<Rightarrow> string \<Rightarrow> call_init \<Rightarrow> string \<Rightarrow> http_request" where
  "call_request c meth path init token =
     \<lparr>rq_method = meth, rq_url = rc_baseUrl c @ ''/api/v1/converger'' @ path,
      rq_headers =
        (let h = fold (\<lambda>(k, v). AList.update k v) (ci_headers init) [bearer token, accept_json] in
         if ci_json init \<noteq> None then AList.update ''content-type'' ''application/json'' h else h),
      rq_body = (case ci_json init of Some j \<Rightarrow> Some (TextBody (JSON_stringify j)) | None \<Rightarrow> ci_body init)\<rparr>"

definition rest_call :: "rest_client \<Rightarrow> string \<Rightarrow> string \<Rightarrow> call_init \<Rightarrow> conv_error + json" where
  "rest_call c meth path init =
     (case (case ci_token init of Some t \<Rightarrow> Inr t | None \<Rightarrow> rc_getToken c) of
        Inl e \<Rightarrow> Inl e
      | Inr token \<Rightarrow> rest_request (rc_env c) (rc_fetch c) (call_request c meth path init token))"

definition rest_refreshToken :: "rest_client \<Rightarrow> string option \<Rightarrow> conv_error + token_response" where
  "rest_refreshToken c token =
     map_sum id token_of_json (rest_call c ''POST'' ''/tokens/refresh'' (no_init\<lparr>ci_token := token\<rparr>))"

definition createConversation :: "rest_client \<Rightarrow> conv_error + conversation_response" where
  "createConversation c = map_sum id conversation_of_json (rest_call c ''POST'' ''/conversations'' no_init)"

definition conversation_path :: "string \<Rightarrow> string" where
  "conversation_path cid = ''/conversations/'' @ encodeURIComponent cid"

definition getConversation :: "rest_client \<Rightarrow> string \<Rightarrow> conv_error + conversation_response" where
  "getConversation c cid = map_sum id conversation_of_json (rest_call c ''GET'' (conversation_path cid) no_init)"

text \<open>The answers of the next two are handed on as they come (\<open>ConversationStatusResponse\<close>).\<close>

definition closeConversation :: "rest_client \<Rightarrow> string \<Rightarrow> conv_error + json" where
  "closeConversation c cid = rest_call c ''POST'' (conversation_path cid @ ''/close'') no_init"

definition reopenConversation :: "rest_client \<Rightarrow> string \<Rightarrow> conv_error + json" where
  "reopenConversation c cid = rest_call c ''POST'' (conversation_path cid @ ''/reopen'') no_init"

definition postActivity :: "rest_client \<Rightarrow> string \<Rightarrow> json \<Rightarrow> string option \<Rightarrow> conv_error + json" where
  "postActivity c cid activity idempotencyKey =
     rest_call c ''POST'' (conversation_path cid @ ''/activities'')
       (no_init\<lparr>ci_json := Some activity,
                ci_headers := (if truthy idempotencyKey then [(''x-idempotency-key'', the idempotencyKey)] else [])\<rparr>)"

text \<open>\<open>String(watermark)\<close> of a number or a string.\<close>

definition watermark_text :: "json \<Rightarrow> string" where
  "watermark_text w = (case w of JStr s \<Rightarrow> s | _ \<Rightarrow> JSON_stringify w)"

definition activities_path :: "string \<Rightarrow> json option \<Rightarrow> nat option \<Rightarrow> string" where
  "activities_path cid watermark limit =
     conversation_path cid @ ''/activities''
       @ query_suffix ((case watermark of Some w \<Rightarrow> [(''watermark'', watermark_text w)] | None \<Rightarrow> [])
                       @ (case limit of Some n \<Rightarrow> [(''limit'', nat_str n)] | None \<Rightarrow> []))"

definition listActivities :: "rest_client \<Rightarrow> string \<Rightarrow> json option \<Rightarrow> nat option \<Rightarrow> conv_error + activity_set" where
  "listActivities c cid watermark limit =
     map_sum id set_of_json (rest_call c ''GET'' (activities_path cid watermark limit) no_init)"

text \<open>
  The generator \<open>history\<close>: the pages it yields, and the error that ended it. The loop follows the
  server's pages, so it ends only if the server lets it: \<open>None\<close> is a loop that never ends.
\<close>

definition last_page :: "activity_set \<Rightarrow> bool" where
  "last_page page \<longleftrightarrow> \<not> as_has_more page \<or> as_activities page = [] \<or> as_watermark page = None"

partial_function (option) history ::
  "rest_client \<Rightarrow> string \<Rightarrow> nat option \<Rightarrow> json option \<Rightarrow> (activity_set list \<times> conv_error option) option" where
  "history c cid limit watermark =
     (case listActivities c cid watermark limit of
        Inl e \<Rightarrow> Some ([], Some e)
      | Inr page \<Rightarrow>
          if last_page page then Some ([page], None)
          else Option.bind (history c cid limit (as_watermark page)) (\<lambda>(pages, e). Some (page # pages, e)))"

declare history.simps [code]

definition allActivities :: "rest_client \<Rightarrow> string \<Rightarrow> nat option \<Rightarrow> json option \<Rightarrow> (conv_error + json list) option" where
  "allActivities c cid limit watermark =
     map_option (\<lambda>(pages, e). case e of Some err \<Rightarrow> Inl err | None \<Rightarrow> Inr (concat (map as_activities pages)))
       (history c cid limit watermark)"

record blob =
  b_name :: "string option"
  b_data :: string

definition upload :: "rest_client \<Rightarrow> string \<Rightarrow> blob \<Rightarrow> string option \<Rightarrow> json option \<Rightarrow> conv_error + json" where
  "upload c cid file filename activity =
     (let name = (case filename of
                    Some f \<Rightarrow> f
                  | None \<Rightarrow> if truthy (b_name file) then the (b_name file) else ''upload'')
      in rest_call c ''POST'' (conversation_path cid @ ''/upload'')
           (no_init\<lparr>ci_body := Some (FormBody ([FormFile ''file'' (b_data file) name]
              @ (case activity of Some a \<Rightarrow> [FormText ''activity'' (JSON_stringify a)] | None \<Rightarrow> [])))\<rparr>))"

text \<open>\<open>/^https?:\/\//\<close>.\<close>

definition is_http_url :: "string \<Rightarrow> bool" where
  "is_http_url u \<longleftrightarrow> take 7 u = ''http://'' \<or> take 8 u = ''https://''"

definition attachment_url :: "rest_client \<Rightarrow> string \<Rightarrow> string" where
  "attachment_url c idOrUrl =
     (if is_http_url idOrUrl then idOrUrl
      else rc_baseUrl c @ ''/api/v1/converger/attachments/'' @ encodeURIComponent idOrUrl)"

definition downloadAttachment :: "rest_client \<Rightarrow> string \<Rightarrow> conv_error + http_response" where
  "downloadAttachment c idOrUrl =
     (case rc_getToken c of
        Inl e \<Rightarrow> Inl e
      | Inr token \<Rightarrow>
          (let rq = \<lparr>rq_method = ''GET'', rq_url = attachment_url c idOrUrl, rq_headers = [bearer token], rq_body = None\<rparr> in
           case rc_fetch c rq of
             Inl _ \<Rightarrow> Inl (network_error (rq_url rq))
           | Inr response \<Rightarrow>
               if \<not> rp_ok response
               then Inl (apiErrorFrom (re_date_parse (rc_env c)) (re_now (rc_env c)) (rp_status response) (readBody response) (rp_retryAfter response))
               else Inr response))"

end
