(* ===== verification/Conversation.thy ===== *)
theory Conversation
  imports Backoff Rest
begin

text \<open>
  One conversation session, \<open>packages/client-ts/src/conversation.ts\<close>. The private fields of the class
  \<open>Conversation\<close> are the record \<open>conv\<close>, its methods the functions below, in the order of the file.
  JavaScript runs a callback to completion, so every callback (a call of the application, a frame, a
  close, a timer, a settled promise) is one input of \<open>step\<close>; what the code does between two \<open>await\<close>s is
  one such callback and the continuation is kept in the state (\<open>c_tokenWaits\<close>, \<open>c_microtasks\<close>,
  \<open>c_restWaits\<close>, \<open>c_attaching\<close>). Events, frames put on the wire, settled promises and requests are
  appended to \<open>c_out\<close>.

  The application's listeners and the callbacks a transport makes from inside \<open>send\<close> run after the
  step that caused them. \<open>Date.now()\<close>, \<open>Math.random()\<close> and the answer of \<open>transport.send\<close> come with
  each input (\<open>env\<close>).
\<close>

section \<open>Types\<close>

datatype conn_state = Idle | Connecting | Open | Reconnecting | Closed

record state_change =
  sc_state :: conn_state
  sc_previous :: conn_state
  sc_attempt :: nat
  sc_delayMs :: "jsnum option"
  sc_transport :: string
  sc_close :: "transport_close option"
  sc_error :: "conv_error option"

record send_result =
  sr_clientId :: string
  sr_id :: string
  sr_seq :: "int option"
  sr_timestamp :: "jsnum option"
  sr_duplicate :: bool

text \<open>What \<open>send\<close> accepts; \<open>sm_text\<close> is \<open>None\<close> for a \<open>text\<close> that is not a string.\<close>

record send_message =
  sm_text :: "string option"
  sm_attachments :: "json option"
  sm_metadata :: "json option"
  sm_meta :: "json option"
  sm_replyTo :: "string option"
  sm_clientId :: "string option"

datatype event =
    EvActivity activity_frame
  | EvTyping activity_frame
  | EvDeliveryStatus json
  | EvPresence json
  | EvConnectionState state_change
  | EvWelcome welcome_data
  | EvSent send_result
  | EvSendFailed string conv_error
  | EvReplayTruncated replay_truncated
  | EvError conv_error

datatype effect =
    Emitted event
  | Wire nat client_frame
  | TransportConnect nat connect_params
  | TransportClose nat int string
  | SendPending string
  | SendResolved string send_result
  | SendRejected string conv_error
  | CallRejected conv_error
  | Returned bool
  | TokenRequest nat token_reason "string option"
  | RestCreate nat string
  | RestGet nat string string
  | StoreRead
  | Dispose

text \<open>A promise with its resolvers; the first settlement wins.\<close>

datatype 'a deferred = Pending | Resolved 'a | RejectedWith conv_error

fun resolve :: "'a \<Rightarrow> 'a deferred \<Rightarrow> 'a deferred" where
  "resolve x Pending = Resolved x"
| "resolve x d = d"

fun reject :: "conv_error \<Rightarrow> 'a deferred \<Rightarrow> 'a deferred" where
  "reject e Pending = RejectedWith e"
| "reject e d = d"

record deps =
  d_baseUrl :: string
  d_transports :: "factory list"
  d_fallbackAfterAttempts :: jsnum
  d_reconnect :: resolved_reconnect
  d_refreshSkewMs :: jsnum
  d_replayWaitMs :: jsnum
  d_gapWaitMs :: jsnum

text \<open>What waits for a token: \<open>KBase\<close> and \<open>KConnect\<close> continue the connection attempt they name.\<close>

datatype token_wait = KBase nat transport | KConnect nat transport | KRejected | KRefresh | KExpired

text \<open>
  Where a connection attempt waits inside \<open>#ensureConversationToken\<close>: for \<open>createConversation\<close>, for
  \<open>store.attach\<close> after it (with whether the store has to be loaded), for \<open>getConversation\<close>.
\<close>

datatype rest_wait = RCreate | RAttach bool string jsnum | RGet

record conv =
  c_conversationId :: "string option"
  c_userId :: "string option"
  c_watermark :: int
  c_seen :: "int list"
  c_ownSeqs :: "int list"
  c_ownIds :: "string list"
  c_state :: conn_state
  c_transport :: "transport option"
  c_transportIndex :: nat
  c_failuresOnTransport :: nat
  c_attempt :: nat
  c_authRejections :: nat
  c_stopped :: bool
  c_started :: bool
  c_welcomed :: bool
  c_connectToken :: nat
  c_reconnectTimer :: "unit timer"
  c_refreshTimer :: "unit timer"
  c_replayTimer :: "unit timer"
  c_gapTimer :: "int timer"
  c_syncTimer :: "int timer"
  c_replaying :: bool
  c_replayTarget :: int
  c_maxInFlight :: jsnum
  c_inFlight :: "string list"
  c_retryAt :: "(string \<times> jsnum) list"
  c_retryTimer :: "unit timer"
  c_waiting :: "string list"
  c_ready :: "welcome_data deferred option"
  c_lastWelcome :: "welcome_data option"
  c_fatal :: "conv_error option"
  c_store :: store
  c_managers :: "token_manager list"
  c_tokens :: nat
  c_tokenWaits :: "(nat \<times> token_wait) list"
  c_microtasks :: "(token_wait \<times> active_token) list"
  c_restWaits :: "(nat \<times> transport \<times> rest_wait) list"
  c_loading :: "jsnum option list"
  c_attaching :: "bool list"
  c_flushing :: nat
  c_out :: "effect list"

record env =
  v_now :: jsnum
  v_random :: jsnum
  v_accepts :: "client_frame \<Rightarrow> bool"

text \<open>
  A new session. Manager 0 is the client's \<open>TokenManager\<close>, which other sessions of the client share;
  \<open>#useConversationTokens\<close> adds managers after it. \<open>c_tokens\<close> is the one \<open>#tokens\<close> refers to.
\<close>

definition new_conv :: "string option \<Rightarrow> token_manager \<Rightarrow> store \<Rightarrow> conv" where
  "new_conv conversationId tokens st =
     \<lparr>c_conversationId = conversationId, c_userId = None, c_watermark = 0, c_seen = [], c_ownSeqs = [],
      c_ownIds = [], c_state = Idle, c_transport = None, c_transportIndex = 0,
      c_failuresOnTransport = 0, c_attempt = 0, c_authRejections = 0, c_stopped = False,
      c_started = False, c_welcomed = False, c_connectToken = 0, c_reconnectTimer = Unset,
      c_refreshTimer = Unset, c_replayTimer = Unset, c_gapTimer = Unset, c_syncTimer = Unset,
      c_replaying = False, c_replayTarget = 0, c_maxInFlight = 32, c_inFlight = [], c_retryAt = [],
      c_retryTimer = Unset, c_waiting = [], c_ready = None, c_lastWelcome = None, c_fatal = None,
      c_store = st, c_managers = [tokens], c_tokens = 0, c_tokenWaits = [], c_microtasks = [],
      c_restWaits = [], c_loading = [], c_attaching = [], c_flushing = 0, c_out = []\<rparr>"

definition MAX_AUTH_REJECTIONS :: nat where "MAX_AUTH_REJECTIONS = 3"

definition FATAL_CLOSE_CODES :: "int list" where
  "FATAL_CLOSE_CODES = [Close_unsupportedProtocol, Close_forbidden, Close_conversationNotFound, 4404]"

definition client_id_char :: "char \<Rightarrow> bool" where
  "client_id_char c \<longleftrightarrow>
     (let n = (of_char c :: nat) in
      65 \<le> n \<and> n \<le> 90 \<or> 97 \<le> n \<and> n \<le> 122 \<or> 48 \<le> n \<and> n \<le> 57) \<or> c \<in> set ''._:~-''"

definition CLIENT_ID :: "string \<Rightarrow> bool" where
  "CLIENT_ID s \<longleftrightarrow> 1 \<le> length s \<and> length s \<le> 128 \<and> list_all client_id_char s"

text \<open>One digit of \<open>toString(36)\<close>, and the id made without \<open>crypto.randomUUID\<close> from 24 random numbers.\<close>

definition base36_char :: "nat \<Rightarrow> char" where
  "base36_char d = (if d < 10 then char_of (48 + d) else char_of (87 + d))"

definition randomClientId :: "string option \<Rightarrow> (nat \<Rightarrow> jsnum) \<Rightarrow> string" where
  "randomClientId uuid random =
     (case uuid of
        Some u \<Rightarrow> u
      | None \<Rightarrow> ''c-'' @ map (\<lambda>i. base36_char (nat \<lfloor>random i * 36\<rfloor>)) [0..<24])"

section \<open>Effects\<close>

definition perform :: "effect \<Rightarrow> conv \<Rightarrow> conv" where
  "perform e s = s\<lparr>c_out := c_out s @ [e]\<rparr>"

definition emit_event :: "event \<Rightarrow> conv \<Rightarrow> conv" where
  "emit_event e s = perform (Emitted e) s"

text \<open>\<open>this.#transport?.send(frame)\<close>: whether it was sent, and the frame on the wire if so.\<close>

definition transport_send :: "env \<Rightarrow> client_frame \<Rightarrow> conv \<Rightarrow> bool \<times> conv" where
  "transport_send env frame s =
     (case c_transport s of
        None \<Rightarrow> (False, s)
      | Some t \<Rightarrow> if v_accepts env frame then (True, perform (Wire (t_id t) frame) s) else (False, s))"

definition with_store :: "(store \<Rightarrow> store) \<Rightarrow> conv \<Rightarrow> conv" where
  "with_store f s = s\<lparr>c_store := f (c_store s)\<rparr>"

definition saveState :: "conv \<Rightarrow> conv" where
  "saveState s =
     (if truthy (c_conversationId s)
      then with_store (setState \<lparr>rs_conversationId = the (c_conversationId s),
                                 rs_userId = (if truthy (c_userId s) then c_userId s else None),
                                 rs_watermark = c_watermark s\<rparr>) s
      else s)"

definition rejectWaiting :: "conv_error \<Rightarrow> conv \<Rightarrow> conv" where
  "rejectWaiting e s =
     s\<lparr>c_out := c_out s @ map (\<lambda>cid. SendRejected cid e) (c_waiting s), c_waiting := []\<rparr>"

definition clearTimers :: "conv \<Rightarrow> conv" where
  "clearTimers s =
     s\<lparr>c_reconnectTimer := clear_timeout (c_reconnectTimer s),
       c_refreshTimer := clear_timeout (c_refreshTimer s),
       c_replayTimer := clear_timeout (c_replayTimer s),
       c_gapTimer := clear_timeout (c_gapTimer s),
       c_syncTimer := clear_timeout (c_syncTimer s),
       c_retryTimer := clear_timeout (c_retryTimer s)\<rparr>"

section \<open>Outbox\<close>

text \<open>The loop of \<open>#flush\<close> over the entries, and \<open>#flush\<close>.\<close>

fun flush_entries :: "env \<Rightarrow> outbox_entry list \<Rightarrow> conv \<Rightarrow> conv" where
  "flush_entries env [] s = s"
| "flush_entries env (e # es) s =
     (let cid = oe_clientId e in
      if of_nat (length (c_inFlight s)) \<ge> c_maxInFlight s then s
      else if cid \<in> set (c_inFlight s) then flush_entries env es s
      else if (case map_of (c_retryAt s) cid of Some t \<Rightarrow> t > v_now env | None \<Rightarrow> False)
        then flush_entries env es s
      else
        (let (sent, s') = transport_send env (Text (oe_frame e)) (s\<lparr>c_retryAt := AList.delete cid (c_retryAt s)\<rparr>) in
         if \<not> sent then s'
         else flush_entries env es
                (with_store (store_touch cid) (s'\<lparr>c_inFlight := set_add cid (c_inFlight s')\<rparr>))))"

definition flush :: "env \<Rightarrow> conv \<Rightarrow> conv" where
  "flush env s =
     (if c_state s \<noteq> Open \<or> c_transport s = None \<or> c_replaying s then s
      else flush_entries env (st_entries (c_store s)) s)"

definition scheduleRetry :: "env \<Rightarrow> conv \<Rightarrow> conv" where
  "scheduleRetry env s =
     (let s' = s\<lparr>c_retryTimer := clear_timeout (c_retryTimer s)\<rparr> in
      if c_retryAt s = [] then s'
      else s'\<lparr>c_retryTimer := Armed (max 0 (Min (snd ` set (c_retryAt s)) - v_now env)) ()\<rparr>)"

definition retry_fires :: "env \<Rightarrow> conv \<Rightarrow> conv" where
  "retry_fires env s =
     (let s' = flush env (s\<lparr>c_retryTimer := Unset\<rparr>) in
      if c_retryAt s' \<noteq> [] then scheduleRetry env s' else s')"

section \<open>Token refresh\<close>

definition the_tokens :: "conv \<Rightarrow> token_manager" where
  "the_tokens s = c_managers s ! c_tokens s"

definition with_tokens :: "token_manager \<Rightarrow> conv \<Rightarrow> conv" where
  "with_tokens tm s = s\<lparr>c_managers := (c_managers s)[c_tokens s := tm]\<rparr>"

definition token_requests :: "nat \<Rightarrow> token_output list \<Rightarrow> effect list" where
  "token_requests m os = map (\<lambda>p. case p of ProviderCall r prev \<Rightarrow> TokenRequest m r prev) os"

text \<open>A continuation joins the request the manager has pending.\<close>

definition join_request :: "token_wait \<Rightarrow> token_manager \<times> token_output list \<Rightarrow> conv \<Rightarrow> conv" where
  "join_request k r s =
     (with_tokens (fst r) s)\<lparr>c_tokenWaits := c_tokenWaits s @ [(c_tokens s, k)],
                            c_out := c_out s @ token_requests (c_tokens s) (snd r)\<rparr>"

text \<open>\<open>this.#tokens.fetch(reason)\<close>.\<close>

definition tokens_fetch :: "token_reason \<Rightarrow> token_wait \<Rightarrow> conv \<Rightarrow> conv" where
  "tokens_fetch reason k s = join_request k (fetch reason (the_tokens s)) s"

text \<open>\<open>await this.#tokens.get()\<close>: a token at hand continues in a microtask.\<close>

definition tokens_get :: "env \<Rightarrow> token_wait \<Rightarrow> conv \<Rightarrow> conv" where
  "tokens_get env k s =
     (case get (v_now env) (the_tokens s) of
        (Some tok, _) \<Rightarrow> s\<lparr>c_microtasks := c_microtasks s @ [(k, tok)]\<rparr>
      | (None, r) \<Rightarrow> join_request k r s)"

definition scheduleRefresh :: "env \<Rightarrow> conv \<Rightarrow> conv" where
  "scheduleRefresh env s =
     (let s' = s\<lparr>c_refreshTimer := clear_timeout (c_refreshTimer s)\<rparr> in
      case refreshDelay (v_now env) (the_tokens s) of
        None \<Rightarrow> s'
      | Some delay \<Rightarrow> s'\<lparr>c_refreshTimer := Armed (min delay (2 ^ 31 - 1)) ()\<rparr>)"

definition can_auth :: "conv \<Rightarrow> bool" where
  "can_auth s \<longleftrightarrow> (case c_transport s of Some t \<Rightarrow> cap_auth (t_caps t) | None \<Rightarrow> False)"

text \<open>\<open>#refresh\<close> up to its \<open>await\<close>, and after it.\<close>

definition refresh :: "conv \<Rightarrow> conv" where
  "refresh s = tokens_fetch Refresh KRefresh s"

definition refresh_settled :: "env \<Rightarrow> conv_error + active_token \<Rightarrow> conv \<Rightarrow> conv" where
  "refresh_settled env res s =
     (case res of
        Inr fresh \<Rightarrow>
          if can_auth s \<and> c_state s = Open
          then snd (transport_send env (Auth (at_token fresh)) s)
          else scheduleRefresh env s
      | Inl e \<Rightarrow>
          (let s' = emit_event (EvError e) s in s'\<lparr>c_refreshTimer := Armed 10000 ()\<rparr>))"

section \<open>Watermark and replay\<close>

text \<open>The loop of \<open>#markSeen\<close>; it ends because \<open>seen\<close> shrinks.\<close>

function advance :: "int \<Rightarrow> int list \<Rightarrow> int list \<Rightarrow> int \<times> int list \<times> int list" where
  "advance w seen own =
     (if w + 1 \<in> set seen then advance (w + 1) (set_delete (w + 1) seen) (set_delete (w + 1) own)
      else (w, seen, own))"
  by pat_completeness auto
termination
  by (relation "measure (\<lambda>(w, seen, own). length seen)") (auto simp: length_set_delete_less)

declare advance.simps [simp del]

definition markSeen :: "int \<Rightarrow> conv \<Rightarrow> conv" where
  "markSeen seq s =
     (if seq \<le> c_watermark s then s
      else
        (let (w, seen, own) = advance (c_watermark s) (set_add seq (c_seen s)) (c_ownSeqs s);
             s' = s\<lparr>c_watermark := w, c_seen := seen, c_ownSeqs := own\<rparr>
         in if w \<noteq> c_watermark s then saveState s' else s'))"

definition armReplayTimer :: "deps \<Rightarrow> conv \<Rightarrow> conv" where
  "armReplayTimer d s = s\<lparr>c_replayTimer := Armed (d_replayWaitMs d) ()\<rparr>"

definition endReplay :: "env \<Rightarrow> bool \<Rightarrow> conv \<Rightarrow> conv" where
  "endReplay env fl s =
     (let s1 = s\<lparr>c_replayTimer := Unset\<rparr> in
      if \<not> c_replaying s then s1
      else (let s2 = s1\<lparr>c_replaying := False\<rparr> in if fl then flush env s2 else s2))"

definition can_sync :: "conv \<Rightarrow> bool" where
  "can_sync s \<longleftrightarrow> (case c_transport s of Some t \<Rightarrow> cap_sync (t_caps t) | None \<Rightarrow> False)"

definition checkGap :: "deps \<Rightarrow> int \<Rightarrow> conv \<Rightarrow> conv" where
  "checkGap d highest s =
     (if timer_truthy (c_gapTimer s) \<or> c_replaying s \<or> c_inFlight s \<noteq> [] then s
      else if \<not> can_sync s then s
      else if highest \<le> c_watermark s then s
      else s\<lparr>c_gapTimer := Armed (d_gapWaitMs d) highest\<rparr>)"

definition gap_fires :: "env \<Rightarrow> int \<Rightarrow> conv \<Rightarrow> conv" where
  "gap_fires env highest s =
     (let s' = s\<lparr>c_gapTimer := Unset\<rparr> in
      if highest > c_watermark s \<and> c_inFlight s = [] \<and> c_state s = Open
      then snd (transport_send env (Sync (c_watermark s)) s') else s')"

section \<open>Acknowledgements and errors\<close>

definition settle :: "ack_frame \<Rightarrow> conv \<Rightarrow> conv" where
  "settle a s =
     (let cid = ak_clientId a;
          ownSeqs = (case ak_seq a of
                       Some n \<Rightarrow> if n > c_watermark s then set_add n (c_ownSeqs s) else c_ownSeqs s
                     | None \<Rightarrow> c_ownSeqs s);
          ids = set_add (ak_id a) (c_ownIds s);
          ownIds = (if length ids > 1000 then tl ids else ids);
          known = store_get cid (c_store s) \<noteq> None \<or> cid \<in> set (c_waiting s);
          s1 = s\<lparr>c_ownSeqs := ownSeqs, c_ownIds := ownIds, c_inFlight := set_delete cid (c_inFlight s),
                 c_retryAt := AList.delete cid (c_retryAt s), c_store := store_remove cid (c_store s),
                 c_waiting := set_delete cid (c_waiting s)\<rparr>
      in if \<not> known then s1
         else
           (let r = \<lparr>sr_clientId = cid, sr_id = ak_id a, sr_seq = ak_seq a,
                     sr_timestamp = ak_timestamp a, sr_duplicate = ak_duplicate a\<rparr>;
                s2 = (if cid \<in> set (c_waiting s) then perform (SendResolved cid r) s1 else s1)
            in emit_event (EvSent r) s2))"

definition onAck :: "env \<Rightarrow> ack_frame \<Rightarrow> conv \<Rightarrow> conv" where
  "onAck env a s =
     (let s1 = (case ak_seq a of Some n \<Rightarrow> markSeen n s | None \<Rightarrow> s) in flush env (settle a s1))"

definition is_own_turn :: "activity_frame \<Rightarrow> conv \<Rightarrow> bool" where
  "is_own_turn a s \<longleftrightarrow>
     (case a_clientId a of
        None \<Rightarrow> False
      | Some cid \<Rightarrow> a_from a = Some ''user'' \<and> store_get cid (c_store s) \<noteq> None)"

text \<open>The ack a replayed own turn stands for.\<close>

definition own_ack :: "activity_frame \<Rightarrow> ack_frame" where
  "own_ack a =
     \<lparr>ak_clientId = (case a_clientId a of Some c \<Rightarrow> c | None \<Rightarrow> []),
      ak_id = (case a_id a of Some i \<Rightarrow> i | None \<Rightarrow> ''undefined''),
      ak_seq = Some (seq_of a), ak_timestamp = None, ak_duplicate = True\<rparr>"

definition ownTurn :: "activity_frame \<Rightarrow> conv \<Rightarrow> bool \<times> conv" where
  "ownTurn a s = (if is_own_turn a s then (True, settle (own_ack a) s) else (False, s))"

text \<open>The part of \<open>#onPersistent\<close> for a frame that is not a duplicate.\<close>

definition deliver :: "activity_frame \<Rightarrow> conv \<Rightarrow> conv" where
  "deliver a s =
     (let (own, s1) = ownTurn a (markSeen (seq_of a) s) in
      if \<not> own \<and> seq_of a \<notin> set (c_ownSeqs s1)
         \<and> (case a_id a of Some i \<Rightarrow> i \<notin> set (c_ownIds s1) | None \<Rightarrow> True)
      then (if a_type a = ''typing'' then emit_event (EvTyping a) s1 else emit_event (EvActivity a) s1)
      else s1)"

definition is_duplicate :: "int \<Rightarrow> conv \<Rightarrow> bool" where
  "is_duplicate seq s \<longleftrightarrow> seq \<le> c_watermark s \<or> seq \<in> set (c_seen s)"

definition onPersistent :: "deps \<Rightarrow> env \<Rightarrow> activity_frame \<Rightarrow> conv \<Rightarrow> conv" where
  "onPersistent d env a s =
     (let seq = seq_of a;
          s1 = (if is_duplicate seq s then s else deliver a s);
          s2 = (if c_replaying s1 \<and> seq \<ge> c_replayTarget s1 then endReplay env True s1 else s1)
      in if seq > c_watermark s2 then checkGap d seq s2 else s2)"

text \<open>The part of \<open>#onError\<close> for an error that answers a pending send.\<close>

definition retryable_send :: "conv_error \<Rightarrow> bool" where
  "retryable_send e \<longleftrightarrow> e_code e \<in> set RETRYABLE_SEND_ERRORS \<or> e_retryable e \<and> e_code e \<noteq> ''token_expired''"

definition onSendError :: "env \<Rightarrow> string \<Rightarrow> conv_error \<Rightarrow> conv \<Rightarrow> conv" where
  "onSendError env cid e s =
     (let s1 = s\<lparr>c_inFlight := set_delete cid (c_inFlight s)\<rparr> in
      if retryable_send e
      then scheduleRetry env
             (s1\<lparr>c_retryAt := AList.update cid (v_now env + or_default (e_retryAfterMs e) 1000) (c_retryAt s1)\<rparr>)
      else
        (let s2 = s1\<lparr>c_store := store_remove cid (c_store s1), c_retryAt := AList.delete cid (c_retryAt s1),
                     c_waiting := set_delete cid (c_waiting s1)\<rparr>;
             s3 = (if cid \<in> set (c_waiting s) then perform (SendRejected cid e) s2 else s2)
         in flush env (emit_event (EvSendFailed cid e) s3)))"

definition onSessionError :: "env \<Rightarrow> conv_error \<Rightarrow> conv \<Rightarrow> conv" where
  "onSessionError env e s =
     emit_event (EvError e)
       (if e_code e = ''replay_unavailable'' then
          (let s1 = endReplay env True s;
               from_seq = (case as_int (ofield (e_details e) ''watermark'') of Some n \<Rightarrow> n | None \<Rightarrow> c_watermark s1)
           in s1\<lparr>c_syncTimer := Armed (or_default (e_retryAfterMs e) 1000) from_seq\<rparr>)
        else if e_code e = ''invalid_watermark'' then
          (if e_frameType e \<in> {None, Some ''hello'', Some ''sync''}
           then snd (transport_send env (Sync 0)
                  (endReplay env True (saveState (s\<lparr>c_watermark := 0, c_seen := []\<rparr>))))
           else s)
        else if e_code e = ''token_expired'' then tokens_fetch Refresh KExpired s
        else s)"

definition onError :: "env \<Rightarrow> error_data \<Rightarrow> conv \<Rightarrow> conv" where
  "onError env ed s =
     (let e = protocol_error ed in
      case ed_clientId ed of
        Some cid \<Rightarrow>
          if cid \<noteq> [] \<and> store_get cid (c_store s) \<noteq> None then onSendError env cid e s
          else onSessionError env e s
      | None \<Rightarrow> onSessionError env e s)"

definition sync_fires :: "env \<Rightarrow> int \<Rightarrow> conv \<Rightarrow> conv" where
  "sync_fires env from_seq s =
     (let s' = s\<lparr>c_syncTimer := Unset\<rparr> in
      if c_state s = Open then snd (transport_send env (Sync (min from_seq (c_watermark s))) s') else s')"

section \<open>Connection lifecycle\<close>

definition currentFactory :: "deps \<Rightarrow> conv \<Rightarrow> factory" where
  "currentFactory d s = d_transports d ! min (c_transportIndex s) (length (d_transports d) - 1)"

text \<open>The getter \<open>transport\<close>.\<close>

definition transport_label :: "deps \<Rightarrow> conv \<Rightarrow> string" where
  "transport_label d s = or_default (f_transportName (currentFactory d s)) ''custom''"

definition setConnState ::
  "deps \<Rightarrow> conn_state \<Rightarrow> jsnum option \<Rightarrow> transport_close option \<Rightarrow> conv_error option \<Rightarrow> conv \<Rightarrow> conv" where
  "setConnState d st delayMs close err s =
     (if c_state s = st \<and> st \<noteq> Reconnecting then s
      else emit_event
             (EvConnectionState
                \<lparr>sc_state = st, sc_previous = c_state s, sc_attempt = c_attempt s, sc_delayMs = delayMs,
                 sc_transport = transport_label d s, sc_close = close, sc_error = err\<rparr>)
             (s\<lparr>c_state := st\<rparr>))"

text \<open>\<open>const transport = this.#transport; this.#transport = undefined; transport?.close(...)\<close>.\<close>

definition drop_transport :: "string \<Rightarrow> conv \<Rightarrow> conv" where
  "drop_transport reason s =
     (case c_transport s of
        None \<Rightarrow> s
      | Some t \<Rightarrow> perform (TransportClose (t_id t) Close_normal reason) (s\<lparr>c_transport := None\<rparr>))"

definition settle_ready :: "conv_error \<Rightarrow> conv \<Rightarrow> conv" where
  "settle_ready e s = s\<lparr>c_ready := map_option (reject e) (c_ready s)\<rparr>"

definition close_session :: "deps \<Rightarrow> conv_error \<Rightarrow> transport_close \<Rightarrow> conv \<Rightarrow> conv" where
  "close_session d e close s =
     perform Dispose
       (settle_ready e
         (rejectWaiting e
           (setConnState d Closed None (Some close) (Some e)
             (drop_transport ''closing'' (clearTimers (s\<lparr>c_stopped := True, c_fatal := Some e\<rparr>))))))"

definition bound_str :: "bound \<Rightarrow> string" where
  "bound_str b = (case b of Finite x \<Rightarrow> num_str x | Infinite \<Rightarrow> ''Infinity'')"

text \<open>The fallback to the next transport when this one never connects.\<close>

definition fall_back :: "deps \<Rightarrow> conv \<Rightarrow> conv" where
  "fall_back d s =
     (let n = Suc (c_failuresOnTransport s) in
      if of_nat n \<ge> d_fallbackAfterAttempts d \<and> Suc (c_transportIndex s) < length (d_transports d)
      then s\<lparr>c_transportIndex := Suc (c_transportIndex s), c_failuresOnTransport := 0\<rparr>
      else s\<lparr>c_failuresOnTransport := n\<rparr>)"

definition scheduleReconnect :: "deps \<Rightarrow> env \<Rightarrow> transport_close \<Rightarrow> conv \<Rightarrow> conv" where
  "scheduleReconnect d env close s =
     (let policy = d_reconnect d in
      if \<not> enabled policy then
        close_session d (closed_error ''disconnected and reconnecting is disabled'' ''disconnected'') close s
      else
        (let s1 = s\<lparr>c_attempt := Suc (c_attempt s)\<rparr> in
         if exceeds (c_attempt s1) (maxAttempts policy) then
           close_session d
             (closed_error (''gave up after '' @ bound_str (maxAttempts policy) @ '' attempts'') ''reconnect_failed'')
             close s1
         else
           (let s2 = (if tc_opened close then s1 else fall_back d s1);
                delayMs = of_int (backoffDelay (c_attempt s2) policy (tc_retryAfterMs close) (v_random env));
                s3 = setConnState d Reconnecting (Some delayMs) (Some close) None s2
            in s3\<lparr>c_reconnectTimer := Armed delayMs ()\<rparr>)))"

definition failed_close :: "int \<Rightarrow> conv_error \<Rightarrow> transport_close" where
  "failed_close code e = \<lparr>tc_code = code, tc_reason = e_message e, tc_retryAfterMs = None, tc_opened = False\<rparr>"

text \<open>The \<open>catch\<close> of \<open>#connect\<close>, for the attempt \<open>ct\<close>.\<close>

definition connect_failed :: "deps \<Rightarrow> env \<Rightarrow> nat \<Rightarrow> conv_error \<Rightarrow> conv \<Rightarrow> conv" where
  "connect_failed d env ct e s =
     (if ct \<noteq> c_connectToken s \<or> c_stopped s then s
      else
        (let s1 = emit_event (EvError e) s in
         if e_code e \<in> {''unauthorized'', ''forbidden'', ''not_found''}
         then close_session d e (failed_close 4401 e) s1
         else scheduleReconnect d env (failed_close 1006 e) s1))"

text \<open>\<open>#connect\<close> from the access token on.\<close>

definition connect_ready :: "deps \<Rightarrow> nat \<Rightarrow> transport \<Rightarrow> active_token \<Rightarrow> conv \<Rightarrow> conv" where
  "connect_ready d ct t tok s =
     (if ct \<noteq> c_connectToken s \<or> c_stopped s then s
      else
        perform
          (TransportConnect (t_id t)
             \<lparr>p_baseUrl = d_baseUrl d, p_token = at_token tok,
              p_conversationId = (if truthy (c_conversationId s) then c_conversationId s else None),
              p_userId = (if truthy (c_userId s) then c_userId s else None),
              p_watermark = (if truthy (c_conversationId s) then Some (c_watermark s) else None)\<rparr>)
          (s\<lparr>c_transport := Some t\<rparr>))"

text \<open>\<open>#connect\<close> up to its first \<open>await\<close>.\<close>

definition make_transport :: "nat \<Rightarrow> factory \<Rightarrow> transport" where
  "make_transport i f = \<lparr>t_id = i, t_name = f_name f, t_caps = f_caps f\<rparr>"

definition connect :: "deps \<Rightarrow> env \<Rightarrow> conv \<Rightarrow> conv" where
  "connect d env s =
     (if c_stopped s then s
      else
        (let ct = Suc (c_connectToken s);
             s1 = s\<lparr>c_connectToken := ct\<rparr>;
             s2 = (if c_state s1 \<noteq> Reconnecting
                   then setConnState d (if c_welcomed s1 then Reconnecting else Connecting) None None None s1
                   else s1);
             t = make_transport ct (currentFactory d s2)
         in tokens_get env (if cap_requiresConversationId (t_caps t) then KBase ct t else KConnect ct t) s2))"

text \<open>\<open>#ensureConversationToken\<close> after its first \<open>await\<close>; without a REST call \<open>#connect\<close> goes on.\<close>

definition ensureConversationToken :: "env \<Rightarrow> nat \<Rightarrow> transport \<Rightarrow> active_token \<Rightarrow> conv \<Rightarrow> conv" where
  "ensureConversationToken env ct t base s =
     (if \<not> truthy (c_conversationId s)
      then (perform (RestCreate ct (at_token base)) s)\<lparr>c_restWaits := c_restWaits s @ [(ct, t, RCreate)]\<rparr>
      else if t_name t = ''phoenix''
         \<and> ofield (at_claims base) ''conversation_id'' \<noteq> Some (JStr (the (c_conversationId s)))
         \<and> ofield (at_claims base) ''scope'' \<noteq> Some (JStr ''channel'')
      then (perform (RestGet ct (at_token base) (the (c_conversationId s))) s)
             \<lparr>c_restWaits := c_restWaits s @ [(ct, t, RGet)]\<rparr>
      else tokens_get env (KConnect ct t) s)"

text \<open>
  \<open>#useConversationTokens\<close>: a manager whose initial token is the given one. Its constructor throws for
  an empty token.
\<close>

definition useConversationTokens :: "deps \<Rightarrow> env \<Rightarrow> string \<Rightarrow> jsnum \<Rightarrow> conv \<Rightarrow> conv_error + conv" where
  "useConversationTokens d env token expiresIn s =
     (case normalise (TokenObject \<lparr>ti_token = token, ti_expiresAt = None, ti_expiresIn = Some expiresIn\<rparr>) (v_now env) of
        Inl e \<Rightarrow> Inl e
      | Inr tok \<Rightarrow> Inr (s\<lparr>c_managers := c_managers s @ [new_token_manager (d_refreshSkewMs d) (Some tok)],
                         c_tokens := length (c_managers s)\<rparr>))"

text \<open>
  \<open>#rest(token)\<close> over the client's \<open>restFor\<close>: the given token, or the session's own. The provider of a
  manager of \<open>#useConversationTokens\<close> asks the client's tokens and then \<open>getConversation\<close>.
\<close>

type_synonym rest_for = "conv_error + string \<Rightarrow> conv_error + rest_client"

definition conv_rest :: "rest_for \<Rightarrow> conv_error + active_token \<Rightarrow> string option \<Rightarrow> conv_error + rest_client" where
  "conv_rest restFor own token = restFor (case token of Some t \<Rightarrow> Inr t | None \<Rightarrow> map_sum id at_token own)"

definition conversation_provider ::
  "rest_for \<Rightarrow> string \<Rightarrow> conv_error + active_token \<Rightarrow> conv_error + token_value" where
  "conversation_provider restFor conversationId base =
     (case base of
        Inl e \<Rightarrow> Inl e
      | Inr tok \<Rightarrow>
          (case conv_rest restFor base (Some (at_token tok)) of
             Inl e \<Rightarrow> Inl e
           | Inr rest \<Rightarrow>
               (case getConversation rest conversationId of
                  Inl e \<Rightarrow> Inl e
                | Inr r \<Rightarrow> Inr (TokenObject \<lparr>ti_token = cr_token r, ti_expiresAt = None, ti_expiresIn = Some (cr_expires_in r)\<rparr>))))"

definition continue_connect ::
  "deps \<Rightarrow> env \<Rightarrow> nat \<Rightarrow> transport \<Rightarrow> string \<Rightarrow> jsnum \<Rightarrow> conv \<Rightarrow> conv" where
  "continue_connect d env ct t token expiresIn s =
     (case useConversationTokens d env token expiresIn s of
        Inl e \<Rightarrow> connect_failed d env ct e s
      | Inr s' \<Rightarrow> tokens_get env (KConnect ct t) s')"

definition rest_answered ::
  "deps \<Rightarrow> env \<Rightarrow> nat \<Rightarrow> transport \<Rightarrow> rest_wait \<Rightarrow> conv_error + conversation_response \<Rightarrow> conv \<Rightarrow> conv" where
  "rest_answered d env ct t w ans s =
     (case ans of
        Inl e \<Rightarrow> connect_failed d env ct e s
      | Inr r \<Rightarrow>
          if w = RCreate then
            (let cid = cr_conversationId r;
                 need = needs_attach cid (c_store s);
                 s1 = s\<lparr>c_conversationId := Some cid,
                        c_store := (if need then attach_key cid (c_store s) else c_store s),
                        c_restWaits := c_restWaits s @ [(ct, t, RAttach need (cr_token r) (cr_expires_in r))]\<rparr>
             in if need then perform StoreRead s1 else s1)
          else continue_connect d env ct t (cr_token r) (cr_expires_in r) s)"

text \<open>What runs when the request of a token manager settles, or in a microtask.\<close>

definition token_continue :: "deps \<Rightarrow> env \<Rightarrow> token_wait \<Rightarrow> conv_error + active_token \<Rightarrow> conv \<Rightarrow> conv" where
  "token_continue d env k res s =
     (case k of
        KBase ct t \<Rightarrow> (case res of Inl e \<Rightarrow> connect_failed d env ct e s | Inr tok \<Rightarrow> ensureConversationToken env ct t tok s)
      | KConnect ct t \<Rightarrow> (case res of Inl e \<Rightarrow> connect_failed d env ct e s | Inr tok \<Rightarrow> connect_ready d ct t tok s)
      | KRejected \<Rightarrow> (case res of Inl e \<Rightarrow> emit_event (EvError e) s | Inr _ \<Rightarrow> s)
      | KRefresh \<Rightarrow> refresh_settled env res s
      | KExpired \<Rightarrow> s)"

definition token_settled :: "deps \<Rightarrow> env \<Rightarrow> nat \<Rightarrow> conv_error option + token_value \<Rightarrow> conv \<Rightarrow> conv" where
  "token_settled d env m answer s =
     (if m < length (c_managers s) \<and> tm_pending (c_managers s ! m) then
        (let (tm, res) = fetch_settled answer (v_now env) (c_managers s ! m);
             ks = map snd (filter (\<lambda>w. fst w = m) (c_tokenWaits s));
             s1 = s\<lparr>c_managers := (c_managers s)[m := tm],
                    c_tokenWaits := filter (\<lambda>w. fst w \<noteq> m) (c_tokenWaits s)\<rparr>
         in fold (\<lambda>k. token_continue d env k res) ks s1)
      else s)"

definition close_code_name :: "int \<Rightarrow> string" where
  "close_code_name code =
     (if code = Close_unsupportedProtocol then ''unsupported_protocol''
      else if code = Close_forbidden then ''channel_inactive''
      else ''conversation_not_found'')"

definition onClose :: "deps \<Rightarrow> env \<Rightarrow> transport_close \<Rightarrow> conv \<Rightarrow> conv" where
  "onClose d env close s =
     (let s1 = endReplay env False (s\<lparr>c_transport := None, c_inFlight := []\<rparr>);
          s2 = s1\<lparr>c_refreshTimer := clear_timeout (c_refreshTimer s1),
                  c_gapTimer := clear_timeout (c_gapTimer s1),
                  c_syncTimer := clear_timeout (c_syncTimer s1)\<rparr>
      in if c_stopped s2 then s2
         else if tc_code close \<in> set FATAL_CLOSE_CODES then
           (let name = close_code_name (tc_code close) in
            close_session d (closed_error (if tc_reason close = [] then name else tc_reason close) name) close s2)
         else if tc_code close = Close_unauthorized then
           (let s3 = s2\<lparr>c_authRejections := Suc (c_authRejections s2)\<rparr> in
            if c_authRejections s3 > MAX_AUTH_REJECTIONS
            then close_session d (closed_error ''the server keeps rejecting fresh tokens'' ''unauthorized'') close s3
            else scheduleReconnect d env close (tokens_fetch Rejected KRejected s3))
         else scheduleReconnect d env close s2)"

section \<open>Frames\<close>

definition welcome_maxInFlight :: "welcome_data \<Rightarrow> jsnum option" where
  "welcome_maxInFlight w =
     (case as_num (ofield (w_limits w) ''maxInFlight'') of Some n \<Rightarrow> if n > 0 then Some n else None | None \<Rightarrow> None)"

text \<open>The identity part of \<open>#onWelcome\<close>: conversation, user, limits; a replaced conversation resets the watermark.\<close>

definition welcome_identity :: "welcome_data \<Rightarrow> conv \<Rightarrow> conv" where
  "welcome_identity w s =
     (let asserted = c_conversationId s;
          s1 = (if truthy asserted \<and> w_conversationId w \<noteq> [] \<and> Some (w_conversationId w) \<noteq> asserted
                then s\<lparr>c_watermark := 0, c_seen := []\<rparr> else s)
      in s1\<lparr>c_conversationId := (if w_conversationId w \<noteq> [] then Some (w_conversationId w) else asserted),
            c_userId := (if truthy (w_userId w) then w_userId w else c_userId s),
            c_maxInFlight := or_default (welcome_maxInFlight w) (c_maxInFlight s)\<rparr>)"

definition welcome_replay :: "deps \<Rightarrow> welcome_data \<Rightarrow> conv \<Rightarrow> conv" where
  "welcome_replay d w s =
     (case w_watermark w of
        Some head \<Rightarrow>
          if head > c_watermark s
          then armReplayTimer d (s\<lparr>c_replaying := True, c_replayTarget := head\<rparr>)
          else s\<lparr>c_replaying := False\<rparr>
      | None \<Rightarrow> s\<lparr>c_replaying := False\<rparr>)"

text \<open>\<open>this.#deps.store.attach(id)\<close> up to its \<open>await\<close>; the continuation is \<open>welcome_attached\<close>.\<close>

definition welcome_attach :: "conv \<Rightarrow> conv" where
  "welcome_attach s =
     (if truthy (c_conversationId s) \<and> needs_attach (the (c_conversationId s)) (c_store s)
      then perform StoreRead
             (s\<lparr>c_store := attach_key (the (c_conversationId s)) (c_store s), c_attaching := c_attaching s @ [True]\<rparr>)
      else s\<lparr>c_attaching := c_attaching s @ [False]\<rparr>)"

definition onWelcome :: "deps \<Rightarrow> env \<Rightarrow> welcome_data \<Rightarrow> conv \<Rightarrow> conv" where
  "onWelcome d env w s =
     (let s1 = welcome_identity w s;
          s2 = with_tokens (setExpiry (w_expiresAt w) (the_tokens s1)) s1;
          s3 = s2\<lparr>c_lastWelcome := Some w, c_welcomed := True, c_attempt := 0,
                  c_failuresOnTransport := 0, c_authRejections := 0\<rparr>;
          s4 = welcome_replay d w (scheduleRefresh env (saveState s3));
          s5 = emit_event (EvWelcome w) (setConnState d Open None None None (welcome_attach s4))
      in s5\<lparr>c_ready := map_option (resolve w) (c_ready s5)\<rparr>)"

definition welcome_attached :: "env \<Rightarrow> bool \<Rightarrow> string option \<Rightarrow> conv \<Rightarrow> conv" where
  "welcome_attached env need raw s =
     flush env (saveState (if need then with_store (attach_load raw) s else s))"

definition onReplayTruncated :: "deps \<Rightarrow> env \<Rightarrow> replay_truncated \<Rightarrow> conv \<Rightarrow> conv" where
  "onReplayTruncated d env r s =
     (let s1 = emit_event (EvReplayTruncated r) s;
          s2 = armReplayTimer d (s1\<lparr>c_replaying := True, c_replayTarget := rt_headSeq r\<rparr>)
      in snd (transport_send env (Sync (min (c_watermark s2) (rt_watermark r))) s2))"

definition onTokenRefreshed :: "env \<Rightarrow> jsnum option \<Rightarrow> conv \<Rightarrow> conv" where
  "onTokenRefreshed env expiresAt s =
     scheduleRefresh env (with_tokens (setExpiry expiresAt (the_tokens s)) s)"

definition onHeartbeat :: "deps \<Rightarrow> int option \<Rightarrow> conv \<Rightarrow> conv" where
  "onHeartbeat d head s =
     (case head of Some h \<Rightarrow> if h > c_watermark s then checkGap d h s else s | None \<Rightarrow> s)"

definition onMessage :: "deps \<Rightarrow> env \<Rightarrow> activity_frame \<Rightarrow> conv \<Rightarrow> conv" where
  "onMessage d env a s =
     (if isPersistent a then onPersistent d env a s
      else if a_type a = ''typing'' then emit_event (EvTyping a) s
      else s)"

definition onFrame :: "deps \<Rightarrow> env \<Rightarrow> server_frame \<Rightarrow> conv \<Rightarrow> conv" where
  "onFrame d env frame s =
     (case frame of
        Welcome w \<Rightarrow> onWelcome d env w s
      | Ack a \<Rightarrow> onAck env a s
      | Error e \<Rightarrow> onError env e s
      | DeliveryStatus j \<Rightarrow> emit_event (EvDeliveryStatus j) s
      | Presence j \<Rightarrow> emit_event (EvPresence j) s
      | TokenRefreshed e \<Rightarrow> onTokenRefreshed env e s
      | ReplayTruncated r \<Rightarrow> onReplayTruncated d env r s
      | Heartbeat h \<Rightarrow> onHeartbeat d h s
      | Message a \<Rightarrow> onMessage d env a s)"

section \<open>Public API\<close>

definition open_session :: "deps \<Rightarrow> env \<Rightarrow> conv \<Rightarrow> conv" where
  "open_session d env s = connect d env (s\<lparr>c_ready := Some Pending\<rparr>)"

definition already_started :: conv_error where
  "already_started = converger_error ''already_started'' ''start() or resume() was already called''"

definition start :: "deps \<Rightarrow> env \<Rightarrow> conv \<Rightarrow> conv" where
  "start d env s =
     (if c_started s then perform (CallRejected already_started) s
      else open_session d env (s\<lparr>c_started := True, c_conversationId := None\<rparr>))"

text \<open>\<open>resume\<close> up to \<open>await this.#deps.store.load()\<close>, and after it.\<close>

definition resume :: "jsnum option \<Rightarrow> conv \<Rightarrow> conv" where
  "resume wm s =
     (if c_started s then perform (CallRejected already_started) s
      else if \<not> truthy (c_conversationId s) then
        perform (CallRejected (converger_error ''no_conversation'' ''resume() needs a conversation id: client.conversation(id)'')) s
      else perform StoreRead (s\<lparr>c_started := True, c_loading := c_loading s @ [wm]\<rparr>))"

definition resume_restore :: "string option \<Rightarrow> conv \<Rightarrow> conv" where
  "resume_restore raw s =
     (let s1 = (if st_key (c_store s) = None then s else with_store (load_merge raw) s) in
      case st_state (c_store s1) of
        Some r \<Rightarrow> if truthy (rs_userId r) then s1\<lparr>c_userId := rs_userId r\<rparr> else s1
      | None \<Rightarrow> s1)"

definition invalid_watermark :: conv_error where
  "invalid_watermark = converger_error ''invalid_watermark'' ''the watermark must be a non-negative integer''"

definition resume_watermark :: "jsnum option \<Rightarrow> conv \<Rightarrow> conv_error + int" where
  "resume_watermark wm s =
     (case wm of
        Some w \<Rightarrow> if \<not> is_integer w \<or> w < 0 then Inl invalid_watermark else Inr \<lfloor>w\<rfloor>
      | None \<Rightarrow>
          (case st_state (c_store s) of
             Some r \<Rightarrow> if Some (rs_conversationId r) = c_conversationId s then Inr (rs_watermark r) else Inr (c_watermark s)
           | None \<Rightarrow> Inr (c_watermark s)))"

definition resume_loaded :: "deps \<Rightarrow> env \<Rightarrow> jsnum option \<Rightarrow> string option \<Rightarrow> conv \<Rightarrow> conv" where
  "resume_loaded d env wm raw s =
     (let s1 = resume_restore raw s in
      case resume_watermark wm s1 of
        Inl e \<Rightarrow> perform (CallRejected e) s1
      | Inr w \<Rightarrow> open_session d env (s1\<lparr>c_watermark := w\<rparr>))"

definition text_frame :: "string \<Rightarrow> send_message \<Rightarrow> string \<Rightarrow> client_message" where
  "text_frame cid m text =
     \<lparr>m_clientId = Some cid, m_text = text, m_attachments = sm_attachments m, m_metadata = sm_metadata m,
      m_meta = sm_meta m, m_replyTo = (if truthy (sm_replyTo m) then sm_replyTo m else None)\<rparr>"

text \<open>Why \<open>send\<close> refuses a message at once.\<close>

definition send_refused :: "send_message \<Rightarrow> string \<Rightarrow> conv \<Rightarrow> conv_error option" where
  "send_refused m cid s =
     (case c_fatal s of
        Some e \<Rightarrow> Some e
      | None \<Rightarrow>
          if sm_text m = None then Some (converger_error ''invalid_message'' ''text must be a string'')
          else if \<not> CLIENT_ID cid then
            Some (converger_error ''invalid_client_id'' ''clientId must be 1-128 of A-Z a-z 0-9 . _ : ~ -'')
          else if store_get cid (c_store s) \<noteq> None \<or> cid \<in> set (c_waiting s) then
            Some (converger_error ''duplicate_client_id'' (''clientId '' @ cid @ '' is already pending''))
          else None)"

definition send_accepted :: "env \<Rightarrow> send_message \<Rightarrow> string \<Rightarrow> string \<Rightarrow> conv \<Rightarrow> conv" where
  "send_accepted env m cid text s =
     flush env
       (with_store (store_add \<lparr>oe_clientId = cid, oe_frame = text_frame cid m text,
                               oe_createdAt = \<lfloor>v_now env\<rfloor>, oe_attempts = 0\<rparr>)
         (perform (SendPending cid) (s\<lparr>c_waiting := set_add cid (c_waiting s)\<rparr>)))"

text \<open>\<open>generated\<close> is the value of \<open>randomClientId()\<close>.\<close>

definition send :: "env \<Rightarrow> send_message \<Rightarrow> string \<Rightarrow> conv \<Rightarrow> conv" where
  "send env m generated s =
     (let cid = or_default (sm_clientId m) generated in
      case send_refused m cid s of
        Some e \<Rightarrow> perform (CallRejected e) s
      | None \<Rightarrow> send_accepted env m cid (the (sm_text m)) s)"

definition can_signal :: "conv \<Rightarrow> bool" where
  "can_signal s \<longleftrightarrow>
     c_state s = Open \<and> (case c_transport s of Some t \<Rightarrow> cap_signals (t_caps t) | None \<Rightarrow> False)"

definition send_signal :: "env \<Rightarrow> client_frame \<Rightarrow> conv \<Rightarrow> conv" where
  "send_signal env frame s = (let (sent, s') = transport_send env frame s in perform (Returned sent) s')"

definition typing :: "env \<Rightarrow> bool \<Rightarrow> conv \<Rightarrow> conv" where
  "typing env isTyping s =
     (if \<not> can_signal s then perform (Returned False) s else send_signal env (Typing isTyping) s)"

definition markRead :: "env \<Rightarrow> int option \<Rightarrow> conv \<Rightarrow> conv" where
  "markRead env arg s =
     (let seq = or_default arg (c_watermark s) in
      if seq < 1 \<or> \<not> can_signal s then perform (Returned False) s else send_signal env (Read seq) s)"

definition disconnect :: "deps \<Rightarrow> conv \<Rightarrow> conv" where
  "disconnect d s =
     (let s1 = setConnState d Closed None None None
                 (drop_transport ''client disconnect'' (clearTimers (s\<lparr>c_stopped := True\<rparr>)));
          s2 = rejectWaiting (closed_error ''disconnected; the message stays in the outbox'' ''disconnected'') s1;
          s3 = settle_ready (closed_error ''disconnected before the session was established'' ''disconnected'') s2
      in s3\<lparr>c_flushing := Suc (c_flushing s3)\<rparr>)"

definition discardOutbox :: "conv \<Rightarrow> conv" where
  "discardOutbox s =
     rejectWaiting (converger_error ''discarded'' ''the outbox was discarded'')
       (with_store (\<lambda>st. fold (\<lambda>e. store_remove (oe_clientId e)) (st_entries st) st) s)"

text \<open>
  The REST calls of the session, with \<open>own\<close> the result of awaiting its tokens; none of them changes
  the session.
\<close>

definition requireId :: "conv \<Rightarrow> conv_error + string" where
  "requireId s =
     (if truthy (c_conversationId s) then Inr (the (c_conversationId s))
      else Inl (converger_error ''no_conversation'' ''the conversation has no id yet; await start()''))"

definition with_rest :: "rest_for \<Rightarrow> conv_error + active_token \<Rightarrow> conv \<Rightarrow> (rest_client \<Rightarrow> string \<Rightarrow> conv_error + 'a) \<Rightarrow> conv_error + 'a" where
  "with_rest restFor own s f =
     (case conv_rest restFor own None of
        Inl e \<Rightarrow> Inl e
      | Inr rest \<Rightarrow> (case requireId s of Inl e \<Rightarrow> Inl e | Inr cid \<Rightarrow> f rest cid))"

definition conv_history ::
  "rest_for \<Rightarrow> conv_error + active_token \<Rightarrow> nat option \<Rightarrow> json option \<Rightarrow> conv \<Rightarrow> conv_error + (activity_set list \<times> conv_error option) option" where
  "conv_history restFor own limit watermark s =
     with_rest restFor own s (\<lambda>rest cid. Inr (history rest cid limit watermark))"

definition conv_upload ::
  "rest_for \<Rightarrow> conv_error + active_token \<Rightarrow> blob \<Rightarrow> string option \<Rightarrow> json option \<Rightarrow> conv \<Rightarrow> conv_error + json" where
  "conv_upload restFor own file filename activity s =
     with_rest restFor own s (\<lambda>rest cid. upload rest cid file filename activity)"

definition conv_closeConversation :: "rest_for \<Rightarrow> conv_error + active_token \<Rightarrow> conv \<Rightarrow> conv_error + json" where
  "conv_closeConversation restFor own s = with_rest restFor own s closeConversation"

definition conv_reopenConversation :: "rest_for \<Rightarrow> conv_error + active_token \<Rightarrow> conv \<Rightarrow> conv_error + json" where
  "conv_reopenConversation restFor own s = with_rest restFor own s reopenConversation"

section \<open>Inputs\<close>

datatype conv_input =
    CallStart
  | CallResume "jsnum option"
  | CallSend send_message string
  | CallTyping bool
  | CallMarkRead "int option"
  | CallDisconnect
  | CallDiscardOutbox
  | StoreLoaded "jsnum option" "string option"
  | WelcomeAttached bool "string option"
  | StoreFlushed
  | Microtask
  | TokenSettled nat "conv_error option + token_value"
  | SharedGet
  | RestAnswered nat "conv_error + conversation_response"
  | CreatedAttached nat "string option"
  | FrameIn nat server_frame
  | CloseIn nat transport_close
  | ReconnectFires
  | RefreshFires
  | ReplayFires
  | GapFires
  | SyncFires
  | RetryFires

definition is_attach :: "rest_wait \<Rightarrow> bool" where
  "is_attach w = (case w of RAttach _ _ _ \<Rightarrow> True | _ \<Rightarrow> False)"

text \<open>
  A callback runs only when the code has registered it: a promise only while it is pending, a timer
  while it is armed, the handlers of a transport only while it is the current one. \<open>SharedGet\<close> is
  another holder of the client's token manager calling \<open>get\<close>.
\<close>

definition current_transport :: "nat \<Rightarrow> conv \<Rightarrow> bool" where
  "current_transport i s = (case c_transport s of Some t \<Rightarrow> t_id t = i | None \<Rightarrow> False)"

fun timer_value :: "'a timer \<Rightarrow> 'a option" where
  "timer_value (Armed d x) = Some x"
| "timer_value _ = None"

definition microtask :: "deps \<Rightarrow> env \<Rightarrow> conv \<Rightarrow> conv" where
  "microtask d env s =
     (case c_microtasks s of
        [] \<Rightarrow> s
      | (k, tok) # ms \<Rightarrow> token_continue d env k (Inr tok) (s\<lparr>c_microtasks := ms\<rparr>))"

definition rest_step :: "deps \<Rightarrow> env \<Rightarrow> nat \<Rightarrow> conv_error + conversation_response \<Rightarrow> conv \<Rightarrow> conv" where
  "rest_step d env ct ans s =
     (case find (\<lambda>(ct', t, w). ct' = ct \<and> \<not> is_attach w) (c_restWaits s) of
        None \<Rightarrow> s
      | Some (ct', t, w) \<Rightarrow>
          rest_answered d env ct t w ans (s\<lparr>c_restWaits := remove1 (ct', t, w) (c_restWaits s)\<rparr>))"

definition attach_step :: "deps \<Rightarrow> env \<Rightarrow> nat \<Rightarrow> string option \<Rightarrow> conv \<Rightarrow> conv" where
  "attach_step d env ct raw s =
     (case find (\<lambda>(ct', t, w). ct' = ct \<and> is_attach w) (c_restWaits s) of
        Some (ct', t, RAttach need token expiresIn) \<Rightarrow>
          (let s1 = s\<lparr>c_restWaits := remove1 (ct', t, RAttach need token expiresIn) (c_restWaits s)\<rparr>;
               s2 = (if need then with_store (attach_load raw) s1 else s1)
           in continue_connect d env ct t token expiresIn s2)
      | _ \<Rightarrow> s)"

definition shared_get :: "env \<Rightarrow> conv \<Rightarrow> conv" where
  "shared_get env s =
     (case c_managers s of
        [] \<Rightarrow> s
      | tm # tms \<Rightarrow>
          (case get (v_now env) tm of
             (_, tm', os) \<Rightarrow> s\<lparr>c_managers := tm' # tms, c_out := c_out s @ token_requests 0 os\<rparr>))"

fun step :: "deps \<Rightarrow> env \<times> conv_input \<Rightarrow> conv \<Rightarrow> conv" where
  "step d (env, CallStart) s = start d env s"
| "step d (env, CallResume wm) s = resume wm s"
| "step d (env, CallSend m g) s = send env m g s"
| "step d (env, CallTyping b) s = typing env b s"
| "step d (env, CallMarkRead q) s = markRead env q s"
| "step d (env, CallDisconnect) s = disconnect d s"
| "step d (env, CallDiscardOutbox) s = discardOutbox s"
| "step d (env, StoreLoaded wm raw) s =
     (if wm \<in> set (c_loading s) then resume_loaded d env wm raw (s\<lparr>c_loading := remove1 wm (c_loading s)\<rparr>) else s)"
| "step d (env, WelcomeAttached need raw) s =
     (if need \<in> set (c_attaching s)
      then welcome_attached env need raw (s\<lparr>c_attaching := remove1 need (c_attaching s)\<rparr>) else s)"
| "step d (env, StoreFlushed) s =
     (if 0 < c_flushing s then perform Dispose (s\<lparr>c_flushing := c_flushing s - 1\<rparr>) else s)"
| "step d (env, Microtask) s = microtask d env s"
| "step d (env, TokenSettled m ans) s = token_settled d env m ans s"
| "step d (env, SharedGet) s = shared_get env s"
| "step d (env, RestAnswered ct ans) s = rest_step d env ct ans s"
| "step d (env, CreatedAttached ct raw) s = attach_step d env ct raw s"
| "step d (env, FrameIn i frame) s = (if current_transport i s then onFrame d env frame s else s)"
| "step d (env, CloseIn i close) s = (if current_transport i s then onClose d env close s else s)"
| "step d (env, ReconnectFires) s =
     (if timer_value (c_reconnectTimer s) \<noteq> None then connect d env (s\<lparr>c_reconnectTimer := Spent\<rparr>) else s)"
| "step d (env, RefreshFires) s =
     (if timer_value (c_refreshTimer s) \<noteq> None then refresh (s\<lparr>c_refreshTimer := Spent\<rparr>) else s)"
| "step d (env, ReplayFires) s =
     (if timer_value (c_replayTimer s) \<noteq> None then endReplay env True s else s)"
| "step d (env, GapFires) s =
     (case timer_value (c_gapTimer s) of Some h \<Rightarrow> gap_fires env h s | None \<Rightarrow> s)"
| "step d (env, SyncFires) s =
     (case timer_value (c_syncTimer s) of Some h \<Rightarrow> sync_fires env h s | None \<Rightarrow> s)"
| "step d (env, RetryFires) s =
     (if timer_value (c_retryTimer s) \<noteq> None then retry_fires env s else s)"

end
