(* ===== verification/Conv_Fields.thy ===== *)
theory Conv_Fields
  imports Conversation
begin

text \<open>
  Which fields of a session each operation leaves alone. The invariants of the following theories
  are proved by these frame rules and the equations of the fields an operation does change.
\<close>

lemmas effects = perform_def emit_event_def with_store_def

lemma perform_fields [simp]:
  "c_conversationId (perform e s) = c_conversationId s" "c_userId (perform e s) = c_userId s"
  "c_watermark (perform e s) = c_watermark s" "c_seen (perform e s) = c_seen s"
  "c_ownSeqs (perform e s) = c_ownSeqs s" "c_ownIds (perform e s) = c_ownIds s"
  "c_state (perform e s) = c_state s" "c_transport (perform e s) = c_transport s"
  "c_transportIndex (perform e s) = c_transportIndex s"
  "c_failuresOnTransport (perform e s) = c_failuresOnTransport s" "c_attempt (perform e s) = c_attempt s"
  "c_authRejections (perform e s) = c_authRejections s" "c_stopped (perform e s) = c_stopped s"
  "c_started (perform e s) = c_started s" "c_welcomed (perform e s) = c_welcomed s"
  "c_connectToken (perform e s) = c_connectToken s" "c_reconnectTimer (perform e s) = c_reconnectTimer s"
  "c_refreshTimer (perform e s) = c_refreshTimer s" "c_replayTimer (perform e s) = c_replayTimer s"
  "c_gapTimer (perform e s) = c_gapTimer s" "c_syncTimer (perform e s) = c_syncTimer s"
  "c_replaying (perform e s) = c_replaying s" "c_replayTarget (perform e s) = c_replayTarget s"
  "c_maxInFlight (perform e s) = c_maxInFlight s" "c_inFlight (perform e s) = c_inFlight s"
  "c_retryAt (perform e s) = c_retryAt s" "c_retryTimer (perform e s) = c_retryTimer s"
  "c_waiting (perform e s) = c_waiting s" "c_ready (perform e s) = c_ready s"
  "c_lastWelcome (perform e s) = c_lastWelcome s" "c_fatal (perform e s) = c_fatal s"
  "c_store (perform e s) = c_store s" "c_managers (perform e s) = c_managers s"
  "c_tokens (perform e s) = c_tokens s" "c_tokenWaits (perform e s) = c_tokenWaits s"
  "c_microtasks (perform e s) = c_microtasks s" "c_restWaits (perform e s) = c_restWaits s"
  "c_loading (perform e s) = c_loading s" "c_attaching (perform e s) = c_attaching s"
  "c_flushing (perform e s) = c_flushing s"
  by (simp_all add: perform_def)

lemma emit_event_fields [simp]:
  "c_conversationId (emit_event e s) = c_conversationId s" "c_userId (emit_event e s) = c_userId s"
  "c_watermark (emit_event e s) = c_watermark s" "c_seen (emit_event e s) = c_seen s"
  "c_ownSeqs (emit_event e s) = c_ownSeqs s" "c_ownIds (emit_event e s) = c_ownIds s"
  "c_state (emit_event e s) = c_state s" "c_transport (emit_event e s) = c_transport s"
  "c_transportIndex (emit_event e s) = c_transportIndex s"
  "c_failuresOnTransport (emit_event e s) = c_failuresOnTransport s"
  "c_attempt (emit_event e s) = c_attempt s" "c_authRejections (emit_event e s) = c_authRejections s"
  "c_stopped (emit_event e s) = c_stopped s" "c_started (emit_event e s) = c_started s"
  "c_welcomed (emit_event e s) = c_welcomed s" "c_connectToken (emit_event e s) = c_connectToken s"
  "c_reconnectTimer (emit_event e s) = c_reconnectTimer s"
  "c_refreshTimer (emit_event e s) = c_refreshTimer s" "c_replayTimer (emit_event e s) = c_replayTimer s"
  "c_gapTimer (emit_event e s) = c_gapTimer s" "c_syncTimer (emit_event e s) = c_syncTimer s"
  "c_replaying (emit_event e s) = c_replaying s" "c_replayTarget (emit_event e s) = c_replayTarget s"
  "c_maxInFlight (emit_event e s) = c_maxInFlight s" "c_inFlight (emit_event e s) = c_inFlight s"
  "c_retryAt (emit_event e s) = c_retryAt s" "c_retryTimer (emit_event e s) = c_retryTimer s"
  "c_waiting (emit_event e s) = c_waiting s" "c_ready (emit_event e s) = c_ready s"
  "c_lastWelcome (emit_event e s) = c_lastWelcome s" "c_fatal (emit_event e s) = c_fatal s"
  "c_store (emit_event e s) = c_store s" "c_managers (emit_event e s) = c_managers s"
  "c_tokens (emit_event e s) = c_tokens s" "c_tokenWaits (emit_event e s) = c_tokenWaits s"
  "c_microtasks (emit_event e s) = c_microtasks s" "c_restWaits (emit_event e s) = c_restWaits s"
  "c_loading (emit_event e s) = c_loading s" "c_attaching (emit_event e s) = c_attaching s"
  "c_flushing (emit_event e s) = c_flushing s"
  by (simp_all add: emit_event_def)

lemma with_store_fields [simp]:
  "c_conversationId (with_store f s) = c_conversationId s" "c_userId (with_store f s) = c_userId s"
  "c_watermark (with_store f s) = c_watermark s" "c_seen (with_store f s) = c_seen s"
  "c_ownSeqs (with_store f s) = c_ownSeqs s" "c_ownIds (with_store f s) = c_ownIds s"
  "c_state (with_store f s) = c_state s" "c_transport (with_store f s) = c_transport s"
  "c_transportIndex (with_store f s) = c_transportIndex s"
  "c_failuresOnTransport (with_store f s) = c_failuresOnTransport s"
  "c_attempt (with_store f s) = c_attempt s" "c_authRejections (with_store f s) = c_authRejections s"
  "c_stopped (with_store f s) = c_stopped s" "c_started (with_store f s) = c_started s"
  "c_welcomed (with_store f s) = c_welcomed s" "c_connectToken (with_store f s) = c_connectToken s"
  "c_reconnectTimer (with_store f s) = c_reconnectTimer s"
  "c_refreshTimer (with_store f s) = c_refreshTimer s" "c_replayTimer (with_store f s) = c_replayTimer s"
  "c_gapTimer (with_store f s) = c_gapTimer s" "c_syncTimer (with_store f s) = c_syncTimer s"
  "c_replaying (with_store f s) = c_replaying s" "c_replayTarget (with_store f s) = c_replayTarget s"
  "c_maxInFlight (with_store f s) = c_maxInFlight s" "c_inFlight (with_store f s) = c_inFlight s"
  "c_retryAt (with_store f s) = c_retryAt s" "c_retryTimer (with_store f s) = c_retryTimer s"
  "c_waiting (with_store f s) = c_waiting s" "c_ready (with_store f s) = c_ready s"
  "c_lastWelcome (with_store f s) = c_lastWelcome s" "c_fatal (with_store f s) = c_fatal s"
  "c_managers (with_store f s) = c_managers s" "c_tokens (with_store f s) = c_tokens s"
  "c_tokenWaits (with_store f s) = c_tokenWaits s" "c_microtasks (with_store f s) = c_microtasks s"
  "c_restWaits (with_store f s) = c_restWaits s" "c_loading (with_store f s) = c_loading s"
  "c_attaching (with_store f s) = c_attaching s" "c_flushing (with_store f s) = c_flushing s"
  "c_out (with_store f s) = c_out s"
  by (simp_all add: with_store_def)

lemma transport_send_fields [simp]:
  "c_conversationId (snd (transport_send env f s)) = c_conversationId s"
  "c_userId (snd (transport_send env f s)) = c_userId s"
  "c_watermark (snd (transport_send env f s)) = c_watermark s"
  "c_seen (snd (transport_send env f s)) = c_seen s"
  "c_ownSeqs (snd (transport_send env f s)) = c_ownSeqs s"
  "c_ownIds (snd (transport_send env f s)) = c_ownIds s"
  "c_state (snd (transport_send env f s)) = c_state s"
  "c_transport (snd (transport_send env f s)) = c_transport s"
  "c_transportIndex (snd (transport_send env f s)) = c_transportIndex s"
  "c_failuresOnTransport (snd (transport_send env f s)) = c_failuresOnTransport s"
  "c_attempt (snd (transport_send env f s)) = c_attempt s"
  "c_authRejections (snd (transport_send env f s)) = c_authRejections s"
  "c_stopped (snd (transport_send env f s)) = c_stopped s"
  "c_started (snd (transport_send env f s)) = c_started s"
  "c_welcomed (snd (transport_send env f s)) = c_welcomed s"
  "c_connectToken (snd (transport_send env f s)) = c_connectToken s"
  "c_reconnectTimer (snd (transport_send env f s)) = c_reconnectTimer s"
  "c_refreshTimer (snd (transport_send env f s)) = c_refreshTimer s"
  "c_replayTimer (snd (transport_send env f s)) = c_replayTimer s"
  "c_gapTimer (snd (transport_send env f s)) = c_gapTimer s"
  "c_syncTimer (snd (transport_send env f s)) = c_syncTimer s"
  "c_replaying (snd (transport_send env f s)) = c_replaying s"
  "c_replayTarget (snd (transport_send env f s)) = c_replayTarget s"
  "c_maxInFlight (snd (transport_send env f s)) = c_maxInFlight s"
  "c_inFlight (snd (transport_send env f s)) = c_inFlight s"
  "c_retryAt (snd (transport_send env f s)) = c_retryAt s"
  "c_retryTimer (snd (transport_send env f s)) = c_retryTimer s"
  "c_waiting (snd (transport_send env f s)) = c_waiting s"
  "c_ready (snd (transport_send env f s)) = c_ready s"
  "c_lastWelcome (snd (transport_send env f s)) = c_lastWelcome s"
  "c_fatal (snd (transport_send env f s)) = c_fatal s" "c_store (snd (transport_send env f s)) = c_store s"
  "c_managers (snd (transport_send env f s)) = c_managers s"
  "c_tokens (snd (transport_send env f s)) = c_tokens s"
  "c_tokenWaits (snd (transport_send env f s)) = c_tokenWaits s"
  "c_microtasks (snd (transport_send env f s)) = c_microtasks s"
  "c_restWaits (snd (transport_send env f s)) = c_restWaits s"
  "c_loading (snd (transport_send env f s)) = c_loading s"
  "c_attaching (snd (transport_send env f s)) = c_attaching s"
  "c_flushing (snd (transport_send env f s)) = c_flushing s"
  by (simp_all add: transport_send_def effects split: option.split)

lemma saveState_fields [simp]:
  "c_conversationId (saveState s) = c_conversationId s" "c_userId (saveState s) = c_userId s"
  "c_watermark (saveState s) = c_watermark s" "c_seen (saveState s) = c_seen s"
  "c_ownSeqs (saveState s) = c_ownSeqs s" "c_ownIds (saveState s) = c_ownIds s"
  "c_state (saveState s) = c_state s" "c_transport (saveState s) = c_transport s"
  "c_transportIndex (saveState s) = c_transportIndex s"
  "c_failuresOnTransport (saveState s) = c_failuresOnTransport s" "c_attempt (saveState s) = c_attempt s"
  "c_authRejections (saveState s) = c_authRejections s" "c_stopped (saveState s) = c_stopped s"
  "c_started (saveState s) = c_started s" "c_welcomed (saveState s) = c_welcomed s"
  "c_connectToken (saveState s) = c_connectToken s" "c_reconnectTimer (saveState s) = c_reconnectTimer s"
  "c_refreshTimer (saveState s) = c_refreshTimer s" "c_replayTimer (saveState s) = c_replayTimer s"
  "c_gapTimer (saveState s) = c_gapTimer s" "c_syncTimer (saveState s) = c_syncTimer s"
  "c_replaying (saveState s) = c_replaying s" "c_replayTarget (saveState s) = c_replayTarget s"
  "c_maxInFlight (saveState s) = c_maxInFlight s" "c_inFlight (saveState s) = c_inFlight s"
  "c_retryAt (saveState s) = c_retryAt s" "c_retryTimer (saveState s) = c_retryTimer s"
  "c_waiting (saveState s) = c_waiting s" "c_ready (saveState s) = c_ready s"
  "c_lastWelcome (saveState s) = c_lastWelcome s" "c_fatal (saveState s) = c_fatal s"
  "c_managers (saveState s) = c_managers s" "c_tokens (saveState s) = c_tokens s"
  "c_tokenWaits (saveState s) = c_tokenWaits s" "c_microtasks (saveState s) = c_microtasks s"
  "c_restWaits (saveState s) = c_restWaits s" "c_loading (saveState s) = c_loading s"
  "c_attaching (saveState s) = c_attaching s" "c_flushing (saveState s) = c_flushing s"
  "c_out (saveState s) = c_out s"
  by (simp_all add: saveState_def effects)

lemma flush_entries_shape:
  "\<exists>r f st os. flush_entries env es s = s\<lparr>c_retryAt := r, c_inFlight := f, c_store := st, c_out := c_out s @ os\<rparr>"
proof (induction es arbitrary: s)
  case Nil
  have "flush_entries env [] s =
      s\<lparr>c_retryAt := c_retryAt s, c_inFlight := c_inFlight s, c_store := c_store s, c_out := c_out s @ []\<rparr>"
    by simp
  then show ?case by blast
next
  case (Cons e es)
  have same: "\<exists>r f st os. s = s\<lparr>c_retryAt := r, c_inFlight := f, c_store := st, c_out := c_out s @ os\<rparr>"
    by (rule exI [of _ "c_retryAt s"], rule exI [of _ "c_inFlight s"], rule exI [of _ "c_store s"], rule exI [of _ "[]"]) simp
  define s1 where "s1 = s\<lparr>c_retryAt := AList.delete (oe_clientId e) (c_retryAt s)\<rparr>"
  have stop: "\<exists>r f st os. s1 = s\<lparr>c_retryAt := r, c_inFlight := f, c_store := st, c_out := c_out s @ os\<rparr>"
    by (rule exI [of _ "c_retryAt s1"], rule exI [of _ "c_inFlight s"], rule exI [of _ "c_store s"], rule exI [of _ "[]"])
      (simp add: s1_def)
  have go: "\<exists>r f st os. flush_entries env es (with_store g (perform w s1\<lparr>c_inFlight := i\<rparr>))
      = s\<lparr>c_retryAt := r, c_inFlight := f, c_store := st, c_out := c_out s @ os\<rparr>" for g w i
  proof -
    obtain r f st os where "flush_entries env es (with_store g (perform w s1\<lparr>c_inFlight := i\<rparr>))
        = (with_store g (perform w s1\<lparr>c_inFlight := i\<rparr>))\<lparr>c_retryAt := r, c_inFlight := f, c_store := st,
             c_out := c_out (with_store g (perform w s1\<lparr>c_inFlight := i\<rparr>)) @ os\<rparr>"
      using Cons.IH by blast
    then have "flush_entries env es (with_store g (perform w s1\<lparr>c_inFlight := i\<rparr>))
        = s\<lparr>c_retryAt := r, c_inFlight := f, c_store := st, c_out := c_out s @ (w # os)\<rparr>"
      by (simp add: effects s1_def)
    then show ?thesis by blast
  qed
  show ?case
    using same stop go Cons.IH [of s]
    by (simp add: Let_def transport_send_def s1_def [symmetric] split: option.split)
qed

lemma flush_shape:
  "\<exists>r f st os. flush env s = s\<lparr>c_retryAt := r, c_inFlight := f, c_store := st, c_out := c_out s @ os\<rparr>"
proof (cases "c_state s \<noteq> Open \<or> c_transport s = None \<or> c_replaying s")
  case True
  then have "flush env s =
      s\<lparr>c_retryAt := c_retryAt s, c_inFlight := c_inFlight s, c_store := c_store s, c_out := c_out s @ []\<rparr>"
    by (simp add: flush_def)
  then show ?thesis by blast
next
  case False
  then show ?thesis
    using flush_entries_shape [of env "st_entries (c_store s)" s] by (auto simp: flush_def)
qed

lemma flush_fields [simp]:
  "c_conversationId (flush env s) = c_conversationId s" "c_userId (flush env s) = c_userId s"
  "c_watermark (flush env s) = c_watermark s" "c_seen (flush env s) = c_seen s"
  "c_ownSeqs (flush env s) = c_ownSeqs s" "c_ownIds (flush env s) = c_ownIds s"
  "c_state (flush env s) = c_state s" "c_transport (flush env s) = c_transport s"
  "c_transportIndex (flush env s) = c_transportIndex s"
  "c_failuresOnTransport (flush env s) = c_failuresOnTransport s" "c_attempt (flush env s) = c_attempt s"
  "c_authRejections (flush env s) = c_authRejections s" "c_stopped (flush env s) = c_stopped s"
  "c_started (flush env s) = c_started s" "c_welcomed (flush env s) = c_welcomed s"
  "c_connectToken (flush env s) = c_connectToken s" "c_reconnectTimer (flush env s) = c_reconnectTimer s"
  "c_refreshTimer (flush env s) = c_refreshTimer s" "c_replayTimer (flush env s) = c_replayTimer s"
  "c_gapTimer (flush env s) = c_gapTimer s" "c_syncTimer (flush env s) = c_syncTimer s"
  "c_replaying (flush env s) = c_replaying s" "c_replayTarget (flush env s) = c_replayTarget s"
  "c_maxInFlight (flush env s) = c_maxInFlight s" "c_retryTimer (flush env s) = c_retryTimer s"
  "c_waiting (flush env s) = c_waiting s" "c_ready (flush env s) = c_ready s"
  "c_lastWelcome (flush env s) = c_lastWelcome s" "c_fatal (flush env s) = c_fatal s"
  "c_managers (flush env s) = c_managers s" "c_tokens (flush env s) = c_tokens s"
  "c_tokenWaits (flush env s) = c_tokenWaits s" "c_microtasks (flush env s) = c_microtasks s"
  "c_restWaits (flush env s) = c_restWaits s" "c_loading (flush env s) = c_loading s"
  "c_attaching (flush env s) = c_attaching s" "c_flushing (flush env s) = c_flushing s"
  using flush_shape [of env s] by auto

lemma markSeen_fields [simp]:
  "c_conversationId (markSeen q s) = c_conversationId s" "c_userId (markSeen q s) = c_userId s"
  "c_ownIds (markSeen q s) = c_ownIds s" "c_state (markSeen q s) = c_state s"
  "c_transport (markSeen q s) = c_transport s" "c_transportIndex (markSeen q s) = c_transportIndex s"
  "c_failuresOnTransport (markSeen q s) = c_failuresOnTransport s" "c_attempt (markSeen q s) = c_attempt s"
  "c_authRejections (markSeen q s) = c_authRejections s" "c_stopped (markSeen q s) = c_stopped s"
  "c_started (markSeen q s) = c_started s" "c_welcomed (markSeen q s) = c_welcomed s"
  "c_connectToken (markSeen q s) = c_connectToken s" "c_reconnectTimer (markSeen q s) = c_reconnectTimer s"
  "c_refreshTimer (markSeen q s) = c_refreshTimer s" "c_replayTimer (markSeen q s) = c_replayTimer s"
  "c_gapTimer (markSeen q s) = c_gapTimer s" "c_syncTimer (markSeen q s) = c_syncTimer s"
  "c_replaying (markSeen q s) = c_replaying s" "c_replayTarget (markSeen q s) = c_replayTarget s"
  "c_maxInFlight (markSeen q s) = c_maxInFlight s" "c_inFlight (markSeen q s) = c_inFlight s"
  "c_retryAt (markSeen q s) = c_retryAt s" "c_retryTimer (markSeen q s) = c_retryTimer s"
  "c_waiting (markSeen q s) = c_waiting s" "c_ready (markSeen q s) = c_ready s"
  "c_lastWelcome (markSeen q s) = c_lastWelcome s" "c_fatal (markSeen q s) = c_fatal s"
  "c_managers (markSeen q s) = c_managers s" "c_tokens (markSeen q s) = c_tokens s"
  "c_tokenWaits (markSeen q s) = c_tokenWaits s" "c_microtasks (markSeen q s) = c_microtasks s"
  "c_restWaits (markSeen q s) = c_restWaits s" "c_loading (markSeen q s) = c_loading s"
  "c_attaching (markSeen q s) = c_attaching s" "c_flushing (markSeen q s) = c_flushing s"
  "c_out (markSeen q s) = c_out s"
  by (simp_all add: markSeen_def Let_def split: prod.split)

lemma endReplay_fields [simp]:
  "c_conversationId (endReplay env b s) = c_conversationId s" "c_userId (endReplay env b s) = c_userId s"
  "c_watermark (endReplay env b s) = c_watermark s" "c_seen (endReplay env b s) = c_seen s"
  "c_ownSeqs (endReplay env b s) = c_ownSeqs s" "c_ownIds (endReplay env b s) = c_ownIds s"
  "c_state (endReplay env b s) = c_state s" "c_transport (endReplay env b s) = c_transport s"
  "c_transportIndex (endReplay env b s) = c_transportIndex s"
  "c_failuresOnTransport (endReplay env b s) = c_failuresOnTransport s"
  "c_attempt (endReplay env b s) = c_attempt s" "c_authRejections (endReplay env b s) = c_authRejections s"
  "c_stopped (endReplay env b s) = c_stopped s" "c_started (endReplay env b s) = c_started s"
  "c_welcomed (endReplay env b s) = c_welcomed s" "c_connectToken (endReplay env b s) = c_connectToken s"
  "c_reconnectTimer (endReplay env b s) = c_reconnectTimer s"
  "c_refreshTimer (endReplay env b s) = c_refreshTimer s" "c_gapTimer (endReplay env b s) = c_gapTimer s"
  "c_syncTimer (endReplay env b s) = c_syncTimer s" "c_replayTarget (endReplay env b s) = c_replayTarget s"
  "c_maxInFlight (endReplay env b s) = c_maxInFlight s" "c_retryTimer (endReplay env b s) = c_retryTimer s"
  "c_waiting (endReplay env b s) = c_waiting s" "c_ready (endReplay env b s) = c_ready s"
  "c_lastWelcome (endReplay env b s) = c_lastWelcome s" "c_fatal (endReplay env b s) = c_fatal s"
  "c_managers (endReplay env b s) = c_managers s" "c_tokens (endReplay env b s) = c_tokens s"
  "c_tokenWaits (endReplay env b s) = c_tokenWaits s" "c_microtasks (endReplay env b s) = c_microtasks s"
  "c_restWaits (endReplay env b s) = c_restWaits s" "c_loading (endReplay env b s) = c_loading s"
  "c_attaching (endReplay env b s) = c_attaching s" "c_flushing (endReplay env b s) = c_flushing s"
  by (simp_all add: endReplay_def Let_def)

lemma settle_fields [simp]:
  "c_conversationId (settle a s) = c_conversationId s" "c_userId (settle a s) = c_userId s"
  "c_watermark (settle a s) = c_watermark s" "c_seen (settle a s) = c_seen s"
  "c_state (settle a s) = c_state s" "c_transport (settle a s) = c_transport s"
  "c_transportIndex (settle a s) = c_transportIndex s"
  "c_failuresOnTransport (settle a s) = c_failuresOnTransport s" "c_attempt (settle a s) = c_attempt s"
  "c_authRejections (settle a s) = c_authRejections s" "c_stopped (settle a s) = c_stopped s"
  "c_started (settle a s) = c_started s" "c_welcomed (settle a s) = c_welcomed s"
  "c_connectToken (settle a s) = c_connectToken s" "c_reconnectTimer (settle a s) = c_reconnectTimer s"
  "c_refreshTimer (settle a s) = c_refreshTimer s" "c_replayTimer (settle a s) = c_replayTimer s"
  "c_gapTimer (settle a s) = c_gapTimer s" "c_syncTimer (settle a s) = c_syncTimer s"
  "c_replaying (settle a s) = c_replaying s" "c_replayTarget (settle a s) = c_replayTarget s"
  "c_maxInFlight (settle a s) = c_maxInFlight s" "c_retryTimer (settle a s) = c_retryTimer s"
  "c_ready (settle a s) = c_ready s" "c_lastWelcome (settle a s) = c_lastWelcome s"
  "c_fatal (settle a s) = c_fatal s" "c_managers (settle a s) = c_managers s"
  "c_tokens (settle a s) = c_tokens s" "c_tokenWaits (settle a s) = c_tokenWaits s"
  "c_microtasks (settle a s) = c_microtasks s" "c_restWaits (settle a s) = c_restWaits s"
  "c_loading (settle a s) = c_loading s" "c_attaching (settle a s) = c_attaching s"
  "c_flushing (settle a s) = c_flushing s"
  by (simp_all add: settle_def effects Let_def)

lemma deliver_fields [simp]:
  "c_conversationId (deliver a s) = c_conversationId s" "c_userId (deliver a s) = c_userId s"
  "c_state (deliver a s) = c_state s" "c_transport (deliver a s) = c_transport s"
  "c_transportIndex (deliver a s) = c_transportIndex s"
  "c_failuresOnTransport (deliver a s) = c_failuresOnTransport s" "c_attempt (deliver a s) = c_attempt s"
  "c_authRejections (deliver a s) = c_authRejections s" "c_stopped (deliver a s) = c_stopped s"
  "c_started (deliver a s) = c_started s" "c_welcomed (deliver a s) = c_welcomed s"
  "c_connectToken (deliver a s) = c_connectToken s" "c_reconnectTimer (deliver a s) = c_reconnectTimer s"
  "c_refreshTimer (deliver a s) = c_refreshTimer s" "c_replayTimer (deliver a s) = c_replayTimer s"
  "c_gapTimer (deliver a s) = c_gapTimer s" "c_syncTimer (deliver a s) = c_syncTimer s"
  "c_replaying (deliver a s) = c_replaying s" "c_replayTarget (deliver a s) = c_replayTarget s"
  "c_maxInFlight (deliver a s) = c_maxInFlight s" "c_retryTimer (deliver a s) = c_retryTimer s"
  "c_ready (deliver a s) = c_ready s" "c_lastWelcome (deliver a s) = c_lastWelcome s"
  "c_fatal (deliver a s) = c_fatal s" "c_managers (deliver a s) = c_managers s"
  "c_tokens (deliver a s) = c_tokens s" "c_tokenWaits (deliver a s) = c_tokenWaits s"
  "c_microtasks (deliver a s) = c_microtasks s" "c_restWaits (deliver a s) = c_restWaits s"
  "c_loading (deliver a s) = c_loading s" "c_attaching (deliver a s) = c_attaching s"
  "c_flushing (deliver a s) = c_flushing s"
  by (simp_all add: deliver_def ownTurn_def effects split: prod.split)

lemma checkGap_fields [simp]:
  "c_conversationId (checkGap d h s) = c_conversationId s" "c_userId (checkGap d h s) = c_userId s"
  "c_watermark (checkGap d h s) = c_watermark s" "c_seen (checkGap d h s) = c_seen s"
  "c_ownSeqs (checkGap d h s) = c_ownSeqs s" "c_ownIds (checkGap d h s) = c_ownIds s"
  "c_state (checkGap d h s) = c_state s" "c_transport (checkGap d h s) = c_transport s"
  "c_transportIndex (checkGap d h s) = c_transportIndex s"
  "c_failuresOnTransport (checkGap d h s) = c_failuresOnTransport s"
  "c_attempt (checkGap d h s) = c_attempt s" "c_authRejections (checkGap d h s) = c_authRejections s"
  "c_stopped (checkGap d h s) = c_stopped s" "c_started (checkGap d h s) = c_started s"
  "c_welcomed (checkGap d h s) = c_welcomed s" "c_connectToken (checkGap d h s) = c_connectToken s"
  "c_reconnectTimer (checkGap d h s) = c_reconnectTimer s"
  "c_refreshTimer (checkGap d h s) = c_refreshTimer s" "c_replayTimer (checkGap d h s) = c_replayTimer s"
  "c_syncTimer (checkGap d h s) = c_syncTimer s" "c_replaying (checkGap d h s) = c_replaying s"
  "c_replayTarget (checkGap d h s) = c_replayTarget s" "c_maxInFlight (checkGap d h s) = c_maxInFlight s"
  "c_inFlight (checkGap d h s) = c_inFlight s" "c_retryAt (checkGap d h s) = c_retryAt s"
  "c_retryTimer (checkGap d h s) = c_retryTimer s" "c_waiting (checkGap d h s) = c_waiting s"
  "c_ready (checkGap d h s) = c_ready s" "c_lastWelcome (checkGap d h s) = c_lastWelcome s"
  "c_fatal (checkGap d h s) = c_fatal s" "c_store (checkGap d h s) = c_store s"
  "c_managers (checkGap d h s) = c_managers s" "c_tokens (checkGap d h s) = c_tokens s"
  "c_tokenWaits (checkGap d h s) = c_tokenWaits s" "c_microtasks (checkGap d h s) = c_microtasks s"
  "c_restWaits (checkGap d h s) = c_restWaits s" "c_loading (checkGap d h s) = c_loading s"
  "c_attaching (checkGap d h s) = c_attaching s" "c_flushing (checkGap d h s) = c_flushing s"
  "c_out (checkGap d h s) = c_out s"
  by (simp_all add: checkGap_def)

lemma join_request_fields [simp]:
  "c_conversationId (join_request k r s) = c_conversationId s" "c_userId (join_request k r s) = c_userId s"
  "c_watermark (join_request k r s) = c_watermark s" "c_seen (join_request k r s) = c_seen s"
  "c_ownSeqs (join_request k r s) = c_ownSeqs s" "c_ownIds (join_request k r s) = c_ownIds s"
  "c_state (join_request k r s) = c_state s" "c_transport (join_request k r s) = c_transport s"
  "c_transportIndex (join_request k r s) = c_transportIndex s"
  "c_failuresOnTransport (join_request k r s) = c_failuresOnTransport s"
  "c_attempt (join_request k r s) = c_attempt s"
  "c_authRejections (join_request k r s) = c_authRejections s"
  "c_stopped (join_request k r s) = c_stopped s" "c_started (join_request k r s) = c_started s"
  "c_welcomed (join_request k r s) = c_welcomed s" "c_connectToken (join_request k r s) = c_connectToken s"
  "c_reconnectTimer (join_request k r s) = c_reconnectTimer s"
  "c_refreshTimer (join_request k r s) = c_refreshTimer s"
  "c_replayTimer (join_request k r s) = c_replayTimer s" "c_gapTimer (join_request k r s) = c_gapTimer s"
  "c_syncTimer (join_request k r s) = c_syncTimer s" "c_replaying (join_request k r s) = c_replaying s"
  "c_replayTarget (join_request k r s) = c_replayTarget s"
  "c_maxInFlight (join_request k r s) = c_maxInFlight s" "c_inFlight (join_request k r s) = c_inFlight s"
  "c_retryAt (join_request k r s) = c_retryAt s" "c_retryTimer (join_request k r s) = c_retryTimer s"
  "c_waiting (join_request k r s) = c_waiting s" "c_ready (join_request k r s) = c_ready s"
  "c_lastWelcome (join_request k r s) = c_lastWelcome s" "c_fatal (join_request k r s) = c_fatal s"
  "c_store (join_request k r s) = c_store s" "c_tokens (join_request k r s) = c_tokens s"
  "c_microtasks (join_request k r s) = c_microtasks s" "c_restWaits (join_request k r s) = c_restWaits s"
  "c_loading (join_request k r s) = c_loading s" "c_attaching (join_request k r s) = c_attaching s"
  "c_flushing (join_request k r s) = c_flushing s"
  by (simp_all add: join_request_def with_tokens_def)

lemma tokens_fetch_fields [simp]:
  "c_conversationId (tokens_fetch r k s) = c_conversationId s" "c_userId (tokens_fetch r k s) = c_userId s"
  "c_watermark (tokens_fetch r k s) = c_watermark s" "c_seen (tokens_fetch r k s) = c_seen s"
  "c_ownSeqs (tokens_fetch r k s) = c_ownSeqs s" "c_ownIds (tokens_fetch r k s) = c_ownIds s"
  "c_state (tokens_fetch r k s) = c_state s" "c_transport (tokens_fetch r k s) = c_transport s"
  "c_transportIndex (tokens_fetch r k s) = c_transportIndex s"
  "c_failuresOnTransport (tokens_fetch r k s) = c_failuresOnTransport s"
  "c_attempt (tokens_fetch r k s) = c_attempt s"
  "c_authRejections (tokens_fetch r k s) = c_authRejections s"
  "c_stopped (tokens_fetch r k s) = c_stopped s" "c_started (tokens_fetch r k s) = c_started s"
  "c_welcomed (tokens_fetch r k s) = c_welcomed s" "c_connectToken (tokens_fetch r k s) = c_connectToken s"
  "c_reconnectTimer (tokens_fetch r k s) = c_reconnectTimer s"
  "c_refreshTimer (tokens_fetch r k s) = c_refreshTimer s"
  "c_replayTimer (tokens_fetch r k s) = c_replayTimer s" "c_gapTimer (tokens_fetch r k s) = c_gapTimer s"
  "c_syncTimer (tokens_fetch r k s) = c_syncTimer s" "c_replaying (tokens_fetch r k s) = c_replaying s"
  "c_replayTarget (tokens_fetch r k s) = c_replayTarget s"
  "c_maxInFlight (tokens_fetch r k s) = c_maxInFlight s" "c_inFlight (tokens_fetch r k s) = c_inFlight s"
  "c_retryAt (tokens_fetch r k s) = c_retryAt s" "c_retryTimer (tokens_fetch r k s) = c_retryTimer s"
  "c_waiting (tokens_fetch r k s) = c_waiting s" "c_ready (tokens_fetch r k s) = c_ready s"
  "c_lastWelcome (tokens_fetch r k s) = c_lastWelcome s" "c_fatal (tokens_fetch r k s) = c_fatal s"
  "c_store (tokens_fetch r k s) = c_store s" "c_tokens (tokens_fetch r k s) = c_tokens s"
  "c_microtasks (tokens_fetch r k s) = c_microtasks s" "c_restWaits (tokens_fetch r k s) = c_restWaits s"
  "c_loading (tokens_fetch r k s) = c_loading s" "c_attaching (tokens_fetch r k s) = c_attaching s"
  "c_flushing (tokens_fetch r k s) = c_flushing s"
  by (simp_all add: tokens_fetch_def)

lemma tokens_get_fields [simp]:
  "c_conversationId (tokens_get env k s) = c_conversationId s" "c_userId (tokens_get env k s) = c_userId s"
  "c_watermark (tokens_get env k s) = c_watermark s" "c_seen (tokens_get env k s) = c_seen s"
  "c_ownSeqs (tokens_get env k s) = c_ownSeqs s" "c_ownIds (tokens_get env k s) = c_ownIds s"
  "c_state (tokens_get env k s) = c_state s" "c_transport (tokens_get env k s) = c_transport s"
  "c_transportIndex (tokens_get env k s) = c_transportIndex s"
  "c_failuresOnTransport (tokens_get env k s) = c_failuresOnTransport s"
  "c_attempt (tokens_get env k s) = c_attempt s"
  "c_authRejections (tokens_get env k s) = c_authRejections s"
  "c_stopped (tokens_get env k s) = c_stopped s" "c_started (tokens_get env k s) = c_started s"
  "c_welcomed (tokens_get env k s) = c_welcomed s" "c_connectToken (tokens_get env k s) = c_connectToken s"
  "c_reconnectTimer (tokens_get env k s) = c_reconnectTimer s"
  "c_refreshTimer (tokens_get env k s) = c_refreshTimer s"
  "c_replayTimer (tokens_get env k s) = c_replayTimer s" "c_gapTimer (tokens_get env k s) = c_gapTimer s"
  "c_syncTimer (tokens_get env k s) = c_syncTimer s" "c_replaying (tokens_get env k s) = c_replaying s"
  "c_replayTarget (tokens_get env k s) = c_replayTarget s"
  "c_maxInFlight (tokens_get env k s) = c_maxInFlight s" "c_inFlight (tokens_get env k s) = c_inFlight s"
  "c_retryAt (tokens_get env k s) = c_retryAt s" "c_retryTimer (tokens_get env k s) = c_retryTimer s"
  "c_waiting (tokens_get env k s) = c_waiting s" "c_ready (tokens_get env k s) = c_ready s"
  "c_lastWelcome (tokens_get env k s) = c_lastWelcome s" "c_fatal (tokens_get env k s) = c_fatal s"
  "c_store (tokens_get env k s) = c_store s" "c_tokens (tokens_get env k s) = c_tokens s"
  "c_restWaits (tokens_get env k s) = c_restWaits s" "c_loading (tokens_get env k s) = c_loading s"
  "c_attaching (tokens_get env k s) = c_attaching s" "c_flushing (tokens_get env k s) = c_flushing s"
  by (simp_all add: tokens_get_def split: prod.split option.split)

lemma scheduleRefresh_fields [simp]:
  "c_conversationId (scheduleRefresh env s) = c_conversationId s"
  "c_userId (scheduleRefresh env s) = c_userId s" "c_watermark (scheduleRefresh env s) = c_watermark s"
  "c_seen (scheduleRefresh env s) = c_seen s" "c_ownSeqs (scheduleRefresh env s) = c_ownSeqs s"
  "c_ownIds (scheduleRefresh env s) = c_ownIds s" "c_state (scheduleRefresh env s) = c_state s"
  "c_transport (scheduleRefresh env s) = c_transport s"
  "c_transportIndex (scheduleRefresh env s) = c_transportIndex s"
  "c_failuresOnTransport (scheduleRefresh env s) = c_failuresOnTransport s"
  "c_attempt (scheduleRefresh env s) = c_attempt s"
  "c_authRejections (scheduleRefresh env s) = c_authRejections s"
  "c_stopped (scheduleRefresh env s) = c_stopped s" "c_started (scheduleRefresh env s) = c_started s"
  "c_welcomed (scheduleRefresh env s) = c_welcomed s"
  "c_connectToken (scheduleRefresh env s) = c_connectToken s"
  "c_reconnectTimer (scheduleRefresh env s) = c_reconnectTimer s"
  "c_replayTimer (scheduleRefresh env s) = c_replayTimer s"
  "c_gapTimer (scheduleRefresh env s) = c_gapTimer s" "c_syncTimer (scheduleRefresh env s) = c_syncTimer s"
  "c_replaying (scheduleRefresh env s) = c_replaying s"
  "c_replayTarget (scheduleRefresh env s) = c_replayTarget s"
  "c_maxInFlight (scheduleRefresh env s) = c_maxInFlight s"
  "c_inFlight (scheduleRefresh env s) = c_inFlight s" "c_retryAt (scheduleRefresh env s) = c_retryAt s"
  "c_retryTimer (scheduleRefresh env s) = c_retryTimer s" "c_waiting (scheduleRefresh env s) = c_waiting s"
  "c_ready (scheduleRefresh env s) = c_ready s" "c_lastWelcome (scheduleRefresh env s) = c_lastWelcome s"
  "c_fatal (scheduleRefresh env s) = c_fatal s" "c_store (scheduleRefresh env s) = c_store s"
  "c_managers (scheduleRefresh env s) = c_managers s" "c_tokens (scheduleRefresh env s) = c_tokens s"
  "c_tokenWaits (scheduleRefresh env s) = c_tokenWaits s"
  "c_microtasks (scheduleRefresh env s) = c_microtasks s"
  "c_restWaits (scheduleRefresh env s) = c_restWaits s" "c_loading (scheduleRefresh env s) = c_loading s"
  "c_attaching (scheduleRefresh env s) = c_attaching s" "c_flushing (scheduleRefresh env s) = c_flushing s"
  "c_out (scheduleRefresh env s) = c_out s"
  by (simp_all add: scheduleRefresh_def Let_def split: option.split)

lemma scheduleRetry_fields [simp]:
  "c_conversationId (scheduleRetry env s) = c_conversationId s"
  "c_userId (scheduleRetry env s) = c_userId s" "c_watermark (scheduleRetry env s) = c_watermark s"
  "c_seen (scheduleRetry env s) = c_seen s" "c_ownSeqs (scheduleRetry env s) = c_ownSeqs s"
  "c_ownIds (scheduleRetry env s) = c_ownIds s" "c_state (scheduleRetry env s) = c_state s"
  "c_transport (scheduleRetry env s) = c_transport s"
  "c_transportIndex (scheduleRetry env s) = c_transportIndex s"
  "c_failuresOnTransport (scheduleRetry env s) = c_failuresOnTransport s"
  "c_attempt (scheduleRetry env s) = c_attempt s"
  "c_authRejections (scheduleRetry env s) = c_authRejections s"
  "c_stopped (scheduleRetry env s) = c_stopped s" "c_started (scheduleRetry env s) = c_started s"
  "c_welcomed (scheduleRetry env s) = c_welcomed s"
  "c_connectToken (scheduleRetry env s) = c_connectToken s"
  "c_reconnectTimer (scheduleRetry env s) = c_reconnectTimer s"
  "c_refreshTimer (scheduleRetry env s) = c_refreshTimer s"
  "c_replayTimer (scheduleRetry env s) = c_replayTimer s" "c_gapTimer (scheduleRetry env s) = c_gapTimer s"
  "c_syncTimer (scheduleRetry env s) = c_syncTimer s" "c_replaying (scheduleRetry env s) = c_replaying s"
  "c_replayTarget (scheduleRetry env s) = c_replayTarget s"
  "c_maxInFlight (scheduleRetry env s) = c_maxInFlight s" "c_inFlight (scheduleRetry env s) = c_inFlight s"
  "c_retryAt (scheduleRetry env s) = c_retryAt s" "c_waiting (scheduleRetry env s) = c_waiting s"
  "c_ready (scheduleRetry env s) = c_ready s" "c_lastWelcome (scheduleRetry env s) = c_lastWelcome s"
  "c_fatal (scheduleRetry env s) = c_fatal s" "c_store (scheduleRetry env s) = c_store s"
  "c_managers (scheduleRetry env s) = c_managers s" "c_tokens (scheduleRetry env s) = c_tokens s"
  "c_tokenWaits (scheduleRetry env s) = c_tokenWaits s"
  "c_microtasks (scheduleRetry env s) = c_microtasks s" "c_restWaits (scheduleRetry env s) = c_restWaits s"
  "c_loading (scheduleRetry env s) = c_loading s" "c_attaching (scheduleRetry env s) = c_attaching s"
  "c_flushing (scheduleRetry env s) = c_flushing s" "c_out (scheduleRetry env s) = c_out s"
  by (simp_all add: scheduleRetry_def Let_def)

lemma setConnState_fields [simp]:
  "c_conversationId (setConnState d st dl cl er s) = c_conversationId s"
  "c_userId (setConnState d st dl cl er s) = c_userId s"
  "c_watermark (setConnState d st dl cl er s) = c_watermark s"
  "c_seen (setConnState d st dl cl er s) = c_seen s"
  "c_ownSeqs (setConnState d st dl cl er s) = c_ownSeqs s"
  "c_ownIds (setConnState d st dl cl er s) = c_ownIds s"
  "c_transport (setConnState d st dl cl er s) = c_transport s"
  "c_transportIndex (setConnState d st dl cl er s) = c_transportIndex s"
  "c_failuresOnTransport (setConnState d st dl cl er s) = c_failuresOnTransport s"
  "c_attempt (setConnState d st dl cl er s) = c_attempt s"
  "c_authRejections (setConnState d st dl cl er s) = c_authRejections s"
  "c_stopped (setConnState d st dl cl er s) = c_stopped s"
  "c_started (setConnState d st dl cl er s) = c_started s"
  "c_welcomed (setConnState d st dl cl er s) = c_welcomed s"
  "c_connectToken (setConnState d st dl cl er s) = c_connectToken s"
  "c_reconnectTimer (setConnState d st dl cl er s) = c_reconnectTimer s"
  "c_refreshTimer (setConnState d st dl cl er s) = c_refreshTimer s"
  "c_replayTimer (setConnState d st dl cl er s) = c_replayTimer s"
  "c_gapTimer (setConnState d st dl cl er s) = c_gapTimer s"
  "c_syncTimer (setConnState d st dl cl er s) = c_syncTimer s"
  "c_replaying (setConnState d st dl cl er s) = c_replaying s"
  "c_replayTarget (setConnState d st dl cl er s) = c_replayTarget s"
  "c_maxInFlight (setConnState d st dl cl er s) = c_maxInFlight s"
  "c_inFlight (setConnState d st dl cl er s) = c_inFlight s"
  "c_retryAt (setConnState d st dl cl er s) = c_retryAt s"
  "c_retryTimer (setConnState d st dl cl er s) = c_retryTimer s"
  "c_waiting (setConnState d st dl cl er s) = c_waiting s"
  "c_ready (setConnState d st dl cl er s) = c_ready s"
  "c_lastWelcome (setConnState d st dl cl er s) = c_lastWelcome s"
  "c_fatal (setConnState d st dl cl er s) = c_fatal s" "c_store (setConnState d st dl cl er s) = c_store s"
  "c_managers (setConnState d st dl cl er s) = c_managers s"
  "c_tokens (setConnState d st dl cl er s) = c_tokens s"
  "c_tokenWaits (setConnState d st dl cl er s) = c_tokenWaits s"
  "c_microtasks (setConnState d st dl cl er s) = c_microtasks s"
  "c_restWaits (setConnState d st dl cl er s) = c_restWaits s"
  "c_loading (setConnState d st dl cl er s) = c_loading s"
  "c_attaching (setConnState d st dl cl er s) = c_attaching s"
  "c_flushing (setConnState d st dl cl er s) = c_flushing s"
  by (simp_all add: setConnState_def effects)

lemma drop_transport_fields [simp]:
  "c_conversationId (drop_transport r s) = c_conversationId s" "c_userId (drop_transport r s) = c_userId s"
  "c_watermark (drop_transport r s) = c_watermark s" "c_seen (drop_transport r s) = c_seen s"
  "c_ownSeqs (drop_transport r s) = c_ownSeqs s" "c_ownIds (drop_transport r s) = c_ownIds s"
  "c_state (drop_transport r s) = c_state s" "c_transportIndex (drop_transport r s) = c_transportIndex s"
  "c_failuresOnTransport (drop_transport r s) = c_failuresOnTransport s"
  "c_attempt (drop_transport r s) = c_attempt s"
  "c_authRejections (drop_transport r s) = c_authRejections s"
  "c_stopped (drop_transport r s) = c_stopped s" "c_started (drop_transport r s) = c_started s"
  "c_welcomed (drop_transport r s) = c_welcomed s" "c_connectToken (drop_transport r s) = c_connectToken s"
  "c_reconnectTimer (drop_transport r s) = c_reconnectTimer s"
  "c_refreshTimer (drop_transport r s) = c_refreshTimer s"
  "c_replayTimer (drop_transport r s) = c_replayTimer s" "c_gapTimer (drop_transport r s) = c_gapTimer s"
  "c_syncTimer (drop_transport r s) = c_syncTimer s" "c_replaying (drop_transport r s) = c_replaying s"
  "c_replayTarget (drop_transport r s) = c_replayTarget s"
  "c_maxInFlight (drop_transport r s) = c_maxInFlight s" "c_inFlight (drop_transport r s) = c_inFlight s"
  "c_retryAt (drop_transport r s) = c_retryAt s" "c_retryTimer (drop_transport r s) = c_retryTimer s"
  "c_waiting (drop_transport r s) = c_waiting s" "c_ready (drop_transport r s) = c_ready s"
  "c_lastWelcome (drop_transport r s) = c_lastWelcome s" "c_fatal (drop_transport r s) = c_fatal s"
  "c_store (drop_transport r s) = c_store s" "c_managers (drop_transport r s) = c_managers s"
  "c_tokens (drop_transport r s) = c_tokens s" "c_tokenWaits (drop_transport r s) = c_tokenWaits s"
  "c_microtasks (drop_transport r s) = c_microtasks s" "c_restWaits (drop_transport r s) = c_restWaits s"
  "c_loading (drop_transport r s) = c_loading s" "c_attaching (drop_transport r s) = c_attaching s"
  "c_flushing (drop_transport r s) = c_flushing s"
  by (simp_all add: drop_transport_def effects split: option.split)

lemma rejectWaiting_fields [simp]:
  "c_conversationId (rejectWaiting e s) = c_conversationId s" "c_userId (rejectWaiting e s) = c_userId s"
  "c_watermark (rejectWaiting e s) = c_watermark s" "c_seen (rejectWaiting e s) = c_seen s"
  "c_ownSeqs (rejectWaiting e s) = c_ownSeqs s" "c_ownIds (rejectWaiting e s) = c_ownIds s"
  "c_state (rejectWaiting e s) = c_state s" "c_transport (rejectWaiting e s) = c_transport s"
  "c_transportIndex (rejectWaiting e s) = c_transportIndex s"
  "c_failuresOnTransport (rejectWaiting e s) = c_failuresOnTransport s"
  "c_attempt (rejectWaiting e s) = c_attempt s" "c_authRejections (rejectWaiting e s) = c_authRejections s"
  "c_stopped (rejectWaiting e s) = c_stopped s" "c_started (rejectWaiting e s) = c_started s"
  "c_welcomed (rejectWaiting e s) = c_welcomed s" "c_connectToken (rejectWaiting e s) = c_connectToken s"
  "c_reconnectTimer (rejectWaiting e s) = c_reconnectTimer s"
  "c_refreshTimer (rejectWaiting e s) = c_refreshTimer s"
  "c_replayTimer (rejectWaiting e s) = c_replayTimer s" "c_gapTimer (rejectWaiting e s) = c_gapTimer s"
  "c_syncTimer (rejectWaiting e s) = c_syncTimer s" "c_replaying (rejectWaiting e s) = c_replaying s"
  "c_replayTarget (rejectWaiting e s) = c_replayTarget s"
  "c_maxInFlight (rejectWaiting e s) = c_maxInFlight s" "c_inFlight (rejectWaiting e s) = c_inFlight s"
  "c_retryAt (rejectWaiting e s) = c_retryAt s" "c_retryTimer (rejectWaiting e s) = c_retryTimer s"
  "c_ready (rejectWaiting e s) = c_ready s" "c_lastWelcome (rejectWaiting e s) = c_lastWelcome s"
  "c_fatal (rejectWaiting e s) = c_fatal s" "c_store (rejectWaiting e s) = c_store s"
  "c_managers (rejectWaiting e s) = c_managers s" "c_tokens (rejectWaiting e s) = c_tokens s"
  "c_tokenWaits (rejectWaiting e s) = c_tokenWaits s" "c_microtasks (rejectWaiting e s) = c_microtasks s"
  "c_restWaits (rejectWaiting e s) = c_restWaits s" "c_loading (rejectWaiting e s) = c_loading s"
  "c_attaching (rejectWaiting e s) = c_attaching s" "c_flushing (rejectWaiting e s) = c_flushing s"
  by (simp_all add: rejectWaiting_def)

lemma clearTimers_fields [simp]:
  "c_conversationId (clearTimers s) = c_conversationId s" "c_userId (clearTimers s) = c_userId s"
  "c_watermark (clearTimers s) = c_watermark s" "c_seen (clearTimers s) = c_seen s"
  "c_ownSeqs (clearTimers s) = c_ownSeqs s" "c_ownIds (clearTimers s) = c_ownIds s"
  "c_state (clearTimers s) = c_state s" "c_transport (clearTimers s) = c_transport s"
  "c_transportIndex (clearTimers s) = c_transportIndex s"
  "c_failuresOnTransport (clearTimers s) = c_failuresOnTransport s"
  "c_attempt (clearTimers s) = c_attempt s" "c_authRejections (clearTimers s) = c_authRejections s"
  "c_stopped (clearTimers s) = c_stopped s" "c_started (clearTimers s) = c_started s"
  "c_welcomed (clearTimers s) = c_welcomed s" "c_connectToken (clearTimers s) = c_connectToken s"
  "c_replaying (clearTimers s) = c_replaying s" "c_replayTarget (clearTimers s) = c_replayTarget s"
  "c_maxInFlight (clearTimers s) = c_maxInFlight s" "c_inFlight (clearTimers s) = c_inFlight s"
  "c_retryAt (clearTimers s) = c_retryAt s" "c_waiting (clearTimers s) = c_waiting s"
  "c_ready (clearTimers s) = c_ready s" "c_lastWelcome (clearTimers s) = c_lastWelcome s"
  "c_fatal (clearTimers s) = c_fatal s" "c_store (clearTimers s) = c_store s"
  "c_managers (clearTimers s) = c_managers s" "c_tokens (clearTimers s) = c_tokens s"
  "c_tokenWaits (clearTimers s) = c_tokenWaits s" "c_microtasks (clearTimers s) = c_microtasks s"
  "c_restWaits (clearTimers s) = c_restWaits s" "c_loading (clearTimers s) = c_loading s"
  "c_attaching (clearTimers s) = c_attaching s" "c_flushing (clearTimers s) = c_flushing s"
  "c_out (clearTimers s) = c_out s"
  by (simp_all add: clearTimers_def)

lemma close_session_fields [simp]:
  "c_conversationId (close_session d e cl s) = c_conversationId s"
  "c_userId (close_session d e cl s) = c_userId s" "c_watermark (close_session d e cl s) = c_watermark s"
  "c_seen (close_session d e cl s) = c_seen s" "c_ownSeqs (close_session d e cl s) = c_ownSeqs s"
  "c_ownIds (close_session d e cl s) = c_ownIds s"
  "c_transportIndex (close_session d e cl s) = c_transportIndex s"
  "c_failuresOnTransport (close_session d e cl s) = c_failuresOnTransport s"
  "c_attempt (close_session d e cl s) = c_attempt s"
  "c_authRejections (close_session d e cl s) = c_authRejections s"
  "c_started (close_session d e cl s) = c_started s" "c_welcomed (close_session d e cl s) = c_welcomed s"
  "c_connectToken (close_session d e cl s) = c_connectToken s"
  "c_replaying (close_session d e cl s) = c_replaying s"
  "c_replayTarget (close_session d e cl s) = c_replayTarget s"
  "c_maxInFlight (close_session d e cl s) = c_maxInFlight s"
  "c_inFlight (close_session d e cl s) = c_inFlight s" "c_retryAt (close_session d e cl s) = c_retryAt s"
  "c_lastWelcome (close_session d e cl s) = c_lastWelcome s" "c_store (close_session d e cl s) = c_store s"
  "c_managers (close_session d e cl s) = c_managers s" "c_tokens (close_session d e cl s) = c_tokens s"
  "c_tokenWaits (close_session d e cl s) = c_tokenWaits s"
  "c_microtasks (close_session d e cl s) = c_microtasks s"
  "c_restWaits (close_session d e cl s) = c_restWaits s" "c_loading (close_session d e cl s) = c_loading s"
  "c_attaching (close_session d e cl s) = c_attaching s"
  "c_flushing (close_session d e cl s) = c_flushing s"
  by (simp_all add: close_session_def settle_ready_def effects)

lemma scheduleReconnect_fields [simp]:
  "c_conversationId (scheduleReconnect d env cl s) = c_conversationId s"
  "c_userId (scheduleReconnect d env cl s) = c_userId s"
  "c_watermark (scheduleReconnect d env cl s) = c_watermark s"
  "c_seen (scheduleReconnect d env cl s) = c_seen s"
  "c_ownSeqs (scheduleReconnect d env cl s) = c_ownSeqs s"
  "c_ownIds (scheduleReconnect d env cl s) = c_ownIds s"
  "c_authRejections (scheduleReconnect d env cl s) = c_authRejections s"
  "c_started (scheduleReconnect d env cl s) = c_started s"
  "c_welcomed (scheduleReconnect d env cl s) = c_welcomed s"
  "c_connectToken (scheduleReconnect d env cl s) = c_connectToken s"
  "c_replaying (scheduleReconnect d env cl s) = c_replaying s"
  "c_replayTarget (scheduleReconnect d env cl s) = c_replayTarget s"
  "c_maxInFlight (scheduleReconnect d env cl s) = c_maxInFlight s"
  "c_inFlight (scheduleReconnect d env cl s) = c_inFlight s"
  "c_retryAt (scheduleReconnect d env cl s) = c_retryAt s"
  "c_lastWelcome (scheduleReconnect d env cl s) = c_lastWelcome s"
  "c_store (scheduleReconnect d env cl s) = c_store s"
  "c_managers (scheduleReconnect d env cl s) = c_managers s"
  "c_tokens (scheduleReconnect d env cl s) = c_tokens s"
  "c_tokenWaits (scheduleReconnect d env cl s) = c_tokenWaits s"
  "c_microtasks (scheduleReconnect d env cl s) = c_microtasks s"
  "c_restWaits (scheduleReconnect d env cl s) = c_restWaits s"
  "c_loading (scheduleReconnect d env cl s) = c_loading s"
  "c_attaching (scheduleReconnect d env cl s) = c_attaching s"
  "c_flushing (scheduleReconnect d env cl s) = c_flushing s"
  by (simp_all add: scheduleReconnect_def fall_back_def Let_def)

lemma connect_failed_fields [simp]:
  "c_conversationId (connect_failed d env ct e s) = c_conversationId s"
  "c_userId (connect_failed d env ct e s) = c_userId s"
  "c_watermark (connect_failed d env ct e s) = c_watermark s"
  "c_seen (connect_failed d env ct e s) = c_seen s" "c_ownSeqs (connect_failed d env ct e s) = c_ownSeqs s"
  "c_ownIds (connect_failed d env ct e s) = c_ownIds s"
  "c_authRejections (connect_failed d env ct e s) = c_authRejections s"
  "c_started (connect_failed d env ct e s) = c_started s"
  "c_welcomed (connect_failed d env ct e s) = c_welcomed s"
  "c_connectToken (connect_failed d env ct e s) = c_connectToken s"
  "c_replaying (connect_failed d env ct e s) = c_replaying s"
  "c_replayTarget (connect_failed d env ct e s) = c_replayTarget s"
  "c_maxInFlight (connect_failed d env ct e s) = c_maxInFlight s"
  "c_inFlight (connect_failed d env ct e s) = c_inFlight s"
  "c_retryAt (connect_failed d env ct e s) = c_retryAt s"
  "c_lastWelcome (connect_failed d env ct e s) = c_lastWelcome s"
  "c_store (connect_failed d env ct e s) = c_store s"
  "c_managers (connect_failed d env ct e s) = c_managers s"
  "c_tokens (connect_failed d env ct e s) = c_tokens s"
  "c_tokenWaits (connect_failed d env ct e s) = c_tokenWaits s"
  "c_microtasks (connect_failed d env ct e s) = c_microtasks s"
  "c_restWaits (connect_failed d env ct e s) = c_restWaits s"
  "c_loading (connect_failed d env ct e s) = c_loading s"
  "c_attaching (connect_failed d env ct e s) = c_attaching s"
  "c_flushing (connect_failed d env ct e s) = c_flushing s"
  by (simp_all add: connect_failed_def effects Let_def)

end
