(* ===== verification/Conv_Link.thy ===== *)
theory Conv_Link
  imports Conv_Fields
begin

text \<open>
  The connection of a session: at every moment a session that has been opened and not stopped has
  exactly one of a transport, an armed reconnect timer or a connection attempt waiting for a token,
  a REST call or the store.
\<close>

section \<open>Links\<close>

definition armed :: "'a timer \<Rightarrow> bool" where
  "armed t \<longleftrightarrow> timer_value t \<noteq> None"

lemma armed_simps [simp]: "armed (Armed d x)" "\<not> armed Unset" "\<not> armed Spent" "\<not> armed (clear_timeout t)"
  by (simp_all add: armed_def clear_timeout_def split: timer.split)

fun attempt_of :: "token_wait \<Rightarrow> (nat \<times> transport) list" where
  "attempt_of (KBase ct t) = [(ct, t)]"
| "attempt_of (KConnect ct t) = [(ct, t)]"
| "attempt_of k = []"

definition attempts :: "conv \<Rightarrow> (nat \<times> transport) list" where
  "attempts s =
     concat (map (\<lambda>w. attempt_of (snd w)) (c_tokenWaits s))
     @ concat (map (\<lambda>m. attempt_of (fst m)) (c_microtasks s)) @ map (\<lambda>r. (fst r, fst (snd r))) (c_restWaits s)"

definition links :: "conv \<Rightarrow> nat" where
  "links s = (if armed (c_reconnectTimer s) then 1 else 0) + (if c_transport s \<noteq> None then 1 else 0) + length (attempts s)"

text \<open>
  The invariant, with the attempts \<open>xs\<close> whose continuation is running. Until \<open>start\<close> or \<open>resume\<close>
  has opened the session (\<open>c_ready\<close>) there is no link at all.
\<close>

definition link_inv :: "(nat \<times> transport) list \<Rightarrow> conv \<Rightarrow> bool" where
  "link_inv xs s \<longleftrightarrow>
     links s + length xs \<le> 1
     \<and> (\<forall>a \<in> set (attempts s) \<union> set xs. fst a = c_connectToken s \<and> t_id (snd a) = c_connectToken s)
     \<and> (c_ready s = None \<longrightarrow> links s + length xs = 0 \<and> c_connectToken s = 0)
     \<and> (c_ready s \<noteq> None \<and> \<not> c_stopped s \<longrightarrow> links s + length xs = 1)
     \<and> (c_stopped s \<longrightarrow> c_transport s = None \<and> c_state s = Closed \<and> \<not> armed (c_reconnectTimer s))
     \<and> (c_state s = Closed \<longrightarrow> c_stopped s)
     \<and> (\<forall>t. c_transport s = Some t \<longrightarrow> t_id t = c_connectToken s)
     \<and> (c_loading s \<noteq> [] \<longrightarrow> c_started s \<and> c_ready s = None)
     \<and> length (c_loading s) \<le> 1
     \<and> (c_ready s \<noteq> None \<longrightarrow> c_started s)"

text \<open>The fields the invariant reads.\<close>

definition link_view where
  "link_view s = (attempts s, armed (c_reconnectTimer s), c_transport s, c_connectToken s, c_ready s = None,
     c_stopped s, c_state s = Closed, c_loading s, c_started s)"

lemma link_inv_cong: "link_view s' = link_view s \<Longrightarrow> link_inv xs s' = link_inv xs s"
  unfolding link_view_def link_inv_def links_def by simp

lemma attempts_fields: "c_tokenWaits s' = c_tokenWaits s \<Longrightarrow> c_microtasks s' = c_microtasks s
    \<Longrightarrow> c_restWaits s' = c_restWaits s \<Longrightarrow> attempts s' = attempts s"
  by (simp add: attempts_def)

lemma attempts_join [simp]: "length (attempts (join_request k r s)) = length (attempts s) + length (attempt_of k)"
  "set (attempts (join_request k r s)) = set (attempts s) \<union> set (attempt_of k)"
  by (auto simp: attempts_def join_request_def with_tokens_def)

lemma attempts_tokens_fetch [simp]: "length (attempts (tokens_fetch r k s)) = length (attempts s) + length (attempt_of k)"
  "set (attempts (tokens_fetch r k s)) = set (attempts s) \<union> set (attempt_of k)"
  by (simp_all add: tokens_fetch_def)

lemma attempts_tokens_get [simp]: "length (attempts (tokens_get env k s)) = length (attempts s) + length (attempt_of k)"
  "set (attempts (tokens_get env k s)) = set (attempts s) \<union> set (attempt_of k)"
  by (auto simp: tokens_get_def attempts_def join_request_def with_tokens_def split: prod.split option.split)

lemma attempts_close_session [simp]: "attempts (close_session d e cl s) = attempts s"
  and attempts_scheduleReconnect [simp]: "attempts (scheduleReconnect d env cl s) = attempts s"
  and attempts_setConnState [simp]: "attempts (setConnState d st dl c er s) = attempts s"
  and attempts_emit [simp]: "attempts (emit_event ev s) = attempts s"
  and attempts_perform [simp]: "attempts (perform p s) = attempts s"
  and attempts_endReplay [simp]: "attempts (endReplay env b s) = attempts s"
  by (simp_all add: attempts_def effects)

section \<open>Steps\<close>

lemma close_session_link [simp]:
  "c_stopped (close_session d e cl s)" "c_transport (close_session d e cl s) = None"
  "c_state (close_session d e cl s) = Closed" "\<not> armed (c_reconnectTimer (close_session d e cl s))"
  "c_ready (close_session d e cl s) = None \<longleftrightarrow> c_ready s = None"
  by (simp_all add: close_session_def settle_ready_def effects clearTimers_def drop_transport_def setConnState_def
      split: option.split)

lemma link_close_session: "link_inv (ys @ xs) s \<Longrightarrow> link_inv xs (close_session d e cl s)"
  by (auto simp: link_inv_def links_def)

lemma scheduleReconnect_cases:
  obtains e where "scheduleReconnect d env cl s = close_session d e cl (s\<lparr>c_attempt := Suc (c_attempt s)\<rparr>)"
  | e where "scheduleReconnect d env cl s = close_session d e cl s"
  | "c_stopped (scheduleReconnect d env cl s) = c_stopped s" "c_transport (scheduleReconnect d env cl s) = c_transport s"
    "c_state (scheduleReconnect d env cl s) = Reconnecting" "armed (c_reconnectTimer (scheduleReconnect d env cl s))"
    "c_ready (scheduleReconnect d env cl s) = c_ready s"
proof (cases "enabled (d_reconnect d)")
  case False
  then have "scheduleReconnect d env cl s =
      close_session d (closed_error ''disconnected and reconnecting is disabled'' ''disconnected'') cl s"
    by (simp add: scheduleReconnect_def)
  then show ?thesis by (rule that(2))
next
  case True
  show ?thesis
  proof (cases "exceeds (Suc (c_attempt s)) (maxAttempts (d_reconnect d))")
    case exceeded: True
    with True have "scheduleReconnect d env cl s = close_session d
        (closed_error (''gave up after '' @ bound_str (maxAttempts (d_reconnect d)) @ '' attempts'') ''reconnect_failed'')
        cl (s\<lparr>c_attempt := Suc (c_attempt s)\<rparr>)"
      by (simp add: scheduleReconnect_def)
    then show ?thesis by (rule that(1))
  next
    case False
    with True show ?thesis
      using that(3) by (simp add: scheduleReconnect_def setConnState_def fall_back_def Let_def)
  qed
qed

lemma link_attempt_field [simp]: "link_inv xs (s\<lparr>c_attempt := n\<rparr>) = link_inv xs s"
  by (rule link_inv_cong) (simp add: link_view_def attempts_def)

lemma link_scheduleReconnect:
  assumes "link_inv (a # xs) s" "\<not> c_stopped s"
  shows "link_inv xs (scheduleReconnect d env cl s)"
proof (cases rule: scheduleReconnect_cases [of d env cl s])
  case (1 e)
  then show ?thesis using link_close_session [of "[a]" xs] assms by simp
next
  case (2 e)
  then show ?thesis using link_close_session [of "[a]" xs] assms by simp
next
  case 3
  then show ?thesis using assms by (auto simp: link_inv_def links_def split: if_splits)
qed

lemma link_effects [simp]: "link_inv xs (perform p s) = link_inv xs s" "link_inv xs (emit_event e s) = link_inv xs s"
  by (auto intro!: link_inv_cong simp: link_view_def attempts_def effects)

lemma link_drop: "link_inv (a # xs) s \<Longrightarrow> c_stopped s \<Longrightarrow> link_inv xs s"
  by (auto simp: link_inv_def)

lemma link_current: "link_inv (a # xs) s \<Longrightarrow> fst a = c_connectToken s \<and> t_id (snd a) = c_connectToken s"
  by (simp add: link_inv_def)

lemma link_connect_failed:
  assumes "link_inv ((ct, t) # xs) s"
  shows "link_inv xs (connect_failed d env ct e s)"
proof (cases "c_stopped s")
  case True
  with assms show ?thesis using link_drop by (simp add: connect_failed_def)
next
  case False
  define s1 where "s1 = emit_event (EvError e) s"
  have s1: "link_inv ((ct, t) # xs) s1" "\<not> c_stopped s1"
    using assms False unfolding s1_def by simp_all
  with assms False show ?thesis
    using link_current [OF assms] link_close_session [of "[(ct, t)]" xs s1] link_scheduleReconnect [OF s1]
    by (simp add: connect_failed_def s1_def [symmetric])
qed

lemma link_connect_ready:
  assumes "link_inv ((ct, t) # xs) s"
  shows "link_inv xs (connect_ready d ct t tok s)"
proof (cases "c_stopped s")
  case True
  with assms show ?thesis using link_drop by (simp add: connect_ready_def)
next
  case False
  have "link_inv xs (s\<lparr>c_transport := Some t\<rparr>)"
    using assms False by (auto simp: link_inv_def links_def attempts_def split: if_splits)
  with assms False show ?thesis
    using link_current [OF assms] by (simp add: connect_ready_def)
qed

lemma link_tokens_get:
  assumes "link_inv ((ct, t) # xs) s" "attempt_of k = [(ct, t)]"
  shows "link_inv xs (tokens_get env k s)"
  using assms by (auto simp: link_inv_def links_def)

lemma link_rest_wait:
  assumes "link_inv ((ct, t) # xs) s"
  shows "link_inv xs (s\<lparr>c_restWaits := c_restWaits s @ [(ct, t, w)]\<rparr>)"
  using assms by (auto simp: link_inv_def links_def attempts_def)

lemma link_ensureConversationToken:
  assumes "link_inv ((ct, t) # xs) s"
  shows "link_inv xs (ensureConversationToken env ct t base s)"
proof -
  have rest: "link_inv xs ((perform p s)\<lparr>c_restWaits := c_restWaits s @ [(ct, t, w)]\<rparr>)" for p w
    using link_rest_wait [of ct t xs "perform p s" w] assms by simp
  show ?thesis
    using rest link_tokens_get [OF assms] by (simp add: ensureConversationToken_def)
qed

lemma link_continue_connect:
  assumes "link_inv ((ct, t) # xs) s"
  shows "link_inv xs (continue_connect d env ct t token e s)"
proof -
  have "link_inv ((ct, t) # xs) (s\<lparr>c_managers := ms, c_tokens := i\<rparr>)" for ms i
    using assms by (subst link_inv_cong [of _ s]) (simp_all add: link_view_def attempts_def)
  then have "link_inv xs (tokens_get env (KConnect ct t) (s\<lparr>c_managers := ms, c_tokens := i\<rparr>))" for ms i
    by (rule link_tokens_get) simp
  then show ?thesis
    using link_connect_failed [OF assms]
    by (auto simp: continue_connect_def useConversationTokens_def split: sum.split)
qed

lemma link_rest_answered:
  assumes "link_inv ((ct, t) # xs) s"
  shows "link_inv xs (rest_answered d env ct t w ans s)"
proof -
  have stored: "link_inv xs (s\<lparr>c_conversationId := i, c_store := st, c_restWaits := c_restWaits s @ [(ct, t, w')]\<rparr>)" for i st w'
    by (subst link_inv_cong [OF _, of _ "s\<lparr>c_restWaits := c_restWaits s @ [(ct, t, w')]\<rparr>"])
      (use link_rest_wait [OF assms] in \<open>simp_all add: link_view_def attempts_def\<close>)
  show ?thesis
    using stored [of _ "c_store s"] stored link_connect_failed [OF assms] link_continue_connect [OF assms]
    by (simp add: rest_answered_def Let_def split: sum.split)
qed

lemma link_view_simps [simp]:
  "link_view (snd (transport_send env f s)) = link_view s" "link_view (scheduleRefresh env s) = link_view s"
  "link_view (scheduleRetry env s) = link_view s" "link_view (flush env s) = link_view s"
  "link_view (saveState s) = link_view s" "link_view (with_store g s) = link_view s"
  "link_view (endReplay env b s) = link_view s" "link_view (perform p s) = link_view s"
  "link_view (emit_event ev s) = link_view s" "link_view (rejectWaiting e s) = link_view s"
  "link_view (markSeen q s) = link_view s" "link_view (settle a s) = link_view s"
  "link_view (deliver a' s) = link_view s" "link_view (checkGap d h s) = link_view s"
  by (simp_all add: link_view_def attempts_def)

lemma link_view_updates [simp]:
  "link_view (s\<lparr>c_refreshTimer := x1\<rparr>) = link_view s" "link_view (s\<lparr>c_gapTimer := x2\<rparr>) = link_view s"
  "link_view (s\<lparr>c_syncTimer := x3\<rparr>) = link_view s" "link_view (s\<lparr>c_retryTimer := x4\<rparr>) = link_view s"
  "link_view (s\<lparr>c_replayTimer := x1\<rparr>) = link_view s" "link_view (s\<lparr>c_managers := x5\<rparr>) = link_view s"
  "link_view (s\<lparr>c_attaching := x6\<rparr>) = link_view s" "link_view (s\<lparr>c_flushing := n\<rparr>) = link_view s"
  "link_view (s\<lparr>c_replaying := b\<rparr>) = link_view s" "link_view (s\<lparr>c_replayTarget := i\<rparr>) = link_view s"
  "link_view (s\<lparr>c_inFlight := x7\<rparr>) = link_view s" "link_view (s\<lparr>c_retryAt := x8\<rparr>) = link_view s"
  "link_view (s\<lparr>c_store := x9\<rparr>) = link_view s" "link_view (s\<lparr>c_waiting := x7\<rparr>) = link_view s"
  "link_view (s\<lparr>c_out := x10\<rparr>) = link_view s" "link_view (s\<lparr>c_watermark := i\<rparr>) = link_view s"
  "link_view (s\<lparr>c_seen := x11\<rparr>) = link_view s" "link_view (s\<lparr>c_conversationId := x12\<rparr>) = link_view s"
  "link_view (s\<lparr>c_userId := x12\<rparr>) = link_view s" "link_view (s\<lparr>c_authRejections := n\<rparr>) = link_view s"
  by (simp_all add: link_view_def attempts_def)

lemma link_view_fetch: "attempt_of k = [] \<Longrightarrow> link_view (tokens_fetch r k s) = link_view s"
  by (simp add: link_view_def attempts_def tokens_fetch_def join_request_def with_tokens_def)

lemma link_view_refresh_settled [simp]: "link_view (refresh_settled env res s) = link_view s"
  by (simp add: refresh_settled_def Let_def split: sum.split)

lemma link_token_continue:
  assumes "link_inv (attempt_of k @ xs) s"
  shows "link_inv xs (token_continue d env k res s)"
proof (cases k)
  case (KBase ct t)
  then show ?thesis
    using assms link_connect_failed link_ensureConversationToken by (auto simp: token_continue_def split: sum.split)
next
  case (KConnect ct t)
  then show ?thesis
    using assms link_connect_failed link_connect_ready by (auto simp: token_continue_def split: sum.split)
next
  case KRefresh
  then show ?thesis
    using assms by (auto simp: token_continue_def intro: link_inv_cong [THEN iffD2])
qed (use assms in \<open>auto simp: token_continue_def split: sum.split\<close>)

lemma link_continue_all:
  assumes "link_inv (concat (map attempt_of ks) @ xs) s"
  shows "link_inv xs (fold (\<lambda>k. token_continue d env k res) ks s)"
  using assms by (induction ks arbitrary: s) (auto intro: link_token_continue)

text \<open>A wait taken out of the state becomes a running continuation.\<close>

lemma link_take:
  assumes "link_inv xs s" "length (attempts s) = length ys + length (attempts s')" "set (attempts s) = set ys \<union> set (attempts s')"
    and "c_reconnectTimer s' = c_reconnectTimer s" "c_transport s' = c_transport s" "c_connectToken s' = c_connectToken s"
    and "c_ready s' = c_ready s" "c_stopped s' = c_stopped s" "c_state s' = c_state s" "c_loading s' = c_loading s"
    and "c_started s' = c_started s"
  shows "link_inv (ys @ xs) s'"
  using assms(1) unfolding link_inv_def links_def assms(2-11) by auto

lemma attempts_filter:
  "length (concat (map (\<lambda>w. attempt_of (snd w)) ws)) =
     length (concat (map attempt_of (map snd (filter P ws)))) + length (concat (map (\<lambda>w. attempt_of (snd w)) (filter (\<lambda>w. \<not> P w) ws)))"
  "set (concat (map (\<lambda>w. attempt_of (snd w)) ws)) =
     set (concat (map attempt_of (map snd (filter P ws)))) \<union> set (concat (map (\<lambda>w. attempt_of (snd w)) (filter (\<lambda>w. \<not> P w) ws)))"
  by (induction ws) auto

lemma link_token_settled:
  assumes "link_inv [] s"
  shows "link_inv [] (token_settled d env m ans s)"
proof -
  define ks where "ks = map snd (filter (\<lambda>w. fst w = m) (c_tokenWaits s))"
  define s1 where "s1 ms = s\<lparr>c_managers := ms, c_tokenWaits := filter (\<lambda>w. fst w \<noteq> m) (c_tokenWaits s)\<rparr>" for ms
  have "link_inv (concat (map attempt_of ks) @ []) (s1 ms)" for ms
    by (rule link_take [OF assms])
      (simp_all only: attempts_def attempts_filter [of "c_tokenWaits s" "\<lambda>w. fst w = m"] s1_def ks_def set_append length_append,
        auto)
  then show ?thesis
    using assms link_continue_all [of ks "[]"] unfolding s1_def
    by (simp add: token_settled_def Let_def ks_def split: prod.split)
qed

lemma link_microtask:
  assumes "link_inv [] s"
  shows "link_inv [] (microtask d env s)"
proof (cases "c_microtasks s")
  case Nil
  with assms show ?thesis by (simp add: microtask_def)
next
  case (Cons m ms)
  obtain k tok where m: "m = (k, tok)" by (cases m)
  have "link_inv (attempt_of k @ []) (s\<lparr>c_microtasks := ms\<rparr>)"
    by (rule link_take [OF assms]) (auto simp: attempts_def Cons m)
  then show ?thesis
    using link_token_continue by (simp add: microtask_def Cons m)
qed

lemma link_take_rest:
  assumes "link_inv [] s" "(ct, t, w) \<in> set (c_restWaits s)"
  shows "link_inv [(ct, t)] (s\<lparr>c_restWaits := remove1 (ct, t, w) (c_restWaits s)\<rparr>)"
proof -
  obtain us vs where "c_restWaits s = us @ (ct, t, w) # vs" "(ct, t, w) \<notin> set us"
    using assms(2) by (meson split_list_first)
  then have split: "c_restWaits s = us @ (ct, t, w) # vs" "remove1 (ct, t, w) (c_restWaits s) = us @ vs"
    by (simp_all add: remove1_append)
  have "link_inv ([(ct, t)] @ []) (s\<lparr>c_restWaits := us @ vs\<rparr>)"
    by (rule link_take [OF assms(1)]) (auto simp: attempts_def split(1))
  then show ?thesis by (simp add: split(2))
qed

lemma find_mem: "find P xs = Some x \<Longrightarrow> x \<in> set xs \<and> P x"
  by (auto simp: find_Some_iff)

lemma link_rest_step:
  assumes "link_inv [] s"
  shows "link_inv [] (rest_step d env ct ans s)"
proof (cases "find (\<lambda>(ct', t, w). ct' = ct \<and> \<not> is_attach w) (c_restWaits s)")
  case None
  with assms show ?thesis by (simp add: rest_step_def)
next
  case (Some r)
  obtain t w where r: "r = (ct, t, w)" "(ct, t, w) \<in> set (c_restWaits s)"
    using find_mem [OF Some] by (cases r) auto
  then show ?thesis
    using link_rest_answered [OF link_take_rest [OF assms r(2)]] Some by (simp add: rest_step_def)
qed

lemma link_attach_step:
  assumes "link_inv [] s"
  shows "link_inv [] (attach_step d env ct raw s)"
proof (cases "find (\<lambda>(ct', t, w). ct' = ct \<and> is_attach w) (c_restWaits s)")
  case None
  with assms show ?thesis by (simp add: attach_step_def)
next
  case (Some r)
  obtain t w where r: "r = (ct, t, w)" "(ct, t, w) \<in> set (c_restWaits s)" "is_attach w"
    using find_mem [OF Some] by (cases r) auto
  then obtain need token e where w: "w = RAttach need token e"
    by (auto simp: is_attach_def split: rest_wait.splits)
  define s1 where "s1 = s\<lparr>c_restWaits := remove1 (ct, t, w) (c_restWaits s)\<rparr>"
  have "link_inv [(ct, t)] s1" "link_inv [(ct, t)] (with_store (attach_load raw) s1)"
    using link_take_rest [OF assms r(2)] link_inv_cong [of "with_store (attach_load raw) s1" s1] by (simp_all add: s1_def)
  then show ?thesis
    using Some link_continue_connect by (simp add: attach_step_def r(1) w s1_def [symmetric, unfolded w])
qed

text \<open>\<open>#connect\<close> is called when the one link has just been used up.\<close>

lemma link_connect:
  assumes ready: "c_ready s \<noteq> None" and started: "c_started s" and zero: "links s = 0" and loading: "c_loading s = []"
    and closed: "c_stopped s \<longleftrightarrow> c_state s = Closed"
  shows "link_inv [] (connect d env s)"
proof (cases "c_stopped s")
  case True
  with assms show ?thesis
    by (auto simp: connect_def link_inv_def links_def split: if_splits)
next
  case False
  define s1 where "s1 = s\<lparr>c_connectToken := Suc (c_connectToken s)\<rparr>"
  define s2 where "s2 = (if c_state s1 \<noteq> Reconnecting
      then setConnState d (if c_welcomed s1 then Reconnecting else Connecting) None None None s1 else s1)"
  define t where "t = make_transport (c_connectToken s1) (currentFactory d s2)"
  have zero': "\<not> armed (c_reconnectTimer s)" "c_transport s = None" "attempts s = []"
    using zero by (auto simp: links_def split: if_splits)
  then have "attempts s1 = []" by (simp add: s1_def attempts_def)
  then have "attempts s2 = []" by (simp add: s2_def)
  moreover have "c_state s2 \<noteq> Closed" by (auto simp: s2_def setConnState_def)
  ultimately have "link_inv [(c_connectToken s1, t)] s2"
    using False ready started loading zero'
    by (simp add: link_inv_def links_def s2_def s1_def t_def make_transport_def)
  then have "link_inv [] (tokens_get env k s2)" if "attempt_of k = [(c_connectToken s1, t)]" for k
    using that link_tokens_get by simp
  moreover have "connect d env s =
      tokens_get env (if cap_requiresConversationId (t_caps t) then KBase (c_connectToken s1) t else KConnect (c_connectToken s1) t) s2"
    using False by (simp add: connect_def Let_def t_def s2_def s1_def)
  ultimately show ?thesis by simp
qed

lemma link_inv_closed: "link_inv xs s \<Longrightarrow> c_stopped s \<longleftrightarrow> c_state s = Closed"
  by (auto simp: link_inv_def)

lemma link_open_session:
  assumes "link_inv [] s" "c_ready s = None" "c_started s" "c_loading s = []"
  shows "link_inv [] (open_session d env s)"
proof -
  have "links (s\<lparr>c_ready := Some Pending\<rparr>) = 0"
    using assms(1, 2) by (simp add: link_inv_def links_def attempts_def)
  then show ?thesis
    unfolding open_session_def
    by (intro link_connect) (use assms link_inv_closed [OF assms(1)] in simp_all)
qed

lemma link_start: "link_inv [] s \<Longrightarrow> link_inv [] (start d env s)"
proof (cases "c_started s")
  case False
  assume inv: "link_inv [] s"
  with False have "c_ready s = None" "c_loading s = []" by (auto simp: link_inv_def)
  moreover from inv calculation have "link_inv [] (s\<lparr>c_started := True, c_conversationId := None\<rparr>)"
    unfolding link_inv_def links_def attempts_def by simp
  ultimately show ?thesis
    using False by (simp add: start_def link_open_session)
qed (simp add: start_def)

lemma link_resume:
  assumes "link_inv [] s"
  shows "link_inv [] (resume wm s)"
proof (cases "c_started s")
  case False
  with assms have "c_ready s = None" "c_loading s = []" by (auto simp: link_inv_def)
  with assms False have "link_inv [] (s\<lparr>c_started := True, c_loading := [wm]\<rparr>)"
    unfolding link_inv_def links_def attempts_def by simp
  with assms False \<open>c_loading s = []\<close> show ?thesis by (simp add: resume_def)
qed (use assms in \<open>simp add: resume_def\<close>)

lemma link_resume_loaded:
  assumes "link_inv [] s" "c_ready s = None" "c_started s" "c_loading s = []"
  shows "link_inv [] (resume_loaded d env wm raw s)"
proof -
  define s1 where "s1 = resume_restore raw s"
  have view: "link_view s1 = link_view s" "link_view (s1\<lparr>c_watermark := w\<rparr>) = link_view s" for w
    by (simp_all add: s1_def resume_restore_def Let_def split: option.split)
  then have "link_inv [] s1" "link_inv [] (s1\<lparr>c_watermark := w\<rparr>)" for w
    using assms(1) link_inv_cong by blast+
  moreover have "c_ready s1 = None" "c_started s1" "c_loading s1 = []"
    using view(1) assms by (auto simp: link_view_def)
  ultimately show ?thesis
    using link_open_session by (simp add: resume_loaded_def s1_def [symmetric] split: sum.split)
qed

section \<open>Frames and closes\<close>

lemma link_onClose:
  assumes "link_inv [] s" "c_transport s = Some t"
  shows "link_inv [] (onClose d env cl s)"
proof -
  define s1 where "s1 = endReplay env False (s\<lparr>c_transport := None, c_inFlight := []\<rparr>)"
  define s2 where "s2 = s1\<lparr>c_refreshTimer := clear_timeout (c_refreshTimer s1),
      c_gapTimer := clear_timeout (c_gapTimer s1), c_syncTimer := clear_timeout (c_syncTimer s1)\<rparr>"
  have running: "\<not> c_stopped s" using assms by (auto simp: link_inv_def)
  have "link_inv [(c_connectToken s, t)] (s\<lparr>c_transport := None\<rparr>)"
    using assms by (auto simp: link_inv_def links_def attempts_def)
  moreover have "link_view s2 = link_view (s\<lparr>c_transport := None\<rparr>)"
    by (simp add: s2_def s1_def)
  ultimately have s2: "link_inv [(c_connectToken s, t)] s2"
    using link_inv_cong by blast
  have stop: "\<not> c_stopped s1" "\<not> c_stopped s2" using running by (simp_all add: s2_def s1_def)
  define s3 where "s3 = s2\<lparr>c_authRejections := Suc (c_authRejections s2)\<rparr>"
  have s3: "link_inv [(c_connectToken s, t)] s3"
    using s2 by (subst link_inv_cong [of s3 s2]) (simp_all add: s3_def)
  have s4: "link_inv [(c_connectToken s, t)] (tokens_fetch Rejected KRejected s3)"
    using s3 by (subst link_inv_cong [of _ s3]) (simp_all add: link_view_fetch)
  have close: "link_inv [] (close_session d e cl s')" if "link_inv [(c_connectToken s, t)] s'" for e s'
    using that link_close_session [of "[(c_connectToken s, t)]" "[]"] by simp
  have "link_inv [] (scheduleReconnect d env cl s2)"
    "link_inv [] (scheduleReconnect d env cl (tokens_fetch Rejected KRejected s3))"
    using link_scheduleReconnect s2 s4 stop by (simp_all add: s3_def)
  then show ?thesis
    using stop close s2 s3
    by (simp add: onClose_def Let_def s1_def [symmetric] s2_def [symmetric] s3_def [symmetric])
qed

lemma link_view_frames:
  "link_view (onAck env a s) = link_view s"
  "link_view (onSendError env cid e s) = link_view s"
  "link_view (onSessionError env e s) = link_view s"
  "link_view (onTokenRefreshed env x s) = link_view s"
  "link_view (onReplayTruncated d env r s) = link_view s"
  "link_view (onHeartbeat d h s) = link_view s"
  "link_view (onMessage d env m s) = link_view s"
  by (simp_all add: onAck_def onSendError_def onSessionError_def onTokenRefreshed_def with_tokens_def
      onReplayTruncated_def armReplayTimer_def onHeartbeat_def onMessage_def onPersistent_def Let_def
      link_view_fetch split: option.split)

lemma link_view_onFrame:
  assumes "\<And>w. frame \<noteq> Welcome w"
  shows "link_view (onFrame d env frame s) = link_view s"
proof (cases frame)
  case (Welcome w)
  with assms show ?thesis by blast
qed (simp_all add: onFrame_def onError_def Let_def link_view_frames split: option.split)

lemma link_onWelcome:
  assumes "link_inv [] s" "\<not> c_stopped s"
  shows "link_inv [] (onWelcome d env w s)"
proof -
  let ?s = "onWelcome d env w s"
  have "c_state ?s = Open" "c_stopped ?s = c_stopped s" "c_transport ?s = c_transport s"
      "c_connectToken ?s = c_connectToken s" "(c_ready ?s = None) = (c_ready s = None)"
      "c_reconnectTimer ?s = c_reconnectTimer s" "c_loading ?s = c_loading s" "c_started ?s = c_started s"
    by (simp_all add: onWelcome_def Let_def welcome_identity_def with_tokens_def welcome_replay_def armReplayTimer_def
        welcome_attach_def setConnState_def split: option.split)
  moreover have "attempts ?s = attempts s"
    by (simp add: attempts_def onWelcome_def Let_def welcome_identity_def with_tokens_def welcome_replay_def
        armReplayTimer_def welcome_attach_def split: option.split)
  ultimately show ?thesis
    using assms unfolding link_inv_def links_def by simp
qed

section \<open>All inputs\<close>

lemma disconnect_fields:
  "c_stopped (disconnect d s)" "c_transport (disconnect d s) = None" "c_state (disconnect d s) = Closed"
  "\<not> armed (c_reconnectTimer (disconnect d s))" "c_ready (disconnect d s) = None \<longleftrightarrow> c_ready s = None"
  "c_connectToken (disconnect d s) = c_connectToken s" "c_loading (disconnect d s) = c_loading s"
  "c_started (disconnect d s) = c_started s" "attempts (disconnect d s) = attempts s"
  by (simp_all add: disconnect_def Let_def settle_ready_def setConnState_def drop_transport_def clearTimers_def
      attempts_def split: option.split)

lemma link_disconnect: "link_inv [] s \<Longrightarrow> link_inv [] (disconnect d s)"
  unfolding link_inv_def links_def by (simp add: disconnect_fields)

lemma link_reconnect_fires:
  assumes "link_inv [] s" "armed (c_reconnectTimer s)"
  shows "link_inv [] (connect d env (s\<lparr>c_reconnectTimer := Spent\<rparr>))"
proof (rule link_connect)
  show "c_ready (s\<lparr>c_reconnectTimer := Spent\<rparr>) \<noteq> None" "c_started (s\<lparr>c_reconnectTimer := Spent\<rparr>)"
    "links (s\<lparr>c_reconnectTimer := Spent\<rparr>) = 0" "c_loading (s\<lparr>c_reconnectTimer := Spent\<rparr>) = []"
    using assms by (auto simp: link_inv_def links_def attempts_def)
qed (use link_inv_closed [OF assms(1)] in simp)

lemma link_view_calls:
  "link_view (send env m g s) = link_view s" "link_view (typing env b s) = link_view s"
  "link_view (markRead env q s) = link_view s" "link_view (discardOutbox s) = link_view s"
  "link_view (welcome_attached env need raw s) = link_view s" "link_view (refresh s) = link_view s"
  "link_view (gap_fires env h s) = link_view s" "link_view (sync_fires env h s) = link_view s"
  "link_view (retry_fires env s) = link_view s" "link_view (shared_get env s) = link_view s"
  by (simp_all add: send_def send_accepted_def typing_def markRead_def send_signal_def discardOutbox_def
      welcome_attached_def refresh_def link_view_fetch gap_fires_def sync_fires_def retry_fires_def
      shared_get_def Let_def split: option.split prod.split list.split)
     (simp_all add: link_view_def attempts_def transport_send_def split: option.split)

lemma link_step: "link_inv [] s \<Longrightarrow> link_inv [] (step d ei s)"
proof -
  assume inv: "link_inv [] s"
  have view: "link_inv [] s'" if "link_view s' = link_view s" for s'
    using inv that link_inv_cong by blast
  obtain env i where ei: "ei = (env, i)" by (cases ei)
  show ?thesis
  proof (cases i)
    case CallStart
    with ei inv show ?thesis by (simp add: link_start)
  next
    case (CallResume wm)
    with ei inv show ?thesis by (simp add: link_resume)
  next
    case CallDisconnect
    with ei inv show ?thesis by (simp add: link_disconnect)
  next
    case (StoreLoaded wm raw)
    have "link_inv [] (resume_loaded d env wm raw (s\<lparr>c_loading := remove1 wm (c_loading s)\<rparr>))" if "wm \<in> set (c_loading s)"
    proof -
      from inv that have "c_loading s = [wm]" "c_ready s = None" "c_started s"
        by (auto simp: link_inv_def le_Suc_eq length_Suc_conv)
      moreover with inv have "link_inv [] (s\<lparr>c_loading := []\<rparr>)"
        unfolding link_inv_def links_def attempts_def by simp
      ultimately show ?thesis by (simp add: link_resume_loaded)
    qed
    with StoreLoaded ei inv show ?thesis by simp
  next
    case Microtask
    with ei inv show ?thesis by (simp add: link_microtask)
  next
    case (TokenSettled m ans)
    with ei inv show ?thesis by (simp add: link_token_settled)
  next
    case (RestAnswered ct ans)
    with ei inv show ?thesis by (simp add: link_rest_step)
  next
    case (CreatedAttached ct raw)
    with ei inv show ?thesis by (simp add: link_attach_step)
  next
    case (FrameIn j frame)
    have running: "\<not> c_stopped s" if "current_transport j s"
      using that inv by (auto simp: link_inv_def current_transport_def)
    show ?thesis
    proof (cases frame)
      case (Welcome w)
      with FrameIn ei inv running show ?thesis by (simp add: onFrame_def link_onWelcome)
    qed (use FrameIn ei inv view [OF link_view_onFrame] in auto)
  next
    case (CloseIn j cl)
    with ei inv show ?thesis
      using link_onClose by (auto simp: current_transport_def split: option.splits)
  next
    case ReconnectFires
    with ei inv show ?thesis
      using link_reconnect_fires by (simp add: armed_def)
  qed (use ei inv in \<open>simp_all add: view link_view_calls split: option.split\<close>)
qed

end
