(* ===== verification/Conv_Samples.thy ===== *)
theory Conv_Samples
  imports Conversation
begin

text \<open>A concrete session and concrete frames, on which the properties of a session are evaluated.\<close>

definition sample_factory :: factory where
  "sample_factory = \<lparr>f_transportName = Some ''native'', f_name = ''native'',
     f_caps = \<lparr>cap_auth = True, cap_sync = True, cap_signals = True, cap_requiresConversationId = False\<rparr>\<rparr>"

definition sample_deps :: deps where
  "sample_deps = \<lparr>d_baseUrl = ''https://converger.example.com'', d_transports = [sample_factory],
     d_fallbackAfterAttempts = 2, d_reconnect = resolveReconnect ReconnectUndefined, d_refreshSkewMs = 60000,
     d_replayWaitMs = 5000, d_gapWaitMs = 1500\<rparr>"

definition sample_env :: env where
  "sample_env = \<lparr>v_now = 0, v_random = 0, v_accepts = (\<lambda>_. True)\<rparr>"

definition sample_token :: active_token where
  "sample_token = \<lparr>at_token = ''t'', at_expiresAt = None, at_claims = None, at_receivedAt = 0\<rparr>"

definition sample_conv :: conv where
  "sample_conv = new_conv None (new_token_manager 60000 (Some sample_token)) (new_store ''converger'' None)"

definition sample_welcome :: welcome_data where
  "sample_welcome = \<lparr>w_protocol = PROTOCOL_VERSION, w_compat = None, w_scope = None, w_conversationId = ''c'',
     w_userId = Some ''u'', w_connectionId = None, w_watermark = Some 0, w_pending = None, w_expiresAt = None,
     w_capabilities = None, w_limits = None\<rparr>"

definition sample_activity :: "int \<Rightarrow> activity_frame" where
  "sample_activity n = \<lparr>a_type = ''text'', a_seq = Some (JNum (of_int n)), a_id = Some (''a'' @ int_str n),
     a_from = Some ''bot'', a_clientId = None, a_body = JNull\<rparr>"

definition sample_message :: "string \<Rightarrow> send_message" where
  "sample_message cid = \<lparr>sm_text = Some ''hi'', sm_attachments = None, sm_metadata = None, sm_meta = None,
     sm_replyTo = None, sm_clientId = Some cid\<rparr>"

definition sample_ack :: "string \<Rightarrow> int \<Rightarrow> ack_frame" where
  "sample_ack cid n = \<lparr>ak_clientId = cid, ak_id = ''id'' @ cid, ak_seq = Some n, ak_timestamp = None, ak_duplicate = False\<rparr>"

definition sample_close :: "int \<Rightarrow> transport_close" where
  "sample_close code = \<lparr>tc_code = code, tc_reason = [], tc_retryAfterMs = None, tc_opened = True\<rparr>"

definition sample_inputs :: "conv_input list \<Rightarrow> (env \<times> conv_input) list" where
  "sample_inputs is = map (Pair sample_env) is"

text \<open>\<open>start()\<close>, the token, the welcome and the store.\<close>

definition sample_opening :: "conv_input list" where
  "sample_opening = [CallStart, Microtask, FrameIn 1 (Welcome sample_welcome), WelcomeAttached True None]"

end
