(* ===== verification/Conv_Receive.thy ===== *)
theory Conv_Receive
  imports Conv_Link Conv_Samples
begin

text \<open>
  Receiving: the watermark as the highest contiguous sequence number, the frames emitted to the
  application, and what the session tells the server when it resumes.
\<close>

section \<open>The loop of \<open>#markSeen\<close>\<close>

text \<open>The sequence numbers a session has seen: everything up to the watermark and the set above it.\<close>

definition seen_set :: "conv \<Rightarrow> int set" where
  "seen_set s = {x. x \<le> c_watermark s} \<union> set (c_seen s)"

definition recv_ok :: "conv \<Rightarrow> bool" where
  "recv_ok s \<longleftrightarrow> distinct (c_seen s) \<and> (\<forall>x \<in> set (c_seen s). c_watermark s + 1 < x)"

lemma advance_spec:
  assumes "advance w seen own = (w', seen', own')"
  shows "w \<le> w' \<and> {w<..w'} \<subseteq> set seen \<and> set seen' = set seen - {w<..w'} \<and> set own' = set own - {w<..w'}
    \<and> w' + 1 \<notin> set seen' \<and> (distinct seen \<longrightarrow> distinct seen')"
  using assms
proof (induction w seen own rule: advance.induct)
  case (1 w seen own)
  show ?case
  proof (cases "w + 1 \<in> set seen")
    case True
    have split: "{w<..w'} = insert (w + 1) {w + 1<..w'}" if "w + 1 \<le> w'"
      using that by auto
    from True "1.prems" have "advance (w + 1) (set_delete (w + 1) seen) (set_delete (w + 1) own) = (w', seen', own')"
      by (simp add: advance.simps [of w seen own])
    from "1.IH" [OF True this] have "w + 1 \<le> w'" "{w + 1<..w'} \<subseteq> set seen" "set seen' = set seen - {w + 1} - {w + 1<..w'}"
      "set own' = set own - {w + 1} - {w + 1<..w'}" "w' + 1 \<notin> set seen'" "distinct seen \<longrightarrow> distinct seen'"
      by auto
    with True split show ?thesis by auto
  next
    case False
    with "1.prems" show ?thesis by (simp add: advance.simps [of w seen own])
  qed
qed

lemma markSeen_store_fields [simp]:
  "c_watermark (saveState s) = c_watermark s" "c_seen (saveState s) = c_seen s"
  by simp_all

lemma markSeen_recv:
  assumes "recv_ok s"
  shows "recv_ok (markSeen q s)" "seen_set (markSeen q s) = insert q (seen_set s)" "c_watermark s \<le> c_watermark (markSeen q s)"
proof -
  have "recv_ok (markSeen q s) \<and> seen_set (markSeen q s) = insert q (seen_set s) \<and> c_watermark s \<le> c_watermark (markSeen q s)"
  proof (cases "q \<le> c_watermark s")
    case True
    with assms show ?thesis by (auto simp: markSeen_def seen_set_def)
  next
    case False
    obtain w seen own where a: "advance (c_watermark s) (set_add q (c_seen s)) (c_ownSeqs s) = (w, seen, own)"
      by (cases "advance (c_watermark s) (set_add q (c_seen s)) (c_ownSeqs s)")
    note spec = advance_spec [OF a]
    have fields: "c_watermark (markSeen q s) = w" "c_seen (markSeen q s) = seen"
      using False by (simp_all add: markSeen_def a Let_def)
    have above: "\<forall>x \<in> set seen. w + 1 < x"
    proof
      fix x assume x: "x \<in> set seen"
      with spec have "x \<in> insert q (set (c_seen s))" "x \<notin> {c_watermark s<..w}" "x \<noteq> w + 1"
        by auto
      moreover from this(1) False assms have "c_watermark s < x" by (auto simp: recv_ok_def)
      ultimately show "w + 1 < x" by auto
    qed
    have "{x. x \<le> w} \<union> set seen = insert q ({x. x \<le> c_watermark s} \<union> set (c_seen s))"
    proof (intro equalityI subsetI)
      fix x assume "x \<in> {x. x \<le> w} \<union> set seen"
      with spec show "x \<in> insert q ({x. x \<le> c_watermark s} \<union> set (c_seen s))"
        by (cases "x \<le> c_watermark s"; cases "x \<le> w") (auto simp: subset_iff)
    next
      fix x assume "x \<in> insert q ({x. x \<le> c_watermark s} \<union> set (c_seen s))"
      with spec show "x \<in> {x. x \<le> w} \<union> set seen" by auto
    qed
    with spec above assms show ?thesis
      by (simp add: recv_ok_def seen_set_def fields)
  qed
  then show "recv_ok (markSeen q s)" "seen_set (markSeen q s) = insert q (seen_set s)"
    "c_watermark s \<le> c_watermark (markSeen q s)"
    by blast+
qed

section \<open>Frames emitted to the application\<close>

fun delivery :: "effect \<Rightarrow> activity_frame list" where
  "delivery (Emitted (EvActivity a)) = [a]"
| "delivery (Emitted (EvTyping a)) = (if isPersistent a then [a] else [])"
| "delivery e = []"

definition delivered_of :: "effect list \<Rightarrow> activity_frame list" where
  "delivered_of os = concat (map delivery os)"

lemma delivered_of_simps [simp]:
  "delivered_of [] = []" "delivered_of (xs @ ys) = delivered_of xs @ delivered_of ys"
  "delivered_of (x # xs) = delivery x @ delivered_of xs"
  by (simp_all add: delivered_of_def)

lemma delivered_of_quiet: "(\<And>x. x \<in> set os \<Longrightarrow> delivery x = []) \<Longrightarrow> delivered_of os = []"
  by (induction os) auto

definition delivered :: "conv \<Rightarrow> activity_frame list" where
  "delivered s = delivered_of (c_out s)"

lemma delivered_perform [simp]: "delivered (perform e s) = delivered s @ delivery e"
  by (simp add: delivered_def perform_def)

lemma delivered_emit [simp]: "delivered (emit_event e s) = delivered s @ delivery (Emitted e)"
  by (simp add: emit_event_def)

text \<open>\<open>#flush\<close> only puts text frames on the wire.\<close>

lemma flush_entries_out:
  "\<exists>os. c_out (flush_entries env es s) = c_out s @ os \<and> (\<forall>x \<in> set os. \<exists>i m. x = Wire i (Text m))"
proof (induction es arbitrary: s)
  case Nil
  then show ?case by simp
next
  case (Cons e es)
  have step: "\<exists>os. c_out (flush_entries env es s') = c_out s @ os \<and> (\<forall>x \<in> set os. \<exists>i m. x = Wire i (Text m))"
    if "c_out s' = c_out s @ [Wire i (Text m)]" for s' i m
    using Cons.IH [of s'] that by auto
  show ?case
    using Cons.IH [of s] by (auto simp: Let_def transport_send_def perform_def split: option.split intro!: step)
qed

lemma flush_out: "\<exists>os. c_out (flush env s) = c_out s @ os \<and> (\<forall>x \<in> set os. \<exists>i m. x = Wire i (Text m))"
  using flush_entries_out [of env "st_entries (c_store s)" s] by (auto simp: flush_def)

lemma delivered_flush [simp]: "delivered (flush env s) = delivered s"
proof -
  obtain os where os: "c_out (flush env s) = c_out s @ os" "\<forall>x \<in> set os. \<exists>i m. x = Wire i (Text m)"
    using flush_out by blast
  then have "delivered_of os = []" by (intro delivered_of_quiet) auto
  with os show ?thesis by (simp add: delivered_def)
qed

text \<open>What the receive properties read of a session.\<close>

definition recv_view :: "conv \<Rightarrow> int \<times> int list \<times> activity_frame list" where
  "recv_view s = (c_watermark s, c_seen s, delivered s)"

lemma delivered_ops [simp]:
  "delivered (snd (transport_send env f s)) = delivered s" "delivered (saveState s) = delivered s"
  "delivered (with_store g s) = delivered s" "delivered (endReplay env b s) = delivered s"
  "delivered (markSeen q s) = delivered s" "delivered (settle a s) = delivered s"
  "delivered (checkGap d h s) = delivered s" "delivered (scheduleRefresh env s) = delivered s"
  "delivered (scheduleRetry env s) = delivered s" "delivered (setConnState d st dl cl er s) = delivered s"
  "delivered (drop_transport r s) = delivered s" "delivered (clearTimers s) = delivered s"
proof -
  show "delivered (saveState s) = delivered s" "delivered (with_store g s) = delivered s"
    "delivered (markSeen q s) = delivered s" "delivered (checkGap d h s) = delivered s"
    "delivered (scheduleRefresh env s) = delivered s" "delivered (scheduleRetry env s) = delivered s"
    "delivered (clearTimers s) = delivered s"
    by (simp_all add: delivered_def)
  have upd: "delivered (s\<lparr>c_transport := x1\<rparr>) = delivered s" "delivered (s\<lparr>c_state := x2\<rparr>) = delivered s"
    "delivered (s\<lparr>c_replayTimer := x3\<rparr>) = delivered s" "delivered (s\<lparr>c_replayTimer := x3, c_replaying := x4\<rparr>) = delivered s"
    "delivered (s\<lparr>c_ownSeqs := y1, c_ownIds := y2, c_inFlight := y3, c_retryAt := y4, c_store := y5, c_waiting := y6\<rparr>) = delivered s"
    for s x1 x2 x3 x4 y1 y2 y3 y4 y5 y6
    by (simp_all add: delivered_def)
  show "delivered (snd (transport_send env f s)) = delivered s" "delivered (endReplay env b s) = delivered s"
    "delivered (settle a s) = delivered s" "delivered (setConnState d st dl cl er s) = delivered s"
    "delivered (drop_transport r s) = delivered s"
    by (simp_all add: transport_send_def endReplay_def settle_def setConnState_def drop_transport_def Let_def upd
        split: option.split)
qed

lemmas delivered_of_ops [simp] = delivered_ops [unfolded delivered_def] delivered_flush [unfolded delivered_def]
  delivered_perform [unfolded delivered_def] delivered_emit [unfolded delivered_def]

lemma delivered_of_requests [simp]: "delivered_of (token_requests m os) = []"
  by (auto simp: token_requests_def intro!: delivered_of_quiet split: token_output.split)

lemma delivered_of_rejections [simp]: "delivered_of (map (\<lambda>c. SendRejected c e) cs) = []"
  by (rule delivered_of_quiet) auto

lemma recv_view_cong: "recv_view s' = recv_view s \<Longrightarrow>
    recv_ok s' = recv_ok s \<and> seen_set s' = seen_set s \<and> delivered s' = delivered s \<and> c_watermark s' = c_watermark s \<and> c_seen s' = c_seen s"
  by (simp add: recv_view_def recv_ok_def seen_set_def)

lemma recv_view_tokens [simp]:
  "recv_view (join_request k r s) = recv_view s" "recv_view (tokens_fetch tr k s) = recv_view s"
  "recv_view (tokens_get env k s) = recv_view s"
  by (simp_all add: recv_view_def delivered_def join_request_def with_tokens_def tokens_fetch_def tokens_get_def
      split: prod.split option.split)

lemma recv_view_close [simp]: "recv_view (close_session d e cl s) = recv_view s"
  by (simp add: recv_view_def delivered_def close_session_def settle_ready_def rejectWaiting_def)

lemma recv_view_reconnect [simp]: "recv_view (scheduleReconnect d env cl s) = recv_view s"
proof (cases "enabled (d_reconnect d) \<and> \<not> exceeds (Suc (c_attempt s)) (maxAttempts (d_reconnect d))")
  case True
  then show ?thesis
    by (simp add: recv_view_def delivered_def scheduleReconnect_def fall_back_def Let_def)
next
  case False
  have "recv_view (s\<lparr>c_attempt := n\<rparr>) = recv_view s" for n
    by (simp add: recv_view_def delivered_def)
  with False show ?thesis
    by (auto simp: scheduleReconnect_def Let_def)
qed

lemma recv_view_emit: "delivery (Emitted ev) = [] \<Longrightarrow> recv_view (emit_event ev s) = recv_view s"
  and recv_view_perform: "delivery p = [] \<Longrightarrow> recv_view (perform p s) = recv_view s"
  by (simp_all add: recv_view_def)

lemma recv_view_connect_failed [simp]: "recv_view (connect_failed d env ct e s) = recv_view s"
  by (simp add: connect_failed_def Let_def recv_view_emit)

lemma recv_view_connect_ready [simp]: "recv_view (connect_ready d ct t tok s) = recv_view s"
  by (simp add: connect_ready_def recv_view_perform) (simp add: recv_view_def delivered_def)

lemma recv_view_setConnState [simp]: "recv_view (setConnState d st dl cl er s) = recv_view s"
  by (simp add: recv_view_def)

lemma recv_view_updates [simp]:
  "recv_view (s\<lparr>c_connectToken := n\<rparr>) = recv_view s" "recv_view (s\<lparr>c_restWaits := x1\<rparr>) = recv_view s"
  "recv_view (s\<lparr>c_managers := x2\<rparr>) = recv_view s" "recv_view (s\<lparr>c_tokens := n\<rparr>) = recv_view s"
  "recv_view (s\<lparr>c_tokenWaits := x3\<rparr>) = recv_view s" "recv_view (s\<lparr>c_microtasks := x4\<rparr>) = recv_view s"
  "recv_view (s\<lparr>c_ready := x5\<rparr>) = recv_view s" "recv_view (s\<lparr>c_started := b\<rparr>) = recv_view s"
  "recv_view (s\<lparr>c_conversationId := x6\<rparr>) = recv_view s" "recv_view (s\<lparr>c_userId := x6\<rparr>) = recv_view s"
  "recv_view (s\<lparr>c_store := x7\<rparr>) = recv_view s" "recv_view (s\<lparr>c_loading := x8\<rparr>) = recv_view s"
  "recv_view (s\<lparr>c_attaching := x9\<rparr>) = recv_view s" "recv_view (s\<lparr>c_flushing := n\<rparr>) = recv_view s"
  "recv_view (s\<lparr>c_refreshTimer := u\<rparr>) = recv_view s" "recv_view (s\<lparr>c_reconnectTimer := u\<rparr>) = recv_view s"
  "recv_view (s\<lparr>c_gapTimer := u'\<rparr>) = recv_view s" "recv_view (s\<lparr>c_syncTimer := u'\<rparr>) = recv_view s"
  "recv_view (s\<lparr>c_retryTimer := u\<rparr>) = recv_view s" "recv_view (s\<lparr>c_replayTimer := u\<rparr>) = recv_view s"
  "recv_view (s\<lparr>c_waiting := x10\<rparr>) = recv_view s" "recv_view (s\<lparr>c_inFlight := x10\<rparr>) = recv_view s"
  "recv_view (s\<lparr>c_retryAt := x11\<rparr>) = recv_view s" "recv_view (s\<lparr>c_transport := x12\<rparr>) = recv_view s"
  "recv_view (s\<lparr>c_replaying := b\<rparr>) = recv_view s" "recv_view (s\<lparr>c_replayTarget := i\<rparr>) = recv_view s"
  "recv_view (s\<lparr>c_authRejections := n\<rparr>) = recv_view s" "recv_view (s\<lparr>c_stopped := b\<rparr>) = recv_view s"
  "recv_view (s\<lparr>c_maxInFlight := x13\<rparr>) = recv_view s" "recv_view (s\<lparr>c_lastWelcome := x14\<rparr>) = recv_view s"
  "recv_view (s\<lparr>c_welcomed := b\<rparr>) = recv_view s" "recv_view (s\<lparr>c_attempt := n\<rparr>) = recv_view s"
  "recv_view (s\<lparr>c_failuresOnTransport := n\<rparr>) = recv_view s"
  by (simp_all add: recv_view_def delivered_def)

lemma recv_view_ops [simp]:
  "recv_view (snd (transport_send env f s)) = recv_view s" "recv_view (saveState s) = recv_view s"
  "recv_view (with_store g s) = recv_view s" "recv_view (endReplay env b s) = recv_view s"
  "recv_view (settle a s) = recv_view s" "recv_view (checkGap d h s) = recv_view s"
  "recv_view (scheduleRefresh env s) = recv_view s" "recv_view (scheduleRetry env s) = recv_view s"
  "recv_view (drop_transport r s) = recv_view s" "recv_view (clearTimers s) = recv_view s"
  "recv_view (flush env s) = recv_view s" "recv_view (rejectWaiting e s) = recv_view s"
  by (simp_all add: recv_view_def) (simp add: rejectWaiting_def delivered_def)

section \<open>Steps that do not receive\<close>

lemma recv_view_connect [simp]: "recv_view (connect d env s) = recv_view s"
  by (simp add: connect_def Let_def)

lemma recv_view_ensure [simp]: "recv_view (ensureConversationToken env ct t base s) = recv_view s"
  by (simp add: ensureConversationToken_def recv_view_perform)

lemma recv_view_continue_connect [simp]: "recv_view (continue_connect d env ct t tok e s) = recv_view s"
  by (simp add: continue_connect_def useConversationTokens_def split: sum.split)

lemma recv_view_rest_answered [simp]: "recv_view (rest_answered d env ct t w ans s) = recv_view s"
  by (simp add: rest_answered_def Let_def recv_view_perform split: sum.split)

lemma recv_view_token_continue [simp]: "recv_view (token_continue d env k res s) = recv_view s"
  by (simp add: token_continue_def refresh_settled_def Let_def recv_view_emit split: token_wait.split sum.split)

lemma recv_view_continue_all [simp]: "recv_view (fold (\<lambda>k. token_continue d env k res) ks s) = recv_view s"
  by (induction ks arbitrary: s) simp_all

lemma recv_view_open_session [simp]: "recv_view (open_session d env s) = recv_view s"
  by (simp add: open_session_def)

lemma recv_view_onClose [simp]: "recv_view (onClose d env cl s) = recv_view s"
  by (simp add: onClose_def Let_def)

lemma recv_view_calls [simp]:
  "recv_view (start d env s) = recv_view s" "recv_view (resume wm s) = recv_view s"
  "recv_view (send env m g s) = recv_view s" "recv_view (typing env b s) = recv_view s"
  "recv_view (markRead env q s) = recv_view s" "recv_view (disconnect d s) = recv_view s"
  "recv_view (discardOutbox s) = recv_view s" "recv_view (welcome_attached env need raw s) = recv_view s"
  "recv_view (refresh s) = recv_view s" "recv_view (gap_fires env h s) = recv_view s"
  "recv_view (sync_fires env h s) = recv_view s" "recv_view (retry_fires env s) = recv_view s"
  "recv_view (shared_get env s) = recv_view s" "recv_view (microtask d env s) = recv_view s"
  "recv_view (token_settled d env n ans s) = recv_view s"
  by (simp_all add: start_def resume_def send_def send_accepted_def typing_def markRead_def send_signal_def
      disconnect_def settle_ready_def discardOutbox_def welcome_attached_def refresh_def gap_fires_def sync_fires_def
      retry_fires_def shared_get_def microtask_def token_settled_def Let_def recv_view_perform
      split: option.split prod.split list.split)
     (simp_all add: recv_view_def delivered_def transport_send_def split: option.split)

lemma recv_view_rest_steps [simp]:
  "recv_view (rest_step d env ct ans s) = recv_view s" "recv_view (attach_step d env ct raw s) = recv_view s"
  by (simp_all add: rest_step_def attach_step_def Let_def split: option.split prod.split rest_wait.split)

section \<open>Steps that receive\<close>

lemma recv_view_markSeen: "recv_view (markSeen q s) = (c_watermark (markSeen q s), c_seen (markSeen q s), delivered s)"
  by (simp add: recv_view_def)

text \<open>Whether \<open>#onPersistent\<close> hands a frame that is no duplicate to the application.\<close>

definition hands_over :: "activity_frame \<Rightarrow> conv \<Rightarrow> bool" where
  "hands_over a s \<longleftrightarrow>
     \<not> is_own_turn a s \<and> seq_of a \<notin> set (c_ownSeqs (markSeen (seq_of a) s))
     \<and> (case a_id a of Some i \<Rightarrow> i \<notin> set (c_ownIds s) | None \<Rightarrow> True)"

lemma store_get_saveState [simp]: "store_get cid (c_store (saveState s)) = store_get cid (c_store s)"
  by (simp add: saveState_def effects setState_def store_get_def Let_def split: option.split)

lemma store_get_markSeen [simp]: "store_get cid (c_store (markSeen q s)) = store_get cid (c_store s)"
  by (simp add: markSeen_def Let_def split: prod.split)

lemma is_own_turn_markSeen [simp]: "is_own_turn a (markSeen q s) = is_own_turn a s"
  by (simp add: is_own_turn_def split: option.split)

lemma deliver_view:
  assumes "isPersistent a"
  shows "recv_view (deliver a s) =
    (c_watermark (markSeen (seq_of a) s), c_seen (markSeen (seq_of a) s), delivered s @ (if hands_over a s then [a] else []))"
  using assms by (simp add: deliver_def ownTurn_def hands_over_def recv_view_def split: option.split)

lemma onPersistent_view: "recv_view (onPersistent d env a s) = recv_view (if is_duplicate (seq_of a) s then s else deliver a s)"
  by (simp add: onPersistent_def Let_def)

lemma onMessage_view:
  "recv_view (onMessage d env a s) =
     (if isPersistent a then recv_view (if is_duplicate (seq_of a) s then s else deliver a s) else recv_view s)"
  by (simp add: onMessage_def onPersistent_view recv_view_emit)

lemma onAck_view: "recv_view (onAck env a s) = (case ak_seq a of Some n \<Rightarrow> recv_view (markSeen n s) | None \<Rightarrow> recv_view s)"
  by (simp add: onAck_def Let_def split: option.split)

definition replaces :: "welcome_data \<Rightarrow> conv \<Rightarrow> bool" where
  "replaces w s \<longleftrightarrow> truthy (c_conversationId s) \<and> w_conversationId w \<noteq> [] \<and> Some (w_conversationId w) \<noteq> c_conversationId s"

definition reset_view :: "conv \<Rightarrow> int \<times> int list \<times> activity_frame list" where
  "reset_view s = (0, [], delivered s)"

lemma onWelcome_view: "recv_view (onWelcome d env w s) = (if replaces w s then reset_view s else recv_view s)"
proof -
  have "recv_view (welcome_identity w s) = (if replaces w s then reset_view s else recv_view s)"
    by (simp add: welcome_identity_def replaces_def reset_view_def Let_def) (simp add: recv_view_def delivered_def)
  then show ?thesis
    by (simp add: onWelcome_def Let_def with_tokens_def welcome_replay_def armReplayTimer_def welcome_attach_def
        recv_view_emit recv_view_perform split: option.split)
qed

text \<open>An error that makes the session start over from watermark 0.\<close>

definition rejects_watermark :: "error_data \<Rightarrow> conv \<Rightarrow> bool" where
  "rejects_watermark ed s \<longleftrightarrow>
     \<not> (case ed_clientId ed of Some cid \<Rightarrow> cid \<noteq> [] \<and> store_get cid (c_store s) \<noteq> None | None \<Rightarrow> False)
     \<and> ed_code ed = ''invalid_watermark'' \<and> ed_frameType ed \<in> {None, Some ''hello'', Some ''sync''}"

lemma onSessionError_view:
  "recv_view (onSessionError env e s) =
     (if e_code e = ''invalid_watermark'' \<and> e_frameType e \<in> {None, Some ''hello'', Some ''sync''}
      then reset_view s else recv_view s)"
proof -
  have "recv_view (s\<lparr>c_watermark := 0, c_seen := []\<rparr>) = reset_view s"
    by (simp add: recv_view_def reset_view_def delivered_def)
  then show ?thesis
    by (simp add: onSessionError_def Let_def recv_view_emit)
qed

lemma onSendError_view: "recv_view (onSendError env cid e s) = recv_view s"
  by (simp add: onSendError_def Let_def recv_view_emit recv_view_perform)

lemma onError_view: "recv_view (onError env ed s) = (if rejects_watermark ed s then reset_view s else recv_view s)"
  by (cases "ed_clientId ed")
    (auto simp: onError_def Let_def onSessionError_view onSendError_view rejects_watermark_def protocol_error_def)

definition resets :: "conv_input \<Rightarrow> conv \<Rightarrow> bool" where
  "resets i s \<longleftrightarrow>
     (case i of
        FrameIn j (Welcome w) \<Rightarrow> current_transport j s \<and> replaces w s
      | FrameIn j (Error ed) \<Rightarrow> current_transport j s \<and> rejects_watermark ed s
      | _ \<Rightarrow> False)"

definition received :: "conv_input \<Rightarrow> int set" where
  "received i =
     (case i of
        FrameIn j (Message a) \<Rightarrow> if isPersistent a then {seq_of a} else {}
      | FrameIn j (Ack a) \<Rightarrow> set_option (ak_seq a)
      | _ \<Rightarrow> {})"

lemma onFrame_view:
  "recv_view (onFrame d env frame s) =
     (case frame of
        Welcome w \<Rightarrow> if replaces w s then reset_view s else recv_view s
      | Ack a \<Rightarrow> (case ak_seq a of Some n \<Rightarrow> recv_view (markSeen n s) | None \<Rightarrow> recv_view s)
      | Error ed \<Rightarrow> if rejects_watermark ed s then reset_view s else recv_view s
      | Message a \<Rightarrow> if isPersistent a then recv_view (if is_duplicate (seq_of a) s then s else deliver a s) else recv_view s
      | _ \<Rightarrow> recv_view s)"
  by (cases frame)
    (simp_all add: onFrame_def onWelcome_view onAck_view onError_view onMessage_view recv_view_emit
      onTokenRefreshed_def with_tokens_def onReplayTruncated_def armReplayTimer_def onHeartbeat_def Let_def split: option.split)

text \<open>Every other input leaves the receive side alone, except the end of \<open>resume\<close>'s load.\<close>

lemma step_view_other:
  assumes "\<And>j f. i \<noteq> FrameIn j f" "\<And>wm raw. i \<noteq> StoreLoaded wm raw"
  shows "recv_view (step d (env, i) s) = recv_view s"
  using assms by (cases i) (auto simp: recv_view_perform split: option.split)

lemma resume_restore_view [simp]: "recv_view (resume_restore raw s) = recv_view s"
  by (simp add: resume_restore_def Let_def split: option.split)

lemma resume_loaded_view:
  "\<exists>w. recv_view (resume_loaded d env wm raw s) = (w, c_seen s, delivered s)"
proof -
  have w: "recv_view (s'\<lparr>c_watermark := w\<rparr>) = (w, c_seen s', delivered s')" for s' w
    by (simp add: recv_view_def delivered_def)
  have r: "c_seen (resume_restore raw s) = c_seen s" "delivered (resume_restore raw s) = delivered s"
    using recv_view_cong [OF resume_restore_view] by blast+
  show ?thesis
  proof (cases "resume_watermark wm (resume_restore raw s)")
    case (Inl e)
    then have "recv_view (resume_loaded d env wm raw s) = (c_watermark s, c_seen s, delivered s)"
      by (simp add: resume_loaded_def recv_view_perform) (simp add: recv_view_def)
    then show ?thesis by blast
  next
    case (Inr v)
    then have "recv_view (resume_loaded d env wm raw s) = (v, c_seen s, delivered s)"
      by (simp add: resume_loaded_def w r)
    then show ?thesis by blast
  qed
qed

section \<open>The receive invariant\<close>

definition sess_ok :: "conv \<Rightarrow> bool" where
  "sess_ok s \<longleftrightarrow> link_inv [] s \<and> recv_ok s \<and> (c_ready s = None \<longrightarrow> c_seen s = [] \<and> delivered s = [])"

lemma ready_ops [simp]:
  "c_ready (scheduleReconnect d env cl s) = None \<longleftrightarrow> c_ready s = None"
  "c_ready (connect_failed d env ct e s) = None \<longleftrightarrow> c_ready s = None"
  "c_ready (connect_ready d ct t tok s) = None \<longleftrightarrow> c_ready s = None"
  "c_ready (connect d env s) = None \<longleftrightarrow> c_ready s = None"
  "c_ready (ensureConversationToken env ct t tok s) = None \<longleftrightarrow> c_ready s = None"
  "c_ready (continue_connect d env ct t token x s) = None \<longleftrightarrow> c_ready s = None"
  "c_ready (rest_answered d env ct t w ans s) = None \<longleftrightarrow> c_ready s = None"
  "c_ready (token_continue d env k res s) = None \<longleftrightarrow> c_ready s = None"
  "c_ready (fold (\<lambda>k. token_continue d env k res) ks s) = None \<longleftrightarrow> c_ready s = None"
proof -
  show reconnect: "c_ready (scheduleReconnect d env cl s) = None \<longleftrightarrow> c_ready s = None" for env cl s
    by (simp add: scheduleReconnect_def fall_back_def Let_def)
  then show failed: "c_ready (connect_failed d env ct e s) = None \<longleftrightarrow> c_ready s = None" for ct e s
    by (simp add: connect_failed_def Let_def)
  show "c_ready (connect_ready d ct t tok s) = None \<longleftrightarrow> c_ready s = None"
    "c_ready (connect d env s) = None \<longleftrightarrow> c_ready s = None"
    "c_ready (ensureConversationToken env ct t tok s) = None \<longleftrightarrow> c_ready s = None"
    by (simp_all add: connect_ready_def connect_def ensureConversationToken_def Let_def)
  show "c_ready (continue_connect d env ct t token x s) = None \<longleftrightarrow> c_ready s = None" for token x
    by (simp add: continue_connect_def useConversationTokens_def failed split: sum.split)
  then show "c_ready (rest_answered d env ct t w ans s) = None \<longleftrightarrow> c_ready s = None"
    by (simp add: rest_answered_def failed Let_def split: sum.split)
  show continue: "c_ready (token_continue d env k res s) = None \<longleftrightarrow> c_ready s = None" for k s
    by (simp add: token_continue_def failed connect_ready_def ensureConversationToken_def refresh_settled_def Let_def
        split: token_wait.split sum.split)
  show "c_ready (fold (\<lambda>k. token_continue d env k res) ks s) = None \<longleftrightarrow> c_ready s = None"
    by (induction ks arbitrary: s) (simp_all add: continue)
qed

lemma ready_frames [simp]: "c_ready (onFrame d env frame s) = None \<longleftrightarrow> c_ready s = None"
proof (cases frame)
  case (Welcome w)
  then show ?thesis
    by (simp add: onFrame_def onWelcome_def Let_def welcome_identity_def with_tokens_def welcome_replay_def
        armReplayTimer_def welcome_attach_def split: option.split)
qed (use link_view_onFrame [of frame d env s] in \<open>auto simp: link_view_def\<close>)

lemma ready_resume_loaded: "c_ready s \<noteq> None \<Longrightarrow> c_ready (resume_loaded d env wm raw s) \<noteq> None"
proof -
  assume "c_ready s \<noteq> None"
  then have "c_ready (resume_restore raw s) \<noteq> None"
    by (simp add: resume_restore_def Let_def split: option.split)
  then show ?thesis
    by (cases "resume_watermark wm (resume_restore raw s)")
      (simp_all add: resume_loaded_def open_session_def del: not_None_eq)
qed

lemma ready_step:
  assumes "c_ready s \<noteq> None"
  shows "c_ready (step d ei s) \<noteq> None"
proof -
  obtain env i where ei: "ei = (env, i)" by (cases ei)
  have view: "c_ready s' \<noteq> None" if "link_view s' = link_view s" for s'
    using assms that by (simp add: link_view_def)
  show ?thesis
  proof (cases i)
    case (StoreLoaded wm raw)
    then show ?thesis
      using assms ready_resume_loaded by (simp add: ei del: not_None_eq)
  next
    case (RestAnswered ct ans)
    then show ?thesis
      using assms by (simp add: ei rest_step_def del: not_None_eq split: option.split prod.split)
  next
    case (CreatedAttached ct raw)
    then show ?thesis
      using assms by (simp add: ei attach_step_def Let_def del: not_None_eq split: option.split prod.split rest_wait.split)
  next
    case (CloseIn j cl)
    then show ?thesis
      using assms by (simp add: ei onClose_def Let_def del: not_None_eq)
  qed (use assms ei in \<open>simp_all add: view link_view_calls start_def open_session_def resume_def disconnect_fields
      microtask_def token_settled_def Let_def del: not_None_eq split: option.split prod.split list.split\<close>)
qed

lemma recv_ok_reset: "recv_view s' = reset_view s \<Longrightarrow> recv_ok s' \<and> seen_set s' = {x. x \<le> 0}"
  by (simp add: recv_view_def reset_view_def recv_ok_def seen_set_def)

lemma deliver_recv:
  assumes "recv_ok s" "isPersistent a"
  shows "recv_ok (deliver a s)" "seen_set (deliver a s) = insert (seq_of a) (seen_set s)"
proof -
  have "recv_view (deliver a s) = (c_watermark (markSeen (seq_of a) s), c_seen (markSeen (seq_of a) s), delivered (deliver a s))"
    using deliver_view [OF assms(2)] by (simp add: recv_view_def)
  then show "recv_ok (deliver a s)" "seen_set (deliver a s) = insert (seq_of a) (seen_set s)"
    using markSeen_recv [OF assms(1), of "seq_of a"] by (simp_all add: recv_view_def recv_ok_def seen_set_def)
qed

lemma is_duplicate_seen: "is_duplicate q s \<longleftrightarrow> q \<in> seen_set s"
  by (auto simp: is_duplicate_def seen_set_def)

lemma step_recv:
  assumes "link_inv [] s" "recv_ok s" "c_ready s = None \<longrightarrow> c_seen s = []"
  shows "recv_ok (step d (env, i) s)"
    "c_ready s \<noteq> None \<Longrightarrow> seen_set (step d (env, i) s) \<subseteq> seen_set s \<union> received i \<union> {x. x \<le> 0}"
proof -
  have "recv_ok (step d (env, i) s) \<and> (c_ready s \<noteq> None \<longrightarrow> seen_set (step d (env, i) s) \<subseteq> seen_set s \<union> received i \<union> {x. x \<le> 0})"
  proof (cases i)
    case (FrameIn j frame)
    have same: "recv_ok s' \<and> seen_set s' = seen_set s" if "recv_view s' = recv_view s" for s'
      using recv_view_cong [OF that] assms(2) by blast
    have reset: "recv_ok s' \<and> seen_set s' = {x. x \<le> 0}" if "recv_view s' = reset_view s" for s'
      using recv_ok_reset [OF that] .
    have mark: "recv_ok s' \<and> seen_set s' = insert q (seen_set s)" if "recv_view s' = recv_view (markSeen q s)" for s' q
      using recv_view_cong [OF that] markSeen_recv [OF assms(2)] by blast
    have del: "recv_ok s' \<and> seen_set s' = insert (seq_of a) (seen_set s)" if "recv_view s' = recv_view (deliver a s)" "isPersistent a" for s' a
      using recv_view_cong [OF that(1)] deliver_recv [OF assms(2) that(2)] by blast
    note view = onFrame_view [of d env frame s]
    show ?thesis
    proof (cases "current_transport j s")
      case True
      have "recv_ok (onFrame d env frame s) \<and> seen_set (onFrame d env frame s) \<subseteq> seen_set s \<union> received i \<union> {x. x \<le> 0}"
        using view FrameIn
        by (cases frame) (auto simp: received_def split: if_splits option.splits dest!: same reset mark del)
      with True FrameIn show ?thesis by simp
    qed (use FrameIn assms in auto)
  next
    case (StoreLoaded wm raw)
    show ?thesis
    proof (cases "wm \<in> set (c_loading s)")
      case True
      with assms have none: "c_ready s = None" "c_seen s = []" by (auto simp: link_inv_def)
      obtain w where "recv_view (resume_loaded d env wm raw (s\<lparr>c_loading := remove1 wm (c_loading s)\<rparr>)) = (w, c_seen s, delivered s)"
        using resume_loaded_view [of d env wm raw "s\<lparr>c_loading := remove1 wm (c_loading s)\<rparr>"] by (auto simp: delivered_def)
      with True StoreLoaded none show ?thesis by (simp add: recv_ok_def recv_view_def)
    qed (use StoreLoaded assms in auto)
  qed (use assms recv_view_cong [OF step_view_other [of i d env s]] in auto)
  then show "recv_ok (step d (env, i) s)"
    "c_ready s \<noteq> None \<Longrightarrow> seen_set (step d (env, i) s) \<subseteq> seen_set s \<union> received i \<union> {x. x \<le> 0}"
    by blast+
qed

lemma step_delivered:
  assumes "link_inv [] s" "recv_ok s" "\<not> resets i s"
  shows "\<exists>new. delivered (step d (env, i) s) = delivered s @ new
    \<and> (new = [] \<or> (\<exists>a. new = [a] \<and> seq_of a \<notin> seen_set s \<and> seq_of a \<in> seen_set (step d (env, i) s)))
    \<and> (c_ready s \<noteq> None \<longrightarrow> seen_set s \<subseteq> seen_set (step d (env, i) s))"
proof (cases i)
  case (FrameIn j frame)
  show ?thesis
  proof (cases "current_transport j s")
    case False
    with FrameIn show ?thesis by auto
  next
    case True
    let ?s = "onFrame d env frame s"
    have same: ?thesis if "recv_view ?s = recv_view s"
      using recv_view_cong [OF that] True FrameIn by auto
    have view: "recv_view ?s = recv_view s \<or> (\<exists>q. recv_view ?s = recv_view (markSeen q s))
        \<or> (\<exists>a. isPersistent a \<and> seq_of a \<notin> seen_set s \<and> recv_view ?s = recv_view (deliver a s))"
      using onFrame_view [of d env frame s] assms(3) True FrameIn
      by (cases frame) (auto simp: resets_def is_duplicate_seen split: if_splits option.splits)
    show ?thesis
    proof (cases "\<exists>a. isPersistent a \<and> seq_of a \<notin> seen_set s \<and> recv_view ?s = recv_view (deliver a s)")
      case True
      then obtain a where a: "isPersistent a" "seq_of a \<notin> seen_set s" "recv_view ?s = recv_view (deliver a s)"
        by blast
      from recv_view_cong [OF a(3)] deliver_view [OF a(1), of s] deliver_recv [OF assms(2) a(1)]
      have "delivered ?s = delivered s @ (if hands_over a s then [a] else [])" "seen_set ?s = insert (seq_of a) (seen_set s)"
        by (simp_all add: recv_view_def)
      with a(2) \<open>current_transport j s\<close> FrameIn show ?thesis by auto
    next
      case False
      with view same show ?thesis
        using recv_view_cong [of ?s] markSeen_recv [OF assms(2)] True FrameIn by fastforce
    qed
  qed
next
  case (StoreLoaded wm raw)
  show ?thesis
  proof (cases "wm \<in> set (c_loading s)")
    case True
    obtain w where "recv_view (resume_loaded d env wm raw (s\<lparr>c_loading := remove1 wm (c_loading s)\<rparr>)) = (w, c_seen s, delivered s)"
      using resume_loaded_view [of d env wm raw "s\<lparr>c_loading := remove1 wm (c_loading s)\<rparr>"] by (auto simp: delivered_def)
    with True StoreLoaded assms show ?thesis by (auto simp: recv_view_def link_inv_def)
  qed (use StoreLoaded in auto)
qed (use recv_view_cong [OF step_view_other [of i d env s]] in auto)

lemma sess_ok_step:
  assumes "sess_ok s"
  shows "sess_ok (step d ei s)"
proof -
  obtain env i where ei: "ei = (env, i)" by (cases ei)
  have inv: "link_inv [] s" "recv_ok s" "c_ready s = None \<longrightarrow> c_seen s = []" "c_ready s = None \<longrightarrow> delivered s = []"
    using assms by (auto simp: sess_ok_def)
  have "c_seen (step d ei s) = [] \<and> delivered (step d ei s) = []" if none: "c_ready (step d ei s) = None"
  proof -
    from ready_step none have ready: "c_ready s = None" by blast
    with inv have quiet: "c_seen s = []" "delivered s = []" "\<not> current_transport j s" for j
      by (auto simp: link_inv_def links_def current_transport_def split: option.splits)
    show ?thesis
    proof (cases i)
      case (StoreLoaded wm raw)
      obtain w where "recv_view (resume_loaded d env wm raw (s\<lparr>c_loading := remove1 wm (c_loading s)\<rparr>)) = (w, c_seen s, delivered s)"
        using resume_loaded_view [of d env wm raw "s\<lparr>c_loading := remove1 wm (c_loading s)\<rparr>"] by (auto simp: delivered_def)
      with StoreLoaded quiet show ?thesis by (auto simp: ei recv_view_def)
    qed (use quiet recv_view_cong [OF step_view_other [of i d env s]] in \<open>auto simp: ei\<close>)
  qed
  with inv link_step [OF inv(1)] step_recv(1) [OF inv(1, 2, 3)] show ?thesis
    by (simp add: sess_ok_def ei)
qed

interpretation session: preserved "step d" sess_ok for d
  by unfold_locales (rule sess_ok_step)

lemma sess_ok_new: "sess_ok (new_conv cid tokens st)"
  by (simp add: sess_ok_def new_conv_def link_inv_def links_def attempts_def recv_ok_def delivered_def)

lemmas sess_ok_run = session.run_good [OF sess_ok_new]

text \<open>A run in which no frame makes the session start over.\<close>

fun no_resets :: "deps \<Rightarrow> (env \<times> conv_input) list \<Rightarrow> conv \<Rightarrow> bool" where
  "no_resets d [] s = True"
| "no_resets d (e # es) s \<longleftrightarrow> \<not> resets (snd e) s \<and> no_resets d es (step d e s)"

lemma run_delivered:
  assumes "sess_ok s" "c_ready s \<noteq> None" "no_resets d es s"
  shows "\<exists>new. delivered (run (step d) es s) = delivered s @ new \<and> distinct (map seq_of new)
    \<and> (\<forall>a \<in> set new. seq_of a \<notin> seen_set s \<and> seq_of a \<in> seen_set (run (step d) es s))
    \<and> seen_set s \<subseteq> seen_set (run (step d) es s)"
  using assms
proof (induction es arbitrary: s)
  case Nil
  then show ?case by simp
next
  case (Cons e es)
  obtain env i where e: "e = (env, i)" by (cases e)
  have inv: "link_inv [] s" "recv_ok s" using Cons.prems(1) by (auto simp: sess_ok_def)
  obtain new where new: "delivered (step d e s) = delivered s @ new"
      "new = [] \<or> (\<exists>a. new = [a] \<and> seq_of a \<notin> seen_set s \<and> seq_of a \<in> seen_set (step d e s))"
      "seen_set s \<subseteq> seen_set (step d e s)"
    using step_delivered [OF inv, of i d env] Cons.prems by (auto simp: e)
  obtain rest where rest: "delivered (run (step d) es (step d e s)) = delivered (step d e s) @ rest" "distinct (map seq_of rest)"
      "\<forall>a \<in> set rest. seq_of a \<notin> seen_set (step d e s) \<and> seq_of a \<in> seen_set (run (step d) es (step d e s))"
      "seen_set (step d e s) \<subseteq> seen_set (run (step d) es (step d e s))"
    using Cons.IH [OF sess_ok_step [OF Cons.prems(1), of d e] ready_step [OF Cons.prems(2), of d e]] Cons.prems(3) by auto
  have "distinct (map seq_of (new @ rest))"
    using new(2) rest(2, 3) by auto
  moreover have "\<forall>a \<in> set (new @ rest). seq_of a \<notin> seen_set s \<and> seq_of a \<in> seen_set (run (step d) (e # es) s)"
    using new rest by auto
  ultimately show ?case
    using new rest by (intro exI [of _ "new @ rest"]) auto
qed

lemma run_seen:
  assumes "sess_ok s" "c_ready s \<noteq> None"
  shows "seen_set (run (step d) es s) \<subseteq> seen_set s \<union> (\<Union>e \<in> set es. received (snd e)) \<union> {x. x \<le> 0}"
  using assms
proof (induction es arbitrary: s)
  case Nil
  then show ?case by simp
next
  case (Cons e es)
  obtain env i where e: "e = (env, i)" by (cases e)
  have "seen_set (step d e s) \<subseteq> seen_set s \<union> received i \<union> {x. x \<le> 0}"
    using step_recv(2) [of s d env i] Cons.prems by (auto simp: sess_ok_def e)
  with Cons.IH [OF sess_ok_step [OF Cons.prems(1), of d e] ready_step [OF Cons.prems(2), of d e]] show ?case
    by (auto simp: e)
qed

section \<open>Properties\<close>

text \<open>
  C16. \<open>#markSeen\<close> refines adding a sequence number to the set of seen numbers: whatever the order of
  arrival, the watermark and the set above it represent exactly the numbers seen, and the watermark is
  the highest contiguous one (everything up to it was seen, the next one was not).
\<close>

theorem markSeen_refines:
  assumes "recv_ok s"
  shows "seen_set (markSeen q s) = insert q (seen_set s)
    \<and> (\<forall>x \<le> c_watermark (markSeen q s). x \<in> insert q (seen_set s))
    \<and> c_watermark (markSeen q s) + 1 \<notin> insert q (seen_set s)
    \<and> recv_ok (markSeen q s)"
proof -
  have "c_watermark (markSeen q s) + 1 \<notin> seen_set (markSeen q s)"
    using markSeen_recv(1) [OF assms, of q] by (auto simp: seen_set_def recv_ok_def)
  moreover have "x \<in> seen_set (markSeen q s)" if "x \<le> c_watermark (markSeen q s)" for x
    using that by (simp add: seen_set_def)
  ultimately show ?thesis
    using markSeen_recv [OF assms, of q] by auto
qed

theorem markSeen_refines_witness:
  "let s = sample_conv\<lparr>c_watermark := 3, c_seen := [6, 5]\<rparr> in
   seen_set (markSeen 4 s) = insert 4 (seen_set s) \<and> c_watermark (markSeen 4 s) = 6"
proof -
  let ?s = "sample_conv\<lparr>c_watermark := 3, c_seen := [6, 5]\<rparr>"
  have "recv_ok ?s" by code_simp
  moreover have "c_watermark (markSeen 4 ?s) = 6" by code_simp
  ultimately show ?thesis using markSeen_refines [of ?s 4] by (simp only: Let_def)
qed

text \<open>
  C2. No frame is emitted twice: between any two points of a session with no reset in between (a
  replaced conversation, a rejected watermark), the persistent frames handed to the application carry
  distinct sequence numbers, none of which had been seen before, in live delivery or replay.
\<close>

theorem frames_emitted_once:
  assumes "s = run (step d) es (new_conv cid tokens st)" "c_ready s \<noteq> None" "no_resets d fs s"
  shows "\<exists>new. delivered (run (step d) fs s) = delivered s @ new \<and> distinct (map seq_of new)
    \<and> (\<forall>a \<in> set new. seq_of a \<notin> seen_set s)"
proof -
  have "sess_ok s" unfolding assms(1) by (rule sess_ok_run)
  from run_delivered [OF this assms(2, 3)] show ?thesis by blast
qed

theorem frames_emitted_once_witness:
  "let s = run (step sample_deps) (sample_inputs sample_opening) sample_conv;
       fs = sample_inputs [FrameIn 1 (Message (sample_activity 2)), FrameIn 1 (Message (sample_activity 1)),
              CloseIn 1 (sample_close 1006), ReconnectFires, Microtask, FrameIn 2 (Welcome sample_welcome),
              FrameIn 2 (Message (sample_activity 2)), FrameIn 2 (Message (sample_activity 3))]
   in (\<exists>new. delivered (run (step sample_deps) fs s) = delivered s @ new \<and> distinct (map seq_of new))
      \<and> map seq_of (delivered (run (step sample_deps) fs s)) = [2, 1, 3]"
proof -
  let ?s = "run (step sample_deps) (sample_inputs sample_opening) sample_conv"
  let ?fs = "sample_inputs [FrameIn 1 (Message (sample_activity 2)), FrameIn 1 (Message (sample_activity 1)),
      CloseIn 1 (sample_close 1006), ReconnectFires, Microtask, FrameIn 2 (Welcome sample_welcome),
      FrameIn 2 (Message (sample_activity 2)), FrameIn 2 (Message (sample_activity 3))]"
  have "c_ready ?s \<noteq> None" "no_resets sample_deps ?fs ?s" by code_simp+
  note once = frames_emitted_once [OF arg_cong [OF sample_conv_def] this]
  have "map seq_of (delivered (run (step sample_deps) ?fs ?s)) = [2, 1, 3]" by code_simp
  with once show ?thesis by (simp only: Let_def) blast
qed

text \<open>
  C15. The watermark never runs ahead of what arrived: at any time after the session was opened, every
  positive sequence number up to the watermark, from which the session resumes, was at or below the
  watermark it was opened with, already seen then, or carried by a persistent frame or an ack that
  arrived since.
\<close>

theorem watermark_is_contiguous:
  assumes "s = run (step d) es (new_conv cid tokens st)" "c_ready s \<noteq> None"
    and "0 < x" "x \<le> c_watermark (run (step d) fs s)"
  shows "x \<le> c_watermark s \<or> x \<in> set (c_seen s) \<or> (\<exists>i \<in> set fs. x \<in> received (snd i))"
proof -
  have "sess_ok s" unfolding assms(1) by (rule sess_ok_run)
  with run_seen assms(2) have "seen_set (run (step d) fs s) \<subseteq> seen_set s \<union> (\<Union>e \<in> set fs. received (snd e)) \<union> {x. x \<le> 0}"
    by blast
  moreover have "x \<in> seen_set (run (step d) fs s)" using assms(4) by (simp add: seen_set_def)
  ultimately show ?thesis using assms(3) by (auto simp: seen_set_def)
qed

theorem watermark_is_contiguous_witness:
  "let s = run (step sample_deps) (sample_inputs sample_opening) sample_conv;
       fs = sample_inputs [FrameIn 1 (Message (sample_activity 2)), FrameIn 1 (Message (sample_activity 1))]
   in (2::int) \<le> c_watermark s \<or> 2 \<in> set (c_seen s) \<or> (\<exists>i \<in> set fs. 2 \<in> received (snd i))"
proof -
  let ?s = "run (step sample_deps) (sample_inputs sample_opening) sample_conv"
  let ?fs = "sample_inputs [FrameIn 1 (Message (sample_activity 2)), FrameIn 1 (Message (sample_activity 1))]"
  have "c_ready ?s \<noteq> None" "(0::int) < 2" "2 \<le> c_watermark (run (step sample_deps) ?fs ?s)" by code_simp+
  from watermark_is_contiguous [OF arg_cong [OF sample_conv_def] this] show ?thesis by (simp only: Let_def)
qed

lemma persistent_frame_facts:
  assumes "recv_ok s" "current_transport j s" "isPersistent a"
  shows "seen_set (step d (env, FrameIn j (Message a)) s) = insert (seq_of a) (seen_set s)
    \<and> delivered (step d (env, FrameIn j (Message a)) s) =
        delivered s @ (if seq_of a \<notin> seen_set s \<and> hands_over a s then [a] else [])"
proof -
  let ?s = "onFrame d env (Message a) s"
  have view: "recv_view ?s = recv_view (if is_duplicate (seq_of a) s then s else deliver a s)"
    using onFrame_view [of d env "Message a" s] assms(3) by simp
  have step: "step d (env, FrameIn j (Message a)) s = ?s" using assms(2) by simp
  show ?thesis
  proof (cases "seq_of a \<in> seen_set s")
    case True
    then show ?thesis
      using recv_view_cong [of ?s s] view step by (auto simp: is_duplicate_seen)
  next
    case False
    then have "recv_view ?s = recv_view (deliver a s)" using view by (simp add: is_duplicate_seen)
    from recv_view_cong [OF this] deliver_view [OF assms(3), of s] deliver_recv [OF assms(1, 3)] False step
    show ?thesis by (simp add: recv_view_def)
  qed
qed



end
