(* ===== verification/Conv_Progress.thy ===== *)
theory Conv_Progress
  imports Conv_Receive Conv_Samples
begin

text \<open>
  What keeps a session going: a continuation that waits for a token waits for a manager that has a
  request pending, a session that holds its sends back for a replay has its replay timer armed, the
  transport index stays in range and the attempt counters stay within their limits.
\<close>

section \<open>Token waits\<close>

definition waits_ok :: "conv \<Rightarrow> bool" where
  "waits_ok s \<longleftrightarrow> c_tokens s < length (c_managers s)
     \<and> (\<forall>w \<in> set (c_tokenWaits s). fst w < length (c_managers s) \<and> tm_pending (c_managers s ! fst w))"

definition waits_view :: "conv \<Rightarrow> token_manager list \<times> nat \<times> (nat \<times> token_wait) list" where
  "waits_view s = (c_managers s, c_tokens s, c_tokenWaits s)"

lemma waits_cong: "waits_view s' = waits_view s \<Longrightarrow> waits_ok s' = waits_ok s"
  by (simp add: waits_view_def waits_ok_def)

lemma waits_same: "waits_ok s \<Longrightarrow> waits_view s' = waits_view s \<Longrightarrow> waits_ok s'"
  using waits_cong by blast

lemma waits_join: "waits_ok s \<Longrightarrow> tm_pending (fst r) \<Longrightarrow> waits_ok (join_request k r s)"
  by (auto simp: waits_ok_def join_request_def with_tokens_def nth_list_update)

lemma waits_fetch: "waits_ok s \<Longrightarrow> waits_ok (tokens_fetch r k s)"
  by (simp add: tokens_fetch_def waits_join fetch_pending)

lemma get_None_pending: "get now tm = (None, r) \<Longrightarrow> tm_pending (fst r)"
  by (auto simp: get_def fetch_pending split: option.splits if_splits)

lemma waits_tokens_get:
  assumes "waits_ok s"
  shows "waits_ok (tokens_get env k s)"
proof -
  obtain o' r where get: "get (v_now env) (the_tokens s) = (o', r)" by (cases "get (v_now env) (the_tokens s)")
  show ?thesis
  proof (cases o')
    case None
    with assms get get_None_pending show ?thesis by (auto simp: tokens_get_def waits_join)
  next
    case (Some tok)
    with assms get show ?thesis by (auto simp: tokens_get_def waits_ok_def)
  qed
qed

lemma waits_expiry: "waits_ok s \<Longrightarrow> waits_ok (with_tokens (setExpiry e (the_tokens s)) s)"
  by (auto simp: waits_ok_def with_tokens_def the_tokens_def nth_list_update)

lemma waits_view_ops [simp]:
  "waits_view (scheduleReconnect d env cl s) = waits_view s" "waits_view (close_session d e cl s) = waits_view s"
  "waits_view (connect_failed d env ct e s) = waits_view s" "waits_view (connect_ready d ct t tok s) = waits_view s"
  "waits_view (perform p s) = waits_view s" "waits_view (emit_event ev s) = waits_view s"
  "waits_view (snd (transport_send env f s)) = waits_view s" "waits_view (scheduleRefresh env s) = waits_view s"
  "waits_view (setConnState d st dl cl' er s) = waits_view s" "waits_view (endReplay env b s) = waits_view s"
  "waits_view (with_store g s) = waits_view s" "waits_view (saveState s) = waits_view s"
  "waits_view (flush env s) = waits_view s" "waits_view (scheduleRetry env s) = waits_view s"
  "waits_view (settle a s) = waits_view s" "waits_view (markSeen q s) = waits_view s"
  "waits_view (deliver m s) = waits_view s" "waits_view (checkGap d h s) = waits_view s"
  "waits_view (rejectWaiting e s) = waits_view s" "waits_view (clearTimers s) = waits_view s"
  "waits_view (drop_transport rs s) = waits_view s"
  by (simp_all add: waits_view_def connect_ready_def)

lemma waits_view_updates [simp]:
  "waits_view (s\<lparr>c_restWaits := x1\<rparr>) = waits_view s" "waits_view (s\<lparr>c_refreshTimer := x2\<rparr>) = waits_view s"
  "waits_view (s\<lparr>c_conversationId := x3\<rparr>) = waits_view s" "waits_view (s\<lparr>c_store := x4\<rparr>) = waits_view s"
  "waits_view (s\<lparr>c_ready := x5\<rparr>) = waits_view s" "waits_view (s\<lparr>c_connectToken := n\<rparr>) = waits_view s"
  "waits_view (s\<lparr>c_microtasks := x6\<rparr>) = waits_view s" "waits_view (s\<lparr>c_watermark := i\<rparr>) = waits_view s"
  "waits_view (s\<lparr>c_started := b\<rparr>) = waits_view s" "waits_view (s\<lparr>c_loading := x7\<rparr>) = waits_view s"
  "waits_view (s\<lparr>c_userId := x3\<rparr>) = waits_view s" "waits_view (s\<lparr>c_gapTimer := x8\<rparr>) = waits_view s"
  "waits_view (s\<lparr>c_syncTimer := x8\<rparr>) = waits_view s" "waits_view (s\<lparr>c_replayTimer := x2\<rparr>) = waits_view s"
  "waits_view (s\<lparr>c_replaying := b\<rparr>) = waits_view s" "waits_view (s\<lparr>c_replayTarget := i\<rparr>) = waits_view s"
  "waits_view (s\<lparr>c_inFlight := x9\<rparr>) = waits_view s" "waits_view (s\<lparr>c_retryAt := x10\<rparr>) = waits_view s"
  "waits_view (s\<lparr>c_transport := x11\<rparr>) = waits_view s" "waits_view (s\<lparr>c_authRejections := n\<rparr>) = waits_view s"
  "waits_view (s\<lparr>c_retryTimer := x2\<rparr>) = waits_view s" "waits_view (s\<lparr>c_waiting := x9\<rparr>) = waits_view s"
  "waits_view (s\<lparr>c_attaching := x12\<rparr>) = waits_view s" "waits_view (s\<lparr>c_stopped := b\<rparr>) = waits_view s"
  "waits_view (s\<lparr>c_flushing := n\<rparr>) = waits_view s" "waits_view (s\<lparr>c_seen := x13\<rparr>) = waits_view s"
  "waits_view (s\<lparr>c_reconnectTimer := x2\<rparr>) = waits_view s" "waits_view (s\<lparr>c_lastWelcome := x14\<rparr>) = waits_view s"
  "waits_view (s\<lparr>c_welcomed := b\<rparr>) = waits_view s" "waits_view (s\<lparr>c_attempt := n\<rparr>) = waits_view s"
  "waits_view (s\<lparr>c_failuresOnTransport := n\<rparr>) = waits_view s" "waits_view (s\<lparr>c_maxInFlight := x15\<rparr>) = waits_view s"
  by (simp_all add: waits_view_def)

lemma waits_connect: "waits_ok s \<Longrightarrow> waits_ok (connect d env s)"
proof -
  assume ok: "waits_ok s"
  have "waits_ok (s\<lparr>c_connectToken := n\<rparr>)" "waits_ok (setConnState d st None None None (s\<lparr>c_connectToken := n\<rparr>))" for n st
    by (rule waits_same [OF ok], simp)+
  with ok show ?thesis by (simp add: connect_def Let_def waits_tokens_get)
qed

lemma waits_ensure: "waits_ok s \<Longrightarrow> waits_ok (ensureConversationToken env ct t tok s)"
  by (simp add: ensureConversationToken_def waits_tokens_get) (auto intro: waits_same)

lemma waits_continue_connect:
  assumes "waits_ok s"
  shows "waits_ok (continue_connect d env ct t tok e s)"
proof -
  have "waits_ok (s\<lparr>c_managers := c_managers s @ [tm], c_tokens := length (c_managers s)\<rparr>)" for tm
    using assms by (auto simp: waits_ok_def nth_append)
  with assms show ?thesis
    by (auto simp: continue_connect_def useConversationTokens_def waits_tokens_get split: sum.split intro: waits_same)
qed

lemma waits_rest_answered: "waits_ok s \<Longrightarrow> waits_ok (rest_answered d env ct t w ans s)"
  by (simp add: rest_answered_def Let_def waits_continue_connect split: sum.split) (auto intro: waits_same)

lemma waits_token_continue: "waits_ok s \<Longrightarrow> waits_ok (token_continue d env k res s)"
  by (simp add: token_continue_def refresh_settled_def Let_def waits_ensure split: token_wait.split sum.split)
    (auto intro: waits_same)

lemma waits_continue_all: "waits_ok s \<Longrightarrow> waits_ok (fold (\<lambda>k. token_continue d env k res) ks s)"
  by (induction ks arbitrary: s) (simp_all add: waits_token_continue)

lemma waits_token_settled:
  assumes "waits_ok s"
  shows "waits_ok (token_settled d env m ans s)"
proof -
  have "waits_ok (s\<lparr>c_managers := (c_managers s)[m := tm], c_tokenWaits := filter (\<lambda>w. fst w \<noteq> m) (c_tokenWaits s)\<rparr>)" for tm
    using assms by (auto simp: waits_ok_def nth_list_update)
  with assms show ?thesis
    by (auto simp: token_settled_def Let_def split: prod.split intro!: waits_continue_all)
qed

lemma waits_shared_get: "waits_ok s \<Longrightarrow> waits_ok (shared_get env s)"
proof (cases "c_managers s")
  case Nil
  then show "waits_ok s \<Longrightarrow> ?thesis" by (simp add: shared_get_def)
next
  case (Cons tm tms)
  have "tm_pending tm \<longrightarrow> tm_pending (fst (snd (get now tm)))" for now
    by (auto simp: get_def fetch_def split: option.split)
  with Cons show "waits_ok s \<Longrightarrow> ?thesis"
    by (auto simp: shared_get_def waits_ok_def nth_Cons' split: prod.split) (metis fst_conv snd_conv)+
qed

lemma waits_onClose:
  assumes "waits_ok s"
  shows "waits_ok (onClose d env cl s)"
proof -
  have fetch: "waits_ok (tokens_fetch Rejected KRejected s')" if "waits_view s' = waits_view s" for s'
    using waits_fetch waits_same [OF assms that] by blast
  have reconnect: "waits_ok (scheduleReconnect d env cl s')" "waits_ok (close_session d e cl s')" if "waits_ok s'" for s' e
    using waits_same [OF that] by simp_all
  show ?thesis
    by (simp add: onClose_def Let_def) (auto intro!: reconnect fetch intro: waits_same [OF assms])
qed

lemma waits_onWelcome:
  assumes "waits_ok s"
  shows "waits_ok (onWelcome d env w s)"
proof -
  define s1 where "s1 = welcome_identity w s"
  define s2 where "s2 = with_tokens (setExpiry (w_expiresAt w) (the_tokens s1)) s1"
  have "waits_ok s1"
    by (rule waits_same [OF assms]) (simp add: s1_def welcome_identity_def Let_def)
  then have "waits_ok s2" unfolding s2_def by (rule waits_expiry)
  moreover have "waits_view (onWelcome d env w s) = waits_view s2"
    by (simp add: onWelcome_def Let_def s1_def [symmetric] s2_def [symmetric] welcome_replay_def armReplayTimer_def
        welcome_attach_def split: option.split)
  ultimately show ?thesis by (rule waits_same)
qed

lemma waits_onFrame:
  assumes "waits_ok s"
  shows "waits_ok (onFrame d env frame s)"
proof (cases frame)
  case (Welcome w)
  with assms show ?thesis by (simp add: onFrame_def waits_onWelcome)
next
  case (Error ed)
  have "waits_view (onSendError env cid e s) = waits_view s" for cid e
    by (simp add: onSendError_def Let_def)
  moreover have "waits_ok (onSessionError env e s)" for e
    using waits_fetch [OF assms]
    by (auto simp: onSessionError_def Let_def intro: waits_same [OF assms] waits_same [OF waits_fetch [OF assms]])
  ultimately show ?thesis
    using Error by (auto simp: onFrame_def onError_def Let_def split: option.split intro: waits_same [OF assms])
next
  case (TokenRefreshed e)
  have "waits_ok (onTokenRefreshed env e s)"
    by (rule waits_same [OF waits_expiry [OF assms, of e]]) (simp add: onTokenRefreshed_def)
  with TokenRefreshed show ?thesis by (simp add: onFrame_def)
qed (auto simp: onFrame_def onAck_def onReplayTruncated_def armReplayTimer_def onHeartbeat_def onMessage_def onPersistent_def
    Let_def intro!: waits_same [OF assms] split: option.split)

lemma waits_view_calls [simp]:
  "waits_view (send env m g s) = waits_view s" "waits_view (typing env b s) = waits_view s"
  "waits_view (markRead env q s) = waits_view s" "waits_view (discardOutbox s) = waits_view s"
  "waits_view (welcome_attached env need raw s) = waits_view s" "waits_view (disconnect d s) = waits_view s"
  "waits_view (gap_fires env h s) = waits_view s" "waits_view (sync_fires env h s) = waits_view s"
  "waits_view (retry_fires env s) = waits_view s" "waits_view (resume wm s) = waits_view s"
  "waits_view (resume_restore raw s) = waits_view s"
  by (simp_all add: send_def send_accepted_def typing_def markRead_def send_signal_def discardOutbox_def disconnect_def
      settle_ready_def welcome_attached_def gap_fires_def sync_fires_def retry_fires_def resume_def resume_restore_def
      Let_def split: option.split prod.split)
     (simp_all add: waits_view_def transport_send_def split: option.split)

lemma waits_open_session: "waits_ok s \<Longrightarrow> waits_ok (open_session d env s)"
  unfolding open_session_def by (intro waits_connect) (auto intro: waits_same)

lemma waits_resume_loaded:
  assumes "waits_ok s"
  shows "waits_ok (resume_loaded d env wm raw s)"
proof -
  have "waits_ok (perform p (resume_restore raw s))" "waits_ok ((resume_restore raw s)\<lparr>c_watermark := w\<rparr>)" for w p
    by (rule waits_same [OF assms], simp)+
  then show ?thesis by (simp add: resume_loaded_def Let_def waits_open_session split: sum.split)
qed

lemma waits_step:
  assumes "waits_ok s"
  shows "waits_ok (step d ei s)"
proof -
  obtain env i where ei: "ei = (env, i)" by (cases ei)
  note same = waits_same [OF assms]
  show ?thesis
  proof (cases i)
    case CallStart
    have "waits_ok (s\<lparr>c_started := True, c_conversationId := None\<rparr>)" by (rule same) simp
    with CallStart assms show ?thesis
      by (auto simp: ei start_def waits_open_session intro: same)
  next
    case (StoreLoaded wm raw)
    have "waits_ok (s\<lparr>c_loading := x\<rparr>)" for x by (rule same) simp
    with StoreLoaded assms show ?thesis by (simp add: ei waits_resume_loaded)
  next
    case Microtask
    have "waits_ok (s\<lparr>c_microtasks := ms\<rparr>)" for ms by (rule same) simp
    with Microtask assms show ?thesis
      by (auto simp: ei microtask_def waits_token_continue split: list.split)
  next
    case (RestAnswered ct ans)
    have "waits_ok (s\<lparr>c_restWaits := r\<rparr>)" for r by (rule same) simp
    with RestAnswered assms show ?thesis
      by (auto simp: ei rest_step_def waits_rest_answered split: option.split)
  next
    case (CreatedAttached ct raw)
    have "waits_ok (s\<lparr>c_restWaits := r\<rparr>)" "waits_ok (with_store g (s\<lparr>c_restWaits := r\<rparr>))" for r g
      by (rule same, simp)+
    with CreatedAttached assms show ?thesis
      by (auto simp: ei attach_step_def Let_def waits_continue_connect split: option.split rest_wait.split)
  next
    case ReconnectFires
    have "waits_ok (s\<lparr>c_reconnectTimer := x\<rparr>)" for x by (rule same) simp
    with ReconnectFires assms show ?thesis by (simp add: ei waits_connect)
  next
    case RefreshFires
    have "waits_ok (s\<lparr>c_refreshTimer := x\<rparr>)" for x by (rule same) simp
    with RefreshFires assms show ?thesis by (simp add: ei refresh_def waits_fetch)
  qed (use assms in \<open>auto simp: ei waits_token_settled waits_shared_get waits_onFrame waits_onClose
      intro!: same split: option.split\<close>)
qed

interpretation token_waits: preserved "step d" waits_ok for d
  by unfold_locales (rule waits_step)

section \<open>Replays, transports and limits\<close>

definition live_ok :: "deps \<Rightarrow> conv \<Rightarrow> bool" where
  "live_ok d s \<longleftrightarrow>
     (c_state s = Open \<longrightarrow> c_transport s \<noteq> None)
     \<and> (c_replaying s \<and> \<not> c_stopped s \<longrightarrow> armed (c_replayTimer s))
     \<and> c_transportIndex s < length (d_transports d)
     \<and> (\<not> c_stopped s \<longrightarrow> c_attempt s = 0 \<or> \<not> exceeds (c_attempt s) (maxAttempts (d_reconnect d)))
     \<and> (\<not> c_stopped s \<longrightarrow> c_authRejections s \<le> MAX_AUTH_REJECTIONS)"

definition live_view where
  "live_view s = (c_state s, c_transport s, c_replaying s, c_stopped s, c_replayTimer s, c_transportIndex s, c_attempt s,
     c_authRejections s)"

lemma live_same: "live_ok d s \<Longrightarrow> live_view s' = live_view s \<Longrightarrow> live_ok d s'"
  by (simp add: live_ok_def live_view_def)

lemma live_close: "live_ok d s \<Longrightarrow> live_ok d (close_session d e cl s)"
  by (simp add: live_ok_def)

lemma live_reconnect:
  assumes "c_transportIndex s < length (d_transports d)" "c_replaying s \<longrightarrow> armed (c_replayTimer s)"
    "c_authRejections s \<le> MAX_AUTH_REJECTIONS"
  shows "live_ok d (scheduleReconnect d env cl s)"
  using assms by (auto simp: live_ok_def scheduleReconnect_def fall_back_def setConnState_def Let_def)

lemma live_connect_failed:
  assumes "live_ok d s"
  shows "live_ok d (connect_failed d env ct e s)"
proof (cases "ct \<noteq> c_connectToken s \<or> c_stopped s")
  case True
  with assms show ?thesis by (auto simp: connect_failed_def)
next
  case False
  define s1 where "s1 = emit_event (EvError e) s"
  have s1: "live_ok d s1" using assms by (simp add: s1_def live_ok_def)
  moreover have "\<not> c_stopped s1" using False by (simp add: s1_def)
  ultimately have "live_ok d (scheduleReconnect d env cl s1)" for cl
    by (intro live_reconnect) (auto simp: live_ok_def)
  with False live_close [OF s1] show ?thesis by (simp add: connect_failed_def Let_def s1_def [symmetric])
qed

lemma live_view_ops [simp]:
  "live_view (perform p s) = live_view s" "live_view (emit_event ev s) = live_view s"
  "live_view (snd (transport_send env f s)) = live_view s" "live_view (scheduleRefresh env s) = live_view s"
  "live_view (with_store g s) = live_view s" "live_view (saveState s) = live_view s"
  "live_view (flush env s) = live_view s" "live_view (scheduleRetry env s) = live_view s"
  "live_view (settle a s) = live_view s" "live_view (markSeen q s) = live_view s"
  "live_view (deliver m s) = live_view s" "live_view (checkGap d h s) = live_view s"
  "live_view (rejectWaiting e s) = live_view s" "live_view (join_request k r s) = live_view s"
  "live_view (tokens_fetch tr k s) = live_view s" "live_view (tokens_get env k s) = live_view s"
  "live_view (refresh_settled env res s) = live_view s"
  by (simp_all add: live_view_def refresh_settled_def Let_def split: sum.split)

lemma live_endReplay: "live_ok d s \<Longrightarrow> live_ok d (endReplay env b s)"
  by (simp add: live_ok_def endReplay_def Let_def)

lemma live_connect:
  assumes "live_ok d s"
  shows "live_ok d (connect d env s)"
proof -
  have "live_ok d (s\<lparr>c_connectToken := n\<rparr>)" for n
    by (rule live_same [OF assms]) (simp add: live_view_def)
  then have "live_ok d (setConnState d (if b then Reconnecting else Connecting) None None None (s\<lparr>c_connectToken := n\<rparr>))"
    "live_ok d (s\<lparr>c_connectToken := n\<rparr>)" for n b
    by (auto simp: live_ok_def setConnState_def)
  then have "live_ok d (tokens_get env k (setConnState d (if b then Reconnecting else Connecting) None None None (s\<lparr>c_connectToken := n\<rparr>)))"
    "live_ok d (tokens_get env k (s\<lparr>c_connectToken := n\<rparr>))" for n k b
    using live_same live_view_ops(16) by blast+
  with assms show ?thesis by (simp add: connect_def Let_def)
qed

lemma live_view_updates [simp]:
  "live_view (s\<lparr>c_restWaits := x1\<rparr>) = live_view s" "live_view (s\<lparr>c_managers := x2\<rparr>) = live_view s"
  "live_view (s\<lparr>c_tokens := n\<rparr>) = live_view s" "live_view (s\<lparr>c_conversationId := x3\<rparr>) = live_view s"
  "live_view (s\<lparr>c_store := x4\<rparr>) = live_view s" "live_view (s\<lparr>c_ready := x5\<rparr>) = live_view s"
  "live_view (s\<lparr>c_microtasks := x6\<rparr>) = live_view s" "live_view (s\<lparr>c_watermark := i\<rparr>) = live_view s"
  "live_view (s\<lparr>c_started := b\<rparr>) = live_view s" "live_view (s\<lparr>c_loading := x7\<rparr>) = live_view s"
  "live_view (s\<lparr>c_userId := x3\<rparr>) = live_view s" "live_view (s\<lparr>c_gapTimer := x8\<rparr>) = live_view s"
  "live_view (s\<lparr>c_syncTimer := x8\<rparr>) = live_view s" "live_view (s\<lparr>c_reconnectTimer := x9\<rparr>) = live_view s"
  "live_view (s\<lparr>c_refreshTimer := x9\<rparr>) = live_view s" "live_view (s\<lparr>c_retryTimer := x9\<rparr>) = live_view s"
  "live_view (s\<lparr>c_inFlight := x10\<rparr>) = live_view s" "live_view (s\<lparr>c_retryAt := x11\<rparr>) = live_view s"
  "live_view (s\<lparr>c_waiting := x10\<rparr>) = live_view s" "live_view (s\<lparr>c_attaching := x12\<rparr>) = live_view s"
  "live_view (s\<lparr>c_flushing := n\<rparr>) = live_view s" "live_view (s\<lparr>c_seen := x13\<rparr>) = live_view s"
  "live_view (s\<lparr>c_tokenWaits := x14\<rparr>) = live_view s"
  by (simp_all add: live_view_def)

lemma live_continue_connect:
  assumes "live_ok d s"
  shows "live_ok d (continue_connect d env ct t tok e s)"
  using live_connect_failed [OF assms] live_same [OF assms]
  by (simp add: continue_connect_def useConversationTokens_def split: sum.split)

lemma live_token_continue:
  assumes "live_ok d s"
  shows "live_ok d (token_continue d env k res s)"
proof -
  have "live_ok d (connect_ready d ct t tok s)" for ct t tok
    using assms by (auto simp: connect_ready_def live_ok_def)
  moreover have "live_ok d (ensureConversationToken env ct t tok s)" for ct t tok
    by (rule live_same [OF assms]) (simp add: ensureConversationToken_def)
  ultimately show ?thesis
    using live_connect_failed [OF assms] live_same [OF assms] assms
    by (simp add: token_continue_def split: token_wait.split sum.split)
qed

lemma live_continue_all: "live_ok d s \<Longrightarrow> live_ok d (fold (\<lambda>k. token_continue d env k res) ks s)"
  by (induction ks arbitrary: s) (simp_all add: live_token_continue)

lemma live_rest_answered:
  assumes "live_ok d s"
  shows "live_ok d (rest_answered d env ct t w ans s)"
  using live_connect_failed [OF assms] live_continue_connect [OF assms] live_same [OF assms]
  by (simp add: rest_answered_def Let_def split: sum.split)

lemma live_onClose:
  assumes "live_ok d s" "\<not> c_stopped s"
  shows "live_ok d (onClose d env cl s)"
proof -
  define s1 where "s1 = endReplay env False (s\<lparr>c_transport := None, c_inFlight := []\<rparr>)"
  define s2 where "s2 = s1\<lparr>c_refreshTimer := clear_timeout (c_refreshTimer s1),
      c_gapTimer := clear_timeout (c_gapTimer s1), c_syncTimer := clear_timeout (c_syncTimer s1)\<rparr>"
  have replay: "\<not> c_replaying s2" "c_transportIndex s2 = c_transportIndex s" "c_stopped s2 = c_stopped s"
      "c_authRejections s2 = c_authRejections s" "c_state s2 = c_state s" "c_transport s2 = None"
    by (simp_all add: s2_def s1_def endReplay_def Let_def)
  have closed: "live_ok d (close_session d e cl s')" if "c_transportIndex s' = c_transportIndex s" for e s'
    using assms that by (simp add: live_ok_def)
  have reconnect: "live_ok d (scheduleReconnect d env cl s2)"
    using assms replay by (intro live_reconnect) (auto simp: live_ok_def)
  have rejected: "live_ok d (scheduleReconnect d env cl (tokens_fetch Rejected KRejected (s2\<lparr>c_authRejections := n\<rparr>)))"
    if "n \<le> MAX_AUTH_REJECTIONS" for n
    using that assms replay by (intro live_reconnect) (auto simp: live_ok_def)
  have running: "\<not> c_stopped s1" "\<not> c_stopped s2" using assms(2) by (simp_all add: s1_def s2_def)
  show ?thesis
    using closed replay(2) reconnect rejected running
    by (simp add: onClose_def Let_def s1_def [symmetric] s2_def [symmetric])
qed

lemma live_onWelcome:
  assumes "live_ok d s" "c_transport s \<noteq> None"
  shows "live_ok d (onWelcome d env w s)"
  using assms
  by (auto simp: live_ok_def onWelcome_def Let_def welcome_identity_def with_tokens_def welcome_replay_def armReplayTimer_def
      welcome_attach_def setConnState_def split: option.split)

lemma live_onFrame:
  assumes "live_ok d s" "c_transport s \<noteq> None"
  shows "live_ok d (onFrame d env frame s)"
proof (cases frame)
  case (Welcome w)
  with assms show ?thesis by (simp add: onFrame_def live_onWelcome)
next
  case (Error ed)
  have end': "live_ok d (endReplay env True s')" if "live_view s' = live_view s" for s'
    using live_endReplay live_same [OF assms(1) that] by blast
  have send: "live_ok d (onSendError env cid e s)" for cid e
    by (rule live_same [OF assms(1)]) (simp add: onSendError_def Let_def)
  have sync: "live_ok d (s'\<lparr>c_syncTimer := x\<rparr>)" "live_ok d (snd (transport_send env f s'))" "live_ok d (emit_event ev s')"
    if "live_ok d s'" for s' x f ev
    using live_same [OF that] by simp_all
  have fetch: "live_ok d (tokens_fetch r k s)" for r k
    by (rule live_same [OF assms(1)]) simp
  have "live_ok d (onSessionError env e s)" for e
    unfolding onSessionError_def Let_def
    by (intro sync) (auto intro!: sync end' fetch assms(1))
  with send Error show ?thesis by (simp add: onFrame_def onError_def Let_def split: option.split)
next
  case (ReplayTruncated r)
  have "live_ok d (armReplayTimer d ((emit_event ev s)\<lparr>c_replaying := True, c_replayTarget := n\<rparr>))" for n ev
    using assms by (simp add: live_ok_def armReplayTimer_def)
  then show ?thesis
    using ReplayTruncated live_same [OF _ live_view_ops(3)] by (simp add: onFrame_def onReplayTruncated_def Let_def)
next
  case (Message m)
  have step: "live_ok d (if b then endReplay env True s' else s')" "live_ok d (checkGap d q s')" if "live_ok d s'" for s' b q
    using that live_endReplay live_same [OF that] by simp_all
  have "live_ok d (if b then s else deliver m s)" for b
    using assms(1) live_same [OF assms(1)] by simp
  then have "live_ok d (onPersistent d env m s)"
    unfolding onPersistent_def Let_def using step by simp
  then show ?thesis
    using Message assms(1) live_same [OF assms(1)] by (simp add: onFrame_def onMessage_def)
qed (use live_same [OF assms(1)] assms(1) in \<open>simp_all add: onFrame_def onAck_def onTokenRefreshed_def with_tokens_def
    onHeartbeat_def Let_def split: option.split\<close>)

lemma live_view_calls [simp]:
  "live_view (send env m g s) = live_view s" "live_view (typing env b s) = live_view s"
  "live_view (markRead env q s) = live_view s" "live_view (discardOutbox s) = live_view s"
  "live_view (welcome_attached env need raw s) = live_view s" "live_view (refresh s) = live_view s"
  "live_view (gap_fires env h s) = live_view s" "live_view (sync_fires env h s) = live_view s"
  "live_view (retry_fires env s) = live_view s" "live_view (resume wm s) = live_view s"
  "live_view (resume_restore raw s) = live_view s" "live_view (shared_get env s) = live_view s"
  by (simp_all add: send_def send_accepted_def typing_def markRead_def send_signal_def discardOutbox_def refresh_def
      welcome_attached_def gap_fires_def sync_fires_def retry_fires_def resume_def resume_restore_def shared_get_def
      Let_def split: option.split prod.split list.split)
     (simp_all add: live_view_def transport_send_def split: option.split)

lemma live_open_session: "live_ok d s \<Longrightarrow> live_ok d (open_session d env s)"
  unfolding open_session_def by (intro live_connect) (auto intro: live_same)

lemma live_step:
  assumes "live_ok d s" "link_inv [] s"
  shows "live_ok d (step d ei s)"
proof -
  obtain env i where ei: "ei = (env, i)" by (cases ei)
  note same = live_same [OF assms(1)]
  have running: "c_transport s \<noteq> None \<and> \<not> c_stopped s" if "current_transport j s" for j
    using that assms(2) by (auto simp: link_inv_def current_transport_def split: option.splits)
  show ?thesis
  proof (cases i)
    case CallStart
    have "live_ok d (s\<lparr>c_started := True, c_conversationId := None\<rparr>)" by (rule same) simp
    with CallStart show ?thesis by (auto simp: ei start_def live_open_session intro: same)
  next
    case CallDisconnect
    have "live_ok d (disconnect d s)"
      using assms(1) by (simp add: live_ok_def disconnect_fields) (simp add: disconnect_def settle_ready_def Let_def)
    with CallDisconnect show ?thesis by (simp add: ei)
  next
    case (StoreLoaded wm raw)
    define s1 where "s1 = resume_restore raw (s\<lparr>c_loading := remove1 wm (c_loading s)\<rparr>)"
    have "live_ok d (perform p s1)" "live_ok d (s1\<lparr>c_watermark := w\<rparr>)" for w p
      by (rule same, simp add: s1_def)+
    then have "live_ok d (resume_loaded d env wm raw (s\<lparr>c_loading := remove1 wm (c_loading s)\<rparr>))"
      by (simp add: resume_loaded_def s1_def [symmetric] live_open_session split: sum.split)
    with StoreLoaded assms(1) show ?thesis by (simp add: ei)
  next
    case Microtask
    have "live_ok d (s\<lparr>c_microtasks := ms\<rparr>)" for ms by (rule same) simp
    with Microtask assms(1) show ?thesis by (auto simp: ei microtask_def live_token_continue split: list.split)
  next
    case (TokenSettled m ans)
    have "live_ok d (s\<lparr>c_managers := ms, c_tokenWaits := ws\<rparr>)" for ms ws by (rule same) simp
    with TokenSettled assms(1) show ?thesis
      by (auto simp: ei token_settled_def Let_def split: prod.split intro!: live_continue_all)
  next
    case (RestAnswered ct ans)
    have "live_ok d (s\<lparr>c_restWaits := r\<rparr>)" for r by (rule same) simp
    with RestAnswered assms(1) show ?thesis by (auto simp: ei rest_step_def live_rest_answered split: option.split)
  next
    case (CreatedAttached ct raw)
    have "live_ok d (s\<lparr>c_restWaits := r\<rparr>)" "live_ok d (with_store g (s\<lparr>c_restWaits := r\<rparr>))" for r g
      by (rule same, simp)+
    with CreatedAttached assms(1) show ?thesis
      by (auto simp: ei attach_step_def Let_def live_continue_connect split: option.split rest_wait.split)
  next
    case ReconnectFires
    have "live_ok d (s\<lparr>c_reconnectTimer := x\<rparr>)" for x by (rule same) simp
    with ReconnectFires assms(1) show ?thesis by (simp add: ei live_connect)
  next
    case ReplayFires
    with assms(1) show ?thesis by (simp add: ei live_endReplay)
  qed (use assms(1) running in \<open>auto simp: ei live_onFrame live_onClose intro!: same split: option.split\<close>)
qed

section \<open>The session invariant\<close>

definition session_ok :: "deps \<Rightarrow> conv \<Rightarrow> bool" where
  "session_ok d s \<longleftrightarrow> sess_ok s \<and> waits_ok s \<and> live_ok d s"

lemma sess_ok_link: "sess_ok s \<Longrightarrow> link_inv [] s"
  by (simp add: sess_ok_def)

interpretation progress: preserved "step d" "session_ok d" for d
  by unfold_locales (auto simp: session_ok_def intro: sess_ok_step waits_step live_step sess_ok_link)

lemma session_ok_new:
  assumes "d_transports d \<noteq> []"
  shows "session_ok d (new_conv cid tokens st)"
  using assms by (simp add: session_ok_def sess_ok_new) (simp add: waits_ok_def live_ok_def new_conv_def)

lemmas session_ok_run = progress.run_good [OF session_ok_new]

section \<open>Stopped sessions\<close>

fun is_outward :: "effect \<Rightarrow> bool" where
  "is_outward (Wire _ _) = True"
| "is_outward (TransportConnect _ _) = True"
| "is_outward _ = False"

definition outward :: "conv \<Rightarrow> effect list" where
  "outward s = filter is_outward (c_out s)"

definition halted :: "conv \<Rightarrow> bool" where
  "halted s \<longleftrightarrow> c_stopped s \<and> c_transport s = None \<and> c_state s = Closed"

text \<open>Steps of a halted session keep it halted and add nothing outward.\<close>

definition stays_halted :: "conv \<Rightarrow> conv \<Rightarrow> bool" where
  "stays_halted s s' \<longleftrightarrow> halted s' \<and> outward s' = outward s"

lemma stays_refl: "halted s \<Longrightarrow> stays_halted s s"
  by (simp add: stays_halted_def)

lemma stays_trans: "stays_halted s s' \<Longrightarrow> (halted s' \<Longrightarrow> stays_halted s' s'') \<Longrightarrow> stays_halted s s''"
  by (simp add: stays_halted_def)

lemma stays_fields:
  "halted s \<Longrightarrow> c_stopped s' = c_stopped s \<Longrightarrow> c_transport s' = c_transport s \<Longrightarrow> c_state s' = c_state s
    \<Longrightarrow> outward s' = outward s \<Longrightarrow> stays_halted s s'"
  by (simp add: stays_halted_def halted_def)

lemma outward_requests [simp]: "filter is_outward (token_requests m os) = []"
  by (auto simp: token_requests_def filter_empty_conv split: token_output.splits)

lemma outward_rejections [simp]: "filter is_outward (map (\<lambda>c. SendRejected c e) cs) = []"
  by (auto simp: filter_empty_conv)

lemma halted_flush [simp]: "halted s \<Longrightarrow> flush env s = s"
  by (simp add: halted_def flush_def)

lemma halted_send [simp]: "halted s \<Longrightarrow> transport_send env f s = (False, s)"
  by (simp add: halted_def transport_send_def)

lemma halted_connect [simp]: "halted s \<Longrightarrow> connect d env s = s" "halted s \<Longrightarrow> connect_failed d env ct e s = s"
    "halted s \<Longrightarrow> connect_ready d ct t tok s = s"
  by (simp_all add: halted_def connect_def connect_failed_def connect_ready_def)

lemma stays_tokens: "halted s \<Longrightarrow> stays_halted s (tokens_fetch r k s)" "halted s \<Longrightarrow> stays_halted s (tokens_get env k s)"
  by (rule stays_fields; simp add: outward_def tokens_fetch_def tokens_get_def join_request_def with_tokens_def
      split: prod.split option.split)+

lemma stays_refresh_settled: "halted s \<Longrightarrow> stays_halted s (refresh_settled env res s)"
  by (rule stays_fields; simp add: refresh_settled_def Let_def outward_def halted_def split: sum.split)
    (simp add: scheduleRefresh_def emit_event_def perform_def)

lemma stays_ensure: "halted s \<Longrightarrow> stays_halted s (ensureConversationToken env ct t tok s)"
  using stays_tokens(2)
  by (auto simp: ensureConversationToken_def intro!: stays_fields simp: outward_def perform_def)

lemma stays_continue_connect:
  assumes "halted s"
  shows "stays_halted s (continue_connect d env ct t tok e s)"
proof -
  have "stays_halted s (s\<lparr>c_managers := ms, c_tokens := n\<rparr>)" for ms n
    using assms by (auto intro!: stays_fields simp: outward_def)
  then have "stays_halted s (tokens_get env k (s\<lparr>c_managers := ms, c_tokens := n\<rparr>))" for ms n k
    using stays_trans stays_tokens(2) by blast
  with assms show ?thesis
    by (simp add: continue_connect_def useConversationTokens_def stays_refl split: sum.split)
qed

lemma stays_token_continue: "halted s \<Longrightarrow> stays_halted s (token_continue d env k res s)"
  by (simp add: token_continue_def stays_ensure stays_refresh_settled stays_refl split: token_wait.split sum.split)
    (auto intro!: stays_fields simp: outward_def emit_event_def perform_def)

lemma stays_continue_all: "halted s \<Longrightarrow> stays_halted s (fold (\<lambda>k. token_continue d env k res) ks s)"
proof (induction ks arbitrary: s)
  case Nil
  then show ?case by (simp add: stays_refl)
next
  case (Cons k ks)
  from stays_trans [OF stays_token_continue [OF Cons.prems] Cons.IH] show ?case by simp
qed

lemma stays_rest_answered:
  assumes "halted s"
  shows "stays_halted s (rest_answered d env ct t w ans s)"
  using assms stays_continue_connect [OF assms]
  by (auto simp: rest_answered_def Let_def stays_refl split: sum.split intro!: stays_fields simp: outward_def perform_def)

lemma stays_calls:
  assumes "halted s"
  shows "stays_halted s (start d env s)" "stays_halted s (resume wm s)" "stays_halted s (send env m g s)"
    "stays_halted s (typing env b s)" "stays_halted s (markRead env q s)" "stays_halted s (discardOutbox s)"
    "stays_halted s (welcome_attached env need raw s)" "stays_halted s (shared_get env s)"
    "stays_halted s (resume_loaded d env wm raw s)" "stays_halted s (retry_fires env s)"
    "stays_halted s (gap_fires env h s)" "stays_halted s (sync_fires env h s)" "stays_halted s (disconnect d s)"
proof -
  have not_open: "c_state s = Closed" "c_transport s = None" "c_stopped s" using assms by (simp_all add: halted_def)
  have open': "open_session d env s' = s'\<lparr>c_ready := Some Pending\<rparr>" if "c_stopped s'" for s'
    using that by (simp add: open_session_def connect_def)
  have flush': "flush env s' = s'" if "c_state s' = Closed" for s'
    using that by (simp add: flush_def)
  show "stays_halted s (start d env s)" "stays_halted s (resume wm s)" "stays_halted s (send env m g s)"
    "stays_halted s (typing env b s)" "stays_halted s (markRead env q s)" "stays_halted s (discardOutbox s)"
    "stays_halted s (welcome_attached env need raw s)" "stays_halted s (shared_get env s)"
    by (rule stays_fields [OF assms];
        simp add: start_def resume_def send_def send_accepted_def typing_def markRead_def can_signal_def discardOutbox_def
          welcome_attached_def shared_get_def rejectWaiting_def open' flush' not_open outward_def effects Let_def
          split: option.split prod.split list.split)+
  have restore: "c_state (resume_restore raw s) = c_state s" "c_transport (resume_restore raw s) = c_transport s"
    "c_stopped (resume_restore raw s) = c_stopped s" "c_out (resume_restore raw s) = c_out s"
    by (simp_all add: resume_restore_def Let_def split: option.split)
  show "stays_halted s (resume_loaded d env wm raw s)"
    by (rule stays_fields [OF assms]; simp add: resume_loaded_def Let_def restore open' not_open outward_def perform_def split: sum.split)
  show "stays_halted s (retry_fires env s)" "stays_halted s (gap_fires env h s)" "stays_halted s (sync_fires env h s)"
    "stays_halted s (disconnect d s)"
    by (rule stays_fields [OF assms];
        simp add: retry_fires_def gap_fires_def sync_fires_def disconnect_def flush' not_open outward_def scheduleRetry_def
          settle_ready_def setConnState_def drop_transport_def clearTimers_def rejectWaiting_def Let_def)+
qed

lemma stays_step:
  assumes "halted s"
  shows "stays_halted s (step d ei s)"
proof -
  obtain env i where ei: "ei = (env, i)" by (cases ei)
  have none: "\<not> current_transport j s" for j using assms by (simp add: halted_def current_transport_def)
  have upd: "stays_halted s (s\<lparr>c_loading := x1\<rparr>)" "stays_halted s (s\<lparr>c_attaching := x2\<rparr>)" "stays_halted s (s\<lparr>c_microtasks := x3\<rparr>)"
    "stays_halted s (s\<lparr>c_managers := x4, c_tokenWaits := x5\<rparr>)" "stays_halted s (s\<lparr>c_restWaits := x6\<rparr>)"
    "stays_halted s (with_store g (s\<lparr>c_restWaits := x6\<rparr>))" "stays_halted s (s\<lparr>c_refreshTimer := x7\<rparr>)"
    "stays_halted s (s\<lparr>c_reconnectTimer := x7\<rparr>)" "stays_halted s (s\<lparr>c_flushing := n\<rparr>)"
    for x1 x2 x3 x4 x5 x6 x7 n g
    by (rule stays_fields [OF assms]; simp add: outward_def with_store_def)+
  note calls = stays_calls [OF assms]
  show ?thesis
  proof (cases i)
    case (StoreLoaded wm raw)
    then show ?thesis
      using stays_trans [OF upd(1) stays_calls(9)] assms by (simp add: ei stays_refl)
  next
    case (WelcomeAttached need raw)
    then show ?thesis
      using stays_trans [OF upd(2) stays_calls(7)] assms by (simp add: ei stays_refl)
  next
    case StoreFlushed
    then show ?thesis
      using assms by (auto simp: ei stays_refl outward_def perform_def intro!: stays_fields)
  next
    case Microtask
    then show ?thesis
      using stays_trans [OF upd(3) stays_token_continue] assms
      by (simp add: ei microtask_def stays_refl split: list.split)
  next
    case (TokenSettled m ans)
    then show ?thesis
      using stays_trans [OF upd(4) stays_continue_all] assms
      by (simp add: ei token_settled_def Let_def stays_refl split: prod.split)
  next
    case (RestAnswered ct ans)
    then show ?thesis
      using stays_trans [OF upd(5) stays_rest_answered] assms
      by (simp add: ei rest_step_def stays_refl split: option.split prod.split)
  next
    case (CreatedAttached ct raw)
    then show ?thesis
      using stays_trans [OF upd(5) stays_continue_connect] stays_trans [OF upd(6) stays_continue_connect] assms
      by (simp add: ei attach_step_def Let_def stays_refl split: option.split prod.split rest_wait.split)
  next
    case ReconnectFires
    then show ?thesis
      using stays_trans [OF upd(8) stays_refl] upd(8) assms by (simp add: ei stays_refl stays_halted_def)
  next
    case RefreshFires
    then show ?thesis
      using stays_trans [OF upd(7) stays_tokens(1)] assms by (simp add: ei refresh_def stays_refl)
  next
    case ReplayFires
    have "stays_halted s (endReplay env True s)"
      by (rule stays_fields [OF assms]; simp add: endReplay_def Let_def outward_def flush_def assms [unfolded halted_def])
    with ReplayFires assms show ?thesis by (simp add: ei stays_refl)
  qed (use assms none calls in \<open>simp_all add: ei stays_refl split: option.split\<close>)
qed

lemma stays_run: "halted s \<Longrightarrow> stays_halted s (run (step d) es s)"
proof (induction es arbitrary: s)
  case Nil
  then show ?case by (simp add: stays_refl)
next
  case (Cons e es)
  from stays_trans [OF stays_step [OF Cons.prems] Cons.IH] show ?case by simp
qed

section \<open>Properties\<close>

text \<open>
  C1. A session never stalls and never runs two connections at once: after any sequence of inputs, a
  session that was opened and is not stopped has exactly one of a transport, an armed reconnect timer
  or a connection attempt in progress; an attempt waiting for a token waits for a token request that
  is pending, and it is the current attempt.
\<close>

theorem session_has_one_link:
  assumes "s = run (step d) es (new_conv cid tokens st)" "d_transports d \<noteq> []" "c_ready s \<noteq> None" "\<not> c_stopped s"
  shows "links s = 1
    \<and> (\<forall>w \<in> set (c_tokenWaits s). fst w < length (c_managers s) \<and> tm_pending (c_managers s ! fst w))
    \<and> (\<forall>a \<in> set (attempts s). fst a = c_connectToken s)"
proof -
  have "session_ok d s" unfolding assms(1) using assms(2) by (rule session_ok_run)
  with assms(3, 4) show ?thesis by (auto simp: session_ok_def sess_ok_def link_inv_def waits_ok_def)
qed

theorem session_has_one_link_witness:
  "links (run (step sample_deps) (sample_inputs (sample_opening @ [CloseIn 1 (sample_close 1006)])) sample_conv) = 1"
proof -
  let ?s = "run (step sample_deps) (sample_inputs (sample_opening @ [CloseIn 1 (sample_close 1006)])) sample_conv"
  have "d_transports sample_deps \<noteq> []" "c_ready ?s \<noteq> None" "\<not> c_stopped ?s" by code_simp+
  from session_has_one_link [OF arg_cong [OF sample_conv_def] this] show ?thesis by blast
qed



text \<open>
  A session that holds its sends back while a replay runs always has the replay timer armed, so
  the sends are released even when the replay never completes; its state is \<open>open\<close> only while it has
  a transport; the transport index, the reconnect attempts and the rejected tokens stay within their
  limits until the session stops.
\<close>

theorem session_limits:
  assumes "s = run (step d) es (new_conv cid tokens st)" "d_transports d \<noteq> []" "\<not> c_stopped s"
  shows "(c_replaying s \<longrightarrow> armed (c_replayTimer s)) \<and> (c_state s = Open \<longrightarrow> c_transport s \<noteq> None)
    \<and> c_transportIndex s < length (d_transports d)
    \<and> (c_attempt s = 0 \<or> \<not> exceeds (c_attempt s) (maxAttempts (d_reconnect d)))
    \<and> c_authRejections s \<le> MAX_AUTH_REJECTIONS"
proof -
  have "session_ok d s" unfolding assms(1) using assms(2) by (rule session_ok_run)
  with assms(3) show ?thesis by (auto simp: session_ok_def live_ok_def)
qed

theorem session_limits_witness:
  "let s = run (step sample_deps) (sample_inputs [CallStart, Microtask, FrameIn 1 (Welcome (sample_welcome\<lparr>w_watermark := Some 5\<rparr>))]) sample_conv
   in c_replaying s \<and> armed (c_replayTimer s) \<and> c_transport s \<noteq> None"
proof -
  let ?s = "run (step sample_deps) (sample_inputs [CallStart, Microtask, FrameIn 1 (Welcome (sample_welcome\<lparr>w_watermark := Some 5\<rparr>))]) sample_conv"
  have "d_transports sample_deps \<noteq> []" "\<not> c_stopped ?s" by code_simp+
  note limits = session_limits [OF arg_cong [OF sample_conv_def] this]
  have "c_replaying ?s" "c_state ?s = Open" by code_simp+
  with limits show ?thesis by (simp only: Let_def) blast
qed

end
