(* ===== verification/Conv_Send.thy ===== *)
theory Conv_Send
  imports Conv_Progress
begin

text \<open>
  Sending: the outbox, the promises of \<open>send\<close> and what \<open>#flush\<close> puts on the wire.
\<close>

section \<open>Promises\<close>

fun is_promise :: "effect \<Rightarrow> bool" where
  "is_promise (SendPending _) = True"
| "is_promise (SendResolved _ _) = True"
| "is_promise (SendRejected _ _) = True"
| "is_promise _ = False"

fun settles :: "string \<Rightarrow> effect \<Rightarrow> bool" where
  "settles cid (SendResolved c _) \<longleftrightarrow> c = cid"
| "settles cid (SendRejected c _) \<longleftrightarrow> c = cid"
| "settles cid _ \<longleftrightarrow> False"

definition promised :: "string \<Rightarrow> effect list \<Rightarrow> nat" where
  "promised cid os = length (filter (\<lambda>e. e = SendPending cid) os)"

definition settled :: "string \<Rightarrow> effect list \<Rightarrow> nat" where
  "settled cid os = length (filter (settles cid) os)"

lemma promised_simps [simp]:
  "promised cid [] = 0" "promised cid (xs @ ys) = promised cid xs + promised cid ys"
  "promised cid (x # xs) = (if x = SendPending cid then 1 else 0) + promised cid xs"
  by (simp_all add: promised_def)

lemma settled_simps [simp]:
  "settled cid [] = 0" "settled cid (xs @ ys) = settled cid xs + settled cid ys"
  "settled cid (x # xs) = (if settles cid x then 1 else 0) + settled cid xs"
  by (simp_all add: settled_def)

lemma promised_filter [simp]: "promised cid (filter is_promise os) = promised cid os"
  unfolding promised_def filter_filter by (rule arg_cong [of _ _ length]) (rule filter_cong, auto)

lemma settled_filter [simp]: "settled cid (filter is_promise os) = settled cid os"
proof -
  have "settles cid e \<Longrightarrow> is_promise e" for e by (cases e) auto
  then show ?thesis
    unfolding settled_def filter_filter by (intro arg_cong [of _ _ length] filter_cong) auto
qed

lemma settled_rejections [simp]: "settled cid (map (\<lambda>c. SendRejected c e) cs) = length (filter (\<lambda>c. c = cid) cs)"
  by (induction cs) simp_all

lemma promised_rejections [simp]: "promised cid (map (\<lambda>c. SendRejected c e) cs) = 0"
  by (induction cs) simp_all

lemma length_filter_distinct: "distinct xs \<Longrightarrow> length (filter (\<lambda>c. c = x) xs) = (if x \<in> set xs then 1 else 0)"
  by (induction xs) auto

text \<open>What the send properties read: the ids in the outbox, the pending promises, the promise effects.\<close>

definition send_view :: "conv \<Rightarrow> string list \<times> string list \<times> effect list" where
  "send_view s = (ids (c_store s), c_waiting s, filter is_promise (c_out s))"

definition promise_inv :: "string list \<times> string list \<times> effect list \<Rightarrow> bool" where
  "promise_inv v \<longleftrightarrow> (case v of (I, W, P) \<Rightarrow>
     distinct W \<and> set W \<subseteq> set I \<and> (\<forall>c. promised c P = settled c P + (if c \<in> set W then 1 else 0)))"

lemma promise_settle:
  assumes "promise_inv (I, W, P)" "\<And>c. settles c e \<longleftrightarrow> c = cid" "\<And>c. e \<noteq> SendPending c"
  shows "promise_inv (remove1 cid I, set_delete cid W, P @ (if cid \<in> set W then [e] else []))"
proof -
  have "set W - {cid} \<subseteq> set (remove1 cid I)"
    using assms(1) by (auto simp: promise_inv_def) (metis in_set_remove1 subsetD)
  with assms show ?thesis by (auto simp: promise_inv_def)
qed

lemma promise_reject_all:
  assumes "promise_inv (I, W, P)"
  shows "promise_inv (J, [], P @ map (\<lambda>c. SendRejected c e) W)"
  using assms by (auto simp: promise_inv_def length_filter_distinct)

lemma promise_open:
  assumes "promise_inv (I, W, P)" "cid \<notin> set W"
  shows "promise_inv (I @ [cid], set_add cid W, P @ [SendPending cid])"
  using assms by (auto simp: promise_inv_def)

lemma promise_load: "promise_inv (I, W, P) \<Longrightarrow> promise_inv (J @ I, W, P)"
  by (auto simp: promise_inv_def)

section \<open>Operations\<close>

lemma flush_entries_send: "send_view (flush_entries env es s) = send_view s"
proof (induction es arbitrary: s)
  case Nil
  then show ?case by simp
next
  case (Cons e es)
  have "send_view (with_store (store_touch c) (perform (Wire i f) s1\<lparr>c_inFlight := x\<rparr>)) = send_view s1" for c i f s1 x
    by (simp add: send_view_def effects)
  moreover have "send_view (s\<lparr>c_retryAt := r\<rparr>) = send_view s" for r
    by (simp add: send_view_def)
  ultimately show ?case
    using Cons.IH by (simp add: Let_def transport_send_def split: option.split)
qed

lemma send_view_flush [simp]: "send_view (flush env s) = send_view s"
  by (simp add: flush_def flush_entries_send)

lemma promise_requests [simp]: "filter is_promise (token_requests m os) = []"
  by (auto simp: token_requests_def filter_empty_conv split: token_output.splits)

lemma send_view_effects: "\<not> is_promise p \<Longrightarrow> send_view (perform p s) = send_view s"
  "send_view (emit_event ev s) = send_view s"
  by (simp_all add: send_view_def effects)

lemma send_view_saveState [simp]: "send_view (saveState s) = send_view s"
  by (simp add: send_view_def saveState_def effects)

lemma send_view_ops [simp]:
  "send_view (snd (transport_send env f s)) = send_view s" "send_view (scheduleRefresh env s) = send_view s"
  "send_view (scheduleRetry env s) = send_view s" "send_view (checkGap d h s) = send_view s"
  "send_view (setConnState d st dl cl er s) = send_view s" "send_view (drop_transport r s) = send_view s"
  "send_view (clearTimers s) = send_view s" "send_view (join_request k q s) = send_view s"
  "send_view (tokens_fetch tr k s) = send_view s" "send_view (tokens_get env k s) = send_view s"
  by (simp_all add: send_view_def transport_send_def setConnState_def drop_transport_def tokens_fetch_def tokens_get_def
      join_request_def with_tokens_def effects split: option.split prod.split)

lemma send_view_updates [simp]:
  "send_view (s\<lparr>c_restWaits := x1\<rparr>) = send_view s" "send_view (s\<lparr>c_managers := x2\<rparr>) = send_view s"
  "send_view (s\<lparr>c_tokens := n\<rparr>) = send_view s" "send_view (s\<lparr>c_conversationId := x3\<rparr>) = send_view s"
  "send_view (s\<lparr>c_ready := x5\<rparr>) = send_view s" "send_view (s\<lparr>c_tokenWaits := x4\<rparr>) = send_view s"
  "send_view (s\<lparr>c_microtasks := x6\<rparr>) = send_view s" "send_view (s\<lparr>c_watermark := i\<rparr>) = send_view s"
  "send_view (s\<lparr>c_started := b\<rparr>) = send_view s" "send_view (s\<lparr>c_loading := x7\<rparr>) = send_view s"
  "send_view (s\<lparr>c_userId := x3\<rparr>) = send_view s" "send_view (s\<lparr>c_gapTimer := x8\<rparr>) = send_view s"
  "send_view (s\<lparr>c_syncTimer := x8\<rparr>) = send_view s" "send_view (s\<lparr>c_reconnectTimer := x9\<rparr>) = send_view s"
  "send_view (s\<lparr>c_refreshTimer := x9\<rparr>) = send_view s" "send_view (s\<lparr>c_retryTimer := x9\<rparr>) = send_view s"
  "send_view (s\<lparr>c_replayTimer := x9\<rparr>) = send_view s" "send_view (s\<lparr>c_replaying := b\<rparr>) = send_view s"
  "send_view (s\<lparr>c_replayTarget := i\<rparr>) = send_view s" "send_view (s\<lparr>c_transport := x14\<rparr>) = send_view s"
  "send_view (s\<lparr>c_inFlight := x10\<rparr>) = send_view s" "send_view (s\<lparr>c_retryAt := x11\<rparr>) = send_view s"
  "send_view (s\<lparr>c_attaching := x12\<rparr>) = send_view s" "send_view (s\<lparr>c_stopped := b\<rparr>) = send_view s"
  "send_view (s\<lparr>c_flushing := n\<rparr>) = send_view s" "send_view (s\<lparr>c_seen := x13\<rparr>) = send_view s"
  "send_view (s\<lparr>c_connectToken := n\<rparr>) = send_view s" "send_view (s\<lparr>c_fatal := x15\<rparr>) = send_view s"
  "send_view (s\<lparr>c_attempt := n\<rparr>) = send_view s" "send_view (s\<lparr>c_authRejections := n\<rparr>) = send_view s"
  "send_view (s\<lparr>c_ownSeqs := x13\<rparr>) = send_view s" "send_view (s\<lparr>c_lastWelcome := x16\<rparr>) = send_view s"
  "send_view (s\<lparr>c_welcomed := b\<rparr>) = send_view s" "send_view (s\<lparr>c_failuresOnTransport := n\<rparr>) = send_view s"
  "send_view (s\<lparr>c_maxInFlight := x17\<rparr>) = send_view s" "send_view (s\<lparr>c_transportIndex := n\<rparr>) = send_view s"
  by (simp_all add: send_view_def)

lemma send_view_markSeen [simp]: "send_view (markSeen q s) = send_view s"
  by (simp add: markSeen_def Let_def split: prod.split)

lemma send_view_endReplay [simp]: "send_view (endReplay env b s) = send_view s"
  by (simp add: endReplay_def Let_def)

lemma settle_send:
  "\<exists>r. send_view (settle a s) =
     (remove1 (ak_clientId a) (ids (c_store s)), set_delete (ak_clientId a) (c_waiting s),
      filter is_promise (c_out s) @ (if ak_clientId a \<in> set (c_waiting s) then [SendResolved (ak_clientId a) r] else []))"
  by (auto simp: settle_def Let_def send_view_def effects set_delete_def remove1_idem)

lemma rejectWaiting_send:
  "send_view (rejectWaiting e s) = (ids (c_store s), [], filter is_promise (c_out s) @ map (\<lambda>c. SendRejected c e) (c_waiting s))"
  by (simp add: rejectWaiting_def send_view_def filter_map comp_def)

definition promise_ok :: "conv \<Rightarrow> bool" where
  "promise_ok s \<longleftrightarrow> promise_inv (send_view s)"

lemma promise_same: "promise_ok s \<Longrightarrow> send_view s' = send_view s \<Longrightarrow> promise_ok s'"
  by (simp add: promise_ok_def)

lemma promise_ok_settle:
  assumes "promise_ok s"
  shows "promise_ok (settle a s)"
proof -
  obtain r where r: "send_view (settle a s) =
     (remove1 (ak_clientId a) (ids (c_store s)), set_delete (ak_clientId a) (c_waiting s),
      filter is_promise (c_out s) @ (if ak_clientId a \<in> set (c_waiting s) then [SendResolved (ak_clientId a) r] else []))"
    using settle_send by blast
  show ?thesis
    unfolding promise_ok_def r
    by (rule promise_settle) (use assms in \<open>auto simp: promise_ok_def send_view_def\<close>)
qed

lemma promise_ok_rejectWaiting: "promise_ok s \<Longrightarrow> promise_ok (rejectWaiting e s)"
  unfolding promise_ok_def rejectWaiting_send by (rule promise_reject_all) (simp add: send_view_def)

lemma promise_ok_close: "promise_ok s \<Longrightarrow> promise_ok (close_session d e cl s)"
  unfolding close_session_def settle_ready_def
  by (rule promise_same [OF promise_ok_rejectWaiting]) (simp_all add: promise_ok_def send_view_effects)

lemma promise_ok_reconnect:
  assumes "promise_ok s"
  shows "promise_ok (scheduleReconnect d env cl s)"
proof -
  have "promise_ok (s\<lparr>c_attempt := n\<rparr>)" for n by (rule promise_same [OF assms]) simp
  then show ?thesis
    using assms promise_ok_close
    by (simp add: scheduleReconnect_def Let_def) (auto simp: fall_back_def Let_def intro: promise_same [OF assms])
qed

lemma promise_ok_connect_failed:
  assumes "promise_ok s"
  shows "promise_ok (connect_failed d env ct e s)"
proof -
  have "promise_ok (emit_event ev s)" for ev by (rule promise_same [OF assms]) (simp add: send_view_effects)
  with assms show ?thesis by (simp add: connect_failed_def Let_def promise_ok_close promise_ok_reconnect)
qed

lemma load_merge_send:
  assumes "promise_ok s"
  shows "promise_ok (with_store (load_merge raw) s)" "promise_ok (with_store (attach_load raw) s)"
proof -
  obtain J where "ids (load_merge raw (c_store s)) = J @ ids (c_store s)"
    using load_merge_ids by blast
  with assms show "promise_ok (with_store (load_merge raw) s)" "promise_ok (with_store (attach_load raw) s)"
    by (simp_all add: promise_ok_def send_view_def effects attach_load_def promise_load)
qed

lemma promise_ok_continue_connect:
  assumes "promise_ok s"
  shows "promise_ok (continue_connect d env ct t tok e s)"
  using assms promise_ok_connect_failed [OF assms]
  by (auto simp: continue_connect_def useConversationTokens_def split: sum.split intro: promise_same)

lemma promise_ok_rest_answered:
  assumes "promise_ok s"
  shows "promise_ok (rest_answered d env ct t w ans s)"
proof -
  have store: "send_view (s\<lparr>c_conversationId := i, c_store := attach_key c (c_store s)\<rparr>) = send_view s" for i c
    by (simp add: send_view_def)
  show ?thesis
    using assms promise_ok_connect_failed [OF assms] promise_ok_continue_connect [OF assms]
    by (auto simp: rest_answered_def Let_def send_view_effects store split: sum.split intro!: promise_same [OF assms])
qed

lemma promise_ok_token_continue:
  assumes "promise_ok s"
  shows "promise_ok (token_continue d env k res s)"
proof -
  have "send_view (connect_ready d ct t tok s) = send_view s" "send_view (ensureConversationToken env ct t tok s) = send_view s"
    "send_view (refresh_settled env res s) = send_view s" for ct t tok
    by (simp_all add: connect_ready_def ensureConversationToken_def refresh_settled_def Let_def send_view_effects split: sum.split)
  then show ?thesis
    using assms promise_ok_connect_failed [OF assms]
    by (auto simp: token_continue_def send_view_effects split: token_wait.split sum.split intro: promise_same [OF assms])
qed

lemma promise_ok_continue_all: "promise_ok s \<Longrightarrow> promise_ok (fold (\<lambda>k. token_continue d env k res) ks s)"
  by (induction ks arbitrary: s) (simp_all add: promise_ok_token_continue)

lemma send_view_connect [simp]: "send_view (connect d env s) = send_view s" "send_view (open_session d env s) = send_view s"
  by (simp_all add: open_session_def connect_def Let_def)

lemma promise_ok_onClose:
  assumes "promise_ok s"
  shows "promise_ok (onClose d env cl s)"
  unfolding onClose_def Let_def
  by (auto intro!: promise_ok_close promise_ok_reconnect intro: promise_same [OF assms])

lemma promise_ok_send:
  assumes "promise_ok s"
  shows "promise_ok (send env m g s)"
proof (cases "send_refused m (or_default (sm_clientId m) g) s")
  case (Some e)
  with assms show ?thesis by (auto simp: send_def send_view_effects intro: promise_same)
next
  case None
  define cid where "cid = or_default (sm_clientId m) g"
  have "cid \<notin> set (c_waiting s)"
    using None by (simp add: send_refused_def cid_def split: option.splits if_splits)
  moreover have "promise_inv (ids (c_store s), c_waiting s, filter is_promise (c_out s))"
    using assms by (simp add: promise_ok_def send_view_def)
  ultimately have "promise_inv (ids (c_store s) @ [cid], set_add cid (c_waiting s), filter is_promise (c_out s) @ [SendPending cid])"
    by (intro promise_open)
  moreover have "send_view (send env m g s) = (ids (c_store s) @ [cid], set_add cid (c_waiting s), filter is_promise (c_out s) @ [SendPending cid])"
    using None by (simp add: send_def cid_def [symmetric] send_accepted_def) (simp add: send_view_def effects)
  ultimately show ?thesis by (simp add: promise_ok_def)
qed

lemma promise_ok_discard: "promise_ok s \<Longrightarrow> promise_ok (discardOutbox s)"
  unfolding promise_ok_def discardOutbox_def rejectWaiting_send
  by (rule promise_reject_all) (simp add: send_view_def)

lemma promise_ok_disconnect: "promise_ok s \<Longrightarrow> promise_ok (disconnect d s)"
  unfolding disconnect_def Let_def settle_ready_def
  by (rule promise_same [OF promise_ok_rejectWaiting]) (simp_all add: promise_ok_def)

lemma promise_ok_onSendError:
  assumes "promise_ok s"
  shows "promise_ok (onSendError env cid e s)"
proof (cases "retryable_send e")
  case True
  then show ?thesis by (intro promise_same [OF assms]) (simp add: onSendError_def Let_def)
next
  case False
  have "promise_inv (remove1 cid (ids (c_store s)), set_delete cid (c_waiting s),
      filter is_promise (c_out s) @ (if cid \<in> set (c_waiting s) then [SendRejected cid e] else []))"
    by (rule promise_settle) (use assms in \<open>auto simp: promise_ok_def send_view_def\<close>)
  moreover have "send_view (onSendError env cid e s) = (remove1 cid (ids (c_store s)), set_delete cid (c_waiting s),
      filter is_promise (c_out s) @ (if cid \<in> set (c_waiting s) then [SendRejected cid e] else []))"
    using False by (simp add: onSendError_def Let_def send_view_effects) (simp add: send_view_def effects)
  ultimately show ?thesis by (simp add: promise_ok_def)
qed

lemma send_view_onSessionError [simp]: "send_view (onSessionError env e s) = send_view s"
  by (simp add: onSessionError_def Let_def send_view_effects)

lemma promise_ok_deliver:
  assumes "promise_ok s"
  shows "promise_ok (deliver a s)"
proof -
  have "promise_ok (markSeen q s)" for q by (rule promise_same [OF assms]) simp
  then have "promise_ok (snd (ownTurn a (markSeen q s)))" for q
    by (simp add: ownTurn_def promise_ok_settle)
  moreover have "send_view (deliver a s) = send_view (snd (ownTurn a (markSeen (seq_of a) s)))"
    by (simp add: deliver_def send_view_effects split: prod.split)
  ultimately show ?thesis using promise_same by blast
qed

lemma promise_ok_onFrame:
  assumes "promise_ok s"
  shows "promise_ok (onFrame d env frame s)"
proof (cases frame)
  case (Welcome w)
  have "send_view (welcome_identity w s) = send_view s" by (simp add: welcome_identity_def Let_def)
  moreover have "send_view (welcome_attach s') = send_view s'" for s'
    by (simp add: welcome_attach_def send_view_effects) (simp add: send_view_def)
  ultimately have "send_view (onWelcome d env w s) = send_view s"
    by (simp add: onWelcome_def Let_def with_tokens_def welcome_replay_def armReplayTimer_def send_view_effects split: option.split)
  with Welcome assms show ?thesis by (auto simp: onFrame_def intro: promise_same)
next
  case (Ack a)
  have "promise_ok (markSeen q s)" for q by (rule promise_same [OF assms]) simp
  then have "promise_ok (settle a (case ak_seq a of Some n \<Rightarrow> markSeen n s | None \<Rightarrow> s))"
    using assms by (simp add: promise_ok_settle split: option.split)
  with Ack show ?thesis by (auto simp: onFrame_def onAck_def Let_def intro: promise_same)
next
  case (Error ed)
  with assms promise_ok_onSendError [OF assms] show ?thesis
    by (auto simp: onFrame_def onError_def Let_def split: option.split intro: promise_same [OF assms])
next
  case (Message m)
  have "send_view (onPersistent d env m s) = send_view (if is_duplicate (seq_of m) s then s else deliver m s)"
    by (simp add: onPersistent_def Let_def)
  then have "promise_ok (onPersistent d env m s)"
    using promise_ok_deliver [OF assms] assms by (simp add: promise_ok_def split: if_splits)
  with Message assms show ?thesis
    by (auto simp: onFrame_def onMessage_def send_view_effects intro: promise_same)
qed (auto simp: onFrame_def onTokenRefreshed_def with_tokens_def onReplayTruncated_def armReplayTimer_def onHeartbeat_def
    Let_def send_view_effects intro!: promise_same [OF assms] split: option.split)

lemma send_view_calls [simp]:
  "send_view (typing env b s) = send_view s" "send_view (markRead env q s) = send_view s" "send_view (resume wm s) = send_view s"
  "send_view (refresh s) = send_view s" "send_view (gap_fires env h s) = send_view s" "send_view (sync_fires env h s) = send_view s"
  "send_view (retry_fires env s) = send_view s" "send_view (shared_get env s) = send_view s" "send_view (start d env s) = send_view s"
  by (simp_all add: typing_def markRead_def send_signal_def resume_def refresh_def gap_fires_def sync_fires_def retry_fires_def
      shared_get_def start_def Let_def send_view_effects split: option.split prod.split list.split)
     (simp_all add: send_view_def transport_send_def effects split: option.split)

lemma promise_ok_resume_loaded:
  assumes "promise_ok s"
  shows "promise_ok (resume_loaded d env wm raw s)"
proof -
  have "promise_ok (resume_restore raw s)"
    using assms load_merge_send(1) [OF assms, of raw]
    by (auto simp: resume_restore_def Let_def split: option.split intro: promise_same)
  then show ?thesis
    by (auto simp: resume_loaded_def Let_def send_view_effects split: sum.split intro: promise_same)
qed

lemma promise_ok_step:
  assumes "promise_ok s"
  shows "promise_ok (step d ei s)"
proof -
  obtain env i where ei: "ei = (env, i)" by (cases ei)
  note same = promise_same [OF assms]
  show ?thesis
  proof (cases i)
    case (StoreLoaded wm raw)
    have "promise_ok (s\<lparr>c_loading := x\<rparr>)" for x by (rule same) simp
    with StoreLoaded assms show ?thesis by (simp add: ei promise_ok_resume_loaded)
  next
    case (WelcomeAttached need raw)
    have "promise_ok (s\<lparr>c_attaching := x\<rparr>)" for x by (rule same) simp
    moreover have "promise_ok (flush env (saveState s')) = promise_ok s'" for s' by (simp add: promise_ok_def)
    ultimately have "promise_ok (welcome_attached env need raw (s\<lparr>c_attaching := x\<rparr>))" for x
      using load_merge_send(2) by (simp add: welcome_attached_def)
    with WelcomeAttached assms show ?thesis by (simp add: ei)
  next
    case Microtask
    have "promise_ok (s\<lparr>c_microtasks := ms\<rparr>)" for ms by (rule same) simp
    with Microtask assms show ?thesis by (auto simp: ei microtask_def promise_ok_token_continue split: list.split)
  next
    case (TokenSettled m ans)
    have "promise_ok (s\<lparr>c_managers := ms, c_tokenWaits := ws\<rparr>)" for ms ws by (rule same) simp
    with TokenSettled assms show ?thesis
      by (auto simp: ei token_settled_def Let_def split: prod.split intro!: promise_ok_continue_all)
  next
    case (RestAnswered ct ans)
    have "promise_ok (s\<lparr>c_restWaits := r\<rparr>)" for r by (rule same) simp
    with RestAnswered assms show ?thesis by (auto simp: ei rest_step_def promise_ok_rest_answered split: option.split)
  next
    case (CreatedAttached ct raw)
    have "promise_ok (s\<lparr>c_restWaits := r\<rparr>)" for r by (rule same) simp
    then have "promise_ok (if need then with_store (attach_load raw) (s\<lparr>c_restWaits := r\<rparr>) else s\<lparr>c_restWaits := r\<rparr>)" for r need
      using load_merge_send(2) by simp
    with CreatedAttached assms show ?thesis
      by (auto simp: ei attach_step_def Let_def promise_ok_continue_connect split: option.split rest_wait.split)
  qed (use assms in \<open>auto simp: ei promise_ok_onFrame promise_ok_onClose promise_ok_send promise_ok_discard promise_ok_disconnect
      send_view_effects intro!: same split: option.split\<close>)
qed

interpretation promises: preserved "step d" promise_ok for d
  by unfold_locales (rule promise_ok_step)

lemma promise_ok_new: "st_entries st = [] \<Longrightarrow> promise_ok (new_conv cid tokens st)"
  by (simp add: promise_ok_def send_view_def new_conv_def promise_inv_def ids_def)

section \<open>What takes a send out of the outbox\<close>

definition outbox :: "conv \<Rightarrow> string set" where
  "outbox s = set (ids (c_store s))"

lemma outbox_flush [simp]: "outbox (flush env s) = outbox s"
  using send_view_flush [of env s] by (simp add: send_view_def outbox_def)

lemma outbox_ops [simp]:
  "outbox (saveState s) = outbox s" "outbox (markSeen q s) = outbox s" "outbox (endReplay env b s) = outbox s"
  using send_view_saveState [of s] send_view_markSeen [of q s] send_view_endReplay [of env b s]
  by (simp_all add: send_view_def outbox_def)

lemma outbox_same: "c_store s' = c_store s \<Longrightarrow> outbox s' = outbox s"
  by (simp add: outbox_def)

lemma outbox_attach_load: "outbox s \<subseteq> outbox (with_store (attach_load raw) s)"
  and outbox_load_merge: "outbox s \<subseteq> outbox (with_store (load_merge raw) s)"
  using load_merge_ids [of raw "c_store s"] by (auto simp: outbox_def attach_load_def effects)

lemma set_remove1_superset: "set xs - {x} \<subseteq> set (remove1 x xs)"
  using in_set_remove1 by fastforce

lemma outbox_settle: "outbox s - {ak_clientId a} \<subseteq> outbox (settle a s)"
  using settle_send [of a s] set_remove1_superset [of "ids (c_store s)" "ak_clientId a"]
  by (auto simp: send_view_def outbox_def)

lemma outbox_store_connect [simp]:
  "c_store (connect d env s) = c_store s" "c_store (connect_ready d ct t tok s) = c_store s"
  "c_store (ensureConversationToken env ct t tok s) = c_store s" "c_store (continue_connect d env ct t token x s) = c_store s"
  "c_store (refresh_settled env res s) = c_store s" "c_store (token_continue d env k res s) = c_store s"
  "c_store (fold (\<lambda>k. token_continue d env k res) ks s) = c_store s" "c_store (open_session d env s) = c_store s"
proof -
  show connect: "c_store (connect d env s) = c_store s" for s by (simp add: connect_def Let_def)
  show "c_store (open_session d env s) = c_store s" by (simp add: open_session_def connect)
  show ready: "c_store (connect_ready d ct t tok s) = c_store s" for ct t tok s by (simp add: connect_ready_def)
  show ensure: "c_store (ensureConversationToken env ct t tok s) = c_store s" for ct t tok s
    by (simp add: ensureConversationToken_def)
  show "c_store (continue_connect d env ct t token x s) = c_store s"
    by (simp add: continue_connect_def useConversationTokens_def split: sum.split)
  show refresh: "c_store (refresh_settled env res s) = c_store s" for s
    by (simp add: refresh_settled_def Let_def split: sum.split)
  show k: "c_store (token_continue d env k res s) = c_store s" for k s
    by (simp add: token_continue_def ready ensure refresh split: token_wait.split sum.split)
  show "c_store (fold (\<lambda>k. token_continue d env k res) ks s) = c_store s"
    by (induction ks arbitrary: s) (simp_all add: k)
qed

definition settles_outbox :: "string \<Rightarrow> conv_input \<Rightarrow> bool" where
  "settles_outbox cid i \<longleftrightarrow>
     (case i of
        CallDiscardOutbox \<Rightarrow> True
      | FrameIn j (Ack a) \<Rightarrow> ak_clientId a = cid
      | FrameIn j (Message m) \<Rightarrow> isPersistent m \<and> a_clientId m = Some cid \<and> a_from m = Some ''user''
      | FrameIn j (Error ed) \<Rightarrow> ed_clientId ed = Some cid \<and> \<not> retryable_send (protocol_error ed)
      | _ \<Rightarrow> False)"

lemma outbox_deliver: "outbox s - (if is_own_turn m s then set_option (a_clientId m) else {}) \<subseteq> outbox (deliver m s)"
proof -
  have "outbox (deliver m s) = outbox (snd (ownTurn m (markSeen (seq_of m) s)))"
    by (simp add: deliver_def outbox_def split: prod.split)
  moreover have "outbox (markSeen (seq_of m) s) - (if is_own_turn m s then set_option (a_clientId m) else {})
      \<subseteq> outbox (snd (ownTurn m (markSeen (seq_of m) s)))"
    using outbox_settle [of "markSeen (seq_of m) s" "own_ack m"]
    by (auto simp: ownTurn_def own_ack_def is_own_turn_def split: option.splits)
  ultimately show ?thesis by simp
qed

lemma ids_flush [simp]: "ids (c_store (flush env s)) = ids (c_store s)"
  using send_view_flush [of env s] by (simp add: send_view_def)

lemma ids_onSendError:
  "ids (c_store (onSendError env c e s)) = (if retryable_send e then ids (c_store s) else remove1 c (ids (c_store s)))"
  by (simp add: onSendError_def Let_def)

lemma outbox_onFrame:
  assumes "cid \<in> outbox s" "\<not> settles_outbox cid (FrameIn j frame)"
  shows "cid \<in> outbox (onFrame d env frame s)"
proof (cases frame)
  case (Welcome w)
  have "ids (c_store (onWelcome d env w s)) = ids (c_store s)"
    using assms by (simp add: onWelcome_def Let_def welcome_attach_def welcome_replay_def armReplayTimer_def with_tokens_def
        split: option.split) (simp add: saveState_def effects welcome_identity_def Let_def)
  with Welcome assms show ?thesis by (simp add: onFrame_def outbox_def)
next
  case (Ack a)
  with assms have "cid \<noteq> ak_clientId a" by (auto simp: settles_outbox_def)
  then have "cid \<in> outbox (settle a (case ak_seq a of Some n \<Rightarrow> markSeen n s | None \<Rightarrow> s))"
    using assms(1) outbox_settle [of "case ak_seq a of Some n \<Rightarrow> markSeen n s | None \<Rightarrow> s" a] by (auto split: option.split)
  with Ack show ?thesis by (simp add: onFrame_def onAck_def Let_def)
next
  case (Error ed)
  have send: "cid \<in> outbox (onSendError env c e s)" if "c = cid \<longrightarrow> retryable_send e" for c e
    using assms(1) that set_remove1_superset [of "ids (c_store s)" c] by (auto simp: outbox_def ids_onSendError)
  have "outbox (onSessionError env e s) = outbox s" for e
    using send_view_onSessionError [of env e s] by (simp add: send_view_def outbox_def)
  with Error assms send show ?thesis
    by (auto simp: onFrame_def onError_def Let_def settles_outbox_def split: option.split)
next
  case (Message m)
  have dup: "cid \<in> outbox (if b then s else deliver m s)" if "isPersistent m" for b
    using assms that Message outbox_deliver [of s m] by (auto simp: settles_outbox_def is_own_turn_def split: if_splits option.splits)
  have "cid \<in> outbox (onPersistent d env m s)" if "isPersistent m"
    using dup [OF that, of "is_duplicate (seq_of m) s"]
    by (simp add: onPersistent_def Let_def outbox_same [of "checkGap d x s'" s' for x s'])
  with Message assms(1) show ?thesis by (auto simp: onFrame_def onMessage_def outbox_def)
qed (use assms(1) in \<open>auto simp: onFrame_def onTokenRefreshed_def with_tokens_def onReplayTruncated_def armReplayTimer_def onHeartbeat_def
    Let_def outbox_def split: option.split\<close>)

lemma outbox_step:
  assumes "cid \<in> outbox s" "\<not> settles_outbox cid i"
  shows "cid \<in> outbox (step d (env, i) s)"
proof -
  have same: "cid \<in> outbox s'" if "c_store s' = c_store s" for s'
    using assms(1) outbox_same [OF that] by simp
  show ?thesis
  proof (cases i)
    case (CallSend m g)
    have "ids (c_store (send env m g s)) = ids (c_store s) \<or> (\<exists>c. ids (c_store (send env m g s)) = ids (c_store s) @ [c])"
      by (auto simp: send_def send_accepted_def Let_def effects split: option.split)
    with CallSend assms(1) show ?thesis by (auto simp: outbox_def)
  next
    case CallDiscardOutbox
    with assms(2) show ?thesis by (simp add: settles_outbox_def)
  next
    case (StoreLoaded wm raw)
    have "outbox s \<subseteq> outbox (with_store (load_merge raw) (s\<lparr>c_loading := x\<rparr>))" for x
      using outbox_load_merge [of "s\<lparr>c_loading := x\<rparr>" raw] by (simp add: outbox_def)
    then have "cid \<in> outbox (resume_restore raw (s\<lparr>c_loading := x\<rparr>))" for x
      using assms(1) by (auto simp: resume_restore_def Let_def outbox_def split: option.split)
    then have "cid \<in> outbox (resume_loaded d env wm raw (s\<lparr>c_loading := x\<rparr>))" for x
      by (simp add: resume_loaded_def Let_def outbox_def split: sum.split)
    with StoreLoaded assms(1) show ?thesis by simp
  next
    case (WelcomeAttached need raw)
    have "cid \<in> outbox (with_store (attach_load raw) (s\<lparr>c_attaching := x\<rparr>))" "cid \<in> outbox (s\<lparr>c_attaching := x\<rparr>)" for x
      using outbox_attach_load [of "s\<lparr>c_attaching := x\<rparr>" raw] assms(1) by (auto simp: outbox_def)
    with WelcomeAttached assms(1) show ?thesis by (simp add: welcome_attached_def)
  next
    case (RestAnswered ct ans)
    have "ids (c_store (rest_answered d env ct t w ans s')) = ids (c_store s')" for t w s'
      by (simp add: rest_answered_def Let_def split: sum.split)
    with RestAnswered assms(1) show ?thesis
      by (auto simp: rest_step_def outbox_def split: option.split prod.split)
  next
    case (CreatedAttached ct raw)
    have "cid \<in> outbox (with_store (attach_load raw) (s\<lparr>c_restWaits := x\<rparr>))" for x
      using outbox_attach_load [of "s\<lparr>c_restWaits := x\<rparr>" raw] assms(1) by (auto simp: outbox_def)
    with CreatedAttached assms(1) show ?thesis
      by (auto simp: attach_step_def Let_def outbox_def split: option.split rest_wait.split)
  next
    case (FrameIn j frame)
    with assms show ?thesis using outbox_onFrame by simp
  next
    case RetryFires
    have "outbox (retry_fires env s) = outbox s"
      using send_view_calls(7) [of env s] by (simp add: send_view_def outbox_def)
    with RetryFires assms(1) show ?thesis by simp
  next
    case (CloseIn j cl)
    have "outbox (onClose d env cl s) = outbox s"
      by (simp add: onClose_def endReplay_def Let_def outbox_def)
    with CloseIn assms(1) show ?thesis by simp
  next
    case ReplayFires
    with assms(1) show ?thesis by simp
  qed (use assms(1) in \<open>auto intro!: same simp: start_def resume_def typing_def markRead_def send_signal_def disconnect_def
      settle_ready_def microtask_def token_settled_def shared_get_def refresh_def gap_fires_def sync_fires_def Let_def
      transport_send_def split: option.split prod.split list.split\<close>)
qed

section \<open>The loop of \<open>#flush\<close>\<close>

definition delayed :: "env \<Rightarrow> conv \<Rightarrow> string \<Rightarrow> bool" where
  "delayed env s cid \<longleftrightarrow> (case map_of (c_retryAt s) cid of Some t \<Rightarrow> t > v_now env | None \<Rightarrow> False)"

definition eligible :: "env \<Rightarrow> conv \<Rightarrow> outbox_entry \<Rightarrow> bool" where
  "eligible env s e \<longleftrightarrow> oe_clientId e \<notin> set (c_inFlight s) \<and> \<not> delayed env s (oe_clientId e)"

text \<open>How many more sends fit in flight.\<close>

definition room :: "conv \<Rightarrow> nat" where
  "room s = nat \<lceil>c_maxInFlight s - of_nat (length (c_inFlight s))\<rceil>"

definition wire_of :: "transport \<Rightarrow> outbox_entry \<Rightarrow> effect" where
  "wire_of t e = Wire (t_id t) (Text (oe_frame e))"

lemma room_zero: "room s = 0 \<longleftrightarrow> c_maxInFlight s \<le> of_nat (length (c_inFlight s))"
  by (simp add: room_def)

lemma flush_entries_spec:
  assumes "c_transport s = Some t" "\<And>m. v_accepts env (Text m)" "distinct (map oe_clientId es)"
  defines "sent \<equiv> take (room s) (filter (eligible env s) es)"
  shows "c_out (flush_entries env es s) = c_out s @ map (wire_of t) sent
    \<and> c_inFlight (flush_entries env es s) = c_inFlight s @ map oe_clientId sent"
  using assms(1, 3) unfolding sent_def
proof (induction es arbitrary: s)
  case Nil
  then show ?case by simp
next
  case (Cons e es)
  define cid where "cid = oe_clientId e"
  show ?case
  proof (cases "room s = 0 \<or> \<not> eligible env s e")
    case True
    then show ?thesis
      using Cons.IH [OF Cons.prems(1)] Cons.prems(2)
      by (auto simp: room_zero Let_def eligible_def delayed_def)
  next
    case False
    define s1 where "s1 = with_store (store_touch cid)
      (perform (wire_of t e) (s\<lparr>c_retryAt := AList.delete cid (c_retryAt s)\<rparr>)\<lparr>c_inFlight := set_add cid (c_inFlight s)\<rparr>)"
    have step: "flush_entries env (e # es) s = flush_entries env es s1"
      using False Cons.prems(1) assms(2)
      by (auto simp: s1_def cid_def Let_def room_zero eligible_def delayed_def transport_send_def wire_of_def)
    have new: "cid \<notin> set (c_inFlight s)" using False by (simp add: eligible_def cid_def)
    then have fields: "c_inFlight s1 = c_inFlight s @ [cid]" "c_out s1 = c_out s @ [wire_of t e]" "c_transport s1 = Some t"
        "c_retryAt s1 = AList.delete cid (c_retryAt s)" "c_maxInFlight s1 = c_maxInFlight s"
      using Cons.prems(1) by (simp_all add: s1_def effects set_add_def)
    have "room s1 = room s - 1"
      by (simp add: room_def fields) linarith
    moreover have "filter (eligible env s1) es = filter (eligible env s) es"
    proof (rule filter_cong)
      fix x assume "x \<in> set es"
      with Cons.prems(2) have "oe_clientId x \<noteq> cid" by (metis cid_def distinct.simps(2) image_eqI list.set_map list.simps(9))
      then show "eligible env s1 x = eligible env s x" by (simp add: eligible_def delayed_def fields)
    qed simp
    ultimately show ?thesis
      unfolding step using Cons.IH [OF fields(3)] Cons.prems(2) False
      by (cases "room s") (simp_all add: fields cid_def)
  qed
qed

section \<open>Properties\<close>

text \<open>
  C3. The promise of every \<open>send\<close> settles at most once and is never dropped: at any time, for each
  clientId, the accepted sends are as many as the settlements plus the one still waiting, and every
  waiting send is in the outbox, from where it is resent.
\<close>

theorem send_promises_settle_once:
  "let s = run (step d) es (new_conv cid tokens (new_store prefix key)) in
   set (c_waiting s) \<subseteq> outbox s
   \<and> (\<forall>c. promised c (c_out s) = settled c (c_out s) + (if c \<in> set (c_waiting s) then 1 else 0))"
proof -
  have "promise_ok (run (step d) es (new_conv cid tokens (new_store prefix key)))"
    by (intro promises.run_good promise_ok_new) (simp add: new_store_def)
  then show ?thesis by (simp add: promise_ok_def promise_inv_def send_view_def outbox_def Let_def)
qed

text \<open>
  C17. An unacknowledged send stays in the outbox, across reconnects, replays, closes and reloads, until
  the server acknowledges it, its own turn is replayed, the server rejects it for good, or the
  application discards the outbox: no other sequence of inputs removes it.
\<close>

theorem unacked_sends_stay:
  assumes "cid \<in> outbox s" "\<And>i. i \<in> set is \<Longrightarrow> \<not> settles_outbox cid (snd i)"
  shows "cid \<in> outbox (run (step d) is s)"
  using assms
proof (induction "is" arbitrary: s)
  case Nil
  then show ?case by simp
next
  case (Cons i "is")
  then show ?case using outbox_step [of cid s "snd i" d "fst i"] by simp
qed

theorem unacked_sends_stay_witness:
  "''m'' \<in> outbox (run (step sample_deps) (sample_inputs [CloseIn 1 (sample_close 1006), ReconnectFires, Microtask,
       FrameIn 2 (Welcome sample_welcome), CallDisconnect])
     (run (step sample_deps) (sample_inputs (sample_opening @ [CallSend (sample_message ''m'') []])) sample_conv))"
proof -
  have "''m'' \<in> outbox (run (step sample_deps) (sample_inputs (sample_opening @ [CallSend (sample_message ''m'') []])) sample_conv)"
    by code_simp
  moreover have "\<not> settles_outbox ''m'' (snd i)" if "i \<in> set (sample_inputs [CloseIn 1 (sample_close 1006), ReconnectFires,
      Microtask, FrameIn 2 (Welcome sample_welcome), CallDisconnect])" for i
    using that by (auto simp: sample_inputs_def settles_outbox_def)
  ultimately show ?thesis by (rule unacked_sends_stay)
qed

text \<open>
  C18. What \<open>#flush\<close> sends: on an open session outside a replay, over a transport that takes the frames,
  it puts on the wire exactly the first sends of the outbox, in order, that are neither in flight nor
  waiting for their retry time, as many as the in-flight limit leaves room for, each once, and marks
  exactly these in flight.
\<close>

theorem flush_sends:
  assumes "c_state s = Open" "c_transport s = Some t" "\<not> c_replaying s" "\<And>m. v_accepts env (Text m)" "distinct (ids (c_store s))"
  shows "let sent = take (room s) (filter (eligible env s) (st_entries (c_store s))) in
    c_out (flush env s) = c_out s @ map (wire_of t) sent \<and> c_inFlight (flush env s) = c_inFlight s @ map oe_clientId sent"
  using assms flush_entries_spec [of s t env "st_entries (c_store s)"] by (simp add: flush_def ids_def Let_def)

theorem flush_sends_witness:
  "let s = (run (step sample_deps) (sample_inputs
         [CallStart, Microtask, FrameIn 1 (Welcome (sample_welcome\<lparr>w_conversationId := []\<rparr>)),
          CallSend (sample_message ''a'') [], CallSend (sample_message ''b'') [], CallSend (sample_message ''c'') []])
         sample_conv)\<lparr>c_inFlight := [''b''], c_maxInFlight := 2\<rparr>
   in c_inFlight (flush sample_env s) = [''b'', ''a'']"
proof -
  let ?s = "(run (step sample_deps) (sample_inputs
         [CallStart, Microtask, FrameIn 1 (Welcome (sample_welcome\<lparr>w_conversationId := []\<rparr>)),
          CallSend (sample_message ''a'') [], CallSend (sample_message ''b'') [], CallSend (sample_message ''c'') []])
         sample_conv)\<lparr>c_inFlight := [''b''], c_maxInFlight := 2\<rparr>"
  have "c_state ?s = Open" "c_transport ?s = Some (make_transport 1 sample_factory)" "\<not> c_replaying ?s"
    "distinct (ids (c_store ?s))" by code_simp+
  note sends = flush_sends [OF this(1-3) _ this(4), of sample_env]
  have "v_accepts sample_env (Text m)" for m by (simp add: sample_env_def)
  with sends have "c_inFlight (flush sample_env ?s) =
      c_inFlight ?s @ map oe_clientId (take (room ?s) (filter (eligible sample_env ?s) (st_entries (c_store ?s))))"
    by (simp only: Let_def)
  also have "\<dots> = [''b'', ''a'']" by code_simp
  finally show ?thesis by (simp only: Let_def)
qed

text \<open>
  A replayed own turn settles its send instead of duplicating it: when the replay carries the turn
  of a send still in the outbox, the send is removed, its promise resolves with the stored id and seq
  marked as a duplicate, and nothing is handed to the application again.
\<close>

theorem replayed_own_turn_settles:
  assumes "current_transport j s" "isPersistent a" "\<not> is_duplicate (seq_of a) s"
    and "a_clientId a = Some cid" "a_from a = Some ''user''" "a_id a = Some i" "cid \<in> outbox s" "cid \<in> set (c_waiting s)"
    and "recv_ok s"
  shows "let s' = step d (env, FrameIn j (Message a)) s in
    delivered s' = delivered s
    \<and> SendResolved cid \<lparr>sr_clientId = cid, sr_id = i, sr_seq = Some (seq_of a), sr_timestamp = None, sr_duplicate = True\<rparr> \<in> set (c_out s')
    \<and> cid \<notin> set (c_waiting s')"
proof -
  have own: "is_own_turn a s" using assms(4, 5, 7) by (simp add: is_own_turn_def outbox_def)
  let ?r = "\<lparr>sr_clientId = cid, sr_id = i, sr_seq = Some (seq_of a), sr_timestamp = None, sr_duplicate = True\<rparr>"
  have d: "deliver a s = settle (own_ack a) (markSeen (seq_of a) s)"
    using own by (simp add: deliver_def ownTurn_def)
  have out: "SendResolved cid ?r \<in> set (c_out (deliver a s))" "cid \<notin> set (c_waiting (deliver a s))"
    using assms(4, 6, 8) by (auto simp: d settle_def own_ack_def Let_def effects)
  have keep: "set (c_out s') \<subseteq> set (c_out (endReplay env True s'))" for s'
    using flush_out [of env "s'\<lparr>c_replayTimer := Unset, c_replaying := False\<rparr>"] by (auto simp: endReplay_def Let_def)
  have "SendResolved cid ?r \<in> set (c_out (onPersistent d env a s))" "cid \<notin> set (c_waiting (onPersistent d env a s))"
    using assms(3) out keep by (auto simp: onPersistent_def Let_def)
  moreover have "delivered (onFrame d env (Message a) s) = delivered s"
    using onFrame_view [of d env "Message a" s] deliver_view [OF assms(2), of s] own assms(2, 3)
    by (simp add: recv_view_def hands_over_def)
  ultimately show ?thesis
    using assms(1, 2) by (simp add: onFrame_def onMessage_def Let_def)
qed

definition sample_own_turn :: activity_frame where
  "sample_own_turn = (sample_activity 1)\<lparr>a_clientId := Some ''m'', a_from := Some ''user''\<rparr>"

theorem replayed_own_turn_settles_witness:
  "let s = run (step sample_deps) (sample_inputs (sample_opening @ [CallSend (sample_message ''m'') []])) sample_conv;
       s' = step sample_deps (sample_env, FrameIn 1 (Message sample_own_turn)) s
   in delivered s' = delivered s \<and> ''m'' \<notin> set (c_waiting s')"
proof -
  let ?s = "run (step sample_deps) (sample_inputs (sample_opening @ [CallSend (sample_message ''m'') []])) sample_conv"
  have "current_transport 1 ?s" "isPersistent sample_own_turn" "\<not> is_duplicate (seq_of sample_own_turn) ?s"
    "a_clientId sample_own_turn = Some ''m''" "a_from sample_own_turn = Some ''user''" "a_id sample_own_turn = Some ''a1''"
    "''m'' \<in> outbox ?s" "''m'' \<in> set (c_waiting ?s)" "recv_ok ?s"
    by code_simp+
  from replayed_own_turn_settles [OF this, of sample_deps sample_env] show ?thesis by (simp only: Let_def) blast
qed

end
