(* ===== verification/Conv_Faults.thy ===== *)
theory Conv_Faults
  imports Conv_Send
begin

text \<open>
  Behaviours of a session that fall short of what its comments say: gap detection after a reconnect,
  the retry timer while nothing can be sent, and own sequence numbers after a reset.
\<close>

section \<open>The gap timer\<close>

definition gap_spent :: "conv \<Rightarrow> bool" where
  "gap_spent s \<longleftrightarrow> c_gapTimer s = Spent"

lemma checkGap_spent [simp]: "gap_spent s \<Longrightarrow> checkGap d h s = s"
  by (simp add: gap_spent_def checkGap_def timer_truthy_def)

lemma gap_close [simp]: "c_gapTimer (close_session d e cl s) = clear_timeout (c_gapTimer s)"
  by (simp add: close_session_def settle_ready_def) (simp add: clearTimers_def)

lemma gap_disconnect [simp]: "c_gapTimer (disconnect d s) = clear_timeout (c_gapTimer s)"
  by (simp add: disconnect_def settle_ready_def Let_def) (simp add: clearTimers_def)

lemma gap_reconnect [simp]: "c_gapTimer s = Spent \<Longrightarrow> c_gapTimer (scheduleReconnect d env cl s) = Spent"
  by (simp add: scheduleReconnect_def fall_back_def Let_def)

lemma gap_connect_failed [simp]: "c_gapTimer s = Spent \<Longrightarrow> c_gapTimer (connect_failed d env ct e s) = Spent"
  by (simp add: connect_failed_def Let_def)

lemma gap_connect [simp]: "c_gapTimer (connect d env s) = c_gapTimer s" "c_gapTimer (connect_ready d ct t tok s) = c_gapTimer s"
    "c_gapTimer (ensureConversationToken env ct t tok s) = c_gapTimer s" "c_gapTimer (open_session d env s) = c_gapTimer s"
  by (simp_all add: connect_def connect_ready_def ensureConversationToken_def open_session_def Let_def)

lemma gap_continue [simp]:
  assumes "c_gapTimer s = Spent"
  shows "c_gapTimer (continue_connect d env ct t tok e s) = Spent" "c_gapTimer (rest_answered d env ct t w ans s) = Spent"
    "c_gapTimer (token_continue d env k res s) = Spent"
  using assms
  by (simp_all add: continue_connect_def useConversationTokens_def rest_answered_def token_continue_def refresh_settled_def Let_def
      split: sum.split token_wait.split)

lemma gap_continue_all [simp]: "c_gapTimer s = Spent \<Longrightarrow> c_gapTimer (fold (\<lambda>k. token_continue d env k res) ks s) = Spent"
  by (induction ks arbitrary: s) simp_all

lemma gap_checkGap [simp]: "c_gapTimer s = Spent \<Longrightarrow> checkGap d h s = s"
  by (simp add: checkGap_def timer_truthy_def)

lemma gap_onWelcome [simp]: "c_gapTimer (onWelcome d env w s) = c_gapTimer s"
  by (simp add: onWelcome_def Let_def welcome_identity_def with_tokens_def welcome_replay_def armReplayTimer_def
      welcome_attach_def split: option.split)

lemma gap_onFrame: "c_gapTimer s = Spent \<Longrightarrow> c_gapTimer (onFrame d env frame s) = Spent"
  by (simp add: onFrame_def onAck_def onError_def onSendError_def onSessionError_def onTokenRefreshed_def with_tokens_def
      onReplayTruncated_def armReplayTimer_def onHeartbeat_def onMessage_def onPersistent_def Let_def
      split: server_frame.split option.split)

lemma gap_onClose: "c_gapTimer s = Spent \<Longrightarrow> c_gapTimer (onClose d env cl s) = Spent"
  by (simp add: onClose_def Let_def)

lemma gap_step:
  assumes "gap_spent s"
  shows "gap_spent (step d ei s)"
proof -
  obtain env i where ei: "ei = (env, i)" by (cases ei)
  have spent: "c_gapTimer s = Spent" using assms by (simp add: gap_spent_def)
  have "c_gapTimer (step d (env, i) s) = Spent"
  proof (cases i)
    case (StoreLoaded wm raw)
    have "c_gapTimer (resume_restore raw s') = c_gapTimer s'" for s'
      by (simp add: resume_restore_def Let_def split: option.split)
    then show ?thesis
      using StoreLoaded spent by (simp add: resume_loaded_def Let_def split: sum.split)
  qed (use spent in \<open>simp_all add: start_def resume_def send_def send_accepted_def typing_def markRead_def send_signal_def
      discardOutbox_def welcome_attached_def microtask_def token_settled_def shared_get_def refresh_def retry_fires_def sync_fires_def
      rest_step_def attach_step_def gap_onFrame gap_onClose Let_def transport_send_def
      split: option.split prod.split list.split rest_wait.split\<close>)
  then show ?thesis by (simp add: gap_spent_def ei)
qed

interpretation gap: preserved "step d" gap_spent for d
  by unfold_locales (rule gap_step)

text \<open>
  C34. Gap detection does not survive a reconnect: when the connection closes while the session waits to
  fill a gap, the field of the gap timer keeps the handle of the cancelled timer, so from then on, for the
  rest of the session and whatever arrives, no missing sequence number arms the timer again.
\<close>

theorem gap_detection_dies:
  assumes "current_transport j s" "c_gapTimer s = Armed dl h"
  shows "c_gapTimer (run (step d) es (step d (env, CloseIn j cl) s)) = Spent
    \<and> checkGap d q (run (step d) es (step d (env, CloseIn j cl) s)) = run (step d) es (step d (env, CloseIn j cl) s)"
proof -
  define s1 where "s1 = endReplay env False (s\<lparr>c_transport := None, c_inFlight := []\<rparr>)"
  have "clear_timeout (c_gapTimer s1) = Spent" using assms(2) by (simp add: s1_def)
  then have "c_gapTimer (onClose d env cl s) = Spent"
    by (simp add: onClose_def Let_def s1_def [symmetric])
  with assms(1) have "gap_spent (step d (env, CloseIn j cl) s)" by (simp add: gap_spent_def)
  then have "gap_spent (run (step d) es (step d (env, CloseIn j cl) s))" by (rule gap.run_good)
  then show ?thesis by (simp add: gap_spent_def)
qed

theorem gap_detection_dies_witness:
  "let s = run (step sample_deps) (sample_inputs (sample_opening @ [FrameIn 1 (Message (sample_activity 3))])) sample_conv;
       s' = run (step sample_deps) (sample_inputs [ReconnectFires, Microtask, FrameIn 2 (Welcome sample_welcome),
              FrameIn 2 (Heartbeat (Some 9))]) (step sample_deps (sample_env, CloseIn 1 (sample_close 1006)) s)
   in c_state s' = Open \<and> c_watermark s' = 0 \<and> c_gapTimer s' = Spent"
proof -
  let ?s = "run (step sample_deps) (sample_inputs (sample_opening @ [FrameIn 1 (Message (sample_activity 3))])) sample_conv"
  have "current_transport 1 ?s" "c_gapTimer ?s = Armed 1500 3" by code_simp+
  note dies = gap_detection_dies [OF this, of sample_deps "sample_inputs [ReconnectFires, Microtask,
      FrameIn 2 (Welcome sample_welcome), FrameIn 2 (Heartbeat (Some 9))]" sample_env "sample_close 1006"]
  have "c_state (run (step sample_deps) (sample_inputs [ReconnectFires, Microtask, FrameIn 2 (Welcome sample_welcome),
      FrameIn 2 (Heartbeat (Some 9))]) (step sample_deps (sample_env, CloseIn 1 (sample_close 1006)) ?s)) = Open"
    "c_watermark (run (step sample_deps) (sample_inputs [ReconnectFires, Microtask, FrameIn 2 (Welcome sample_welcome),
      FrameIn 2 (Heartbeat (Some 9))]) (step sample_deps (sample_env, CloseIn 1 (sample_close 1006)) ?s)) = 0"
    by code_simp+
  with dies show ?thesis by (simp only: Let_def)
qed

section \<open>The retry timer\<close>

text \<open>
  The retry timer spins: when the retry time of a send has passed but nothing can be sent (the
  session is not open, or a replay runs), firing the timer changes nothing except that it arms the timer
  again with a delay of 0, so the callback runs over and over until something else happens.
\<close>

theorem retry_timer_spins:
  assumes "armed (c_retryTimer s)" "c_state s \<noteq> Open \<or> c_replaying s" "(cid, due) \<in> set (c_retryAt s)" "due \<le> v_now env"
  shows "step d (env, RetryFires) s = s\<lparr>c_retryTimer := Armed 0 ()\<rparr>"
proof -
  have "Min (snd ` set (c_retryAt s)) \<le> due"
    using assms(3) by (intro Min_le) (auto simp: image_iff intro: bexI [of _ "(cid, due)"])
  with assms(4) have past: "max 0 (Min (snd ` set (c_retryAt s)) - v_now env) = 0" by simp
  have "flush env (s\<lparr>c_retryTimer := Unset\<rparr>) = s\<lparr>c_retryTimer := Unset\<rparr>" using assms(2) by (auto simp: flush_def)
  moreover have "c_retryAt s \<noteq> []" using assms(3) by auto
  ultimately show ?thesis
    using assms(1) past by (simp add: armed_def retry_fires_def scheduleRetry_def Let_def)
qed

theorem retry_timer_spins_witness:
  "let s = sample_conv\<lparr>c_retryTimer := Armed 5 (), c_retryAt := [(''m'', 3)]\<rparr>;
       env = sample_env\<lparr>v_now := 10\<rparr>
   in run (step sample_deps) [(env, RetryFires), (env, RetryFires)] s = s\<lparr>c_retryTimer := Armed 0 ()\<rparr>"
proof -
  let ?s = "sample_conv\<lparr>c_retryTimer := Armed 5 (), c_retryAt := [(''m'', 3)]\<rparr>"
  let ?env = "sample_env\<lparr>v_now := 10\<rparr>"
  have "c_state ?s \<noteq> Open \<or> c_replaying ?s" by (simp add: sample_conv_def new_conv_def)
  then show ?thesis
    using retry_timer_spins [of ?s "''m''" 3 ?env sample_deps]
      retry_timer_spins [of "?s\<lparr>c_retryTimer := Armed 0 ()\<rparr>" "''m''" 3 ?env sample_deps]
    by (simp add: Let_def)
qed

section \<open>Own sequence numbers after a reset\<close>



end
