(* ===== verification/Rest_Props.thy ===== *)
theory Rest_Props
  imports Rest
begin

text \<open>
  Properties of the REST helpers: the paths of different conversations differ, whatever the ids
  contain, and the history loop returns the whole log of a server that pages as documented.
\<close>

section \<open>Paths\<close>

lemma upper_hex_inj: "m < 16 \<Longrightarrow> n < 16 \<Longrightarrow> upper_hex m = upper_hex n \<longleftrightarrow> m = n"
  by (auto simp: upper_hex_def dest!: arg_cong [where f = "of_char :: char \<Rightarrow> nat"] split: if_splits)

lemma pct_byte_inj: "m < 256 \<Longrightarrow> n < 256 \<Longrightarrow> pct_byte m = pct_byte n \<longleftrightarrow> m = n"
proof -
  assume "m < 256" "n < 256"
  then have "m div 16 < 16" "n div 16 < 16" by simp_all
  then have "pct_byte m = pct_byte n \<longleftrightarrow> m div 16 = n div 16 \<and> m mod 16 = n mod 16"
    by (simp add: pct_byte_def upper_hex_inj)
  then show ?thesis by (metis div_mult_mod_eq)
qed

lemma length_pct_byte [simp]: "length (pct_byte n) = 3"
  by (simp add: pct_byte_def)

lemma component_not_pct: "\<not> component_char CHR ''%''"
  by code_simp

lemma of_char_less: "(of_char c :: nat) < 256"
  using of_char_mod_256 [of c] by (metis mod_less_divisor zero_less_numeral)

lemma hd_encoded: "\<not> component_char c \<Longrightarrow> \<exists>r. pct_char component_char c = CHR ''%'' # r"
  by (auto simp: pct_char_def utf8_bytes_def pct_byte_def Let_def)

lemma pct_char_nonempty [simp]: "pct_char component_char c \<noteq> []"
proof (cases "component_char c")
  case False
  from hd_encoded [OF this] show ?thesis by auto
qed (simp add: pct_char_def)

lemma pct_byte_append:
  "m < 256 \<Longrightarrow> n < 256 \<Longrightarrow> pct_byte m @ x = pct_byte n @ y \<longleftrightarrow> m = n \<and> x = y"
  by (simp add: append_eq_append_conv pct_byte_inj)

lemma encoded_bytes:
  "\<not> component_char c \<Longrightarrow> pct_char component_char c @ x =
     (let n = of_char c in if n < 128 then pct_byte n @ x else pct_byte (192 + n div 64) @ pct_byte (128 + n mod 64) @ x)"
  by (simp add: pct_char_def utf8_bytes_def Let_def)

lemma encoded_unique:
  assumes "\<not> component_char a" "\<not> component_char b" "pct_char component_char a @ x = pct_char component_char b @ y"
  shows "a = b \<and> x = y"
proof -
  define m n where "m = (of_char a :: nat)" and "n = (of_char b :: nat)"
  have less: "m < 256" "n < 256" by (simp_all add: m_def n_def of_char_less)
  then have div: "m div 64 < 4" "n div 64 < 4" by (auto intro: less_mult_imp_div_less)
  have mod: "m mod 64 < 64" "n mod 64 < 64" by simp_all
  have bytes: "128 + m mod 64 < 256" "128 + n mod 64 < 256" "192 + m div 64 < 256" "192 + n div 64 < 256"
    using div mod by linarith+
  have eq: "(if m < 128 then pct_byte m @ x else pct_byte (192 + m div 64) @ pct_byte (128 + m mod 64) @ x) =
      (if n < 128 then pct_byte n @ y else pct_byte (192 + n div 64) @ pct_byte (128 + n mod 64) @ y)"
    using assms(3) by (simp only: encoded_bytes [OF assms(1)] encoded_bytes [OF assms(2)] m_def n_def Let_def)
  have "m = n \<and> x = y"
  proof (cases "m < 128"; cases "n < 128")
    assume "\<not> m < 128" "\<not> n < 128"
    then have "m div 64 = n div 64 \<and> m mod 64 = n mod 64 \<and> x = y"
      using eq pct_byte_append [OF bytes(3) bytes(4)] pct_byte_append [OF bytes(1) bytes(2), of x y] by simp
    then show ?thesis by (metis div_mult_mod_eq)
  qed (use eq pct_byte_inj [OF less] pct_byte_inj [OF less(1) bytes(4)] pct_byte_inj [OF bytes(3) less(2)] in auto)
  then show ?thesis by (simp add: m_def n_def)
qed

lemma pct_char_unique:
  assumes "pct_char component_char a @ x = pct_char component_char b @ y"
  shows "a = b \<and> x = y"
proof (cases "component_char a"; cases "component_char b")
  assume "component_char a" "\<not> component_char b"
  with assms hd_encoded [of b] component_not_pct show ?thesis by (auto simp: pct_char_def [of _ a])
next
  assume "\<not> component_char a" "component_char b"
  with assms hd_encoded [of a] component_not_pct show ?thesis by (auto simp: pct_char_def [of _ b])
next
  assume "\<not> component_char a" "\<not> component_char b"
  then show ?thesis using assms by (rule encoded_unique)
qed (use assms in \<open>simp add: pct_char_def\<close>)

lemma encodeURIComponent_inj: "encodeURIComponent a = encodeURIComponent b \<longleftrightarrow> a = b"
proof
  assume "encodeURIComponent a = encodeURIComponent b"
  then show "a = b"
  proof (induction a arbitrary: b)
    case Nil
    then show ?case by (cases b) (simp_all add: encodeURIComponent_def)
  next
    case (Cons c a)
    show ?case
    proof (cases b)
      case Nil
      with Cons.prems show ?thesis by (simp add: encodeURIComponent_def)
    next
      case (Cons d b')
      with Cons.prems have "pct_char component_char c @ encodeURIComponent a = pct_char component_char d @ encodeURIComponent b'"
        by (simp add: encodeURIComponent_def)
      from pct_char_unique [OF this] Cons.IH [of b'] Cons show ?thesis by simp
    qed
  qed
qed simp

lemma upper_hex_alnum: "d < 16 \<Longrightarrow> is_alnum (upper_hex d)"
  by (auto simp: upper_hex_def is_alnum_def Let_def)

lemma pct_byte_chars:
  assumes "n < 256" "c \<in> set (pct_byte n)"
  shows "c = CHR ''%'' \<or> is_alnum c"
proof -
  have "n div 16 < 16" using assms(1) by simp
  then show ?thesis
    using assms(2) upper_hex_alnum [of "n div 16"] upper_hex_alnum [of "n mod 16"] by (auto simp: pct_byte_def)
qed

lemma utf8_bytes_less:
  assumes "n \<in> set (utf8_bytes c)"
  shows "n < 256"
proof -
  have "(of_char c :: nat) div 64 < 4" using of_char_less [of c] by (intro less_mult_imp_div_less) simp
  moreover have "(of_char c :: nat) mod 64 < 64" by simp
  ultimately show ?thesis using assms by (auto simp: utf8_bytes_def Let_def split: if_splits)
qed

lemma pct_char_chars:
  assumes "c \<in> set (pct_char component_char d)"
  shows "c = CHR ''%'' \<or> component_char c"
proof (cases "component_char d")
  case True
  with assms show ?thesis by (simp add: pct_char_def)
next
  case False
  with assms obtain n where "n \<in> set (utf8_bytes d)" "c \<in> set (pct_byte n)" by (auto simp: pct_char_def)
  then show ?thesis using pct_byte_chars [OF utf8_bytes_less] by (auto simp: component_char_def)
qed

lemma encoded_chars: "c \<in> set (encodeURIComponent s) \<Longrightarrow> c = CHR ''%'' \<or> component_char c"
  using pct_char_chars by (auto simp: encodeURIComponent_def)

text \<open>
  A conversation id cannot escape its path segment: whatever characters it contains, the encoded id
  has only unreserved characters and percent escapes (no slash, question mark, ampersand or hash), and
  different ids address different conversations.
\<close>

theorem conversation_paths_distinct:
  "(conversation_path a = conversation_path b \<longleftrightarrow> a = b)
   \<and> set (encodeURIComponent a) \<inter> set ''/?&#'' = {}"
proof -
  have "c \<notin> set (encodeURIComponent a)" if "c \<in> set ''/?&#''" for c
  proof
    assume "c \<in> set (encodeURIComponent a)"
    then have "c = CHR ''%'' \<or> component_char c" by (rule encoded_chars)
    moreover have "list_all (\<lambda>c. c \<noteq> CHR ''%'' \<and> \<not> component_char c) ''/?&#''" by code_simp
    ultimately show False using that by (auto simp: list_all_iff)
  qed
  then show ?thesis by (auto simp: conversation_path_def encodeURIComponent_inj)
qed

section \<open>History\<close>

text \<open>
  A server that pages through a log as documented: the page after position \<open>w\<close> holds the next
  \<open>psize w\<close> activities, its watermark is the position of its last activity, and \<open>has_more\<close> tells
  whether some remain. Without a watermark the page starts at the beginning.
\<close>

definition page_json :: "json list \<Rightarrow> (nat \<Rightarrow> nat) \<Rightarrow> nat \<Rightarrow> json" where
  "page_json acts psize w =
     (let n = min (w + psize w) (length acts) in
      JObj [(''activities'', JArr (take (psize w) (drop w acts))), (''watermark'', JNum (of_nat n)),
            (''has_more'', JBool (n < length acts))])"

definition page_response :: "json list \<Rightarrow> (nat \<Rightarrow> nat) \<Rightarrow> nat \<Rightarrow> http_response" where
  "page_response acts psize w = \<lparr>rp_status = 200, rp_text = JSON_stringify (page_json acts psize w), rp_retryAfter = None\<rparr>"

definition page_request :: "rest_client \<Rightarrow> string \<Rightarrow> nat option \<Rightarrow> string \<Rightarrow> json option \<Rightarrow> http_request" where
  "page_request c cid limit token watermark = call_request c ''GET'' (activities_path cid watermark limit) no_init token"

definition serves_log :: "rest_client \<Rightarrow> string \<Rightarrow> nat option \<Rightarrow> string \<Rightarrow> json list \<Rightarrow> (nat \<Rightarrow> nat) \<Rightarrow> bool" where
  "serves_log c cid limit token acts psize \<longleftrightarrow>
     rc_fetch c (page_request c cid limit token None) = Inr (page_response acts psize 0)
     \<and> (\<forall>w \<le> length acts. rc_fetch c (page_request c cid limit token (Some (JNum (of_nat w)))) = Inr (page_response acts psize w))"

definition page_of :: "json list \<Rightarrow> (nat \<Rightarrow> nat) \<Rightarrow> nat \<Rightarrow> activity_set" where
  "page_of acts psize w =
     (let n = min (w + psize w) (length acts) in
      \<lparr>as_activities = take (psize w) (drop w acts), as_watermark = Some (JNum (of_nat n)), as_has_more = (n < length acts)\<rparr>)"

lemma read_page:
  assumes "\<forall>a \<in> set acts. json_ok a"
  shows "rp_ok (page_response acts psize w)" "set_of_json (readBody (page_response acts psize w)) = page_of acts psize w"
proof -
  let ?n = "min (w + psize w) (length acts)"
  have "json_ok (page_json acts psize w)"
    using assms is_integer_of_int [of "int ?n"]
    by (auto simp: page_json_def Let_def dest: in_set_takeD in_set_dropD simp del: is_integer_of_int)
  then have "JSON_parse (JSON_stringify (page_json acts psize w)) = Some (page_json acts psize w)" by (rule JSON_parse_stringify)
  moreover from this have "JSON_stringify (page_json acts psize w) \<noteq> []" by (auto simp: JSON_parse_def)
  ultimately show "set_of_json (readBody (page_response acts psize w)) = page_of acts psize w"
    by (simp add: readBody_def page_response_def page_json_def set_of_json_def page_of_def Let_def)
  show "rp_ok (page_response acts psize w)" by (simp add: rp_ok_def page_response_def)
qed

lemma list_page:
  assumes "serves_log c cid limit token acts psize" "rc_getToken c = Inr token" "\<forall>a \<in> set acts. json_ok a"
  shows "listActivities c cid None limit = Inr (page_of acts psize 0)"
    "w \<le> length acts \<Longrightarrow> listActivities c cid (Some (JNum (of_nat w))) limit = Inr (page_of acts psize w)"
  using assms read_page [OF assms(3), of psize]
  by (simp_all add: listActivities_def rest_call_def rest_request_def serves_log_def page_request_def no_init_def Let_def)

lemma page_last: "last_page (page_of acts psize w) \<longleftrightarrow> length acts \<le> w + psize w \<or> psize w = 0"
  by (auto simp: last_page_def page_of_def Let_def)

text \<open>One page and the history after it, from a page that has been fetched.\<close>

lemma history_page:
  assumes "listActivities c cid wm limit = Inr (page_of acts psize w)" "0 < psize w" "w \<le> length acts"
    and "w + psize w < length acts \<Longrightarrow> \<exists>pages. history c cid limit (Some (JNum (of_nat (w + psize w)))) = Some (pages, None)
      \<and> concat (map as_activities pages) = drop (w + psize w) acts"
  shows "\<exists>pages. history c cid limit wm = Some (pages, None) \<and> concat (map as_activities pages) = drop w acts"
proof (cases "length acts \<le> w + psize w")
  case True
  then have "history c cid limit wm = Some ([page_of acts psize w], None)"
    using assms(1) by (subst history.simps) (simp add: page_last)
  then show ?thesis using True by (simp add: page_of_def Let_def)
next
  case False
  then have wm: "as_watermark (page_of acts psize w) = Some (JNum (of_nat (w + psize w)))"
    by (simp add: page_of_def Let_def)
  from False assms(4) obtain pages where pages: "history c cid limit (Some (JNum (of_nat (w + psize w)))) = Some (pages, None)"
    "concat (map as_activities pages) = drop (w + psize w) acts" by auto
  have "history c cid limit wm = Some (page_of acts psize w # pages, None)"
    using assms(1, 2) False pages(1) by (subst history.simps) (simp add: page_last wm del: of_nat_add)
  moreover have "take (psize w) (drop w acts) @ drop (w + psize w) acts = drop w acts"
    by (metis append_take_drop_id drop_drop add.commute)
  ultimately show ?thesis using pages(2) by (auto simp: page_of_def Let_def)
qed

lemma history_from:
  assumes "serves_log c cid limit token acts psize" "rc_getToken c = Inr token" "\<forall>a \<in> set acts. json_ok a" "\<And>w. 0 < psize w"
  shows "w \<le> length acts \<Longrightarrow> \<exists>pages. history c cid limit (Some (JNum (of_nat w))) = Some (pages, None)
    \<and> concat (map as_activities pages) = drop w acts"
proof (induction "length acts - w" arbitrary: w rule: less_induct)
  case less
  show ?case
  proof (rule history_page [OF list_page(2) [OF assms(1-3) less.prems] assms(4) less.prems])
    assume more: "w + psize w < length acts"
    with assms(4) [of w] have "length acts - (w + psize w) < length acts - w" by linarith
    then show "\<exists>pages. history c cid limit (Some (JNum (of_nat (w + psize w)))) = Some (pages, None)
        \<and> concat (map as_activities pages) = drop (w + psize w) acts"
      using more by (intro less.hyps) simp_all
  qed
qed

text \<open>
  C22. Paging through the history ends and loses nothing: against a server that pages through its log as
  documented, with pages of any positive size, collecting the history from position \<open>w\<close> returns
  exactly the activities after \<open>w\<close>, in order and each once, and without a watermark the whole log.
\<close>

theorem history_complete:
  assumes "serves_log c cid limit token acts psize" "rc_getToken c = Inr token" "\<forall>a \<in> set acts. json_ok a"
    and "\<And>w. 0 < psize w" "w \<le> length acts"
  shows "allActivities c cid limit (Some (JNum (of_nat w))) = Some (Inr (drop w acts))
    \<and> allActivities c cid limit None = Some (Inr acts)"
proof -
  have "\<exists>pages. history c cid limit None = Some (pages, None) \<and> concat (map as_activities pages) = drop 0 acts"
    using history_from [OF assms(1-4)] by (intro history_page [OF list_page(1) [OF assms(1-3)] assms(4)]) auto
  then show ?thesis using history_from [OF assms(1-5)] by (auto simp: allActivities_def)
qed

text \<open>A server with a log of three activities and pages of two.\<close>

definition sample_acts :: "json list" where
  "sample_acts = [JObj [(''id'', JStr ''a'')], JObj [(''id'', JStr ''b'')], JObj [(''id'', JStr ''c'')]]"

definition sample_fetch :: fetch_like where
  "sample_fetch rq =
     (let path = ''http://h/api/v1/converger/conversations/c/activities'' in
      if rq_url rq = path \<or> rq_url rq = path @ ''?watermark=0'' then Inr (page_response sample_acts (\<lambda>_. 2) 0)
      else if rq_url rq = path @ ''?watermark=1'' then Inr (page_response sample_acts (\<lambda>_. 2) 1)
      else if rq_url rq = path @ ''?watermark=2'' then Inr (page_response sample_acts (\<lambda>_. 2) 2)
      else if rq_url rq = path @ ''?watermark=3'' then Inr (page_response sample_acts (\<lambda>_. 2) 3)
      else Inl ())"

definition sample_rest :: rest_client where
  "sample_rest = \<lparr>rc_baseUrl = ''http://h'', rc_getToken = Inr ''t'', rc_fetch = sample_fetch,
     rc_env = \<lparr>re_date_parse = (\<lambda>_. None), re_now = 0\<rparr>\<rparr>"

lemma sample_serves: "serves_log sample_rest ''c'' None ''t'' sample_acts (\<lambda>_. 2)"
proof -
  have req: "rq_url (page_request sample_rest ''c'' None ''t'' None) = ''http://h/api/v1/converger/conversations/c/activities''"
    "rq_url (page_request sample_rest ''c'' None ''t'' (Some (JNum (of_nat 0)))) = ''http://h/api/v1/converger/conversations/c/activities?watermark=0''"
    "rq_url (page_request sample_rest ''c'' None ''t'' (Some (JNum (of_nat 1)))) = ''http://h/api/v1/converger/conversations/c/activities?watermark=1''"
    "rq_url (page_request sample_rest ''c'' None ''t'' (Some (JNum (of_nat 2)))) = ''http://h/api/v1/converger/conversations/c/activities?watermark=2''"
    "rq_url (page_request sample_rest ''c'' None ''t'' (Some (JNum (of_nat 3)))) = ''http://h/api/v1/converger/conversations/c/activities?watermark=3''"
    by code_simp+
  have fetch: "rc_fetch sample_rest = sample_fetch" by (simp add: sample_rest_def)
  have "rc_fetch sample_rest (page_request sample_rest ''c'' None ''t'' (Some (JNum (of_nat w)))) = Inr (page_response sample_acts (\<lambda>_. 2) w)"
    if "w \<le> 3" for w
  proof -
    from that consider "w = 0" | "w = 1" | "w = 2" | "w = 3" by linarith
    then show ?thesis by cases (simp_all only: fetch sample_fetch_def req Let_def list.inject list.distinct append.simps char.inject simp_thms if_True if_False)
  qed
  moreover have "length sample_acts = 3" by (simp add: sample_acts_def)
  moreover have "sample_fetch (page_request sample_rest ''c'' None ''t'' None) = Inr (page_response sample_acts (\<lambda>_. 2) 0)"
    by (simp only: sample_fetch_def req Let_def simp_thms if_True)
  ultimately show ?thesis by (simp add: serves_log_def fetch)
qed

theorem history_complete_witness:
  "allActivities sample_rest ''c'' None (Some (JNum (of_nat 1))) = Some (Inr (drop 1 sample_acts))"
proof -
  have "rc_getToken sample_rest = Inr ''t''" "\<forall>a \<in> set sample_acts. json_ok a" "(1::nat) \<le> length sample_acts" by code_simp+
  from history_complete [OF sample_serves this(1, 2) _ this(3)] show ?thesis by simp
qed

end
