(* ===== verification/Native.thy ===== *)
theory Native
  imports Transport
begin

text \<open>
  The native WebSocket transport, \<open>packages/client-ts/src/transport/native.ts\<close>. The fields of
  \<open>NativeTransport\<close> are the record \<open>native\<close>; \<open>n_attached\<close> says that the socket's event handlers are
  set, \<open>n_failing\<close> holds the message of the microtask that reports a failed constructor. \<open>connect\<close> is
  called once per transport. What the session does from inside a handler runs after the step that
  called it.
\<close>

section \<open>State and operations\<close>

definition CLIENT_IDLE_CLOSE :: int where "CLIENT_IDLE_CLOSE = 4000"

record native_options =
  no_path :: "string option"
  no_livenessGraceMs :: "jsnum option"
  no_connectTimeoutMs :: "jsnum option"

record native =
  n_path :: string
  n_graceMs :: jsnum
  n_connectTimeoutMs :: jsnum
  n_connectTimer :: "unit timer"
  n_socket :: bool
  n_attached :: bool
  n_failing :: "string option"
  n_handlers :: bool
  n_params :: "connect_params option"
  n_opened :: bool
  n_closed :: bool
  n_timer :: "unit timer"
  n_idleTimeoutMs :: jsnum
  n_lastIn :: jsnum
  n_lastOut :: jsnum
  n_pings :: nat
  n_retryAfterMs :: "jsnum option"
  n_out :: "t_effect list"

definition native_caps :: transport_caps where
  "native_caps = \<lparr>cap_auth = True, cap_sync = True, cap_signals = True, cap_requiresConversationId = False\<rparr>"

definition new_native :: "native_options \<Rightarrow> native" where
  "new_native o' =
     \<lparr>n_path = (case no_path o' of Some p \<Rightarrow> p | None \<Rightarrow> ''/socket/converger/v1''),
      n_graceMs = (case no_livenessGraceMs o' of Some g \<Rightarrow> g | None \<Rightarrow> 15000),
      n_connectTimeoutMs = (case no_connectTimeoutMs o' of Some g \<Rightarrow> g | None \<Rightarrow> 15000),
      n_connectTimer = Unset, n_socket = False, n_attached = False, n_failing = None,
      n_handlers = False, n_params = None, n_opened = False, n_closed = False, n_timer = Unset,
      n_idleTimeoutMs = 60000, n_lastIn = 0, n_lastOut = 0, n_pings = 0, n_retryAfterMs = None,
      n_out = []\<rparr>"

definition n_perform :: "t_effect \<Rightarrow> native \<Rightarrow> native" where
  "n_perform e s = s\<lparr>n_out := n_out s @ [e]\<rparr>"

definition native_finish :: "int \<Rightarrow> string \<Rightarrow> native \<Rightarrow> native" where
  "native_finish code reason s =
     (if n_closed s then s
      else
        (let s1 = s\<lparr>n_closed := True, n_timer := clear_timeout (n_timer s),
                    n_connectTimer := clear_timeout (n_connectTimer s), n_attached := False\<rparr>;
             close = \<lparr>tc_code = code, tc_reason = reason,
                      tc_retryAfterMs = or_else (retryAfterFromReason reason) (n_retryAfterMs s),
                      tc_opened = n_opened s\<rparr>
         in if n_handlers s then n_perform (OnClose close) s1 else s1))"

definition native_close :: "int \<Rightarrow> string \<Rightarrow> native \<Rightarrow> native" where
  "native_close code reason s =
     (let s1 = native_finish code reason s in
      if n_socket s \<and> \<not> n_closed s then n_perform (SocketClose code reason) s1 else s1)"

definition native_send :: "tenv \<Rightarrow> client_frame \<Rightarrow> native \<Rightarrow> bool \<times> native" where
  "native_send env frame s =
     (if \<not> n_socket s \<or> \<not> te_ready env then (False, s)
      else if \<not> te_sends env then (False, s)
      else (True, (n_perform (SocketSend (JSON_stringify (client_frame_json frame))) s)\<lparr>n_lastOut := te_now env\<rparr>))"

text \<open>\<open>connect\<close>; without a WebSocket implementation it throws, which the result tells.\<close>

definition native_url :: "connect_params \<Rightarrow> native \<Rightarrow> string" where
  "native_url p s =
     toWebSocketUrl (p_baseUrl p) @ n_path s
       @ query_suffix (if truthy (p_conversationId p) then [(''conversationId'', the (p_conversationId p))] else [])"

definition native_connect :: "ws_result \<Rightarrow> connect_params \<Rightarrow> native \<Rightarrow> string + native" where
  "native_connect ws p s =
     (case ws of
        NoWebSocket \<Rightarrow> Inl no_websocket_message
      | WsThrows msg \<Rightarrow> Inr (s\<lparr>n_handlers := True, n_failing := Some msg\<rparr>)
      | WsCreated \<Rightarrow>
          Inr ((n_perform (SocketNew (native_url p s) [SUBPROTOCOL]) s)
                 \<lparr>n_handlers := True, n_socket := True, n_attached := True, n_params := Some p,
                  n_connectTimer := Armed (n_connectTimeoutMs s) ()\<rparr>))"

text \<open>\<open>socket.onopen\<close> with the connection parameters it captured.\<close>

definition hello_of :: "connect_params \<Rightarrow> hello_frame" where
  "hello_of p =
     \<lparr>h_protocol = PROTOCOL_VERSION,
      h_conversationId = (if truthy (p_conversationId p) then p_conversationId p else None),
      h_userId = (if truthy (p_userId p) then p_userId p else None),
      h_watermark = p_watermark p, h_token = Some (p_token p)\<rparr>"

definition native_onopen :: "tenv \<Rightarrow> connect_params \<Rightarrow> native \<Rightarrow> native" where
  "native_onopen env p s =
     (let s1 = snd (native_send env (Hello (hello_of p)) (s\<lparr>n_opened := True, n_lastIn := te_now env\<rparr>))
      in n_perform OnOpen (s1\<lparr>n_timer := Armed 1000 ()\<rparr>))"

text \<open>\<open>socket.onmessage\<close>; \<open>None\<close> is a binary message.\<close>

definition native_welcome :: "welcome_data \<Rightarrow> native \<Rightarrow> native" where
  "native_welcome w s =
     (let s1 = s\<lparr>n_connectTimer := clear_timeout (n_connectTimer s)\<rparr> in
      case as_num (ofield (w_limits w) ''idleTimeoutMs'') of
        Some idle \<Rightarrow> if idle > 0 then s1\<lparr>n_idleTimeoutMs := idle\<rparr> else s1
      | None \<Rightarrow> s1)"

definition native_frame :: "server_frame \<Rightarrow> native \<Rightarrow> native" where
  "native_frame f s =
     (let s1 = (case f of
                  Welcome w \<Rightarrow> native_welcome w s
                | Error e \<Rightarrow> (case ed_retryAfterMs e of Some r \<Rightarrow> s\<lparr>n_retryAfterMs := Some r\<rparr> | None \<Rightarrow> s)
                | _ \<Rightarrow> s)
      in n_perform (OnFrame f) s1)"

text \<open>
  A \<open>welcome\<close> or \<open>error\<close> without \<open>data\<close> makes the handler throw before it reports the frame.
\<close>

definition native_onmessage :: "tenv \<Rightarrow> string option \<Rightarrow> native \<Rightarrow> native" where
  "native_onmessage env data s =
     (let s1 = s\<lparr>n_lastIn := te_now env\<rparr> in
      case data of
        None \<Rightarrow> s1
      | Some text \<Rightarrow>
          (case typed_object text of
             None \<Rightarrow> s1
           | Some (t, j) \<Rightarrow>
               if t = ''welcome'' \<and> \<not> has_data j then s1\<lparr>n_connectTimer := clear_timeout (n_connectTimer s1)\<rparr>
               else if t = ''error'' \<and> \<not> has_data j then s1
               else native_frame (frame_of_json t j) s1))"

definition native_tick :: "tenv \<Rightarrow> native \<Rightarrow> native" where
  "native_tick env s =
     (if te_now env - n_lastIn s > n_idleTimeoutMs s + n_graceMs s
      then native_close CLIENT_IDLE_CLOSE ''server silent'' s
      else if te_now env - n_lastOut s \<ge> n_idleTimeoutMs s / 2
      then (let s1 = s\<lparr>n_pings := Suc (n_pings s)\<rparr>
            in snd (native_send env (Ping (Some (''p-'' @ nat_str (n_pings s1)))) s1))
      else s)"

definition nativeTransport :: factory where
  "nativeTransport = \<lparr>f_transportName = Some ''native'', f_name = ''native'', f_caps = native_caps\<rparr>"

section \<open>Runs\<close>

text \<open>
  A callback runs only when it is registered: socket events while the handlers are attached (a socket
  reports \<open>open\<close> once and messages only after it), timers while they are armed. A thrown
  \<open>requireWebSocket\<close> leaves the transport as it was, except that its handlers are set.
\<close>

datatype native_input =
    NConnect ws_result connect_params
  | NFailed
  | NOpen
  | NMessage "string option"
  | NSocketClose int string
  | NTick
  | NConnectTimeout
  | NSend client_frame
  | NClose int string

fun native_step :: "tenv \<times> native_input \<Rightarrow> native \<Rightarrow> native" where
  "native_step (env, NConnect ws p) s =
     (if n_handlers s then s
      else (case native_connect ws p s of Inr s' \<Rightarrow> s' | Inl _ \<Rightarrow> s\<lparr>n_handlers := True\<rparr>))"
| "native_step (env, NFailed) s =
     (case n_failing s of Some msg \<Rightarrow> native_finish 1006 msg (s\<lparr>n_failing := None\<rparr>) | None \<Rightarrow> s)"
| "native_step (env, NOpen) s =
     (if n_attached s \<and> \<not> n_opened s then (case n_params s of Some p \<Rightarrow> native_onopen env p s | None \<Rightarrow> s) else s)"
| "native_step (env, NMessage data) s = (if n_attached s \<and> n_opened s then native_onmessage env data s else s)"
| "native_step (env, NSocketClose code reason) s = (if n_attached s then native_finish code reason s else s)"
| "native_step (env, NTick) s = (case n_timer s of Armed _ _ \<Rightarrow> native_tick env s | _ \<Rightarrow> s)"
| "native_step (env, NConnectTimeout) s =
     (case n_connectTimer s of
        Armed _ _ \<Rightarrow> native_close CLIENT_IDLE_CLOSE ''connect timeout'' (s\<lparr>n_connectTimer := Spent\<rparr>)
      | _ \<Rightarrow> s)"
| "native_step (env, NSend f) s = snd (native_send env f s)"
| "native_step (env, NClose code reason) s = native_close code reason s"

section \<open>Invariants\<close>

lemmas native_defs = native_finish_def native_close_def native_send_def native_connect_def native_onopen_def
  native_onmessage_def native_frame_def native_welcome_def native_tick_def n_perform_def Let_def

lemma native_finish_facts [simp]:
  "n_closed (native_finish c r s)"
  "n_handlers (native_finish c r s) = n_handlers s"
  "closes (n_out (native_finish c r s)) = closes (n_out s) + (if n_handlers s \<and> \<not> n_closed s then 1 else 0)"
  by (auto simp: native_defs)

lemma native_close_facts [simp]:
  "n_closed (native_close c r s)"
  "n_handlers (native_close c r s) = n_handlers s"
  "closes (n_out (native_close c r s)) = closes (n_out s) + (if n_handlers s \<and> \<not> n_closed s then 1 else 0)"
  by (auto simp: native_close_def n_perform_def Let_def)

lemma native_send_facts [simp]:
  "n_closed (snd (native_send env f s)) = n_closed s"
  "n_handlers (snd (native_send env f s)) = n_handlers s"
  "n_attached (snd (native_send env f s)) = n_attached s"
  "n_opened (snd (native_send env f s)) = n_opened s"
  "n_socket (snd (native_send env f s)) = n_socket s"
  "n_failing (snd (native_send env f s)) = n_failing s"
  "n_timer (snd (native_send env f s)) = n_timer s"
  "n_connectTimer (snd (native_send env f s)) = n_connectTimer s"
  "n_idleTimeoutMs (snd (native_send env f s)) = n_idleTimeoutMs s"
  "n_graceMs (snd (native_send env f s)) = n_graceMs s"
  "n_params (snd (native_send env f s)) = n_params s"
  "closes (n_out (snd (native_send env f s))) = closes (n_out s)"
  by (auto simp: native_send_def n_perform_def)

lemma native_frame_facts [simp]:
  "n_closed (native_frame f s) = n_closed s"
  "n_handlers (native_frame f s) = n_handlers s"
  "n_attached (native_frame f s) = n_attached s"
  "n_opened (native_frame f s) = n_opened s"
  "n_socket (native_frame f s) = n_socket s"
  "n_failing (native_frame f s) = n_failing s"
  "n_timer (native_frame f s) = n_timer s"
  "closes (n_out (native_frame f s)) = closes (n_out s)"
  by (auto simp: native_frame_def native_welcome_def n_perform_def Let_def split: server_frame.split option.split)

lemma native_onmessage_facts [simp]:
  "n_closed (native_onmessage env data s) = n_closed s"
  "n_handlers (native_onmessage env data s) = n_handlers s"
  "n_attached (native_onmessage env data s) = n_attached s"
  "n_opened (native_onmessage env data s) = n_opened s"
  "n_socket (native_onmessage env data s) = n_socket s"
  "n_failing (native_onmessage env data s) = n_failing s"
  "n_timer (native_onmessage env data s) = n_timer s"
  "closes (n_out (native_onmessage env data s)) = closes (n_out s)"
  by (auto simp: native_onmessage_def Let_def split: option.split)

lemma native_onopen_facts [simp]:
  "n_closed (native_onopen env p s) = n_closed s"
  "n_handlers (native_onopen env p s) = n_handlers s"
  "n_attached (native_onopen env p s) = n_attached s"
  "n_opened (native_onopen env p s)"
  "n_socket (native_onopen env p s) = n_socket s"
  "n_failing (native_onopen env p s) = n_failing s"
  "n_timer (native_onopen env p s) = Armed 1000 ()"
  "closes (n_out (native_onopen env p s)) = closes (n_out s)"
  by (auto simp: native_onopen_def n_perform_def Let_def)

lemma native_tick_facts:
  "n_handlers (native_tick env s) = n_handlers s"
  "n_closed s \<Longrightarrow> n_closed (native_tick env s)"
  "closes (n_out (native_tick env s)) =
     closes (n_out s) + (if n_handlers s \<and> n_closed (native_tick env s) \<and> \<not> n_closed s then 1 else 0)"
  by (auto simp: native_tick_def Let_def)

lemma native_step_closes:
  "closes (n_out (native_step i s)) =
     closes (n_out s) + (if n_handlers (native_step i s) \<and> n_closed (native_step i s) \<and> \<not> n_closed s then 1 else 0)"
  using native_tick_facts
  by (cases "(i, s)" rule: native_step.cases)
     (auto simp: native_connect_def n_perform_def split: option.split timer.split ws_result.split)

lemma native_step_mono:
  "n_closed s \<Longrightarrow> n_closed (native_step i s)" "n_handlers s \<Longrightarrow> n_handlers (native_step i s)"
  using native_tick_facts
  by (cases "(i, s)" rule: native_step.cases;
      auto simp: native_connect_def n_perform_def split: option.split timer.split ws_result.split)+

interpretation native: transport_contract native_step n_handlers n_closed n_out "\<lambda>s. \<exists>opts. s = new_native opts"
  by unfold_locales (auto simp: new_native_def native_step_closes native_step_mono)

text \<open>
  A connection attempt in progress always has something that ends it: the pending report of a failed
  constructor, the connect timer, or, once open, the interval that watches for silence.
\<close>

definition native_live :: "native \<Rightarrow> bool" where
  "native_live s \<longleftrightarrow> n_handlers s \<and> (n_closed s \<or> n_failing s \<noteq> None
     \<or> (if n_opened s then n_timer s = Armed 1000 () else n_connectTimer s = Armed (n_connectTimeoutMs s) ()))"

lemma native_send_timeout [simp]:
  "n_connectTimeoutMs (snd (native_send env f s)) = n_connectTimeoutMs s"
  by (simp add: native_send_def n_perform_def)

lemma native_onopen_timers [simp]:
  "n_connectTimer (native_onopen env p s) = n_connectTimer s"
  "n_connectTimeoutMs (native_onopen env p s) = n_connectTimeoutMs s"
  by (auto simp: native_onopen_def n_perform_def Let_def)

lemma native_live_tick: "native_live s \<Longrightarrow> native_live (native_tick env s)"
  by (auto simp: native_live_def native_tick_def Let_def split: if_splits)

lemma native_live_step: "native_live s \<Longrightarrow> native_live (native_step i s)"
proof (cases "(i, s)" rule: native_step.cases)
  case (6 env s')
  assume "native_live s"
  then show ?thesis using 6 native_live_tick [of s env] by (auto split: timer.split)
qed (auto simp: native_live_def split: option.split timer.split if_splits)

interpretation native_live: preserved native_step native_live
  by unfold_locales (rule native_live_step)

lemma native_live_connect:
  "ws \<noteq> NoWebSocket \<Longrightarrow> native_live (native_step (env, NConnect ws p) (new_native opts))"
  by (cases ws) (simp_all add: native_live_def new_native_def native_connect_def n_perform_def)

text \<open>The idle timeout stays positive, whatever \<open>welcome\<close> says.\<close>

definition native_idle_ok :: "native \<Rightarrow> bool" where
  "native_idle_ok s \<longleftrightarrow> 0 < n_idleTimeoutMs s"

lemma native_idle_finish [simp]:
  "n_idleTimeoutMs (native_finish c r s) = n_idleTimeoutMs s" "n_idleTimeoutMs (native_close c r s) = n_idleTimeoutMs s"
  by (simp_all add: native_defs)

lemma native_idle_frame: "0 < n_idleTimeoutMs s \<Longrightarrow> 0 < n_idleTimeoutMs (native_frame f s)"
  by (auto simp: native_frame_def native_welcome_def n_perform_def Let_def split: server_frame.split option.split)

lemma native_idle_step: "native_idle_ok s \<Longrightarrow> native_idle_ok (native_step i s)"
  using native_idle_frame
  by (cases "(i, s)" rule: native_step.cases)
     (auto simp: native_idle_ok_def native_connect_def native_onopen_def native_onmessage_def native_tick_def n_perform_def Let_def
       split: option.split timer.split ws_result.split)

interpretation native_idle: preserved native_step native_idle_ok
  by unfold_locales (rule native_idle_step)

lemma native_idle_new: "native_idle_ok (new_native opts)"
  by (simp add: native_idle_ok_def new_native_def)

section \<open>Properties\<close>

definition sample_native_options :: native_options where
  "sample_native_options = \<lparr>no_path = None, no_livenessGraceMs = None, no_connectTimeoutMs = None\<rparr>"

text \<open>
  A connection attempt of the native transport cannot hang: in whatever way the socket behaves after
  \<open>connect\<close>, an attempt that has not ended is ended by the pending report of its failed constructor, by
  its connect timer, or, once open, by the first tick after the server was silent for the idle timeout
  and the grace period.
\<close>

theorem native_attempt_ends:
  assumes "ws \<noteq> NoWebSocket" "s = run native_step is (native_step (env, NConnect ws p) (new_native opts))" "\<not> n_closed s"
  shows "n_closed (native_step (env', NFailed) s) \<or> n_closed (native_step (env', NConnectTimeout) s)
    \<or> (\<forall>e. te_now e > n_lastIn s + n_idleTimeoutMs s + n_graceMs s \<longrightarrow> n_closed (native_step (e, NTick) s))"
proof -
  have "native_live s" unfolding assms(2) using assms(1) by (intro native_live.run_good native_live_connect)
  with assms(3) show ?thesis by (auto simp: native_live_def native_tick_def split: if_splits)
qed

theorem native_attempt_ends_witness:
  "let s = run native_step [(sample_tenv 10, NOpen)] (native_step (sample_tenv 5, NConnect WsCreated sample_params) (new_native sample_native_options))
   in n_closed (native_step (sample_tenv 90000, NFailed) s) \<or> n_closed (native_step (sample_tenv 90000, NConnectTimeout) s)
      \<or> n_closed (native_step (sample_tenv 90000, NTick) s)"
proof -
  let ?s = "run native_step [(sample_tenv 10, NOpen)] (native_step (sample_tenv 5, NConnect WsCreated sample_params) (new_native sample_native_options))"
  have late: "te_now (sample_tenv 90000) > n_lastIn ?s + n_idleTimeoutMs ?s + n_graceMs ?s" by code_simp
  have "WsCreated \<noteq> NoWebSocket" "\<not> n_closed ?s" by code_simp+
  from native_attempt_ends [OF this(1) refl this(2)] late show ?thesis unfolding Let_def by blast
qed

text \<open>
  The native transport keeps its connection alive: after each tick of its interval on a connection
  that accepts messages, either the connection was closed as silent, or the client's own silence is
  shorter than half of the idle timeout the server announced.
\<close>

theorem native_keepalive:
  assumes "s = run native_step is (new_native opts)" "n_timer s = Armed d ()" "n_socket s" "te_ready env" "te_sends env"
  shows "let s' = native_step (env, NTick) s in n_closed s' \<or> te_now env - n_lastOut s' < n_idleTimeoutMs s' / 2"
proof -
  have "native_idle_ok s" unfolding assms(1) by (intro native_idle.run_good native_idle_new)
  with assms(2-5) show ?thesis by (simp add: native_idle_ok_def native_tick_def native_send_def n_perform_def Let_def)
qed

theorem native_keepalive_witness:
  "let s = run native_step [(sample_tenv 5, NConnect WsCreated sample_params), (sample_tenv 10, NOpen)] (new_native sample_native_options);
       s' = native_step (sample_tenv 40000, NTick) s
   in n_closed s' \<or> 40000 - n_lastOut s' < n_idleTimeoutMs s' / 2"
proof -
  let ?s = "run native_step [(sample_tenv 5, NConnect WsCreated sample_params), (sample_tenv 10, NOpen)] (new_native sample_native_options)"
  have "n_timer ?s = Armed 1000 ()" "n_socket ?s" "te_ready (sample_tenv 40000)" "te_sends (sample_tenv 40000)" by code_simp+
  from native_keepalive [OF refl this] show ?thesis by (simp only: Let_def sample_tenv_def tenv.simps)
qed

lemma native_stuck:
  assumes "n_failing s = None" "\<not> n_attached s" "n_timer s = Unset" "n_connectTimer s = Unset" "\<not> n_socket s" "n_handlers s" "\<nexists>c r. snd i = NClose c r"
  shows "native_step i s = s"
  using assms by (cases "(i, s)" rule: native_step.cases) (auto simp: native_send_def)

text \<open>
  Without a WebSocket implementation the attempt never ends: \<open>connect\<close> throws instead of reporting a
  failed attempt, and unless the caller closes the transport, no later input makes it report a close.
\<close>

theorem native_without_websocket:
  assumes "\<And>i. i \<in> set is \<Longrightarrow> \<nexists>c r. snd i = NClose c r"
  shows "closes (n_out (run native_step is (native_step (env, NConnect NoWebSocket p) (new_native opts)))) = 0"
proof -
  let ?s = "native_step (env, NConnect NoWebSocket p) (new_native opts)"
  have "run native_step is ?s = ?s"
    using assms
  proof (induction "is")
    case (Cons i "is")
    then have "native_step i ?s = ?s" by (intro native_stuck) (simp_all add: native_connect_def new_native_def)
    with Cons show ?case by simp
  qed simp
  then show ?thesis by (simp add: native_connect_def new_native_def)
qed

theorem native_without_websocket_witness:
  "closes (n_out (run native_step [(sample_tenv 20000, NConnectTimeout), (sample_tenv 90000, NTick)]
     (native_step (sample_tenv 5, NConnect NoWebSocket sample_params) (new_native sample_native_options)))) = 0"
  by (rule native_without_websocket) auto

end
