(* ===== verification/Phoenix.thy ===== *)
theory Phoenix
  imports Rest
begin

text \<open>
  The Phoenix Channels transport, \<open>packages/client-ts/src/transport/phoenix.ts\<close>: the mapping of REST
  activities to v1 frames and the class \<open>PhoenixTransport\<close> as the record \<open>phoenix\<close>. As in the native
  transport, \<open>x_attached\<close> says that the socket's handlers are set and \<open>x_failing\<close> holds the report
  of a failed \<open>connect\<close> that waits in a microtask.
\<close>

section \<open>Activities as frames\<close>

definition sender_role :: "string \<Rightarrow> string option \<Rightarrow> string" where
  "sender_role senderId userId =
     (if senderId = ''system'' then ''system''
      else if userId = Some senderId then ''user''
      else ''bot'')"

definition frame_timestamp :: "(string \<Rightarrow> jsnum option) \<Rightarrow> jsnum \<Rightarrow> string \<Rightarrow> jsnum" where
  "frame_timestamp date_parse now ts =
     (case date_parse ts of Some t \<Rightarrow> if t = 0 then now else t | None \<Rightarrow> now)"

definition frame_base :: "tenv \<Rightarrow> rest_activity \<Rightarrow> int \<Rightarrow> string option \<Rightarrow> (string \<times> json) list" where
  "frame_base env a seq userId =
     (let senderId = (case ra_from a of Some i \<Rightarrow> i | None \<Rightarrow> ''unknown'');
          role = sender_role senderId userId
      in [(''id'', JStr (ra_id a)), (''seq'', JNum (of_int seq)),
          (''from'', JStr (if role = ''user'' then ''user'' else ''bot'')),
          (''sender'', JObj [(''id'', JStr senderId), (''role'', JStr role)]),
          (''timestamp'', JNum (frame_timestamp (te_date_parse env) (te_now env) (ra_timestamp a)))])"

definition frame_metadata :: "rest_activity \<Rightarrow> (string \<times> json) list option" where
  "frame_metadata a = (case ra_channelData a of Some (f # fs) \<Rightarrow> Some (f # fs) | _ \<Rightarrow> None)"

definition text_or_empty :: "rest_activity \<Rightarrow> string" where
  "text_or_empty a = (case ra_text a of Some t \<Rightarrow> t | None \<Rightarrow> [])"

definition some_attachments :: "rest_activity \<Rightarrow> (string \<times> json) list" where
  "some_attachments a =
     (case ra_attachments a of Some (x # xs) \<Rightarrow> [(''attachments'', JArr (x # xs))] | _ \<Rightarrow> [])"

definition metadata_field :: "rest_activity \<Rightarrow> (string \<times> json) list" where
  "metadata_field a = opt_field ''metadata'' (map_option JObj (frame_metadata a))"

definition event_data :: "rest_activity \<Rightarrow> json" where
  "event_data a =
     (let m = (case frame_metadata a of Some fs \<Rightarrow> fs | None \<Rightarrow> []) in
      JObj ([(''text'', JStr (text_or_empty a))]
        @ opt_field ''name'' (map_option JStr (as_str (map_of m ''name'')))
        @ opt_field ''value'' (map_of m ''value'')))"

definition change_data :: "rest_activity \<Rightarrow> json" where
  "change_data a =
     JObj [(''name'', JStr (ra_type a)), (''text'', JStr (text_or_empty a)),
           (''value'', JObj ([(''replyToId'', (case ra_replyToId a of Some r \<Rightarrow> JStr r | None \<Rightarrow> JNull))]
              @ (if truthy (ra_text a) then [(''text'', JStr (the (ra_text a)))] else [])
              @ some_attachments a))]"

definition activityToFrame :: "tenv \<Rightarrow> rest_activity \<Rightarrow> int \<Rightarrow> string option \<Rightarrow> string \<times> json" where
  "activityToFrame env a seq userId =
     (let base = frame_base env a seq userId;
          frame = (\<lambda>t rest. (t, JObj (base @ (''type'', JStr t) # rest)))
      in if ra_type a = ''conversationUpdate'' then
           frame ''conversationUpdate'' [(''data'', JObj (case ra_channelData a of Some fs \<Rightarrow> fs | None \<Rightarrow> []))]
         else if ra_type a = ''endOfConversation'' then
           frame ''conversationUpdate'' [(''data'', JObj [(''event'', JStr ''conversation_ended''), (''status'', JStr ''closed'')])]
         else if ra_type a = ''typing'' then frame ''typing'' [(''isTyping'', JBool False)]
         else if ra_type a = ''event'' then frame ''event'' ((''data'', event_data a) # metadata_field a)
         else if ra_type a \<in> set [''messageReaction'', ''messageUpdate'', ''messageDelete''] then
           frame ''event'' ((''data'', change_data a) # metadata_field a)
         else
           frame ''text'' ((''data'', JObj ((''text'', JStr (text_or_empty a)) # some_attachments a)) # metadata_field a
             @ (if truthy (ra_replyToId a) then [(''replyTo'', JObj [(''id'', JStr (the (ra_replyToId a)))])] else [])))"

definition frame_of_activity :: "tenv \<Rightarrow> json \<Rightarrow> int \<Rightarrow> string option \<Rightarrow> server_frame" where
  "frame_of_activity env a seq userId =
     (let (t, j) = activityToFrame env (activity_of_rest a) seq userId in frame_of_json t j)"

section \<open>State\<close>

record phoenix_options =
  xo_path :: "string option"
  xo_heartbeatIntervalMs :: "jsnum option"
  xo_connectTimeoutMs :: "jsnum option"

record phoenix =
  x_path :: string
  x_heartbeatMs :: jsnum
  x_connectTimeoutMs :: jsnum
  x_socket :: bool
  x_attached :: bool
  x_failing :: "(int \<times> string) option"
  x_handlers :: bool
  x_params :: "connect_params option"
  x_topic :: string
  x_userId :: "string option"
  x_ref :: nat
  x_joinRef :: "string option"
  x_joined :: bool
  x_opened :: bool
  x_closed :: bool
  x_welcomed :: bool
  x_heartbeat :: "unit timer"
  x_connectTimer :: "unit timer"
  x_pendingHeartbeat :: "string option"
  x_watermark :: "int option"
  x_retryAfterMs :: "jsnum option"
  x_out :: "t_effect list"

definition phoenix_caps :: transport_caps where
  "phoenix_caps = \<lparr>cap_auth = False, cap_sync = True, cap_signals = True, cap_requiresConversationId = True\<rparr>"

definition new_phoenix :: "phoenix_options \<Rightarrow> phoenix" where
  "new_phoenix o' =
     \<lparr>x_path = (case xo_path o' of Some p \<Rightarrow> p | None \<Rightarrow> ''/socket/converger''),
      x_heartbeatMs = (case xo_heartbeatIntervalMs o' of Some h \<Rightarrow> h | None \<Rightarrow> 30000),
      x_connectTimeoutMs = (case xo_connectTimeoutMs o' of Some h \<Rightarrow> h | None \<Rightarrow> 15000),
      x_socket = False, x_attached = False, x_failing = None, x_handlers = False, x_params = None,
      x_topic = [], x_userId = None, x_ref = 0, x_joinRef = None, x_joined = False, x_opened = False,
      x_closed = False, x_welcomed = False, x_heartbeat = Unset, x_connectTimer = Unset,
      x_pendingHeartbeat = None, x_watermark = None, x_retryAfterMs = None, x_out = []\<rparr>"

definition x_perform :: "t_effect \<Rightarrow> phoenix \<Rightarrow> phoenix" where
  "x_perform e s = s\<lparr>x_out := x_out s @ [e]\<rparr>"

section \<open>Closing\<close>

definition phoenix_finish :: "int \<Rightarrow> string \<Rightarrow> phoenix \<Rightarrow> phoenix" where
  "phoenix_finish code reason s =
     (if x_closed s then s
      else
        (let s1 = s\<lparr>x_closed := True, x_heartbeat := clear_timeout (x_heartbeat s),
                    x_connectTimer := clear_timeout (x_connectTimer s), x_attached := False\<rparr>;
             close = \<lparr>tc_code = code, tc_reason = reason,
                      tc_retryAfterMs = or_else (retryAfterFromReason reason) (x_retryAfterMs s),
                      tc_opened = x_opened s\<rparr>
         in if x_handlers s then x_perform (OnClose close) s1 else s1))"

definition phoenix_close :: "int \<Rightarrow> string \<Rightarrow> phoenix \<Rightarrow> phoenix" where
  "phoenix_close code reason s =
     (let s1 = phoenix_finish code reason s in
      if x_socket s \<and> \<not> x_closed s
      then x_perform (SocketClose (if code \<ge> 4000 \<or> code = 1000 then code else 1000) reason) s1
      else s1)"

section \<open>Pushes\<close>

text \<open>\<open>string | null\<close> as JSON.\<close>

definition ref_json :: "string option \<Rightarrow> json" where
  "ref_json r = (case r of Some s \<Rightarrow> JStr s | None \<Rightarrow> JNull)"

definition push_text :: "string option \<Rightarrow> string \<Rightarrow> string \<Rightarrow> string \<Rightarrow> json \<Rightarrow> string" where
  "push_text joinRef ref topic event payload =
     JSON_stringify (JArr [ref_json joinRef, JStr ref, JStr topic, JStr event, payload])"

definition push :: "tenv \<Rightarrow> string option \<Rightarrow> string \<Rightarrow> string \<Rightarrow> json \<Rightarrow> phoenix \<Rightarrow> string option \<times> phoenix" where
  "push env joinRef topic event payload s =
     (if \<not> x_socket s \<or> \<not> te_ready env then (None, s)
      else
        (let ref = nat_str (Suc (x_ref s));
             s1 = s\<lparr>x_ref := Suc (x_ref s)\<rparr>
         in if te_sends env then (Some ref, x_perform (SocketSend (push_text joinRef ref topic event payload)) s1)
            else (None, s1)))"

definition join :: "tenv \<Rightarrow> int option \<Rightarrow> phoenix \<Rightarrow> phoenix" where
  "join env watermark s =
     (let ref = nat_str (x_ref s + 1);
          payload = JObj (opt_field ''watermark'' (map_option (\<lambda>w. JStr (encodeOpaqueWatermark w)) watermark))
      in snd (push env (Some ref) (x_topic s) ''phx_join'' payload (s\<lparr>x_joined := False, x_joinRef := Some ref\<rparr>)))"

definition rejoin :: "tenv \<Rightarrow> int \<Rightarrow> phoenix \<Rightarrow> phoenix" where
  "rejoin env watermark s =
     (let s1 = (case x_joinRef s of
                  Some r \<Rightarrow> snd (push env (Some r) (x_topic s) ''phx_leave'' (JObj []) s)
                | None \<Rightarrow> s)
      in join env (Some watermark) (s1\<lparr>x_watermark := Some watermark\<rparr>))"

definition beat :: "tenv \<Rightarrow> phoenix \<Rightarrow> phoenix" where
  "beat env s =
     (if x_pendingHeartbeat s \<noteq> None then phoenix_close 4000 ''heartbeat timeout'' s
      else (let (r, s1) = push env None ''phoenix'' ''heartbeat'' (JObj []) s in s1\<lparr>x_pendingHeartbeat := r\<rparr>))"

section \<open>Connecting\<close>

definition phoenix_url :: "connect_params \<Rightarrow> phoenix \<Rightarrow> string" where
  "phoenix_url p s =
     toWebSocketUrl (p_baseUrl p) @ x_path s @ ''/websocket?'' @ search_params [(''token'', p_token p), (''vsn'', ''2.0.0'')]"

text \<open>The user id of the claims, or the one the session knows.\<close>

definition claims_user :: "connect_params \<Rightarrow> string option" where
  "claims_user p = (case as_str (ofield (decodeToken (p_token p)) ''user_id'') of Some u \<Rightarrow> Some u | None \<Rightarrow> p_userId p)"

definition phoenix_connect :: "ws_result \<Rightarrow> connect_params \<Rightarrow> phoenix \<Rightarrow> string + phoenix" where
  "phoenix_connect ws p s =
     (let s1 = s\<lparr>x_handlers := True, x_params := Some p\<rparr> in
      if \<not> truthy (p_conversationId p)
      then Inr (s1\<lparr>x_failing := Some (4404, ''the Phoenix binding needs a conversation id'')\<rparr>)
      else
        (let s2 = s1\<lparr>x_topic := ''converger:conversation:'' @ the (p_conversationId p),
                     x_userId := claims_user p, x_watermark := p_watermark p\<rparr>
         in case ws of
              NoWebSocket \<Rightarrow> Inl no_websocket_message
            | WsThrows msg \<Rightarrow> Inr (s2\<lparr>x_failing := Some (1006, msg)\<rparr>)
            | WsCreated \<Rightarrow>
                Inr ((x_perform (SocketNew (phoenix_url p s) []) s2)
                       \<lparr>x_socket := True, x_attached := True, x_connectTimer := Armed (x_connectTimeoutMs s) ()\<rparr>)))"

definition phoenix_onopen :: "tenv \<Rightarrow> phoenix \<Rightarrow> phoenix" where
  "phoenix_onopen env s =
     (let s1 = x_perform OnOpen (s\<lparr>x_opened := True\<rparr>);
          s2 = join env (x_watermark s1) s1
      in s2\<lparr>x_heartbeat := Armed (x_heartbeatMs s2) ()\<rparr>)"

section \<open>Receiving\<close>

definition join_close_code :: "string \<Rightarrow> int" where
  "join_close_code reason = (if reason = ''unauthorized'' then 4401 else if reason = ''unavailable'' then 1013 else 4400)"

text \<open>The \<open>welcome\<close> a transport without a handshake makes up.\<close>

definition made_up_welcome :: "bool \<Rightarrow> string option \<Rightarrow> connect_params option \<Rightarrow> welcome_data" where
  "made_up_welcome can_type userId params =
     \<lparr>w_protocol = PROTOCOL_VERSION, w_compat = None, w_scope = Some ''conversation'',
      w_conversationId = (case params of Some p \<Rightarrow> (case p_conversationId p of Some c \<Rightarrow> c | None \<Rightarrow> []) | None \<Rightarrow> []),
      w_userId = userId, w_connectionId = None, w_watermark = None, w_pending = None,
      w_expiresAt = map_option (\<lambda>e. e * 1000)
        (as_num (ofield (decodeToken (case params of Some p \<Rightarrow> p_token p | None \<Rightarrow> [])) ''exp'')),
      w_capabilities = Some (JObj [(''acks'', JBool True), (''receipts'', JBool True), (''presence'', JBool True), (''typing'', JBool can_type)]),
      w_limits = None\<rparr>"

definition join_refused :: "json \<Rightarrow> phoenix \<Rightarrow> phoenix" where
  "join_refused response s =
     (let reason = (case as_str (field response ''reason'') of Some r \<Rightarrow> r | None \<Rightarrow> ''join refused'');
          s1 = (case as_num (field response ''retry_after_ms'') of Some r \<Rightarrow> s\<lparr>x_retryAfterMs := Some r\<rparr> | None \<Rightarrow> s)
      in phoenix_close (join_close_code reason) reason s1)"

definition onJoinReply :: "json \<Rightarrow> phoenix \<Rightarrow> phoenix" where
  "onJoinReply body s =
     (let response = (case field body ''response'' of Some JNull \<Rightarrow> JObj [] | Some r \<Rightarrow> r | None \<Rightarrow> JObj []) in
      if field body ''status'' \<noteq> Some (JStr ''ok'') then join_refused response s
      else
        (let s1 = s\<lparr>x_joined := True, x_connectTimer := clear_timeout (x_connectTimer s)\<rparr> in
         if x_welcomed s then s1
         else x_perform (OnFrame (Welcome (made_up_welcome True (x_userId s) (x_params s)))) (s1\<lparr>x_welcomed := True\<rparr>)))"

text \<open>
  The frames of a set, numbered up to its watermark. A \<open>null\<close> activity makes the loop throw: the frames
  before it were reported, the rest of the handler does not run.
\<close>

definition set_frames :: "tenv \<Rightarrow> int \<Rightarrow> string option \<Rightarrow> json list \<Rightarrow> server_frame list" where
  "set_frames env first userId acts = map (\<lambda>(a, i). frame_of_activity env a i userId) (zip acts (map (\<lambda>k. first + int k) [0..<length acts]))"

definition onActivitySet :: "tenv \<Rightarrow> json \<Rightarrow> phoenix \<Rightarrow> phoenix" where
  "onActivitySet env body s =
     (let activities = (case field body ''activities'' of Some (JArr xs) \<Rightarrow> xs | _ \<Rightarrow> []) in
      case parseWatermark (field body ''watermark'') of
        None \<Rightarrow> s
      | Some final \<Rightarrow>
          if activities = [] then s
          else
            (let first = final - int (length activities) + 1;
                 shown = takeWhile (\<lambda>a. a \<noteq> JNull) activities;
                 s1 = s\<lparr>x_out := x_out s @ map OnFrame (set_frames env first (x_userId s) shown)\<rparr>
             in if length shown < length activities then s1
                else
                  (let s2 = s1\<lparr>x_watermark := Some final\<rparr> in
                   if field body ''has_more'' = Some (JBool True) then rejoin env final s2 else s2)))"

definition legacy_error :: "json \<Rightarrow> error_data" where
  "legacy_error body =
     (let code = (case as_str (field body ''code'') of Some c \<Rightarrow> c | None \<Rightarrow> ''internal'') in
      \<lparr>ed_code = code, ed_message = (case as_str (field body ''message'') of Some m \<Rightarrow> m | None \<Rightarrow> code),
       ed_number = None, ed_retryable = Some True, ed_retryAfterMs = as_num (field body ''retry_after_ms''),
       ed_clientId = None, ed_frameType = None,
       ed_details = map_option (\<lambda>w. JObj [(''watermark'', JNum (of_int w))]) (parseWatermark (field body ''watermark''))\<rparr>)"

definition onLegacyError :: "json \<Rightarrow> phoenix \<Rightarrow> phoenix" where
  "onLegacyError body s = x_perform (OnFrame (Error (legacy_error body))) s"

text \<open>\<open>{...body, type: event}\<close>.\<close>

definition typed_body :: "string \<Rightarrow> json \<Rightarrow> json" where
  "typed_body event body = JObj (AList.update ''type'' (JStr event) (case body of JObj fs \<Rightarrow> fs | _ \<Rightarrow> []))"

definition onChannelEvent :: "tenv \<Rightarrow> json \<Rightarrow> string \<Rightarrow> json \<Rightarrow> phoenix \<Rightarrow> phoenix" where
  "onChannelEvent env ref event body s =
     (if event = ''phx_reply'' then (if ref = ref_json (x_joinRef s) then onJoinReply body s else s)
      else if event = ''activitySet'' then onActivitySet env body s
      else if event = ''frame'' then x_perform (OnFrame (frame_of_json (str_field (Some body) ''type'') body)) s
      else if event \<in> set [''deliveryStatus'', ''typing'', ''presence''] then
        x_perform (OnFrame (frame_of_json event (typed_body event body))) s
      else if event = ''error'' then onLegacyError body s
      else if event = ''phx_error'' then phoenix_close 1011 ''channel crashed'' s
      else if event = ''phx_close'' then phoenix_close 1000 ''channel closed'' s
      else s)"

definition onPhoenixMessage :: "tenv \<Rightarrow> json \<Rightarrow> json \<Rightarrow> json \<Rightarrow> json \<Rightarrow> json \<Rightarrow> phoenix \<Rightarrow> phoenix" where
  "onPhoenixMessage env joinRef ref topic event payload s =
     (if topic = JStr ''phoenix'' then
        (if event = JStr ''phx_reply'' \<and> ref = ref_json (x_pendingHeartbeat s) then s\<lparr>x_pendingHeartbeat := None\<rparr> else s)
      else if topic \<noteq> JStr (x_topic s) then s
      else if joinRef \<noteq> JNull \<and> joinRef \<noteq> ref_json (x_joinRef s) then s
      else
        (let body = (if payload = JNull then JObj [] else payload) in
         case event of JStr e \<Rightarrow> onChannelEvent env ref e body s | _ \<Rightarrow> s))"

definition receive :: "tenv \<Rightarrow> string \<Rightarrow> phoenix \<Rightarrow> phoenix" where
  "receive env raw s =
     (case JSON_parse raw of
        Some (JArr [joinRef, ref, topic, event, payload]) \<Rightarrow> onPhoenixMessage env joinRef ref topic event payload s
      | _ \<Rightarrow> s)"

section \<open>Sending\<close>

definition phoenix_send :: "tenv \<Rightarrow> client_frame \<Rightarrow> phoenix \<Rightarrow> bool \<times> phoenix" where
  "phoenix_send env frame s =
     (if \<not> x_joined s \<or> x_joinRef s = None then (False, s)
      else
        (let pushed = (\<lambda>event payload. map_prod (\<lambda>r. r \<noteq> None) id (push env (x_joinRef s) (x_topic s) event payload s)) in
         case frame of
           Text m \<Rightarrow> pushed ''frame'' (message_json m)
         | Typing b \<Rightarrow> pushed ''typing'' (JObj [(''isTyping'', JBool b)])
         | Read w \<Rightarrow> pushed ''read'' (JObj [(''watermark'', JNum (of_int w))])
         | Sync w \<Rightarrow> (True, rejoin env w s)
         | Ping _ \<Rightarrow> (True, s)
         | Auth _ \<Rightarrow> (True, s)
         | Hello _ \<Rightarrow> (True, s)))"

definition phoenixTransport :: factory where
  "phoenixTransport = \<lparr>f_transportName = Some ''phoenix'', f_name = ''phoenix'', f_caps = phoenix_caps\<rparr>"

section \<open>Runs\<close>

datatype phoenix_input =
    XConnect ws_result connect_params
  | XFailed
  | XOpen
  | XMessage "string option"
  | XSocketClose int string
  | XBeat
  | XConnectTimeout
  | XSend client_frame
  | XClose int string

fun phoenix_step :: "tenv \<times> phoenix_input \<Rightarrow> phoenix \<Rightarrow> phoenix" where
  "phoenix_step (env, XConnect ws p) s =
     (if x_handlers s then s
      else (case phoenix_connect ws p s of Inr s' \<Rightarrow> s' | Inl _ \<Rightarrow> s\<lparr>x_handlers := True, x_params := Some p\<rparr>))"
| "phoenix_step (env, XFailed) s =
     (case x_failing s of Some (code, msg) \<Rightarrow> phoenix_finish code msg (s\<lparr>x_failing := None\<rparr>) | None \<Rightarrow> s)"
| "phoenix_step (env, XOpen) s = (if x_attached s \<and> \<not> x_opened s then phoenix_onopen env s else s)"
| "phoenix_step (env, XMessage data) s =
     (if x_attached s \<and> x_opened s then (case data of Some raw \<Rightarrow> receive env raw s | None \<Rightarrow> s) else s)"
| "phoenix_step (env, XSocketClose code reason) s = (if x_attached s then phoenix_finish code reason s else s)"
| "phoenix_step (env, XBeat) s = (case x_heartbeat s of Armed _ _ \<Rightarrow> beat env s | _ \<Rightarrow> s)"
| "phoenix_step (env, XConnectTimeout) s =
     (case x_connectTimer s of
        Armed _ _ \<Rightarrow> phoenix_close 4000 ''connect timeout'' (s\<lparr>x_connectTimer := Spent\<rparr>)
      | _ \<Rightarrow> s)"
| "phoenix_step (env, XSend f) s = snd (phoenix_send env f s)"
| "phoenix_step (env, XClose code reason) s = phoenix_close code reason s"

end
