(* ===== verification/Sse.thy ===== *)
theory Sse
  imports Phoenix
begin

text \<open>
  The Server-Sent Events transport, \<open>packages/client-ts/src/transport/sse.ts\<close>: the class
  \<open>SseTransport\<close> as the record \<open>sse\<close>. The async \<open>#run\<close> is split at its awaits: \<open>z_fetching\<close> says
  that it waits for the response, \<open>z_reading\<close> that it reads the stream, and \<open>z_buffer\<close> is its local
  buffer. \<open>z_posts\<close> holds the \<open>#post\<close> calls that wait for their response. Chunks come as the text the
  \<open>TextDecoder\<close> makes of them.
\<close>

section \<open>State\<close>

record sse =
  z_fetch :: bool
  z_livenessMs :: jsnum
  z_handlers :: bool
  z_params :: "connect_params option"
  z_opened :: bool
  z_closed :: bool
  z_userId :: "string option"
  z_recent :: "(string \<times> int) list"
  z_liveness :: "unit timer"
  z_retryAfterMs :: "jsnum option"
  z_awaiting :: "(string \<times> string) list"
  z_fetching :: bool
  z_reading :: bool
  z_buffer :: string
  z_posts :: "(nat \<times> client_message) list"
  z_nextPost :: nat
  z_out :: "t_effect list"

definition sse_caps :: transport_caps where
  "sse_caps = \<lparr>cap_auth = False, cap_sync = True, cap_signals = False, cap_requiresConversationId = True\<rparr>"

definition new_sse :: "bool \<Rightarrow> jsnum option \<Rightarrow> sse" where
  "new_sse has_fetch livenessTimeoutMs =
     \<lparr>z_fetch = has_fetch, z_livenessMs = (case livenessTimeoutMs of Some l \<Rightarrow> l | None \<Rightarrow> 75000),
      z_handlers = False, z_params = None, z_opened = False, z_closed = False, z_userId = None,
      z_recent = [], z_liveness = Unset, z_retryAfterMs = None, z_awaiting = [], z_fetching = False,
      z_reading = False, z_buffer = [], z_posts = [], z_nextPost = 0, z_out = []\<rparr>"

definition z_perform :: "t_effect \<Rightarrow> sse \<Rightarrow> sse" where
  "z_perform e s = s\<lparr>z_out := z_out s @ [e]\<rparr>"

definition sse_finish :: "int \<Rightarrow> string \<Rightarrow> sse \<Rightarrow> sse" where
  "sse_finish code reason s =
     (if z_closed s then s
      else
        (let s1 = z_perform Abort (s\<lparr>z_closed := True, z_liveness := clear_timeout (z_liveness s)\<rparr>);
             close = \<lparr>tc_code = code, tc_reason = reason, tc_retryAfterMs = z_retryAfterMs s, tc_opened = z_opened s\<rparr>
         in if z_handlers s then z_perform (OnClose close) s1 else s1))"

definition sse_close :: "int \<Rightarrow> string \<Rightarrow> sse \<Rightarrow> sse" where
  "sse_close code reason s = sse_finish code reason s"

definition sse_touch :: "sse \<Rightarrow> sse" where
  "sse_touch s = s\<lparr>z_liveness := Armed (z_livenessMs s) ()\<rparr>"

section \<open>The stream\<close>

text \<open>A value in a condition.\<close>

definition json_truthy :: "json option \<Rightarrow> bool" where
  "json_truthy v \<longleftrightarrow> (case v of None \<Rightarrow> False | Some j \<Rightarrow> j \<noteq> JNull \<and> j \<noteq> JBool False \<and> j \<noteq> JNum 0 \<and> j \<noteq> JStr [])"

definition api_path :: "connect_params \<Rightarrow> string" where
  "api_path p = trimBaseUrl (p_baseUrl p) @ ''/api/v1/converger/conversations/'' @ encodeURIComponent (the (p_conversationId p))"

definition stream_url :: "connect_params \<Rightarrow> string option \<Rightarrow> string" where
  "stream_url p userId =
     api_path p @ ''/events'' @
       query_suffix ((case p_watermark p of Some w \<Rightarrow> [(''watermark'', int_str w)] | None \<Rightarrow> [])
         @ (if truthy userId \<and> \<not> json_truthy (ofield (decodeToken (p_token p)) ''user_id'')
            then [(''userId'', the userId)] else []))"

definition sse_connect :: "connect_params \<Rightarrow> sse \<Rightarrow> sse" where
  "sse_connect p s =
     (let s1 = s\<lparr>z_handlers := True, z_params := Some p, z_userId := claims_user p\<rparr> in
      if \<not> z_fetch s then sse_finish 1006 ''no fetch implementation'' s1
      else if \<not> truthy (p_conversationId p) then sse_finish 4404 ''the SSE stream needs a conversation id'' s1
      else (z_perform (FetchGet (stream_url p (z_userId s1)) [bearer (p_token p), (''accept'', ''text/event-stream'')]) s1)
             \<lparr>z_fetching := True\<rparr>)"

definition status_close_code :: "int \<Rightarrow> int" where
  "status_close_code status = (if status = 401 then 4401 else if status = 403 then 4403 else if status = 404 then 1008 else 1013)"

text \<open>The response of the stream's \<open>fetch\<close>; \<open>has_body\<close> is whether it has a body.\<close>

definition sse_refused :: "tenv \<Rightarrow> http_response \<Rightarrow> sse \<Rightarrow> sse" where
  "sse_refused env r s =
     (let body = (case JSON_parse (rp_text r) of Some j \<Rightarrow> j | None \<Rightarrow> JNull);
          apiError = apiErrorFrom (te_date_parse env) (te_now env) (rp_status r) body (rp_retryAfter r);
          s1 = (case e_retryAfterMs apiError of Some x \<Rightarrow> s\<lparr>z_retryAfterMs := Some x\<rparr> | None \<Rightarrow> s)
      in sse_finish (status_close_code (rp_status r)) (e_message apiError) s1)"

definition sse_response :: "tenv \<Rightarrow> bool \<Rightarrow> http_response \<Rightarrow> sse \<Rightarrow> sse" where
  "sse_response env has_body r s =
     (if \<not> rp_ok r \<or> \<not> has_body then sse_refused env r s
      else
        (let s1 = z_perform OnOpen (s\<lparr>z_opened := True\<rparr>);
             s2 = z_perform (OnFrame (Welcome (made_up_welcome False (z_userId s1) (z_params s1)))) s1
         in (sse_touch s2)\<lparr>z_reading := True, z_buffer := []\<rparr>))"

section \<open>Events\<close>

text \<open>\<open>/\r?\n/\<close> at the start of a text: the text after it.\<close>

fun eat_newline :: "string \<Rightarrow> string option" where
  "eat_newline (c # d # s) =
     (if c = CHR 0x0A then Some (d # s) else if c = CHR 0x0D \<and> d = CHR 0x0A then Some s else None)"
| "eat_newline [c] = (if c = CHR 0x0A then Some [] else None)"
| "eat_newline [] = None"

definition eat_boundary :: "string \<Rightarrow> string option" where
  "eat_boundary s = Option.bind (eat_newline s) eat_newline"

text \<open>The first \<open>/\r?\n\r?\n/\<close>: the text before and after it.\<close>

fun search_boundary :: "string \<Rightarrow> (string \<times> string) option" where
  "search_boundary [] = None"
| "search_boundary (c # s) =
     (case eat_boundary (c # s) of
        Some rest \<Rightarrow> Some ([], rest)
      | None \<Rightarrow> (case search_boundary s of Some (before, rest) \<Rightarrow> Some (c # before, rest) | None \<Rightarrow> None))"

lemma eat_newline_length: "eat_newline s = Some r \<Longrightarrow> length r < length s"
  by (induction s rule: eat_newline.induct) (auto split: if_splits)

lemma search_boundary_length: "search_boundary s = Some (b, r) \<Longrightarrow> length r < length s"
  by (induction s arbitrary: b)
     (auto simp: eat_boundary_def dest!: eat_newline_length split: option.splits bind_splits)

text \<open>The loop over the buffer: the complete events and what stays in the buffer.\<close>

function split_events :: "string \<Rightarrow> string list \<times> string" where
  "split_events buffer =
     (case search_boundary buffer of
        None \<Rightarrow> ([], buffer)
      | Some (chunk, rest) \<Rightarrow> (let (chunks, left) = split_events rest in (chunk # chunks, left)))"
  by pat_completeness auto
termination
  by (relation "measure length") (auto dest: search_boundary_length)

declare split_events.simps [simp del]

text \<open>\<open>chunk.split(/\r?\n/)\<close>.\<close>

fun split_lines :: "string \<Rightarrow> string list" where
  "split_lines [] = [[]]"
| "split_lines [c] = (if c = CHR 0x0A then [[], []] else [[c]])"
| "split_lines (c # d # s) =
     (if c = CHR 0x0A then [] # split_lines (d # s)
      else if c = CHR 0x0D \<and> d = CHR 0x0A then [] # split_lines s
      else (case split_lines (d # s) of l # ls \<Rightarrow> (c # l) # ls | [] \<Rightarrow> [[c]]))"

definition data_line :: "string \<Rightarrow> string option" where
  "data_line line =
     (if take 5 line = ''data:'' then
        (case drop 5 line of c # r \<Rightarrow> Some (if c = CHR '' '' then r else c # r) | [] \<Rightarrow> Some [])
      else None)"

fun join_lines :: "string list \<Rightarrow> string" where
  "join_lines [] = []"
| "join_lines [l] = l"
| "join_lines (l # ls) = l @ CHR 0x0A # join_lines ls"

definition event_text :: "string \<Rightarrow> string option" where
  "event_text chunk =
     (case List.map_filter data_line (split_lines chunk) of [] \<Rightarrow> None | ls \<Rightarrow> Some (join_lines ls))"

definition limit_recent :: "(string \<times> int) list \<Rightarrow> (string \<times> int) list" where
  "limit_recent m = (if length m > 500 then tl m else m)"

definition stream_ack :: "string \<Rightarrow> string \<Rightarrow> int \<Rightarrow> ack_frame" where
  "stream_ack clientId i q = \<lparr>ak_clientId = clientId, ak_id = i, ak_seq = Some q, ak_timestamp = None, ak_duplicate = False\<rparr>"

definition sse_persistent :: "activity_frame \<Rightarrow> sse \<Rightarrow> sse" where
  "sse_persistent a s =
     (case a_id a of
        None \<Rightarrow> s
      | Some i \<Rightarrow>
          (let s1 = s\<lparr>z_recent := limit_recent (AList.update i (seq_of a) (z_recent s))\<rparr> in
           case map_of (z_awaiting s) i of
             None \<Rightarrow> s1
           | Some clientId \<Rightarrow>
               z_perform (OnFrame (Ack (stream_ack clientId i (seq_of a)))) (s1\<lparr>z_awaiting := AList.delete i (z_awaiting s)\<rparr>)))"

definition sse_error :: "error_data \<Rightarrow> sse \<Rightarrow> sse" where
  "sse_error d s =
     (let s1 = (case ed_retryAfterMs d of Some r \<Rightarrow> s\<lparr>z_retryAfterMs := Some r\<rparr> | None \<Rightarrow> s);
          s2 = z_perform (OnFrame (Error d)) s1;
          code = ed_code d
      in if code = ''token_expired'' then sse_close 4401 code s2
         else if code = ''channel_inactive'' then sse_close 4403 code s2
         else if code = ''unavailable'' then sse_close 1012 code s2
         else s2)"

text \<open>\<open>#event\<close>: whether it returned (an \<open>error\<close> frame without \<open>data\<close> makes it throw), and the state.\<close>

definition sse_event :: "string \<Rightarrow> sse \<Rightarrow> bool \<times> sse" where
  "sse_event chunk s =
     (case event_text chunk of
        None \<Rightarrow> (True, s)
      | Some text \<Rightarrow>
          (case typed_object text of
             None \<Rightarrow> (True, s)
           | Some (t, j) \<Rightarrow>
               (case frame_of_json t j of
                  Error d \<Rightarrow> if has_data j then (True, sse_error d s) else (False, s)
                | Message a \<Rightarrow> (True, z_perform (OnFrame (Message a)) (if isPersistent a then sse_persistent a s else s))
                | f \<Rightarrow> (True, z_perform (OnFrame f) s))))"

fun sse_events :: "string list \<Rightarrow> sse \<Rightarrow> bool \<times> sse" where
  "sse_events [] s = (True, s)"
| "sse_events (chunk # chunks) s =
     (let (returned, s1) = sse_event chunk s in if returned then sse_events chunks s1 else (False, s1))"

definition sse_chunk :: "tenv \<Rightarrow> string \<Rightarrow> sse \<Rightarrow> sse" where
  "sse_chunk env text s =
     (let (chunks, left) = split_events (z_buffer s @ text);
          (returned, s1) = sse_events chunks (sse_touch s)
      in if returned then s1\<lparr>z_buffer := left\<rparr>
         else (sse_finish 1006 (te_typeError env) s1)\<lparr>z_reading := False, z_buffer := []\<rparr>)"

definition sse_stream_end :: "string \<Rightarrow> sse \<Rightarrow> sse" where
  "sse_stream_end reason s = (sse_finish 1006 reason s)\<lparr>z_reading := False, z_buffer := []\<rparr>"

section \<open>Sending\<close>

definition post_sender :: "sse \<Rightarrow> string" where
  "post_sender s = (case z_userId s of Some u \<Rightarrow> u | None \<Rightarrow> ''user'')"

definition idempotency_key :: "string \<Rightarrow> string \<Rightarrow> string" where
  "idempotency_key sender clientId = ''ws:'' @ sender @ '':'' @ clientId"

definition post_headers :: "connect_params \<Rightarrow> string \<Rightarrow> client_message \<Rightarrow> (string \<times> string) list" where
  "post_headers p sender m =
     [bearer (p_token p), (''content-type'', ''application/json''), accept_json]
       @ (if truthy (m_clientId m) then [(''x-idempotency-key'', idempotency_key sender (the (m_clientId m)))] else [])"

text \<open>A JSON object or array is truthy; \<open>replyTo\<close> of the frame is an object.\<close>

definition post_body :: "string \<Rightarrow> client_message \<Rightarrow> json" where
  "post_body sender m =
     JObj ([(''type'', JStr ''message''), (''text'', JStr (m_text m)), (''from'', JObj [(''id'', JStr sender)])]
       @ (if json_truthy (m_attachments m) then [(''attachments'', the (m_attachments m))] else [])
       @ (if json_truthy (m_metadata m) then [(''channelData'', the (m_metadata m))] else [])
       @ opt_field ''replyToId'' (map_option JStr (m_replyTo m)))"

definition sse_post :: "client_message \<Rightarrow> sse \<Rightarrow> sse" where
  "sse_post m s =
     (case z_params s of
        None \<Rightarrow> s
      | Some p \<Rightarrow>
          if \<not> truthy (p_conversationId p) \<or> \<not> z_fetch s then s
          else
            (z_perform (FetchPost (api_path p @ ''/activities'') (post_headers p (post_sender s) m)
                          (JSON_stringify (post_body (post_sender s) m))) s)
              \<lparr>z_posts := z_posts s @ [(z_nextPost s, m)], z_nextPost := Suc (z_nextPost s)\<rparr>)"

definition sse_send :: "client_frame \<Rightarrow> sse \<Rightarrow> bool \<times> sse" where
  "sse_send frame s =
     (if \<not> z_opened s \<or> z_closed s then (False, s)
      else (case frame of
              Text m \<Rightarrow> (True, sse_post m s)
            | Sync _ \<Rightarrow> (True, sse_close 4000 ''sync'' s)
            | Ping _ \<Rightarrow> (True, s)
            | Auth _ \<Rightarrow> (True, s)
            | Hello _ \<Rightarrow> (True, s)
            | Typing _ \<Rightarrow> (False, s)
            | Read _ \<Rightarrow> (False, s)))"

definition post_error_code :: "int \<Rightarrow> conv_error \<Rightarrow> string" where
  "post_error_code status apiError =
     (if status = 409 then ''conversation_closed'' else if status = 422 then ''invalid_message'' else e_code apiError)"

definition post_error :: "int \<Rightarrow> conv_error \<Rightarrow> client_message \<Rightarrow> error_data" where
  "post_error status apiError m =
     \<lparr>ed_code = post_error_code status apiError, ed_message = e_message apiError, ed_number = None,
      ed_retryable = Some (e_retryable apiError), ed_retryAfterMs = e_retryAfterMs apiError,
      ed_clientId = (if truthy (m_clientId m) then m_clientId m else None), ed_frameType = Some ''text'',
      ed_details = e_details apiError\<rparr>"

definition sse_accepted :: "client_message \<Rightarrow> json \<Rightarrow> sse \<Rightarrow> sse" where
  "sse_accepted m parsed s =
     (case as_str (field parsed ''id'') of
        None \<Rightarrow> s
      | Some i \<Rightarrow>
          if \<not> truthy (m_clientId m) then s
          else (case map_of (z_recent s) i of
                  Some q \<Rightarrow> z_perform (OnFrame (Ack (stream_ack (the (m_clientId m)) i q))) s
                | None \<Rightarrow> s\<lparr>z_awaiting := AList.update i (the (m_clientId m)) (z_awaiting s)\<rparr>))"

definition sse_posted :: "tenv \<Rightarrow> client_message \<Rightarrow> http_response \<Rightarrow> sse \<Rightarrow> sse" where
  "sse_posted env m r s =
     (let parsed = readBody r in
      if rp_ok r then sse_accepted m parsed s
      else
        (let apiError = apiErrorFrom (te_date_parse env) (te_now env) (rp_status r) parsed (rp_retryAfter r)
         in z_perform (OnFrame (Error (post_error (rp_status r) apiError m))) s))"

definition sseTransport :: factory where
  "sseTransport = \<lparr>f_transportName = Some ''sse'', f_name = ''sse'', f_caps = sse_caps\<rparr>"

section \<open>Runs\<close>

datatype sse_input =
    ZConnect connect_params
  | ZFetchFailed string
  | ZResponse bool http_response
  | ZChunk string
  | ZStreamEnd
  | ZStreamFailed string
  | ZLiveness
  | ZSend client_frame
  | ZPosted nat http_response
  | ZPostFailed nat
  | ZClose int string

definition take_post :: "nat \<Rightarrow> sse \<Rightarrow> sse" where
  "take_post n s = s\<lparr>z_posts := filter (\<lambda>p. fst p \<noteq> n) (z_posts s)\<rparr>"

fun sse_step :: "tenv \<times> sse_input \<Rightarrow> sse \<Rightarrow> sse" where
  "sse_step (env, ZConnect p) s = (if z_handlers s then s else sse_connect p s)"
| "sse_step (env, ZFetchFailed msg) s = (if z_fetching s then sse_finish 1006 msg (s\<lparr>z_fetching := False\<rparr>) else s)"
| "sse_step (env, ZResponse b r) s = (if z_fetching s then sse_response env b r (s\<lparr>z_fetching := False\<rparr>) else s)"
| "sse_step (env, ZChunk text) s = (if z_reading s then sse_chunk env text s else s)"
| "sse_step (env, ZStreamEnd) s = (if z_reading s then sse_stream_end ''stream ended'' s else s)"
| "sse_step (env, ZStreamFailed msg) s = (if z_reading s then sse_stream_end msg s else s)"
| "sse_step (env, ZLiveness) s =
     (case z_liveness s of Armed _ _ \<Rightarrow> sse_close 4000 ''stream silent'' (s\<lparr>z_liveness := Spent\<rparr>) | _ \<Rightarrow> s)"
| "sse_step (env, ZSend f) s = snd (sse_send f s)"
| "sse_step (env, ZPosted n r) s =
     (case map_of (z_posts s) n of Some m \<Rightarrow> sse_posted env m r (take_post n s) | None \<Rightarrow> s)"
| "sse_step (env, ZPostFailed n) s = take_post n s"
| "sse_step (env, ZClose code reason) s = sse_close code reason s"

end
