(* ===== verification/Client.thy ===== *)
theory Client
  imports Conversation Native Sse
begin

text \<open>
  The entry point, \<open>packages/client-ts/src/client.ts\<close>: the options and their defaults, the transports
  they name, and the class \<open>ConvergerClient\<close>, which creates sessions and keeps track of them.
  \<open>client_connect\<close> gets the answer of the first provider call; the platform's \<open>fetch\<close> is the
  parameter of the REST helpers. Every session of the client is kept with its dependencies;
  \<open>cl_open\<close> is the set \<open>#conversations\<close>.
\<close>

section \<open>Transports\<close>

datatype transport_option = OptName string | OptFactory factory

datatype transports_arg = TransportsDefault | OneTransport transport_option | Transports "transport_option list"

definition invalid_option :: "string \<Rightarrow> conv_error" where
  "invalid_option message = converger_error ''invalid_option'' message"

definition resolveTransport :: "transport_option \<Rightarrow> conv_error + factory" where
  "resolveTransport opt =
     (case opt of
        OptFactory f \<Rightarrow> Inr f
      | OptName n \<Rightarrow>
          if n = ''native'' then Inr nativeTransport
          else if n = ''phoenix'' then Inr phoenixTransport
          else if n = ''sse'' then Inr sseTransport
          else Inl (invalid_option (''unknown transport '' @ n)))"

fun resolve_all :: "transport_option list \<Rightarrow> conv_error + factory list" where
  "resolve_all [] = Inr []"
| "resolve_all (t # ts) =
     (case resolveTransport t of
        Inl e \<Rightarrow> Inl e
      | Inr f \<Rightarrow> (case resolve_all ts of Inl e \<Rightarrow> Inl e | Inr fs \<Rightarrow> Inr (f # fs)))"

definition transport_list :: "transports_arg \<Rightarrow> transport_option list" where
  "transport_list arg =
     (case arg of
        TransportsDefault \<Rightarrow> [OptName ''native'', OptName ''sse'']
      | OneTransport t \<Rightarrow> [t]
      | Transports ts \<Rightarrow> ts)"

definition resolveTransports :: "transports_arg \<Rightarrow> conv_error + factory list" where
  "resolveTransports arg =
     (let ts = transport_list arg in
      if ts = [] then Inl (invalid_option ''at least one transport is needed'') else resolve_all ts)"

section \<open>The client\<close>

text \<open>\<open>o_baseUrl\<close> is \<open>None\<close> when it is not a string, \<open>o_tokenProvider\<close> whether it is a function.\<close>

record client_options =
  o_baseUrl :: "string option"
  o_tokenProvider :: bool
  o_transport :: transports_arg
  o_fallbackAfterAttempts :: "jsnum option"
  o_reconnect :: reconnect_arg
  o_storageKey :: "string option"
  o_refreshSkewMs :: "jsnum option"
  o_fetch :: "fetch_like option"
  o_replayWaitMs :: "jsnum option"
  o_gapWaitMs :: "jsnum option"

record client =
  cl_options :: client_options
  cl_tokens :: token_manager
  cl_baseUrl :: string
  cl_fetch :: "fetch_like option"
  cl_rest :: rest_client
  cl_sessions :: "(deps \<times> conv) list"
  cl_open :: "nat list"

definition restFor :: "rest_env \<Rightarrow> string \<Rightarrow> fetch_like option \<Rightarrow> fetch_like option \<Rightarrow> conv_error + string \<Rightarrow> conv_error + rest_client" where
  "restFor renv baseUrl env_fetch global_fetch getToken = new_rest_client renv env_fetch global_fetch baseUrl getToken"

text \<open>The constructor; without any \<open>fetch\<close> it throws. \<open>token\<close> is what awaiting the tokens gives.\<close>

definition new_client ::
  "rest_env \<Rightarrow> fetch_like option \<Rightarrow> client_options \<Rightarrow> token_manager \<Rightarrow> conv_error + string \<Rightarrow> conv_error + client" where
  "new_client renv global_fetch opts tokens token =
     (let baseUrl = trimBaseUrl (the (o_baseUrl opts));
          env_fetch = or_else (o_fetch opts) global_fetch
      in map_sum id (\<lambda>rest. \<lparr>cl_options = opts, cl_tokens = tokens, cl_baseUrl = baseUrl, cl_fetch = env_fetch,
                            cl_rest = rest, cl_sessions = [], cl_open = []\<rparr>)
           (restFor renv baseUrl env_fetch global_fetch token))"

definition client_connect ::
  "rest_env \<Rightarrow> fetch_like option \<Rightarrow> conv_error option + token_value \<Rightarrow> jsnum \<Rightarrow> client_options \<Rightarrow> conv_error + client" where
  "client_connect renv global_fetch answer now opts =
     (if (case o_baseUrl opts of None \<Rightarrow> True | Some u \<Rightarrow> http_prefix u = None)
      then Inl (invalid_option ''baseUrl must be an http(s) URL'')
      else if \<not> o_tokenProvider opts then Inl (invalid_option ''tokenProvider must be a function'')
      else
        (case resolveTransports (o_transport opts) of
           Inl e \<Rightarrow> Inl e
         | Inr _ \<Rightarrow>
             (let requested = fst (snd (get now (new_token_manager (or_default (o_refreshSkewMs opts) 60000) None)));
                  (tokens, token) = fetch_settled answer now requested
              in case token of
                   Inl e \<Rightarrow> Inl e
                 | Inr t \<Rightarrow> new_client renv global_fetch opts tokens (Inr (at_token t)))))"

definition client_deps :: "client \<Rightarrow> factory list \<Rightarrow> deps" where
  "client_deps cl transports =
     (let opts = cl_options cl in
      \<lparr>d_baseUrl = cl_baseUrl cl, d_transports = transports,
       d_fallbackAfterAttempts = max 1 (or_default (o_fallbackAfterAttempts opts) 2),
       d_reconnect = resolveReconnect (o_reconnect opts),
       d_refreshSkewMs = or_default (o_refreshSkewMs opts) 60000,
       d_replayWaitMs = or_default (o_replayWaitMs opts) 5000,
       d_gapWaitMs = or_default (o_gapWaitMs opts) 1500\<rparr>)"

text \<open>\<open>transport\<close> is the conversation's own option, if it has one.\<close>

definition conversation :: "string option \<Rightarrow> transports_arg option \<Rightarrow> client \<Rightarrow> conv_error + client" where
  "conversation conversationId transport cl =
     (case resolveTransports (or_default transport (o_transport (cl_options cl))) of
        Inl e \<Rightarrow> Inl e
      | Inr ts \<Rightarrow>
          (let store = new_store (or_default (o_storageKey (cl_options cl)) ''converger'') conversationId;
               session = (client_deps cl ts, new_conv conversationId (cl_tokens cl) store)
           in Inr (cl\<lparr>cl_sessions := cl_sessions cl @ [session],
                     cl_open := set_add (length (cl_sessions cl)) (cl_open cl)\<rparr>)))"

text \<open>An input of session \<open>k\<close>; a session that disposes of itself leaves \<open>#conversations\<close>.\<close>

definition disposals :: "conv \<Rightarrow> nat" where
  "disposals s = length (filter (\<lambda>e. e = Dispose) (c_out s))"

definition session_step :: "nat \<Rightarrow> env \<times> conv_input \<Rightarrow> client \<Rightarrow> client" where
  "session_step k i cl =
     (if k < length (cl_sessions cl) then
        (let (d, s) = cl_sessions cl ! k; s' = step d i s in
         cl\<lparr>cl_sessions := (cl_sessions cl)[k := (d, s')],
            cl_open := (if disposals s' > disposals s then set_delete k (cl_open cl) else cl_open cl)\<rparr>)
      else cl)"

text \<open>\<open>close\<close>: disconnect every conversation; they dispose of themselves once their stores are flushed.\<close>

definition client_close :: "env \<Rightarrow> client \<Rightarrow> client" where
  "client_close env cl = fold (\<lambda>k. session_step k (env, CallDisconnect)) (cl_open cl) cl"

section \<open>Lemmas\<close>

lemma resolve_all_length: "resolve_all ts = Inr fs \<Longrightarrow> length fs = length ts"
  by (induction ts arbitrary: fs) (auto split: sum.splits)

lemma resolveTransports_nonempty: "resolveTransports arg = Inr fs \<Longrightarrow> fs \<noteq> []"
  by (auto simp: resolveTransports_def Let_def dest!: resolve_all_length split: if_splits)

text \<open>
  The states of a client: after \<open>connect\<close>, through new conversations, inputs of its sessions, \<open>close\<close>
  and changes of the shared token manager by any of its holders.
\<close>

inductive client_reach :: "client \<Rightarrow> bool" where
  connected: "client_connect renv g answer now opts = Inr cl \<Longrightarrow> client_reach cl"
| opened: "client_reach cl \<Longrightarrow> conversation cid t cl = Inr cl' \<Longrightarrow> client_reach cl'"
| input: "client_reach cl \<Longrightarrow> client_reach (session_step k i cl)"
| closed: "client_reach cl \<Longrightarrow> client_reach (client_close env cl)"
| tokens: "client_reach cl \<Longrightarrow> client_reach (cl\<lparr>cl_tokens := tm\<rparr>)"

text \<open>What a session of a client is: a run from a new session whose dependencies the client made.\<close>

definition session_run :: "deps \<times> conv \<Rightarrow> bool" where
  "session_run ds \<longleftrightarrow> d_transports (fst ds) \<noteq> [] \<and> 1 \<le> d_fallbackAfterAttempts (fst ds)
     \<and> (\<exists>is cid tokens prefix key. snd ds = run (step (fst ds)) is (new_conv cid tokens (new_store prefix key)))"

definition client_ok :: "client \<Rightarrow> bool" where
  "client_ok cl \<longleftrightarrow>
     list_all (\<lambda>k. k < length (cl_sessions cl)) (cl_open cl) \<and> distinct (cl_open cl) \<and> list_all session_run (cl_sessions cl)"

lemma session_run_new:
  "ts \<noteq> [] \<Longrightarrow> session_run (client_deps cl ts, new_conv cid tokens (new_store prefix key))"
proof -
  have "new_conv cid tokens (new_store prefix key) = run (step (client_deps cl ts)) [] (new_conv cid tokens (new_store prefix key))"
    by simp
  moreover assume "ts \<noteq> []"
  ultimately show ?thesis unfolding session_run_def fst_conv snd_conv by (simp only: client_deps_def Let_def deps.simps) fastforce
qed

lemma session_run_step: "session_run (d, s) \<Longrightarrow> session_run (d, step d i s)"
proof -
  assume "session_run (d, s)"
  then obtain "is" cid tokens prefix key where
    d: "d_transports d \<noteq> []" "1 \<le> d_fallbackAfterAttempts d" and s: "s = run (step d) is (new_conv cid tokens (new_store prefix key))"
    by (auto simp: session_run_def)
  have "step d i s = run (step d) (is @ [i]) (new_conv cid tokens (new_store prefix key))" by (simp add: s)
  with d show ?thesis unfolding session_run_def fst_conv snd_conv by blast
qed

lemma client_ok_conversation: "client_ok cl \<Longrightarrow> conversation cid t cl = Inr cl' \<Longrightarrow> client_ok cl'"
  by (auto simp: client_ok_def conversation_def Let_def list_all_iff less_Suc_eq session_run_new
      dest!: resolveTransports_nonempty split: sum.splits)

lemma client_ok_step: "client_ok cl \<Longrightarrow> client_ok (session_step k i cl)"
proof (cases "k < length (cl_sessions cl)")
  case True
  assume ok: "client_ok cl"
  obtain d s where ds: "cl_sessions cl ! k = (d, s)" by fastforce
  with True ok have "session_run (d, s)" by (metis client_ok_def list_all_length)
  then have "session_run (d, step d i s)" by (rule session_run_step)
  then have "list_all session_run ((cl_sessions cl)[k := (d, step d i s)])"
    using ok True by (auto simp: client_ok_def list_all_length nth_list_update)
  moreover have "list_all (\<lambda>j. j < length (cl_sessions cl)) (set_delete k (cl_open cl))"
    using ok by (auto simp: client_ok_def list_all_iff)
  ultimately show ?thesis using ok True ds by (simp add: client_ok_def session_step_def Let_def)
qed (simp add: session_step_def)

lemma client_ok_close: "client_ok cl \<Longrightarrow> client_ok (client_close env cl)"
proof -
  have "client_ok (fold (\<lambda>k. session_step k (env, CallDisconnect)) ks cl)" if "client_ok cl" for ks cl
    using that by (induction ks arbitrary: cl) (simp_all add: client_ok_step)
  then show "client_ok cl \<Longrightarrow> client_ok (client_close env cl)" by (simp add: client_close_def)
qed

lemma client_ok_new: "new_client renv g opts tokens token = Inr cl \<Longrightarrow> client_ok cl"
  by (auto simp: new_client_def client_ok_def Let_def restFor_def new_rest_client_def globalFetch_def split: option.splits)

lemma client_ok_connect: "client_connect renv g answer now opts = Inr cl \<Longrightarrow> client_ok cl"
  by (auto simp: client_connect_def Let_def dest: client_ok_new split: if_splits sum.splits prod.splits option.splits)

lemma client_reach_ok: "client_reach cl \<Longrightarrow> client_ok cl"
proof (induction rule: client_reach.induct)
  case (tokens cl tm)
  then show ?case by (simp add: client_ok_def)
qed (auto intro: client_ok_connect client_ok_conversation client_ok_step client_ok_close)

lemma session_step_nth:
  "k < length (cl_sessions cl) \<Longrightarrow> cl_sessions (session_step k i cl) = (cl_sessions cl)[k := (let (d, s) = cl_sessions cl ! k in (d, step d i s))]"
  by (simp add: session_step_def Let_def split: prod.split)

lemma fold_session_steps:
  assumes "distinct ks" "\<forall>k \<in> set ks. k < length (cl_sessions cl)" "j < length (cl_sessions cl)"
  shows "cl_sessions (fold (\<lambda>k. session_step k i) ks cl) ! j =
    (let (d, s) = cl_sessions cl ! j in if j \<in> set ks then (d, step d i s) else (d, s))"
  using assms
proof (induction ks arbitrary: cl)
  case (Cons k ks)
  then have k: "k < length (cl_sessions cl)" by simp
  have len: "length (cl_sessions (session_step k i cl)) = length (cl_sessions cl)" using k by (simp add: session_step_nth)
  have "cl_sessions (fold (\<lambda>k. session_step k i) ks (session_step k i cl)) ! j =
      (let (d, s) = cl_sessions (session_step k i cl) ! j in if j \<in> set ks then (d, step d i s) else (d, s))"
    using Cons.prems len by (intro Cons.IH) simp_all
  then show ?case using Cons.prems k by (auto simp: session_step_nth nth_list_update Let_def split: prod.splits)
qed (simp split: prod.split)

end
