(* ===== verification/Phoenix_Props.thy ===== *)
theory Phoenix_Props
  imports Phoenix
begin

text \<open>
  Properties of the Phoenix transport: the close is reported exactly once, join references are never
  reused, so messages of an earlier join are ignored, activity sets become contiguously numbered
  frames, and a dead connection is detected by its heartbeats.
\<close>

section \<open>One close report\<close>

definition x_core :: "phoenix \<Rightarrow> bool \<times> bool \<times> nat" where
  "x_core s = (x_closed s, x_handlers s, closes (x_out s))"

definition x_closing :: "phoenix \<Rightarrow> phoenix \<Rightarrow> bool" where
  "x_closing s s' \<longleftrightarrow> x_handlers s' = x_handlers s \<and> (x_closed s \<longrightarrow> x_closed s')
     \<and> closes (x_out s') = closes (x_out s) + (if x_handlers s \<and> x_closed s' \<and> \<not> x_closed s then 1 else 0)"

lemma x_closing_core: "x_core s' = x_core s \<Longrightarrow> x_closing s s'"
  by (simp add: x_core_def x_closing_def)

lemma x_closing_after: "x_core s1 = x_core s \<Longrightarrow> x_closing s1 s' \<Longrightarrow> x_closing s s'"
  by (auto simp: x_core_def x_closing_def split: if_splits)

lemma x_closing_refl [simp]: "x_closing s s"
  by (simp add: x_closing_def)

lemma closes_OnFrame [simp]: "closes (map OnFrame fs) = 0"
  by (induction fs) simp_all

lemma x_core_updates [simp]:
  "x_core (s\<lparr>x_joined := v0\<rparr>) = x_core s"
  "x_core (s\<lparr>x_joinRef := v1\<rparr>) = x_core s"
  "x_core (s\<lparr>x_opened := v2\<rparr>) = x_core s"
  "x_core (s\<lparr>x_heartbeat := v3\<rparr>) = x_core s"
  "x_core (s\<lparr>x_connectTimer := v4\<rparr>) = x_core s"
  "x_core (s\<lparr>x_pendingHeartbeat := v5\<rparr>) = x_core s"
  "x_core (s\<lparr>x_watermark := v6\<rparr>) = x_core s"
  "x_core (s\<lparr>x_retryAfterMs := v7\<rparr>) = x_core s"
  "x_core (s\<lparr>x_welcomed := v8\<rparr>) = x_core s"
  "x_core (s\<lparr>x_ref := v9\<rparr>) = x_core s"
  "x_core (s\<lparr>x_params := v10\<rparr>) = x_core s"
  "x_core (s\<lparr>x_failing := v11\<rparr>) = x_core s"
  "x_core (s\<lparr>x_topic := v12\<rparr>) = x_core s"
  "x_core (s\<lparr>x_userId := v13\<rparr>) = x_core s"
  "x_core (s\<lparr>x_out := x_out s @ map OnFrame fs\<rparr>) = x_core s"
  by (simp_all add: x_core_def)

lemma push_core [simp]: "x_core (snd (push env j t e p s)) = x_core s"
  by (simp add: push_def x_core_def x_perform_def Let_def)

lemma join_core [simp]: "x_core (join env w s) = x_core s"
  by (simp add: join_def Let_def)

lemma rejoin_core [simp]: "x_core (rejoin env w s) = x_core s"
  by (simp add: rejoin_def Let_def split: option.split)

lemma x_perform_core [simp]: "\<not> is_close e \<Longrightarrow> x_core (x_perform e s) = x_core s"
  by (simp add: x_core_def x_perform_def)

lemma x_closing_finish [simp]: "x_closing s (phoenix_finish c r s)"
  by (simp add: x_closing_def phoenix_finish_def x_perform_def Let_def)

lemma x_closing_close [simp]: "x_closing s (phoenix_close c r s)"
proof -
  have "x_closing s (x_perform e s')" if "x_closing s s'" "\<not> is_close e" for e s'
    using that by (simp add: x_closing_def x_perform_def)
  then show ?thesis by (simp add: phoenix_close_def Let_def)
qed

lemma finish_closed [simp]: "x_closed (phoenix_finish c r s)" "x_closed (phoenix_close c r s)"
  by (simp_all add: phoenix_finish_def phoenix_close_def x_perform_def Let_def)

lemma x_closing_beat: "x_closing s (beat env s)"
proof (cases "x_pendingHeartbeat s")
  case None
  obtain r s1 where p: "push env None ''phoenix'' ''heartbeat'' (JObj []) s = (r, s1)" by fastforce
  then have "x_core s1 = x_core s" by (metis push_core snd_conv)
  with None p have "x_core (beat env s) = x_core s" by (simp add: beat_def)
  then show ?thesis by (rule x_closing_core)
qed (simp add: beat_def)

lemma x_closing_join_refused: "x_closing s (join_refused r s)"
  unfolding join_refused_def Let_def
  by (rule x_closing_after [OF _ x_closing_close]) (simp split: option.split)

lemma x_closing_onJoinReply: "x_closing s (onJoinReply b s)"
proof (cases "field b ''status'' = Some (JStr ''ok'')")
  case True
  then have "x_core (onJoinReply b s) = x_core s" by (simp add: onJoinReply_def Let_def)
  then show ?thesis by (rule x_closing_core)
qed (simp add: onJoinReply_def x_closing_join_refused)

lemma onActivitySet_core [simp]: "x_core (onActivitySet env b s) = x_core s"
  by (simp add: onActivitySet_def Let_def split: option.split)

lemma x_closing_channel: "x_closing s (onChannelEvent env ref e b s)"
  by (simp add: onChannelEvent_def x_closing_onJoinReply x_closing_core onLegacyError_def)

lemma x_closing_receive: "x_closing s (receive env raw s)"
proof -
  have "x_closing s (onPhoenixMessage env j r t e p s)" for j r t e p
    by (simp add: onPhoenixMessage_def Let_def x_closing_channel x_closing_core split: json.split)
  then show ?thesis by (simp add: receive_def split: option.split json.split list.split)
qed

lemma x_closing_send: "x_closing s (snd (phoenix_send env f s))"
  by (intro x_closing_core) (simp add: phoenix_send_def Let_def snd_map_prod split: client_frame.split)

lemma x_core_onopen [simp]: "x_core (phoenix_onopen env s) = x_core s"
  by (simp add: phoenix_onopen_def Let_def)

lemma x_closing_step: "\<not> (\<exists>ws p. snd i = XConnect ws p) \<Longrightarrow> x_closing s (phoenix_step i s)"
  using x_closing_beat x_closing_receive x_closing_send x_closing_core x_closing_after [OF _ x_closing_close] x_closing_after [OF _ x_closing_finish]
  by (cases "(i, s)" rule: phoenix_step.cases) (auto split: option.split timer.split)

lemma x_connect_step:
  assumes "snd i = XConnect ws p"
  shows "x_closed (phoenix_step i s) = x_closed s" "closes (x_out (phoenix_step i s)) = closes (x_out s)" "x_handlers (phoenix_step i s)"
  using assms by (cases i; auto simp: phoenix_connect_def x_perform_def Let_def split: ws_result.split)+

interpretation phoenix: transport_contract phoenix_step x_handlers x_closed x_out "\<lambda>s. \<exists>opts. s = new_phoenix opts"
proof unfold_locales
  fix i s
  show "closes (x_out (phoenix_step i s)) = closes (x_out s)
      + (if x_handlers (phoenix_step i s) \<and> x_closed (phoenix_step i s) \<and> \<not> x_closed s then 1 else 0)"
    using x_connect_step [of i] x_closing_step [of i s] by (cases "\<exists>ws p. snd i = XConnect ws p") (auto simp: x_closing_def)
  show "x_closed s \<Longrightarrow> x_closed (phoenix_step i s)" "x_handlers s \<Longrightarrow> x_handlers (phoenix_step i s)"
    using x_connect_step [of i] x_closing_step [of i s] by (cases "\<exists>ws p. snd i = XConnect ws p"; auto simp: x_closing_def)+
qed (auto simp: new_phoenix_def)

section \<open>Join references\<close>

text \<open>
  \<open>joined_after k s\<close>: the join reference of \<open>s\<close> and every later one is the text of a number above
  \<open>k\<close>. \<open>refs_ok\<close> bounds the reference from above.
\<close>

definition joined_after :: "nat \<Rightarrow> phoenix \<Rightarrow> bool" where
  "joined_after k0 s \<longleftrightarrow> k0 \<le> x_ref s \<and> (\<exists>k. x_joinRef s = Some (nat_str k) \<and> k0 < k \<and> k \<le> Suc (x_ref s))"

definition refs_ok :: "phoenix \<Rightarrow> bool" where
  "refs_ok s \<longleftrightarrow> x_joinRef s = None \<or> (\<exists>k. x_joinRef s = Some (nat_str k) \<and> k \<le> Suc (x_ref s))"

definition ref_view :: "phoenix \<Rightarrow> nat \<times> string option" where
  "ref_view s = (x_ref s, x_joinRef s)"

text \<open>How an operation may change the references: not at all, by pushes, or by a join.\<close>

definition ref_next :: "phoenix \<Rightarrow> phoenix \<Rightarrow> bool" where
  "ref_next s s' \<longleftrightarrow> x_ref s \<le> x_ref s'
     \<and> (x_joinRef s' = x_joinRef s \<or> (\<exists>k. x_joinRef s' = Some (nat_str k) \<and> x_ref s < k \<and> k \<le> Suc (x_ref s')))"

lemma ref_next_refl [simp]: "ref_next s s"
  by (simp add: ref_next_def)

lemma ref_next_trans: "ref_next s s1 \<Longrightarrow> ref_next s1 s2 \<Longrightarrow> ref_next s s2"
  by (auto simp: ref_next_def intro: le_less_trans)

lemma ref_next_view: "ref_view s' = ref_view s \<Longrightarrow> ref_next s s'"
  by (simp add: ref_next_def ref_view_def)

lemma ref_next_after: "joined_after k s \<Longrightarrow> ref_next s s' \<Longrightarrow> joined_after k s'"
  by (auto simp: joined_after_def ref_next_def)

lemma ref_next_ok: "refs_ok s \<Longrightarrow> ref_next s s' \<Longrightarrow> refs_ok s'"
  by (auto simp: refs_ok_def ref_next_def)

lemma push_refs: "x_joinRef (snd (push env j t e p s)) = x_joinRef s"
  "x_ref s \<le> x_ref (snd (push env j t e p s))"
  "x_socket s \<Longrightarrow> te_ready env \<Longrightarrow> x_ref (snd (push env j t e p s)) = Suc (x_ref s)"
  "x_socket (snd (push env j t e p s)) = x_socket s"
  by (simp_all add: push_def x_perform_def Let_def)

lemma push_next [simp]: "ref_next s (snd (push env j t e p s))"
  by (simp add: ref_next_def push_refs)

lemma join_refs: "x_joinRef (join env w s) = Some (nat_str (Suc (x_ref s)))" "x_ref s \<le> x_ref (join env w s)"
  by (auto simp: join_def push_refs(1) Let_def intro!: order_trans [OF _ push_refs(2)])

lemma join_next [simp]: "ref_next s (join env w s)"
  using join_refs by (auto simp: ref_next_def)

lemma rejoin_next [simp]: "ref_next s (rejoin env w s)"
proof -
  define s1 where "s1 = (case x_joinRef s of Some r \<Rightarrow> snd (push env (Some r) (x_topic s) ''phx_leave'' (JObj []) s) | None \<Rightarrow> s)"
  have "ref_next s (s1\<lparr>x_watermark := Some w\<rparr>)" by (simp add: s1_def ref_next_def push_refs split: option.split)
  then have "ref_next s (join env (Some w) (s1\<lparr>x_watermark := Some w\<rparr>))" by (rule ref_next_trans) simp
  then show ?thesis by (simp add: rejoin_def s1_def Let_def)
qed

lemma close_view [simp]: "ref_view (phoenix_finish c r s) = ref_view s" "ref_view (phoenix_close c r s) = ref_view s"
  by (simp_all add: ref_view_def phoenix_finish_def phoenix_close_def x_perform_def Let_def)

lemma close_refs [simp]:
  "x_ref (phoenix_finish c r s) = x_ref s" "x_joinRef (phoenix_finish c r s) = x_joinRef s"
  "x_ref (phoenix_close c r s) = x_ref s" "x_joinRef (phoenix_close c r s) = x_joinRef s"
  using close_view [of c r s] by (simp_all add: ref_view_def)

lemma beat_next [simp]: "ref_next s (beat env s)"
proof (cases "x_pendingHeartbeat s")
  case None
  obtain r s1 where p: "push env None ''phoenix'' ''heartbeat'' (JObj []) s = (r, s1)" by fastforce
  then have "ref_next s s1" by (metis push_next snd_conv)
  with None p show ?thesis by (simp add: beat_def ref_next_def)
qed (simp add: beat_def ref_next_view)

lemma onJoinReply_view [simp]: "ref_view (onJoinReply b s) = ref_view s"
  using close_view by (simp add: onJoinReply_def join_refused_def x_perform_def ref_view_def Let_def split: option.split)

lemma onActivitySet_next [simp]: "ref_next s (onActivitySet env b s)"
proof -
  have "ref_next s (rejoin env w s')" if "ref_view s' = ref_view s" for w s'
    using that ref_next_view rejoin_next by (blast intro: ref_next_trans)
  then show ?thesis by (simp add: onActivitySet_def Let_def ref_view_def ref_next_view split: option.split)
qed

lemma x_perform_next [simp]: "ref_next s (x_perform e s)"
  by (simp add: ref_next_def x_perform_def)

lemma onChannelEvent_next [simp]: "ref_next s (onChannelEvent env r e b s)"
  by (simp add: onChannelEvent_def ref_next_view onLegacyError_def)

lemma receive_next [simp]: "ref_next s (receive env raw s)"
proof -
  have "ref_next s (onPhoenixMessage env j r t e p s)" for j r t e p
    by (simp add: onPhoenixMessage_def Let_def split: json.split) (simp add: ref_next_def)
  then show ?thesis by (simp add: receive_def split: option.split json.split list.split)
qed

lemma send_next [simp]: "ref_next s (snd (phoenix_send env f s))"
  by (simp add: phoenix_send_def Let_def snd_map_prod split: client_frame.split)

lemma onopen_next [simp]: "ref_next s (phoenix_onopen env s)"
proof -
  have "ref_next s (join env w (x_perform OnOpen (s\<lparr>x_opened := True\<rparr>)))" for w
    by (rule ref_next_trans [OF _ join_next]) (simp add: ref_next_def x_perform_def)
  then show ?thesis by (simp add: phoenix_onopen_def Let_def ref_next_def)
qed

lemma ref_next_step: "ref_next s (phoenix_step i s)"
  by (cases "(i, s)" rule: phoenix_step.cases)
     (auto simp: ref_view_def phoenix_connect_def x_perform_def Let_def split: option.split timer.split ws_result.split
       intro!: ref_next_view)

interpretation refs: preserved phoenix_step refs_ok
  by unfold_locales (rule ref_next_ok [OF _ ref_next_step])

interpretation later_join: preserved phoenix_step "joined_after k" for k
  by unfold_locales (rule ref_next_after [OF _ ref_next_step])

section \<open>Heartbeats\<close>

text \<open>A heartbeat that is still unanswered, on a connection whose heartbeat interval runs.\<close>

definition unanswered :: "phoenix \<Rightarrow> bool" where
  "unanswered s \<longleftrightarrow> x_closed s \<or> x_pendingHeartbeat s \<noteq> None \<and> x_heartbeat s \<noteq> Unset \<and> x_heartbeat s \<noteq> Spent"

definition beat_view :: "phoenix \<Rightarrow> bool \<times> string option \<times> unit timer" where
  "beat_view s = (x_closed s, x_pendingHeartbeat s, x_heartbeat s)"

lemma push_beat [simp]: "beat_view (snd (push env j t e p s)) = beat_view s"
  by (simp add: push_def x_perform_def beat_view_def Let_def)

lemma beat_view_updates [simp]:
  "beat_view (s\<lparr>x_joined := a\<rparr>) = beat_view s" "beat_view (s\<lparr>x_joinRef := b\<rparr>) = beat_view s"
  "beat_view (s\<lparr>x_watermark := c\<rparr>) = beat_view s" "beat_view (s\<lparr>x_opened := d\<rparr>) = beat_view s"
  by (simp_all add: beat_view_def)

lemma join_beat [simp]: "beat_view (join env w s) = beat_view s"
  by (simp add: join_def Let_def)

lemma rejoin_beat [simp]: "beat_view (rejoin env w s) = beat_view s"
  by (simp add: rejoin_def Let_def split: option.split)

lemma send_beat [simp]: "beat_view (snd (phoenix_send env f s)) = beat_view s"
  by (simp add: phoenix_send_def Let_def snd_map_prod split: client_frame.split)

lemma unanswered_view: "beat_view s' = beat_view s \<Longrightarrow> unanswered s' = unanswered s"
  by (simp add: beat_view_def unanswered_def)

lemma unanswered_onopen: "unanswered s \<Longrightarrow> unanswered (phoenix_onopen env s)"
proof -
  define s1 where "s1 = join env (x_watermark s) (x_perform OnOpen (s\<lparr>x_opened := True\<rparr>))"
  have "beat_view s1 = beat_view s" by (simp add: s1_def) (simp add: beat_view_def x_perform_def)
  moreover have "phoenix_onopen env s = s1\<lparr>x_heartbeat := Armed (x_heartbeatMs s1) ()\<rparr>"
    by (simp add: phoenix_onopen_def s1_def x_perform_def Let_def)
  ultimately show "unanswered s \<Longrightarrow> unanswered (phoenix_onopen env s)" by (auto simp: unanswered_def beat_view_def)
qed

lemma unanswered_step:
  assumes "unanswered s" "\<nexists>d. snd i = XMessage d"
  shows "unanswered (phoenix_step i s)"
proof (cases "(i, s)" rule: phoenix_step.cases)
  case (1 env ws p s')
  then show ?thesis using assms(1) by (auto simp: unanswered_def phoenix_connect_def x_perform_def Let_def split: ws_result.split)
next
  case (6 env s')
  have "x_closed (beat env s)" if "x_heartbeat s \<noteq> Unset"
    using assms(1) x_closing_beat [of s env] by (auto simp: unanswered_def x_closing_def beat_def)
  with 6 assms(1) show ?thesis by (auto simp: unanswered_def split: timer.split)
next
  case (8 env f s')
  then show ?thesis using assms(1) unanswered_view [OF send_beat] by simp
qed (use assms unanswered_onopen in \<open>auto simp: unanswered_def [of "phoenix_finish _ _ _"] unanswered_def [of "phoenix_close _ _ _"] split: option.split timer.split\<close>)

lemma unanswered_run:
  "unanswered s \<Longrightarrow> (\<And>i. i \<in> set is \<Longrightarrow> \<nexists>d. snd i = XMessage d) \<Longrightarrow> unanswered (run phoenix_step is s)"
proof (induction "is" arbitrary: s)
  case (Cons i "is")
  then show ?case using unanswered_step [of s i] by simp
qed simp

lemma unanswered_beat: "unanswered s \<Longrightarrow> x_closed (phoenix_step (env, XBeat) s)"
  using phoenix.step_closed [of s "(env, XBeat)"] by (auto simp: unanswered_def beat_def split: timer.split)

section \<open>Activity sets\<close>

lemma activity_seq_type:
  "activityToFrame env a seq u = (t, j) \<Longrightarrow> field j ''seq'' = Some (JNum (of_int seq)) \<and> field j ''id'' = Some (JStr (ra_id a))
     \<and> t \<in> set [''conversationUpdate'', ''typing'', ''event'', ''text'']"
  by (auto simp: activityToFrame_def frame_base_def Let_def split: if_splits)

lemma frame_of_activity:
  "\<exists>m. frame_of_activity env a seq u = Message m \<and> seq_of m = seq \<and> a_id m = Some (ra_id (activity_of_rest a))
     \<and> (1 \<le> seq \<longrightarrow> isPersistent m)"
proof -
  obtain t j where tj: "activityToFrame env (activity_of_rest a) seq u = (t, j)" by fastforce
  note facts = activity_seq_type [OF this]
  have f: "frame_of_activity env a seq u = frame_of_json t j" using tj by (simp add: frame_of_activity_def)
  have "frame_of_json t j = Message (activity_of_json t j)" using facts by (auto simp: frame_of_json_def Let_def)
  moreover have "seq_of (activity_of_json t j) = seq" using facts by (simp add: activity_of_json_def seq_of_def)
  moreover have "a_id (activity_of_json t j) = Some (ra_id (activity_of_rest a))" using facts by (simp add: activity_of_json_def)
  moreover have "isPersistent (activity_of_json t j)" if "1 \<le> seq"
    using that facts by (auto simp: isPersistent_def CONTROL_TYPES_def positive_int_def activity_of_json_def)
  ultimately show ?thesis using f by simp
qed

lemma set_frames_Cons:
  "set_frames env first u (a # acts) = frame_of_activity env a first u # set_frames env (first + 1) u acts"
  by (simp add: set_frames_def upt_rec [of 0] map_Suc_upt [symmetric] del: upt_Suc) (simp add: comp_def algebra_simps)

lemma set_frames_numbered:
  "\<exists>ms. set_frames env first u acts = map Message ms \<and> map seq_of ms = [first..first + int (length acts) - 1]
     \<and> map a_id ms = map (\<lambda>a. Some (ra_id (activity_of_rest a))) acts \<and> (1 \<le> first \<longrightarrow> (\<forall>m \<in> set ms. isPersistent m))"
proof (induction acts arbitrary: first)
  case Nil
  then show ?case by (simp add: set_frames_def)
next
  case (Cons a acts)
  obtain m where m: "frame_of_activity env a first u = Message m" "seq_of m = first"
    "a_id m = Some (ra_id (activity_of_rest a))" "1 \<le> first \<longrightarrow> isPersistent m"
    using frame_of_activity by blast
  obtain ms where ms: "set_frames env (first + 1) u acts = map Message ms"
    "map seq_of ms = [first + 1..first + 1 + int (length acts) - 1]"
    "map a_id ms = map (\<lambda>a. Some (ra_id (activity_of_rest a))) acts" "1 \<le> first + 1 \<longrightarrow> (\<forall>m \<in> set ms. isPersistent m)"
    using Cons.IH [of "first + 1"] by blast
  have "[first..first + int (length (a # acts)) - 1] = first # [first + 1..first + 1 + int (length acts) - 1]"
    by (subst upto.simps) (simp add: algebra_simps)
  then show ?case
    using m ms by (intro exI [of _ "m # ms"]) (simp add: set_frames_Cons)
qed

text \<open>The frames a log reports.\<close>

fun reported :: "t_effect list \<Rightarrow> server_frame list" where
  "reported [] = []"
| "reported (OnFrame f # os) = f # reported os"
| "reported (_ # os) = reported os"

lemma reported_append [simp]: "reported (os @ os') = reported os @ reported os'"
  by (induction os rule: reported.induct) simp_all

lemma reported_OnFrame [simp]: "reported (map OnFrame fs) = fs" "reported (map (OnFrame \<circ> g) xs) = map g xs"
proof -
  show "reported (map OnFrame fs) = fs" by (induction fs) simp_all
  show "reported (map (OnFrame \<circ> g) xs) = map g xs" by (induction xs) simp_all
qed

lemma push_reported [simp]: "reported (x_out (snd (push env j t e p s))) = reported (x_out s)"
  by (simp add: push_def x_perform_def Let_def)

lemma rejoin_reported [simp]: "reported (x_out (rejoin env w s)) = reported (x_out s)"
  by (simp add: rejoin_def join_def Let_def split: option.split)

lemma push_watermark [simp]: "x_watermark (snd (push env j t e p s)) = x_watermark s"
  by (simp add: push_def x_perform_def Let_def)

lemma rejoin_watermark [simp]: "x_watermark (rejoin env w s) = Some w"
  by (simp add: rejoin_def join_def Let_def)

lemma takeWhile_not_null: "JNull \<notin> set acts \<Longrightarrow> takeWhile (\<lambda>a. a \<noteq> JNull) acts = acts"
  by (induction acts) auto

section \<open>Properties\<close>

definition sample_phoenix :: phoenix where
  "sample_phoenix =
     run phoenix_step [(sample_tenv 0, XConnect WsCreated sample_params), (sample_tenv 1, XOpen),
       (sample_tenv 2, XMessage (Some (push_text (Some ''1'') ''1'' ''converger:conversation:c'' ''phx_reply''
          (JObj [(''status'', JStr ''ok''), (''response'', JObj [])]))))]
       (new_phoenix \<lparr>xo_path = None, xo_heartbeatIntervalMs = None, xo_connectTimeoutMs = None\<rparr>)"

text \<open>
  An activity set becomes contiguously numbered frames: when the server sends activities whose last
  one has seq \<open>final\<close>, the transport reports one persistent frame per activity, in order and with its
  id, numbered up to \<open>final\<close> without a gap, and continues from \<open>final\<close> if more activities remain.
\<close>

theorem phoenix_set_numbering:
  assumes "field body ''activities'' = Some (JArr acts)" "acts \<noteq> []" "JNull \<notin> set acts"
    and "parseWatermark (field body ''watermark'') = Some final" "int (length acts) \<le> final"
  shows "let s' = onActivitySet env body s in
    x_watermark s' = Some final
    \<and> (\<exists>ms. reported (x_out s') = reported (x_out s) @ map Message ms
         \<and> map seq_of ms = [final - int (length acts) + 1..final]
         \<and> map a_id ms = map (\<lambda>a. Some (ra_id (activity_of_rest a))) acts \<and> (\<forall>m \<in> set ms. isPersistent m))"
proof -
  let ?first = "final - int (length acts) + 1"
  obtain ms where ms: "set_frames env ?first (x_userId s) acts = map Message ms"
    "map seq_of ms = [?first..?first + int (length acts) - 1]"
    "map a_id ms = map (\<lambda>a. Some (ra_id (activity_of_rest a))) acts" "1 \<le> ?first \<longrightarrow> (\<forall>m \<in> set ms. isPersistent m)"
    using set_frames_numbered by blast
  let ?s' = "onActivitySet env body s"
  have "x_watermark ?s' = Some final \<and> reported (x_out ?s') = reported (x_out s) @ map Message ms"
    using assms(1-4) ms(1) by (simp add: onActivitySet_def takeWhile_not_null Let_def)
  with ms(2-4) assms(5) show ?thesis by (auto simp: Let_def)
qed

theorem phoenix_set_numbering_witness:
  "let body = JObj [(''activities'', JArr [JObj [(''id'', JStr ''a'')], JObj [(''id'', JStr ''b'')]]), (''watermark'', JNum 9), (''has_more'', JBool True)];
       s' = onActivitySet (sample_tenv 5) body sample_phoenix
   in x_watermark s' = Some 9"
proof -
  let ?body = "JObj [(''activities'', JArr [JObj [(''id'', JStr ''a'')], JObj [(''id'', JStr ''b'')]]), (''watermark'', JNum 9), (''has_more'', JBool True)]"
  have "field ?body ''activities'' = Some (JArr [JObj [(''id'', JStr ''a'')], JObj [(''id'', JStr ''b'')]])"
    "[JObj [(''id'', JStr ''a'')], JObj [(''id'', JStr ''b'')]] \<noteq> []" "JNull \<notin> set [JObj [(''id'', JStr ''a'')], JObj [(''id'', JStr ''b'')]]"
    "parseWatermark (field ?body ''watermark'') = Some 9" "int (length [JObj [(''id'', JStr ''a'')], JObj [(''id'', JStr ''b'')]]) \<le> 9"
    by code_simp+
  from phoenix_set_numbering [OF this, of "sample_tenv 5" sample_phoenix] show ?thesis by (simp only: Let_def)
qed

text \<open>
  C24. Messages of an earlier join are ignored: once the transport has rejoined (to fill a gap, or to
  continue a capped replay), no message that carries the reference of the join it left has any effect,
  at any later time of the connection.
\<close>

theorem phoenix_stale_ignored:
  assumes "s = run phoenix_step is (new_phoenix opts)" "x_joinRef s = Some r" "x_socket s" "te_ready env" "topic \<noteq> JStr ''phoenix''"
  shows "let s' = run phoenix_step js (rejoin env w s) in onPhoenixMessage env' (JStr r) ref topic event payload s' = s'"
proof -
  have "refs_ok s" unfolding assms(1) by (intro refs.run_good) (simp add: refs_ok_def new_phoenix_def)
  with assms(2) obtain k where k: "r = nat_str k" "k \<le> Suc (x_ref s)" by (auto simp: refs_ok_def)
  define s1 where "s1 = snd (push env (Some r) (x_topic s) ''phx_leave'' (JObj []) s)"
  have s1: "x_ref s1 = Suc (x_ref s)" using assms(3, 4) by (simp add: s1_def push_refs)
  have "rejoin env w s = join env (Some w) (s1\<lparr>x_watermark := Some w\<rparr>)" using assms(2) by (simp add: rejoin_def s1_def)
  moreover have "joined_after k (join env (Some w) (s1\<lparr>x_watermark := Some w\<rparr>))"
    using join_refs(2) [of "s1\<lparr>x_watermark := Some w\<rparr>" env "Some w"] s1 k(2) by (auto simp: joined_after_def join_refs(1))
  ultimately have "joined_after k (run phoenix_step js (rejoin env w s))" by (simp add: later_join.run_good)
  then show ?thesis using assms(5) k(1) by (auto simp: onPhoenixMessage_def joined_after_def ref_json_def Let_def)
qed

theorem phoenix_stale_ignored_witness:
  "let s' = rejoin (sample_tenv 3) 7 sample_phoenix
   in onPhoenixMessage (sample_tenv 4) (JStr ''1'') JNull (JStr ''converger:conversation:c'') (JStr ''phx_close'') JNull s' = s'"
proof -
  have "x_joinRef sample_phoenix = Some ''1''" "x_socket sample_phoenix" "te_ready (sample_tenv 3)" "JStr ''converger:conversation:c'' \<noteq> JStr ''phoenix''"
    by code_simp+
  from phoenix_stale_ignored [OF sample_phoenix_def this, of "[]" 7 "sample_tenv 4" JNull "JStr ''phx_close''" JNull]
  show ?thesis by simp
qed

text \<open>
  A dead connection is detected within two heartbeat intervals: when a heartbeat goes out and no
  message arrives before the next one is due, the transport closes, whatever else happens in between.
\<close>

theorem phoenix_dead_connection:
  assumes "x_heartbeat s = Armed h ()" "x_socket s" "te_ready env" "te_sends env" "\<And>i. i \<in> set is \<Longrightarrow> \<nexists>d. snd i = XMessage d"
  shows "x_closed (phoenix_step (env', XBeat) (run phoenix_step is (phoenix_step (env, XBeat) s)))"
proof -
  have "unanswered (phoenix_step (env, XBeat) s)"
    using assms(1-4) by (simp add: unanswered_def beat_def push_def x_perform_def Let_def)
  then have "unanswered (run phoenix_step is (phoenix_step (env, XBeat) s))" using assms(5) by (rule unanswered_run)
  then show ?thesis by (rule unanswered_beat)
qed

theorem phoenix_dead_connection_witness:
  "x_closed (phoenix_step (sample_tenv 60002, XBeat) (run phoenix_step [(sample_tenv 40000, XSend (Typing True))]
     (phoenix_step (sample_tenv 30002, XBeat) sample_phoenix)))"
proof -
  have "x_heartbeat sample_phoenix = Armed 30000 ()" "x_socket sample_phoenix" "te_ready (sample_tenv 30002)" "te_sends (sample_tenv 30002)"
    by code_simp+
  then show ?thesis by (rule phoenix_dead_connection) auto
qed

section \<open>Unanswered rejoins\<close>

text \<open>One heartbeat and its answer, followed by the connect timeout coming due.\<close>

definition quiet_round :: "tenv \<Rightarrow> phoenix \<Rightarrow> phoenix" where
  "quiet_round env s =
     (let s1 = phoenix_step (env, XBeat) s;
          s2 = onPhoenixMessage env JNull (ref_json (x_pendingHeartbeat s1)) (JStr ''phoenix'') (JStr ''phx_reply'') (JObj []) s1
      in phoenix_step (env, XConnectTimeout) s2)"

text \<open>Open, not joined, and with no timer that watches the join.\<close>

definition stranded :: "phoenix \<Rightarrow> bool" where
  "stranded s \<longleftrightarrow> \<not> x_closed s \<and> \<not> x_joined s \<and> x_pendingHeartbeat s = None \<and> (\<forall>d. x_connectTimer s \<noteq> Armed d ())"

definition strand_view :: "phoenix \<Rightarrow> bool \<times> bool \<times> unit timer" where
  "strand_view s = (x_closed s, x_joined s, x_connectTimer s)"

lemma push_strand [simp]: "strand_view (snd (push env j t e p s)) = strand_view s"
  by (simp add: push_def x_perform_def strand_view_def Let_def)

lemma join_strand [simp]: "strand_view (join env w s) = (x_closed s, False, x_connectTimer s)"
proof -
  have "strand_view (join env w s) = strand_view (s\<lparr>x_joined := False, x_joinRef := Some (nat_str (x_ref s + 1))\<rparr>)"
    by (simp only: join_def Let_def push_strand)
  then show ?thesis by (simp add: strand_view_def)
qed

lemma rejoin_strand: "strand_view (rejoin env w s) = (x_closed s, False, x_connectTimer s)"
proof (cases "x_joinRef s")
  case (Some r)
  define s1 where "s1 = snd (push env (Some r) (x_topic s) ''phx_leave'' (JObj []) s)"
  have "strand_view s1 = strand_view s" by (simp add: s1_def)
  moreover have "rejoin env w s = join env (Some w) (s1\<lparr>x_watermark := Some w\<rparr>)" using Some by (simp add: rejoin_def s1_def)
  ultimately show ?thesis by (simp add: strand_view_def [of s] strand_view_def [of s1])
qed (simp add: rejoin_def)

lemma stranded_round: "stranded s \<Longrightarrow> stranded (quiet_round env s)"
proof -
  assume s: "stranded s"
  obtain r s1 where p: "push env None ''phoenix'' ''heartbeat'' (JObj []) s = (r, s1)" by fastforce
  have v: "strand_view s1 = strand_view s" "beat_view s1 = beat_view s"
    using p by (metis push_strand snd_conv, metis push_beat snd_conv)
  have beat: "phoenix_step (env, XBeat) s = (case x_heartbeat s of Armed _ _ \<Rightarrow> s1\<lparr>x_pendingHeartbeat := r\<rparr> | _ \<Rightarrow> s)"
    using s p by (simp add: stranded_def beat_def split: timer.split)
  then show ?thesis
    using s v by (auto simp: quiet_round_def onPhoenixMessage_def Let_def stranded_def strand_view_def beat_view_def split: timer.split)
qed

text \<open>
  C36. A rejoin is not watched: after the first join the connect timer is gone and \<open>#rejoin\<close> does not
  arm it again, so when the answer to a rejoin is lost while heartbeats are answered, the transport stays
  open and refuses every message for as long as the connection lasts, although a connection whose join is
  not answered in time should be given up.
\<close>

theorem phoenix_rejoin_unwatched:
  assumes "\<not> x_closed s" "\<And>d. x_connectTimer s \<noteq> Armed d ()" "x_pendingHeartbeat s = None"
  shows "let s' = (quiet_round env ^^ n) (rejoin env w s) in \<not> x_closed s' \<and> \<not> fst (phoenix_send e (Text m) s')"
proof -
  have "beat_view (rejoin env w s) = beat_view s" by simp
  then have "stranded (rejoin env w s)"
    using assms rejoin_strand [of env w s] by (simp add: stranded_def strand_view_def beat_view_def)
  then have "stranded ((quiet_round env ^^ n) (rejoin env w s))" by (induction n) (simp_all add: stranded_round)
  then show ?thesis by (simp add: stranded_def phoenix_send_def Let_def)
qed

theorem phoenix_rejoin_unwatched_witness:
  "\<not> x_closed ((quiet_round (sample_tenv 9) ^^ 100) (rejoin (sample_tenv 9) 4 sample_phoenix))"
proof -
  have "\<not> x_closed sample_phoenix" "x_connectTimer sample_phoenix = Spent" "x_pendingHeartbeat sample_phoenix = None" by code_simp+
  then show ?thesis using phoenix_rejoin_unwatched [of sample_phoenix, where env = "sample_tenv 9" and n = 100 and w = 4] by (auto simp only: Let_def timer.distinct)
qed

end
