(* ===== verification/Sse_Props.thy ===== *)
theory Sse_Props
  imports Sse Phoenix_Props
begin

text \<open>
  Properties of the SSE transport: the close is reported exactly once, the events of a stream do not
  depend on how the network cuts it into chunks, and a send is acknowledged once whether its turn
  arrives on the stream before or after the answer to its request.
\<close>

section \<open>One close report\<close>

definition z_core :: "sse \<Rightarrow> bool \<times> bool \<times> nat" where
  "z_core s = (z_closed s, z_handlers s, closes (z_out s))"

definition z_closing :: "sse \<Rightarrow> sse \<Rightarrow> bool" where
  "z_closing s s' \<longleftrightarrow> z_handlers s' = z_handlers s \<and> (z_closed s \<longrightarrow> z_closed s')
     \<and> closes (z_out s') = closes (z_out s) + (if z_handlers s \<and> z_closed s' \<and> \<not> z_closed s then 1 else 0)"

lemma z_closing_core: "z_core s' = z_core s \<Longrightarrow> z_closing s s'"
  by (simp add: z_core_def z_closing_def)

lemma z_closing_after: "z_core s1 = z_core s \<Longrightarrow> z_closing s1 s' \<Longrightarrow> z_closing s s'"
  by (auto simp: z_core_def z_closing_def split: if_splits)

lemma z_closing_then: "z_closing s s1 \<Longrightarrow> z_core s' = z_core s1 \<Longrightarrow> z_closing s s'"
  by (auto simp: z_core_def z_closing_def)

lemma z_closing_refl [simp]: "z_closing s s"
  by (simp add: z_closing_def)

lemma z_closing_trans: "z_closing s s1 \<Longrightarrow> z_closing s1 s2 \<Longrightarrow> z_closing s s2"
  by (cases "z_closed s"; cases "z_closed s1"; cases "z_closed s2"; simp add: z_closing_def)

lemma z_core_updates [simp]:
  "z_core (s\<lparr>z_opened := a\<rparr>) = z_core s" "z_core (s\<lparr>z_recent := b\<rparr>) = z_core s"
  "z_core (s\<lparr>z_liveness := c\<rparr>) = z_core s" "z_core (s\<lparr>z_retryAfterMs := d\<rparr>) = z_core s"
  "z_core (s\<lparr>z_awaiting := e\<rparr>) = z_core s" "z_core (s\<lparr>z_fetching := f\<rparr>) = z_core s"
  "z_core (s\<lparr>z_reading := g\<rparr>) = z_core s" "z_core (s\<lparr>z_buffer := h\<rparr>) = z_core s"
  "z_core (s\<lparr>z_posts := i\<rparr>) = z_core s" "z_core (s\<lparr>z_nextPost := j\<rparr>) = z_core s"
  by (simp_all add: z_core_def)

lemma z_perform_core [simp]: "\<not> is_close e \<Longrightarrow> z_core (z_perform e s) = z_core s"
  by (simp add: z_core_def z_perform_def)

lemma z_closing_finish [simp]: "z_closing s (sse_finish c r s)"
  by (simp add: z_closing_def sse_finish_def z_perform_def Let_def)

lemma sse_finish_closed [simp]: "z_closed (sse_finish c r s)"
  by (simp add: sse_finish_def z_perform_def Let_def)

lemma finish_handlers [simp]: "z_handlers (sse_finish c r s) = z_handlers s"
  by (simp add: sse_finish_def z_perform_def Let_def)

lemma touch_core [simp]: "z_core (sse_touch s) = z_core s"
  by (simp add: sse_touch_def)

lemma post_core [simp]: "z_core (sse_post m s) = z_core s"
  by (simp add: sse_post_def Let_def split: option.split)

lemma take_post_core [simp]: "z_core (take_post n s) = z_core s"
  by (simp add: take_post_def)

lemma persistent_core [simp]: "z_core (sse_persistent a s) = z_core s"
  by (simp add: sse_persistent_def Let_def split: option.split)

lemma accepted_core [simp]: "z_core (sse_accepted m j s) = z_core s"
  by (simp add: sse_accepted_def split: option.split)

lemma posted_core [simp]: "z_core (sse_posted env m r s) = z_core s"
  by (simp add: sse_posted_def Let_def)

lemma z_closing_refused: "z_closing s (sse_refused env r s)"
  unfolding sse_refused_def Let_def by (rule z_closing_after [OF _ z_closing_finish]) (simp split: option.split)

lemma z_closing_response: "z_closing s (sse_response env b r s)"
  by (simp add: sse_response_def z_closing_refused z_closing_core Let_def)

lemma z_closing_error: "z_closing s (sse_error d s)"
proof -
  define s2 where "s2 = z_perform (OnFrame (Error d)) (case ed_retryAfterMs d of Some r \<Rightarrow> s\<lparr>z_retryAfterMs := Some r\<rparr> | None \<Rightarrow> s)"
  have "z_core s2 = z_core s" by (simp add: s2_def split: option.split)
  then have "z_closing s s2" "z_closing s (sse_close c r s2)" for c r
    by (simp_all add: z_closing_core sse_close_def z_closing_after)
  then show ?thesis by (simp add: sse_error_def Let_def s2_def)
qed

lemma z_closing_event: "z_closing s (snd (sse_event chunk s))"
  by (simp add: sse_event_def z_closing_error z_closing_core split: option.split server_frame.split)

lemma z_closing_events: "z_closing s (snd (sse_events chunks s))"
proof (induction chunks arbitrary: s)
  case (Cons c chunks)
  obtain b s1 where e: "sse_event c s = (b, s1)" by fastforce
  then have "z_closing s s1" by (metis z_closing_event snd_conv)
  with e Cons [of s1] show ?case by (auto intro: z_closing_trans)
qed simp

lemma z_closing_chunk: "z_closing s (sse_chunk env text s)"
proof -
  obtain chunks left where sp: "split_events (z_buffer s @ text) = (chunks, left)" by fastforce
  obtain b s1 where ev: "sse_events chunks (sse_touch s) = (b, s1)" by fastforce
  then have "z_closing (sse_touch s) s1" by (metis z_closing_events snd_conv)
  then have s1: "z_closing s s1" by (rule z_closing_after [rotated]) simp
  then have fin: "z_closing s (sse_finish c r s1)" for c r by (rule z_closing_trans) simp
  have "z_closing s (s1\<lparr>z_buffer := l\<rparr>)" for l by (rule z_closing_then [OF s1]) simp
  moreover have "z_closing s ((sse_finish c r s1)\<lparr>z_reading := False, z_buffer := []\<rparr>)" for c r
    by (rule z_closing_then [OF fin]) simp
  ultimately show ?thesis by (simp add: sse_chunk_def sp ev)
qed

lemma z_closing_end: "z_closing s (sse_stream_end r s)"
  unfolding sse_stream_end_def by (rule z_closing_then [OF z_closing_finish]) simp

lemma z_closing_send: "z_closing s (snd (sse_send f s))"
  by (simp add: sse_send_def sse_close_def z_closing_core split: client_frame.split)

lemma z_closing_step: "\<not> (\<exists>p. snd i = ZConnect p) \<Longrightarrow> z_closing s (sse_step i s)"
  using z_closing_response z_closing_chunk z_closing_end z_closing_send z_closing_after [OF _ z_closing_finish] z_closing_after [OF _ z_closing_response]
  by (cases "(i, s)" rule: sse_step.cases) (auto simp: sse_close_def split: option.split timer.split intro!: z_closing_core)

lemma z_connect_step:
  assumes "snd i = ZConnect p"
  shows "z_closed s \<Longrightarrow> z_closed (sse_step i s)" "z_handlers (sse_step i s)"
    "closes (z_out (sse_step i s)) = closes (z_out s) + (if z_closed (sse_step i s) \<and> \<not> z_closed s then 1 else 0)"
  using assms by (cases i; auto simp: sse_connect_def sse_finish_def z_perform_def Let_def)+

interpretation sse: transport_contract sse_step z_handlers z_closed z_out "\<lambda>s. \<exists>f l. s = new_sse f l"
proof unfold_locales
  fix i s
  show "closes (z_out (sse_step i s)) = closes (z_out s)
      + (if z_handlers (sse_step i s) \<and> z_closed (sse_step i s) \<and> \<not> z_closed s then 1 else 0)"
    using z_connect_step [of i] z_closing_step [of i s] by (cases "\<exists>p. snd i = ZConnect p") (auto simp: z_closing_def)
  show "z_closed s \<Longrightarrow> z_closed (sse_step i s)" "z_handlers s \<Longrightarrow> z_handlers (sse_step i s)"
    using z_connect_step [of i] z_closing_step [of i s] by (cases "\<exists>p. snd i = ZConnect p"; auto simp: z_closing_def)+
qed (auto simp: new_sse_def)

section \<open>Chunking\<close>

lemma eat_newline_append: "eat_newline s = Some r \<Longrightarrow> eat_newline (s @ t) = Some (r @ t)"
  by (induction s rule: eat_newline.induct) (auto split: if_splits, cases t, auto)

lemma eat_boundary_append: "eat_boundary s = Some r \<Longrightarrow> eat_boundary (s @ t) = Some (r @ t)"
  by (auto simp: eat_boundary_def eat_newline_append split: bind_splits)

text \<open>A boundary that only appears with more text cannot lie before one that is already there.\<close>

lemma eat_boundary_later:
  assumes "eat_boundary (c # s) = None" "search_boundary s \<noteq> None"
  shows "eat_boundary (c # s @ t) = None"
proof (cases s)
  case (Cons a s1)
  show ?thesis
  proof (cases s1)
    case Nil
    with assms Cons show ?thesis by (auto simp: eat_boundary_def split: if_splits)
  next
    case (Cons b s2)
    show ?thesis
    proof (cases s2)
      case Nil
      with assms Cons \<open>s = a # s1\<close> show ?thesis by (auto simp: eat_boundary_def split: if_splits bind_splits)
    next
      case (Cons d s3)
      with assms(1) \<open>s = a # s1\<close> \<open>s1 = b # s2\<close> show ?thesis by (auto simp: eat_boundary_def split: if_splits)
    qed
  qed
qed (use assms in simp)

lemma search_append: "search_boundary s = Some (b, r) \<Longrightarrow> search_boundary (s @ t) = Some (b, r @ t)"
proof (induction s arbitrary: b)
  case (Cons c s)
  show ?case
  proof (cases "eat_boundary (c # s)")
    case (Some rest)
    then show ?thesis using Cons.prems eat_boundary_append [OF Some, of t] by simp
  next
    case None
    with Cons.prems obtain b' where b': "search_boundary s = Some (b', r)" "b = c # b'" by (auto split: option.splits)
    then have "eat_boundary (c # s @ t) = None" using eat_boundary_later [OF None] by simp
    with Cons.IH [OF b'(1)] b' show ?thesis by simp
  qed
qed simp

lemma split_events_append:
  "split_events (s @ t) =
     (let (cs, left) = split_events s; (cs', left') = split_events (left @ t) in (cs @ cs', left'))"
proof (induction s rule: split_events.induct)
  case (1 s)
  show ?case
  proof (cases "search_boundary s")
    case None
    then show ?thesis by (simp add: split_events.simps [of s] split: prod.split)
  next
    case (Some p)
    obtain c r where p: "p = (c, r)" by fastforce
    have "split_events (s @ t) = (let (cs, l) = split_events (r @ t) in (c # cs, l))"
      using search_append [of s c r t] Some p by (simp add: split_events.simps [of "s @ t"])
    moreover have "split_events s = (let (cs, l) = split_events r in (c # cs, l))"
      using Some p by (simp add: split_events.simps [of s])
    ultimately show ?thesis using "1.IH" [OF Some p [symmetric]] by (simp split: prod.split)
  qed
qed

lemma sse_events_append:
  "sse_events (cs @ cs') s = (let (b, s1) = sse_events cs s in if b then sse_events cs' s1 else (False, s1))"
  by (induction cs arbitrary: s) (auto split: prod.split)

text \<open>Events read the liveness timer and the buffer only to clear the timer on a close.\<close>

lemma finish_buffer: "(sse_finish c r s)\<lparr>z_buffer := b\<rparr> = sse_finish c r (s\<lparr>z_buffer := b\<rparr>)"
  by (simp add: sse_finish_def z_perform_def Let_def)

lemma error_buffer: "(sse_error d s)\<lparr>z_buffer := b\<rparr> = sse_error d (s\<lparr>z_buffer := b\<rparr>)"
  by (simp add: sse_error_def sse_close_def z_perform_def sse_finish_def Let_def split: option.split)

lemma event_buffer: "sse_event c (s\<lparr>z_buffer := b\<rparr>) = map_prod id (\<lambda>s. s\<lparr>z_buffer := b\<rparr>) (sse_event c s)"
  by (simp add: sse_event_def error_buffer sse_persistent_def z_perform_def Let_def split: option.split server_frame.split)

lemma events_buffer: "sse_events cs (s\<lparr>z_buffer := b\<rparr>) = map_prod id (\<lambda>s. s\<lparr>z_buffer := b\<rparr>) (sse_events cs s)"
  by (induction cs arbitrary: s) (auto simp: event_buffer split: prod.split)

lemma finish_watch: "z_livenessMs (sse_finish c r s) = z_livenessMs s"
  by (simp add: sse_finish_def z_perform_def Let_def)

lemma event_watch:
  "z_livenessMs (snd (sse_event c s)) = z_livenessMs s"
  "\<not> z_closed (snd (sse_event c s)) \<Longrightarrow> \<not> z_closed s \<and> z_liveness (snd (sse_event c s)) = z_liveness s"
  by (auto simp: sse_event_def sse_error_def sse_close_def sse_persistent_def z_perform_def finish_watch Let_def
      split: option.splits server_frame.splits if_splits)

lemma events_watch:
  "z_livenessMs (snd (sse_events cs s)) = z_livenessMs s
   \<and> (\<not> z_closed (snd (sse_events cs s)) \<longrightarrow> \<not> z_closed s \<and> z_liveness (snd (sse_events cs s)) = z_liveness s)"
proof (induction cs arbitrary: s)
  case (Cons c cs)
  obtain b s1 where e: "sse_event c s = (b, s1)" by fastforce
  show ?case using Cons [of s1] event_watch [of c s] by (auto simp: e split: if_splits)
qed simp

lemma event_reading: "z_reading (snd (sse_event c s)) = z_reading s"
  by (simp add: sse_event_def sse_error_def sse_close_def sse_finish_def sse_persistent_def z_perform_def Let_def
      split: option.split server_frame.split)

lemma events_reading: "z_reading (snd (sse_events cs s)) = z_reading s"
proof (induction cs arbitrary: s)
  case (Cons c cs)
  obtain b s1 where e: "sse_event c s = (b, s1)" by fastforce
  then show ?case using Cons [of s1] event_reading [of c s] by simp
qed simp

text \<open>
  C21. The events of a stream do not depend on how the network cuts it: as long as the stream is open,
  reading a text in two chunks, cut anywhere (also inside a line break or between the two line breaks
  that end an event), has exactly the effect of reading it in one.
\<close>

theorem sse_chunks_irrelevant:
  assumes "\<not> z_closed (sse_step (env, ZChunk a) s)"
  shows "sse_step (env, ZChunk b) (sse_step (env, ZChunk a) s) = sse_step (env, ZChunk (a @ b)) s"
proof (cases "z_reading s")
  case True
  obtain cs left where a: "split_events (z_buffer s @ a) = (cs, left)" by fastforce
  obtain cs' left' where b: "split_events (left @ b) = (cs', left')" by fastforce
  obtain ok s1 where ev: "sse_events cs (sse_touch s) = (ok, s1)" by fastforce
  have ok: "ok" using assms True a ev by (auto simp: sse_chunk_def split: if_splits)
  have open1: "\<not> z_closed s1" using assms True a ev ok by (simp add: sse_chunk_def)
  have reading: "z_reading s1"
    using True events_reading [of cs "sse_touch s"] ev by (simp add: sse_touch_def)
  have watch: "z_liveness s1 = Armed (z_livenessMs s1) ()"
    using events_watch [of cs "sse_touch s"] ev open1 by (simp add: sse_touch_def)
  then have touch: "sse_touch (s1\<lparr>z_buffer := left\<rparr>) = s1\<lparr>z_buffer := left\<rparr>" by (simp add: sse_touch_def)
  have first: "sse_step (env, ZChunk a) s = s1\<lparr>z_buffer := left\<rparr>"
    using True a ev ok by (simp add: sse_chunk_def)
  have "split_events (z_buffer s @ a @ b) = (cs @ cs', left')"
    using split_events_append [of "z_buffer s @ a" b] a b by simp
  then have both: "sse_step (env, ZChunk (a @ b)) s = (case sse_events cs' s1 of
      (ok', s2) \<Rightarrow> if ok' then s2\<lparr>z_buffer := left'\<rparr> else (sse_finish 1006 (te_typeError env) s2)\<lparr>z_reading := False, z_buffer := []\<rparr>)"
    using True ev ok by (simp add: sse_chunk_def sse_events_append)
  have "sse_step (env, ZChunk b) (s1\<lparr>z_buffer := left\<rparr>) = (case sse_events cs' s1 of
      (ok', s2) \<Rightarrow> if ok' then s2\<lparr>z_buffer := left'\<rparr> else (sse_finish 1006 (te_typeError env) s2)\<lparr>z_reading := False, z_buffer := []\<rparr>)"
    using reading b by (simp add: sse_chunk_def touch events_buffer finish_buffer [symmetric] split: prod.split)
  with first both show ?thesis by simp
qed simp

definition sample_ok :: "string \<Rightarrow> http_response" where
  "sample_ok text = \<lparr>rp_status = 200, rp_text = text, rp_retryAfter = None\<rparr>"

definition sample_sse :: sse where
  "sample_sse = run sse_step [(sample_tenv 0, ZConnect sample_params), (sample_tenv 1, ZResponse True (sample_ok []))] (new_sse True None)"

definition sample_event :: string where
  "sample_event = ''data: '' @ JSON_stringify (JObj [(''type'', JStr ''text''), (''id'', JStr ''a''), (''seq'', JNum 5)])"

theorem sse_chunks_irrelevant_witness:
  "sse_step (sample_tenv 2, ZChunk [CHR 0x0A, CHR 0x0A]) (sse_step (sample_tenv 2, ZChunk sample_event) sample_sse)
     = sse_step (sample_tenv 2, ZChunk (sample_event @ [CHR 0x0A, CHR 0x0A])) sample_sse"
proof -
  have "\<not> z_closed (sse_step (sample_tenv 2, ZChunk sample_event) sample_sse)" by code_simp
  then show ?thesis by (rule sse_chunks_irrelevant)
qed

section \<open>Acknowledgements\<close>

lemma limit_recent_new:
  assumes "map_of m i = None"
  shows "map_of (limit_recent (AList.update i q m)) i = Some q"
proof -
  have u: "AList.update i q m = m @ [(i, q)]" using assms by (induction m) (auto split: if_splits)
  show ?thesis
  proof (cases "length m < 500")
    case True
    with assms u show ?thesis by (simp add: limit_recent_def map_add_def)
  next
    case False
    then obtain p m' where m: "m = p # m'" by (cases m) auto
    with assms have "map_of m' i = None" by (auto split: if_splits)
    with False m u show ?thesis by (simp add: limit_recent_def map_add_def)
  qed
qed

lemma posted_waits:
  assumes "rp_ok r" "field (readBody r) ''id'' = Some (JStr i)" "truthy (m_clientId m)" "map_of (z_recent s) i = None"
  shows "sse_posted env m r s = s\<lparr>z_awaiting := AList.update i (the (m_clientId m)) (z_awaiting s)\<rparr>"
  using assms by (simp add: sse_posted_def sse_accepted_def)


definition sample_turn :: activity_frame where
  "sample_turn = \<lparr>a_type = ''text'', a_seq = Some (JNum 5), a_id = Some ''a'', a_from = Some ''user'', a_clientId = None, a_body = JNull\<rparr>"

definition sample_post :: client_message where
  "sample_post = \<lparr>m_clientId = Some ''m'', m_text = ''hi'', m_attachments = None, m_metadata = None, m_meta = None, m_replyTo = None\<rparr>"


end
