(* ===== verification/Client_Props.thy ===== *)
theory Client_Props
  imports Client Conv_Send Phoenix_Props Sse_Props
begin

text \<open>
  Properties that span the client, its sessions and its transports: the sessions of a client run as
  the session properties say, closing the client keeps every outbox, and each built-in transport keeps
  the contract the session relies on.
\<close>

section \<open>Sessions of a client\<close>

lemma session_run_ok: "session_run (d, s) \<Longrightarrow> session_ok d s \<and> promise_ok s"
  by (auto simp: session_run_def new_store_def intro!: session_ok_run promises.run_good promise_ok_new)


definition sample_options :: client_options where
  "sample_options = \<lparr>o_baseUrl = Some ''https://h'', o_tokenProvider = True, o_transport = TransportsDefault,
     o_fallbackAfterAttempts = None, o_reconnect = ReconnectUndefined, o_storageKey = None, o_refreshSkewMs = None,
     o_fetch = Some (\<lambda>_. Inl ()), o_replayWaitMs = None, o_gapWaitMs = None\<rparr>"

definition sample_renv :: rest_env where
  "sample_renv = \<lparr>re_date_parse = (\<lambda>_. None), re_now = 0\<rparr>"

definition sample_client :: client where
  "sample_client = (case client_connect sample_renv None (Inr (TokenString ''t'')) 0 sample_options of
     Inr cl \<Rightarrow> (case conversation None None cl of Inr cl' \<Rightarrow> cl' | Inl _ \<Rightarrow> cl) | Inl _ \<Rightarrow> undefined)"

definition sample_running :: client where
  "sample_running = fold (session_step 0) (sample_inputs (sample_opening @ [CallSend (sample_message ''m'') []])) sample_client"

lemma sample_client_reach: "client_reach sample_client"
proof -
  obtain cl where cl: "client_connect sample_renv None (Inr (TokenString ''t'')) 0 sample_options = Inr cl"
    by (cases "client_connect sample_renv None (Inr (TokenString ''t'')) 0 sample_options")
       (simp_all add: client_connect_def sample_options_def http_prefix_def to_lower_def resolveTransports_def transport_list_def
          resolveTransport_def get_def new_token_manager_def fetch_def fetch_settled_def normalise_def info_of_def
          new_client_def restFor_def new_rest_client_def or_else_def Let_def)
  then have "client_reach cl" by (rule client_reach.connected)
  with cl show ?thesis
    by (auto simp: sample_client_def intro: client_reach.opened split: sum.split)
qed

lemma sample_running_reach: "client_reach sample_running"
proof -
  have "client_reach (fold (session_step 0) es cl)" if "client_reach cl" for es cl
    using that by (induction es arbitrary: cl) (auto intro: client_reach.input)
  then show ?thesis unfolding sample_running_def using sample_client_reach .
qed


text \<open>
  Closing the client stops every open conversation and keeps every outbox: afterwards each of them is
  stopped and without a transport, no promise is left waiting, and its unacknowledged sends are exactly
  those it had, ready for the next session.
\<close>

theorem client_close_keeps_outboxes:
  assumes "client_reach cl" "k \<in> set (cl_open cl)"
  shows "let s = snd (cl_sessions cl ! k); s' = snd (cl_sessions (client_close env cl) ! k) in
    c_stopped s' \<and> c_transport s' = None \<and> c_waiting s' = [] \<and> c_store s' = c_store s"
proof -
  have ok: "client_ok cl" using assms(1) by (rule client_reach_ok)
  obtain d s where ds: "cl_sessions cl ! k = (d, s)" by fastforce
  have "k < length (cl_sessions cl)" using ok assms(2) by (auto simp: client_ok_def list_all_iff)
  then have "cl_sessions (client_close env cl) ! k = (d, disconnect d s)"
    using fold_session_steps [of "cl_open cl" cl k "(env, CallDisconnect)"] ok assms(2) ds
    by (auto simp: client_close_def client_ok_def list_all_iff)
  moreover have "c_stopped (disconnect d s)" "c_transport (disconnect d s) = None" "c_waiting (disconnect d s) = []"
    "c_store (disconnect d s) = c_store s"
    by (simp_all add: disconnect_def drop_transport_def setConnState_def settle_ready_def rejectWaiting_def clearTimers_def
        perform_def emit_event_def Let_def split: option.split)
  ultimately show ?thesis by (simp add: ds)
qed

theorem client_close_keeps_outboxes_witness:
  "c_store (snd (cl_sessions (client_close sample_env sample_running) ! 0)) = c_store (snd (cl_sessions sample_running ! 0))"
proof -
  have "0 \<in> set (cl_open sample_running)" by code_simp
  from client_close_keeps_outboxes [OF sample_running_reach this, of sample_env] show ?thesis by (simp only: Let_def)
qed

section \<open>Transports\<close>

text \<open>
  C20. Every built-in transport reports the end of a connection attempt exactly once: after \<open>connect\<close>,
  whatever the socket, the server, the timers and the session do and in whatever order, the handler
  \<open>onClose\<close> has been called once if the transport is closed and not at all if it is not.
\<close>

theorem transports_close_once:
  "closes (n_out (run native_step is (native_step (env, NConnect ws p) (new_native no)))) =
     (if n_closed (run native_step is (native_step (env, NConnect ws p) (new_native no))) then 1 else 0)
   \<and> closes (x_out (run phoenix_step js (phoenix_step (env, XConnect ws p) (new_phoenix xo)))) =
     (if x_closed (run phoenix_step js (phoenix_step (env, XConnect ws p) (new_phoenix xo))) then 1 else 0)
   \<and> closes (z_out (run sse_step (( env, ZConnect p) # ks) (new_sse f l))) =
     (if z_closed (run sse_step ((env, ZConnect p) # ks) (new_sse f l)) then 1 else 0)"
proof -
  have n: "n_handlers (native_step (env, NConnect ws p) (new_native no))" "\<not> n_closed (native_step (env, NConnect ws p) (new_native no))"
    "closes (n_out (native_step (env, NConnect ws p) (new_native no))) = 0"
    by (simp_all add: new_native_def native_connect_def n_perform_def split: ws_result.split)
  have x: "x_handlers (phoenix_step (env, XConnect ws p) (new_phoenix xo))" "\<not> x_closed (phoenix_step (env, XConnect ws p) (new_phoenix xo))"
    "closes (x_out (phoenix_step (env, XConnect ws p) (new_phoenix xo))) = 0"
    using x_connect_step [of "(env, XConnect ws p)" ws p "new_phoenix xo"] by (simp_all add: new_phoenix_def)
  let ?z = "sse_step (env, ZConnect p) (new_sse f l)"
  have z: "z_handlers ?z" "closes (z_out ?z) = (if z_closed ?z then 1 else 0)"
    using z_connect_step [of "(env, ZConnect p)" p "new_sse f l"] by (simp_all add: new_sse_def)
  have "closes (z_out (run sse_step ks ?z)) = (if z_closed (run sse_step ks ?z) then 1 else 0)"
    using sse.run_closes_open [OF z(1), of ks] sse.run_closes_closed [of ?z ks] sse.run_closed [of ?z ks] z(2) by (cases "z_closed ?z") simp_all
  then show ?thesis using native.run_closes_open [OF n(1, 2), of "is"] phoenix.run_closes_open [OF x(1, 2), of js] n(3) x(3) by simp
qed

end
