(* ===== verification/Agent_Base.thy ===== *)
theory Agent_Base
  imports Rest Backoff
begin

text \<open>
  The small modules of the agent package: frame classification
  (\<open>packages/agent-ts/src/frames.ts\<close>), errors (\<open>errors.ts\<close>), the endpoint URL (\<open>socket.ts\<close>), channel
  tokens (\<open>token.ts\<close>) and the turn object (\<open>turn.ts\<close>). Agent frames are JSON objects, as in the source.
\<close>

section \<open>Frames\<close>

definition AGENT_PROTOCOL_VERSION :: string where "AGENT_PROTOCOL_VERSION = ''converger/1''"
definition AGENT_SUBPROTOCOL :: string where "AGENT_SUBPROTOCOL = ''converger.v1''"
definition DEFAULT_PATH :: string where "DEFAULT_PATH = ''/socket/converger/v1''"

definition NON_MESSAGE_TYPES :: "string list" where
  "NON_MESSAGE_TYPES =
    [''hello'', ''welcome'', ''resume'', ''genui_event'', ''client_tools'', ''client_skills'', ''abort'',
     ''tool_call'', ''skill'', ''skills'', ''genui'', ''genui_components'', ''interrupt'', ''interrupt_resolved'',
     ''run'', ''error'', ''typing'', ''survey'', ''regenerate'', ''edit'', ''ack'', ''deliveryStatus'', ''presence'',
     ''conversationUpdate'', ''endOfConversation'', ''event'', ''heartbeat'', ''ping'', ''read'', ''sync'', ''auth'',
     ''tokenRefreshed'', ''replayTruncated'', ''subscribe'', ''unsubscribe'', ''subscribed'', ''unsubscribed'',
     ''message'', ''activity'', ''activitySet'', ''frame'']"

definition UNACKED_TYPES :: "string list" where
  "UNACKED_TYPES =
    [''tool_call'', ''skill'', ''genui'', ''interrupt'', ''interrupt_resolved'', ''run'', ''genui_components'', ''skills'',
     ''error'', ''typing'', ''read'', ''sync'']"

text \<open>\<open>typeof v === "object" && v !== null\<close>: an array counts.\<close>

fun is_object :: "json option \<Rightarrow> bool" where
  "is_object (Some (JObj _)) = True"
| "is_object (Some (JArr _)) = True"
| "is_object _ = False"

definition isMessageFrame :: "json \<Rightarrow> bool" where
  "isMessageFrame f \<longleftrightarrow>
     (case as_str (field f ''type'') of
        Some t \<Rightarrow> t \<notin> set NON_MESSAGE_TYPES \<and> is_object (field f ''data'')
      | None \<Rightarrow> False)"

section \<open>Errors\<close>

definition RETRYABLE :: "string list" where
  "RETRYABLE = [''token_expired'', ''rate_limited'', ''too_many_in_flight'', ''slow_consumer'', ''busy'',
     ''bot_unavailable'', ''internal'', ''unavailable'', ''replay_unavailable'']"

record agent_error =
  ae_code :: string
  ae_message :: string
  ae_retryable :: bool
  ae_retryAfterMs :: "jsnum option"
  ae_conversationId :: "string option"
  ae_number :: "jsnum option"
  ae_clientId :: "string option"
  ae_frameType :: "string option"
  ae_details :: "json option"

text \<open>The constructor, with the options the callers use beside \<open>retryable\<close>.\<close>

definition new_agent_error ::
  "string \<Rightarrow> string \<Rightarrow> bool option \<Rightarrow> string option \<Rightarrow> string option \<Rightarrow> agent_error" where
  "new_agent_error code message retryable conversationId clientId =
     \<lparr>ae_code = code, ae_message = message,
      ae_retryable = (case retryable of Some b \<Rightarrow> b | None \<Rightarrow> code \<in> set RETRYABLE),
      ae_retryAfterMs = None, ae_conversationId = conversationId, ae_number = None, ae_clientId = clientId,
      ae_frameType = None, ae_details = None\<rparr>"

definition fatal_error :: "string \<Rightarrow> string \<Rightarrow> agent_error" where
  "fatal_error code message = new_agent_error code message (Some False) None None"

text \<open>\<open>AgentError.fromFrame\<close>, on the \<open>data\<close> of the frame read as the protocol declares it.\<close>

definition fromFrame :: "json \<Rightarrow> string option \<Rightarrow> agent_error" where
  "fromFrame frame conversationId =
     (let d = error_of_json (field frame ''data'') in
      \<lparr>ae_code = ed_code d, ae_message = (if ed_message d = [] then ed_code d else ed_message d),
       ae_retryable = (case ed_retryable d of Some b \<Rightarrow> b | None \<Rightarrow> ed_code d \<in> set RETRYABLE),
       ae_retryAfterMs = ed_retryAfterMs d, ae_conversationId = conversationId, ae_number = ed_number d,
       ae_clientId = ed_clientId d, ae_frameType = ed_frameType d, ae_details = ed_details d\<rparr>)"

datatype thrown = AgentThrow agent_error | OtherThrow string

fun isAgentError :: "thrown \<Rightarrow> string option \<Rightarrow> bool" where
  "isAgentError (AgentThrow e) code = (case code of None \<Rightarrow> True | Some c \<Rightarrow> ae_code e = c)"
| "isAgentError (OtherThrow _) code = False"

section \<open>Endpoint URLs\<close>

text \<open>
  A parsed URL (\<open>new URL(text)\<close>): the parser of the platform is an argument of the functions that use
  it and answers \<open>None\<close> where the constructor throws. \<open>url_rest\<close> is the query and the fragment.
\<close>

record url =
  url_protocol :: string
  url_host :: string
  url_pathname :: string
  url_rest :: string

definition url_text :: "url \<Rightarrow> string" where
  "url_text u = url_protocol u @ ''//'' @ url_host u @ url_pathname u @ url_rest u"

definition endpointUrl :: "(string \<Rightarrow> url option) \<Rightarrow> string \<Rightarrow> string \<Rightarrow> string option" where
  "endpointUrl parse u path =
     (let ws = (case http_prefix u of Some (s, r) \<Rightarrow> ''ws'' @ s @ ''://'' @ r | None \<Rightarrow> u) in
      case parse ws of
        None \<Rightarrow> None
      | Some p \<Rightarrow>
          Some (url_text (if url_pathname p = ''/'' \<or> url_pathname p = [] then p\<lparr>url_pathname := path\<rparr> else p)))"

text \<open>\<open>/^ws(s?):\/\//i\<close>.\<close>

definition ws_prefix :: "string \<Rightarrow> (string \<times> string) option" where
  "ws_prefix u =
     (if map to_lower (take 2 u) = ''ws'' then
        (let r = drop 2 u in
         if map to_lower (take 1 r) = ''s'' \<and> take 3 (drop 1 r) = ''://'' then Some (take 1 r, drop 4 r)
         else if take 3 r = ''://'' then Some ([], drop 3 r)
         else None)
      else None)"

definition httpBase :: "(string \<Rightarrow> url option) \<Rightarrow> string \<Rightarrow> string option" where
  "httpBase parse u =
     (let http = (case ws_prefix u of Some (s, r) \<Rightarrow> ''http'' @ s @ ''://'' @ r | None \<Rightarrow> u) in
      map_option (\<lambda>p. url_protocol p @ ''//'' @ url_host p) (parse http))"

section \<open>Channel tokens\<close>

datatype agent_token_reason = Connect | RefreshToken | RejectedToken

record channel_token_options =
  ct_url :: string
  ct_secret :: string
  ct_userId :: "string option"
  ct_permissions :: "string list option"

record channel_token =
  ctk_token :: string
  ctk_expiresIn :: jsnum

definition token_body :: "channel_token_options \<Rightarrow> json" where
  "token_body o' =
     JObj ([(''scope'', JStr ''channel'')]
       @ (if truthy (ct_userId o') then [(''user'', JObj [(''id'', JStr (the (ct_userId o')))])] else [])
       @ (case ct_permissions o' of Some ps \<Rightarrow> [(''permissions'', JArr (map JStr ps))] | None \<Rightarrow> []))"

definition token_request :: "string \<Rightarrow> channel_token_options \<Rightarrow> http_request" where
  "token_request base o' =
     \<lparr>rq_method = ''POST'', rq_url = base @ ''/api/v1/converger/tokens/generate'',
      rq_headers = [(''authorization'', ''Bearer '' @ ct_secret o'), (''content-type'', ''application/json'')],
      rq_body = Some (TextBody (JSON_stringify (token_body o')))\<rparr>"

definition token_refused :: "http_response \<Rightarrow> agent_error" where
  "token_refused r =
     new_agent_error (if rp_status r = 429 then ''rate_limited'' else ''http_error'')
       (''tokens/generate failed with HTTP '' @ int_str (rp_status r) @ '': '' @ take 300 (rp_text r))
       (Some (rp_status r = 429 \<or> rp_status r \<ge> 500)) None None"

text \<open>
  The outcome of the request: a rejected \<open>fetch\<close>, a body that is not JSON and a \<open>null\<close> body throw
  something that is no \<open>AgentError\<close>. \<open>g\<close> is the \<open>fetch\<close> in use (the option or the global one).
\<close>

definition generateChannelToken ::
  "(string \<Rightarrow> url option) \<Rightarrow> fetch_like option \<Rightarrow> channel_token_options \<Rightarrow> thrown + channel_token" where
  "generateChannelToken parse g o' =
     (case g of
        None \<Rightarrow> Inl (AgentThrow (new_agent_error ''token_error'' ''no fetch implementation: pass the `fetch` option'' None None None))
      | Some doFetch \<Rightarrow>
          (case httpBase parse (ct_url o') of
             None \<Rightarrow> Inl (OtherThrow ''Invalid URL'')
           | Some base \<Rightarrow>
               (case doFetch (token_request base o') of
                  Inl _ \<Rightarrow> Inl (OtherThrow ''fetch failed'')
                | Inr r \<Rightarrow>
                    if \<not> rp_ok r then Inl (AgentThrow (token_refused r))
                    else
                      (case JSON_parse (rp_text r) of
                         None \<Rightarrow> Inl (OtherThrow ''SyntaxError'')
                       | Some JNull \<Rightarrow> Inl (OtherThrow ''TypeError'')
                       | Some j \<Rightarrow>
                           (case as_str (field j ''token'') of
                              None \<Rightarrow> Inl (AgentThrow (new_agent_error ''http_error'' ''tokens/generate returned no token'' None None None))
                            | Some tok \<Rightarrow>
                                Inr \<lparr>ctk_token = tok,
                                     ctk_expiresIn = (case as_num (field j ''expires_in'') of Some x \<Rightarrow> x | None \<Rightarrow> 1800)\<rparr>)))))"

text \<open>
  \<open>channelTokenProvider\<close>: the closure's variables, a call of the returned function (\<open>Inl\<close> a token at
  once, \<open>Inr\<close> whether this call starts the request it waits for), and the end of the request.
\<close>

record channel_provider =
  cp_margin :: jsnum
  cp_cached :: "(string \<times> jsnum) option"
  cp_inflight :: bool

definition new_channel_provider :: "jsnum option \<Rightarrow> channel_provider" where
  "new_channel_provider refreshBeforeMs =
     \<lparr>cp_margin = or_default refreshBeforeMs 120000, cp_cached = None, cp_inflight = False\<rparr>"

definition provider_call :: "agent_token_reason option \<Rightarrow> jsnum \<Rightarrow> channel_provider \<Rightarrow> (string + bool) \<times> channel_provider" where
  "provider_call reason now p =
     (let p1 = (if reason = Some RejectedToken then p\<lparr>cp_cached := None\<rparr> else p) in
      case cp_cached p1 of
        Some (tok, expiresAt) \<Rightarrow>
          if expiresAt - cp_margin p1 > now then (Inl tok, p1)
          else (Inr (\<not> cp_inflight p1), p1\<lparr>cp_inflight := True\<rparr>)
      | None \<Rightarrow> (Inr (\<not> cp_inflight p1), p1\<lparr>cp_inflight := True\<rparr>))"

definition provider_settled :: "thrown + channel_token \<Rightarrow> jsnum \<Rightarrow> channel_provider \<Rightarrow> (thrown + string) \<times> channel_provider" where
  "provider_settled result now p =
     (case result of
        Inl e \<Rightarrow> (Inl e, p\<lparr>cp_inflight := False\<rparr>)
      | Inr r \<Rightarrow> (Inr (ctk_token r), p\<lparr>cp_cached := Some (ctk_token r, now + ctk_expiresIn r * 1000), cp_inflight := False\<rparr>))"

text \<open>A rejected token is not offered again, and requests do not overlap.\<close>

lemma provider_rejected: "\<exists>b. fst (provider_call (Some RejectedToken) now p) = Inr b"
  by (simp add: provider_call_def)

lemma provider_one_request:
  "cp_inflight p \<Longrightarrow> fst (provider_call reason now p) = Inr b \<Longrightarrow> \<not> b"
  by (auto simp: provider_call_def Let_def split: option.splits if_splits)

lemma provider_margin:
  "fst (provider_call reason now p) = Inl tok \<Longrightarrow> \<exists>e. cp_cached p = Some (tok, e) \<and> now < e - cp_margin p"
  by (auto simp: provider_call_def Let_def split: option.splits if_splits)

section \<open>Turns\<close>

definition MEDIA :: "string list" where
  "MEDIA = [''image'', ''file'', ''video'', ''audio'']"

text \<open>\<open>turn\<close> as the handler sees it; the abort signal and \<open>history\<close> belong to the agent that runs the turn.\<close>

record turn =
  tn_conversationId :: string
  tn_text :: string
  tn_message :: json
  tn_type :: string
  tn_data :: json
  tn_attachments :: "json list"
  tn_participant :: "json option"
  tn_channel :: "json option"
  tn_meta :: json
  tn_metadata :: json
  tn_action :: "json option"
  tn_replyTo :: "json option"
  tn_id :: "json option"
  tn_seq :: "json option"

definition record_or_empty :: "json option \<Rightarrow> json" where
  "record_or_empty v = (case as_record v of Some r \<Rightarrow> r | None \<Rightarrow> JObj [])"

text \<open>\<open>a ?? b\<close>: \<open>null\<close> falls through.\<close>

definition nullish :: "json option \<Rightarrow> json option \<Rightarrow> json option" where
  "nullish a b = (if a = None \<or> a = Some JNull then b else a)"

definition turn_text :: "json \<Rightarrow> json option \<Rightarrow> string" where
  "turn_text data action =
     (case or_else (as_str (field data ''text'')) (or_else (as_str (field data ''caption''))
             (or_else (as_str (field data ''title'')) (or_else (as_str (field data ''name''))
               (as_str (ofield action ''label''))))) of
        Some s \<Rightarrow> s
      | None \<Rightarrow> [])"

text \<open>\<open>{ ...data, contentType }\<close>.\<close>

fun with_field :: "string \<Rightarrow> json \<Rightarrow> json \<Rightarrow> json" where
  "with_field k v (JObj fs) = JObj (AList.update k v fs)"
| "with_field k v j = j"

definition turn_attachments :: "string \<Rightarrow> json \<Rightarrow> json list" where
  "turn_attachments type data =
     (case field data ''attachments'' of
        Some (JArr xs) \<Rightarrow> filter isRecord xs
      | _ \<Rightarrow>
          if type \<in> set MEDIA
          then [with_field ''contentType''
                  (JStr (case or_else (as_str (field data ''mimeType'')) (as_str (field data ''contentType'')) of
                           Some c \<Rightarrow> c | None \<Rightarrow> type)) data]
          else [])"

definition turn_channel :: "json \<Rightarrow> json \<Rightarrow> json option" where
  "turn_channel meta metadata =
     (case nullish (field meta ''channel'') (field metadata ''channel'') of
        Some (JStr c) \<Rightarrow> Some (JObj [(''type'', JStr c)])
      | v \<Rightarrow> as_record v)"

definition buildTurn :: "string \<Rightarrow> json \<Rightarrow> turn" where
  "buildTurn conversationId message =
     (let data = record_or_empty (field message ''data'');
          meta = record_or_empty (field message ''meta'');
          metadata = record_or_empty (field message ''metadata'');
          action = as_record (field metadata ''action'');
          type = str_field (Some message) ''type''
      in \<lparr>tn_conversationId = conversationId, tn_text = turn_text data action, tn_message = message,
          tn_type = type, tn_data = data, tn_attachments = turn_attachments type data,
          tn_participant = field message ''sender'', tn_channel = turn_channel meta metadata,
          tn_meta = meta, tn_metadata = metadata, tn_action = action, tn_replyTo = field message ''replyTo'',
          tn_id = field message ''id'', tn_seq = field message ''seq''\<rparr>)"

lemma turn_objects:
  "isRecord (tn_data (buildTurn c m))" "isRecord (tn_meta (buildTurn c m))" "isRecord (tn_metadata (buildTurn c m))"
  "a \<in> set (tn_attachments (buildTurn c m)) \<Longrightarrow> isRecord a"
proof -
  have r: "isRecord (record_or_empty v)" for v by (cases v rule: as_record.cases) (simp_all add: record_or_empty_def)
  then show "isRecord (tn_data (buildTurn c m))" "isRecord (tn_meta (buildTurn c m))" "isRecord (tn_metadata (buildTurn c m))"
    by (simp_all add: buildTurn_def Let_def)
  obtain fs where "record_or_empty (field m ''data'') = JObj fs" using r by (metis isRecord.elims(2))
  then show "a \<in> set (tn_attachments (buildTurn c m)) \<Longrightarrow> isRecord a"
    by (auto simp: buildTurn_def turn_attachments_def Let_def split: option.splits json.splits if_splits)
qed

end
