(* ===== verification/Reply.thy ===== *)
theory Reply
  imports Agent_Base
begin

text \<open>
  \<open>reply\<close>, the answer side of one turn, \<open>packages/agent-ts/src/reply.ts\<close>: \<open>ReplyImpl\<close> is the record
  \<open>reply\<close>, \<open>StreamImpl\<close> the record \<open>stream\<close>.

  Every call of \<open>core.send\<close> is appended to \<open>r_sent\<close> with what waits for its promise; the position is the
  name of the promise, and \<open>r_waits\<close> are the promises not settled yet; \<open>r_clientIds\<close> counts the calls of
  \<open>core.nextClientId\<close>. The code after an \<open>await\<close> runs in
  a step of its own: \<open>RSettled\<close> for a settled send, \<open>RAnswer\<close> for the answer to an interrupt,
  \<open>RFlushJob\<close>, \<open>RStreamContinue\<close> and \<open>RFinishContinue\<close> for the internal promise chains.
\<close>

section \<open>State\<close>

datatype stream_mode = Genui | TextMode | GenuiText

record core_config =
  cc_streamMode :: stream_mode
  cc_streamFlushMs :: jsnum
  cc_typingRefreshMs :: jsnum

datatype cont =
    NoCont
  | TypingSent bool
  | AskSent nat
  | AskResolved nat
  | Flushed nat
  | StreamSent nat
  | FinishTyping
  | FinishGenui
  | FinishRun

text \<open>Where \<open>#end\<close> of a stream is: waiting for the flushes, for the ack of its message, or done.\<close>

datatype end_phase = StreamOpen | EndFlush | EndSend | EndDone

record stream =
  sm_mode :: stream_mode
  sm_chunkId :: "nat option"
  sm_buffer :: string
  sm_text :: string
  sm_timer :: "unit timer"
  sm_jobs :: nat
  sm_sending :: bool
  sm_ending :: end_phase

text \<open>
  A pending \<open>ask\<close>: while its interrupt goes out, with the answer or rejection (\<open>Some None\<close>) that came
  already; then waiting for it.
\<close>

datatype ask_state = AskSending string "json option option" | AskWaiting string | AskDone

text \<open>Where \<open>#finish\<close> is: \<open>NotEnded\<close> is an unset \<open>#ending\<close>.\<close>

datatype finish_phase = NotEnded | FinStreams "nat list" | FinTyping | FinGenui | FinRun | FinDone

record reply =
  r_conversationId :: string
  r_core :: core_config
  r_run :: bool
  r_tools :: "(string \<times> (string \<times> jsnum)) list"
  r_streams :: "stream list"
  r_live :: "nat list"
  r_streamId :: "string option"
  r_chunkId :: nat
  r_genuiOpen :: bool
  r_typing :: "unit timer"
  r_typingOn :: bool
  r_ending :: finish_phase
  r_status :: string
  r_asks :: "ask_state list"
  r_sent :: "(json \<times> cont) list"
  r_waits :: "nat list"
  r_clientIds :: nat
  r_failed :: "agent_error list"

text \<open>The clock, \<open>randomHex(8)\<close> and \<open>core.nextClientId()\<close> of a call.\<close>

record renv =
  rv_now :: jsnum
  rv_random :: string
  rv_clientId :: string

section \<open>Sending\<close>

definition core_send :: "json \<Rightarrow> cont \<Rightarrow> reply \<Rightarrow> reply" where
  "core_send frame c s = s\<lparr>r_sent := r_sent s @ [(frame, c)], r_waits := r_waits s @ [length (r_sent s)]\<rparr>"

definition reply_fail :: "agent_error \<Rightarrow> reply \<Rightarrow> reply" where
  "reply_fail e s = s\<lparr>r_failed := r_failed s @ [e]\<rparr>"

definition reply_ended :: "reply \<Rightarrow> bool" where
  "reply_ended s \<longleftrightarrow> r_ending s \<noteq> NotEnded"

definition sendRun :: "string \<Rightarrow> cont \<Rightarrow> reply \<Rightarrow> reply" where
  "sendRun status c s = core_send (JObj [(''type'', JStr ''run''), (''data'', JObj [(''status'', JStr status)])]) c s"

definition new_reply :: "string \<Rightarrow> core_config \<Rightarrow> bool \<Rightarrow> reply" where
  "new_reply cid core rn =
     (let s = \<lparr>r_conversationId = cid, r_core = core, r_run = rn, r_tools = [], r_streams = [], r_live = [],
               r_streamId = None, r_chunkId = 0, r_genuiOpen = False, r_typing = Unset, r_typingOn = False,
               r_ending = NotEnded, r_status = ''finished'', r_asks = [], r_sent = [], r_waits = [], r_clientIds = 0, r_failed = []\<rparr>
      in if rn then sendRun ''started'' NoCont s else s)"

text \<open>The getter \<open>streamId\<close> draws an id the first time.\<close>

definition streamId :: "renv \<Rightarrow> reply \<Rightarrow> string \<times> reply" where
  "streamId env s =
     (case r_streamId s of
        Some i \<Rightarrow> (i, s)
      | None \<Rightarrow> (let i = ''stream-'' @ rv_random env in (i, s\<lparr>r_streamId := Some i\<rparr>)))"

definition nextChunkId :: "reply \<Rightarrow> nat \<times> reply" where
  "nextChunkId s = (Suc (r_chunkId s), s\<lparr>r_chunkId := Suc (r_chunkId s)\<rparr>)"

definition genui_frame :: "string \<Rightarrow> bool \<Rightarrow> json \<Rightarrow> json" where
  "genui_frame sid fin chunk =
     JObj [(''type'', JStr ''genui''), (''streamId'', JStr sid), (''done'', JBool fin), (''chunk'', chunk)]"

definition sendChunk :: "renv \<Rightarrow> json \<Rightarrow> cont \<Rightarrow> reply \<Rightarrow> reply" where
  "sendChunk env chunk c s =
     (let (sid, s1) = streamId env (s\<lparr>r_genuiOpen := True\<rparr>) in core_send (genui_frame sid False chunk) c s1)"

definition stopTypingTimer :: "reply \<Rightarrow> reply" where
  "stopTypingTimer s = s\<lparr>r_typing := Unset\<rparr>"

section \<open>Messages\<close>

definition lower_char :: "char \<Rightarrow> bool" where
  "lower_char c \<longleftrightarrow> (let n = (of_char c :: nat) in 97 \<le> n \<and> n \<le> 122)"

text \<open>\<open>/^[a-z][a-z0-9_-]{0,63}$/\<close>.\<close>

definition valid_type :: "string \<Rightarrow> bool" where
  "valid_type t \<longleftrightarrow>
     t \<noteq> [] \<and> lower_char (hd t) \<and> length t \<le> 64
     \<and> list_all (\<lambda>c. lower_char c \<or> is_digit c \<or> c = CHR ''_'' \<or> c = CHR ''-'') (tl t)"

record send_options =
  sd_actions :: "json list option"
  sd_metadata :: "json option"
  sd_replyTo :: "json option"
  sd_id :: "string option"

definition no_send_options :: send_options where
  "no_send_options = \<lparr>sd_actions = None, sd_metadata = None, sd_replyTo = None, sd_id = None\<rparr>"

definition message_frame :: "string \<Rightarrow> json \<Rightarrow> send_options \<Rightarrow> string \<Rightarrow> json" where
  "message_frame type data o' clientId =
     JObj ([(''type'', JStr type), (''clientId'', JStr clientId), (''data'', data)]
       @ (case sd_actions o' of Some (a # as) \<Rightarrow> [(''actions'', JArr (a # as))] | _ \<Rightarrow> [])
       @ opt_field ''metadata'' (sd_metadata o')
       @ opt_field ''replyTo'' (sd_replyTo o')
       @ (if truthy (sd_id o') then [(''id'', JStr (the (sd_id o')))] else []))"

definition reply_message :: "renv \<Rightarrow> string \<Rightarrow> json \<Rightarrow> send_options \<Rightarrow> cont \<Rightarrow> reply \<Rightarrow> reply" where
  "reply_message env type data o' c s =
     (if \<not> valid_type type
      then reply_fail (fatal_error ''invalid_message'' (''invalid message type: '' @ type)) s
      else core_send (message_frame type data o' (rv_clientId env)) c ((stopTypingTimer s)\<lparr>r_clientIds := Suc (r_clientIds s), r_typingOn := False\<rparr>))"

definition text_data :: "string \<Rightarrow> json" where
  "text_data txt = JObj [(''text'', JStr txt)]"

definition reply_text :: "renv \<Rightarrow> string \<Rightarrow> send_options \<Rightarrow> cont \<Rightarrow> reply \<Rightarrow> reply" where
  "reply_text env txt o' c s = reply_message env ''text'' (text_data txt) o' c s"

definition reply_sendText :: "renv \<Rightarrow> string \<Rightarrow> cont \<Rightarrow> reply \<Rightarrow> reply" where
  "reply_sendText env txt c s = reply_text env txt no_send_options c s"

definition reply_send :: "json \<Rightarrow> reply \<Rightarrow> reply" where
  "reply_send frame s = core_send frame NoCont s"

record tool_options =
  to_name :: "string option"
  to_description :: "string option"
  to_params :: "json option"
  to_result :: "json option"
  to_error :: "string option"

definition tool_data :: "renv \<Rightarrow> string \<Rightarrow> string \<Rightarrow> string \<Rightarrow> jsnum \<Rightarrow> tool_options \<Rightarrow> json" where
  "tool_data env i name status startedAt o' =
     JObj ([(''id'', JStr i), (''name'', JStr name), (''status'', JStr status), (''startedAt'', JNum startedAt)]
       @ opt_field ''description'' (map_option JStr (to_description o'))
       @ opt_field ''params'' (to_params o') @ opt_field ''result'' (to_result o')
       @ opt_field ''error'' (map_option JStr (to_error o'))
       @ (if status \<noteq> ''running'' then [(''endedAt'', JNum (rv_now env))] else []))"

definition toolCall :: "renv \<Rightarrow> string \<Rightarrow> string \<Rightarrow> tool_options \<Rightarrow> reply \<Rightarrow> reply" where
  "toolCall env i status o' s =
     (let known = map_of (r_tools s) i;
          name = or_else (to_name o') (map_option fst known)
      in if \<not> truthy name
         then reply_fail (fatal_error ''invalid_message'' (''toolCall('' @ i @ '') needs a name on its first call'')) s
         else
           (let startedAt = (case known of Some (_, t) \<Rightarrow> t | None \<Rightarrow> rv_now env)
            in core_send (JObj [(''type'', JStr ''tool_call''), (''data'', tool_data env i (the name) status startedAt o')]) NoCont
                 (s\<lparr>r_tools := AList.update i (the name, startedAt) (r_tools s)\<rparr>)))"

definition reply_ui :: "renv \<Rightarrow> string \<Rightarrow> json \<Rightarrow> json option \<Rightarrow> reply \<Rightarrow> reply" where
  "reply_ui env component props given s =
     (let (i, s1) = (case given of
                       Some j \<Rightarrow> (j, s)
                     | None \<Rightarrow> (let (n, s') = nextChunkId s in (JNum (of_nat n), s')))
      in sendChunk env (JObj [(''type'', JStr ''ui''), (''component'', JStr component), (''props'', props), (''id'', i)]) NoCont s1)"

section \<open>Asking\<close>

record ask_options =
  aq_actions :: "json list option"
  aq_ui :: "json option"
  aq_id :: "string option"

definition ask_data :: "json \<Rightarrow> ask_options \<Rightarrow> json" where
  "ask_data payload o' =
     JObj ([(''payload'', case payload of JStr t \<Rightarrow> JObj [(''title'', JStr t)] | p \<Rightarrow> p)]
       @ (case aq_actions o' of Some (a # as) \<Rightarrow> [(''actions'', JArr (a # as))] | _ \<Rightarrow> [])
       @ opt_field ''ui'' (aq_ui o'))"

text \<open>
  \<open>ask\<close> registers for the answer (the core's \<open>waitForAnswer\<close>) and sends the interrupt; the ask is the
  element of \<open>r_asks\<close> at the position its continuation names.
\<close>

definition reply_ask :: "renv \<Rightarrow> json \<Rightarrow> ask_options \<Rightarrow> reply \<Rightarrow> reply" where
  "reply_ask env payload o' s =
     (let i = (case aq_id o' of Some i \<Rightarrow> i | None \<Rightarrow> ''ask-'' @ rv_random env);
          s1 = (stopTypingTimer s)\<lparr>r_asks := r_asks s @ [AskSending i None]\<rparr>
      in core_send (JObj [(''type'', JStr ''interrupt''), (''id'', JStr i), (''data'', ask_data payload o')])
           (AskSent (length (r_asks s))) s1)"

definition ask_resolved :: "nat \<Rightarrow> string \<Rightarrow> json \<Rightarrow> reply \<Rightarrow> reply" where
  "ask_resolved n i v s =
     core_send (JObj [(''type'', JStr ''interrupt_resolved''), (''id'', JStr i), (''data'', JObj [(''answer'', v)])])
       (AskResolved n) (s\<lparr>r_asks := (r_asks s)[n := AskDone]\<rparr>)"

text \<open>After the interrupt went out: \<open>run interrupted\<close>, then the answer, which may be there already.\<close>

definition ask_sent :: "nat \<Rightarrow> bool \<Rightarrow> reply \<Rightarrow> reply" where
  "ask_sent n ok s =
     (if n < length (r_asks s) then
        (case r_asks s ! n of
           AskSending i answer \<Rightarrow>
             if \<not> ok then s\<lparr>r_asks := (r_asks s)[n := AskDone]\<rparr>
             else
               (let s1 = (if r_run s then sendRun ''interrupted'' NoCont s else s) in
                case answer of
                  None \<Rightarrow> s1\<lparr>r_asks := (r_asks s1)[n := AskWaiting i]\<rparr>
                | Some None \<Rightarrow> s1\<lparr>r_asks := (r_asks s1)[n := AskDone]\<rparr>
                | Some (Some v) \<Rightarrow> ask_resolved n i v s1)
         | _ \<Rightarrow> s)
      else s)"

text \<open>The answer (\<open>Some v\<close>) or its rejection.\<close>

definition ask_answer :: "nat \<Rightarrow> json option \<Rightarrow> reply \<Rightarrow> reply" where
  "ask_answer n answer s =
     (if n < length (r_asks s) then
        (case (r_asks s ! n, answer) of
           (AskSending i None, v) \<Rightarrow> s\<lparr>r_asks := (r_asks s)[n := AskSending i (Some v)]\<rparr>
         | (AskWaiting i, Some v) \<Rightarrow> ask_resolved n i v s
         | (AskWaiting i, None) \<Rightarrow> s\<lparr>r_asks := (r_asks s)[n := AskDone]\<rparr>
         | _ \<Rightarrow> s)
      else s)"

definition ask_reported :: "bool \<Rightarrow> reply \<Rightarrow> reply" where
  "ask_reported ok s = (if ok \<and> r_run s \<and> \<not> reply_ended s then sendRun ''started'' NoCont s else s)"

section \<open>Typing\<close>

definition typing_frame :: "bool \<Rightarrow> json" where
  "typing_frame on = JObj [(''type'', JStr ''typing''), (''isTyping'', JBool on)]"

definition reply_typing :: "bool \<Rightarrow> reply \<Rightarrow> reply" where
  "reply_typing on s = core_send (typing_frame on) (TypingSent on) ((stopTypingTimer s)\<lparr>r_typingOn := on\<rparr>)"

definition typing_sent :: "bool \<Rightarrow> bool \<Rightarrow> reply \<Rightarrow> reply" where
  "typing_sent on ok s =
     (if ok \<and> on \<and> cc_typingRefreshMs (r_core s) > 0
      then s\<lparr>r_typing := Armed (cc_typingRefreshMs (r_core s)) ()\<rparr> else s)"

text \<open>The interval stays armed.\<close>

definition typing_fires :: "reply \<Rightarrow> reply" where
  "typing_fires s = (case r_typing s of Armed _ _ \<Rightarrow> core_send (typing_frame True) NoCont s | _ \<Rightarrow> s)"

section \<open>Streams\<close>

definition new_stream :: "stream_mode \<Rightarrow> stream" where
  "new_stream m = \<lparr>sm_mode = m, sm_chunkId = None, sm_buffer = [], sm_text = [], sm_timer = Unset, sm_jobs = 0,
     sm_sending = False, sm_ending = StreamOpen\<rparr>"

definition reply_stream :: "stream_mode option \<Rightarrow> reply \<Rightarrow> reply" where
  "reply_stream mode s =
     s\<lparr>r_streams := r_streams s @ [new_stream (case mode of Some m \<Rightarrow> m | None \<Rightarrow> cc_streamMode (r_core s))],
       r_live := set_add (length (r_streams s)) (r_live s)\<rparr>"

definition with_stream :: "nat \<Rightarrow> (stream \<Rightarrow> stream) \<Rightarrow> reply \<Rightarrow> reply" where
  "with_stream k f s = (if k < length (r_streams s) then s\<lparr>r_streams := (r_streams s)[k := f (r_streams s ! k)]\<rparr> else s)"

definition write_after_end :: agent_error where
  "write_after_end = fatal_error ''closed'' ''write() after end()''"

definition write_delta :: "jsnum \<Rightarrow> string \<Rightarrow> stream \<Rightarrow> stream" where
  "write_delta flushMs delta st =
     (if delta = [] then st
      else
        (let st1 = st\<lparr>sm_text := sm_text st @ delta\<rparr> in
         if sm_mode st = TextMode then st1
         else st1\<lparr>sm_buffer := sm_buffer st @ delta,
                  sm_timer := (if timer_truthy (sm_timer st) then sm_timer st else Armed flushMs ())\<rparr>))"

definition stream_write :: "nat \<Rightarrow> string \<Rightarrow> reply \<Rightarrow> reply" where
  "stream_write k delta s =
     (if k < length (r_streams s) then
        (if sm_ending (r_streams s ! k) \<noteq> StreamOpen then reply_fail write_after_end s
         else with_stream k (write_delta (cc_streamFlushMs (r_core s)) delta) s)
      else s)"

text \<open>\<open>#flush\<close> chains a job behind the ones before it.\<close>

definition flush_stream :: "stream \<Rightarrow> stream" where
  "flush_stream st = st\<lparr>sm_jobs := Suc (sm_jobs st)\<rparr>"

definition flush_timer :: "nat \<Rightarrow> reply \<Rightarrow> reply" where
  "flush_timer k s =
     with_stream k (\<lambda>st. case sm_timer st of Armed _ _ \<Rightarrow> flush_stream (st\<lparr>sm_timer := Unset\<rparr>) | _ \<Rightarrow> st) s"

definition text_chunk :: "string \<Rightarrow> nat \<Rightarrow> json" where
  "text_chunk content i = JObj [(''type'', JStr ''text''), (''content'', JStr content), (''id'', JNum (of_nat i))]"

text \<open>The next job of the chain runs when the one before it is done.\<close>

definition flush_job :: "renv \<Rightarrow> nat \<Rightarrow> reply \<Rightarrow> reply" where
  "flush_job env k s =
     (if k < length (r_streams s) \<and> 0 < sm_jobs (r_streams s ! k) \<and> \<not> sm_sending (r_streams s ! k) then
        (let st = (r_streams s ! k)\<lparr>sm_jobs := sm_jobs (r_streams s ! k) - 1\<rparr> in
         if sm_buffer st = [] then s\<lparr>r_streams := (r_streams s)[k := st]\<rparr>
         else
           (let content = sm_buffer st;
                (i, s1) = (case sm_chunkId st of Some i \<Rightarrow> (i, s) | None \<Rightarrow> nextChunkId s);
                s2 = s1\<lparr>r_streams := (r_streams s1)[k := st\<lparr>sm_buffer := [], sm_chunkId := Some i, sm_sending := True\<rparr>]\<rparr>
            in sendChunk env (text_chunk content i) (Flushed k) s2))
      else s)"

definition stream_end :: "nat \<Rightarrow> reply \<Rightarrow> reply" where
  "stream_end k s =
     with_stream k
       (\<lambda>st. if sm_ending st \<noteq> StreamOpen then st else flush_stream (st\<lparr>sm_timer := Unset, sm_ending := EndFlush\<rparr>)) s"

definition stream_ended :: "nat \<Rightarrow> reply \<Rightarrow> reply" where
  "stream_ended k s = (with_stream k (\<lambda>st. st\<lparr>sm_ending := EndDone\<rparr>) s)\<lparr>r_live := set_delete k (r_live s)\<rparr>"

text \<open>The rest of \<open>#end\<close> once the flushes are done.\<close>

definition stream_continue :: "renv \<Rightarrow> nat \<Rightarrow> reply \<Rightarrow> reply" where
  "stream_continue env k s =
     (if k < length (r_streams s) then
        (let st = r_streams s ! k in
         if sm_ending st = EndFlush \<and> sm_jobs st = 0 \<and> \<not> sm_sending st then
           (if sm_mode st \<noteq> Genui \<and> sm_text st \<noteq> []
            then reply_sendText env (sm_text st) (StreamSent k) (with_stream k (\<lambda>st. st\<lparr>sm_ending := EndSend\<rparr>) s)
            else stream_ended k s)
         else s)
      else s)"

section \<open>Ending\<close>

definition finish_run :: "reply \<Rightarrow> reply" where
  "finish_run s = (if r_run s then (sendRun (r_status s) FinishRun s)\<lparr>r_ending := FinRun\<rparr> else s\<lparr>r_ending := FinDone\<rparr>)"

definition finish_genui :: "renv \<Rightarrow> reply \<Rightarrow> reply" where
  "finish_genui env s =
     (if r_genuiOpen s then
        (let (sid, s1) = streamId env (s\<lparr>r_genuiOpen := False, r_ending := FinGenui\<rparr>);
             (i, s2) = nextChunkId s1
         in core_send (genui_frame sid True
              (JObj [(''type'', JStr ''event''), (''name'', JStr ''stream_done''), (''id'', JNum (of_nat i))])) FinishGenui s2)
      else finish_run s)"

definition finish_typing :: "renv \<Rightarrow> reply \<Rightarrow> reply" where
  "finish_typing env s =
     (if r_typingOn s
      then core_send (typing_frame False) FinishTyping (s\<lparr>r_typingOn := False, r_ending := FinTyping\<rparr>)
      else finish_genui env s)"

definition reply_end :: "reply \<Rightarrow> reply" where
  "reply_end s =
     (if r_ending s \<noteq> NotEnded then s
      else fold stream_end (r_live s) ((stopTypingTimer s)\<lparr>r_ending := FinStreams (r_live s)\<rparr>))"

definition stream_done :: "reply \<Rightarrow> nat \<Rightarrow> bool" where
  "stream_done s k \<longleftrightarrow> k < length (r_streams s) \<and> sm_ending (r_streams s ! k) = EndDone"

definition finish_continue :: "renv \<Rightarrow> reply \<Rightarrow> reply" where
  "finish_continue env s =
     (case r_ending s of
        FinStreams ks \<Rightarrow> if list_all (stream_done s) ks then finish_typing env s else s
      | _ \<Rightarrow> s)"

definition setStatus :: "string \<Rightarrow> reply \<Rightarrow> reply" where
  "setStatus st s = s\<lparr>r_status := st\<rparr>"

section \<open>Steps\<close>

text \<open>The promise of send \<open>k\<close> settled (\<open>ok\<close>: it resolved) and its continuation runs.\<close>

fun continue_with :: "renv \<Rightarrow> cont \<Rightarrow> bool \<Rightarrow> reply \<Rightarrow> reply" where
  "continue_with env NoCont ok s = s"
| "continue_with env (TypingSent on) ok s = typing_sent on ok s"
| "continue_with env (AskSent n) ok s = ask_sent n ok s"
| "continue_with env (AskResolved n) ok s = ask_reported ok s"
| "continue_with env (Flushed k) ok s = with_stream k (\<lambda>st. st\<lparr>sm_sending := False\<rparr>) s"
| "continue_with env (StreamSent k) ok s = stream_ended k s"
| "continue_with env FinishTyping ok s = finish_genui env s"
| "continue_with env FinishGenui ok s = finish_run s"
| "continue_with env FinishRun ok s = s\<lparr>r_ending := FinDone\<rparr>"

definition send_settled :: "renv \<Rightarrow> nat \<Rightarrow> bool \<Rightarrow> reply \<Rightarrow> reply" where
  "send_settled env k ok s =
     (if k \<in> set (r_waits s) \<and> k < length (r_sent s)
      then continue_with env (snd (r_sent s ! k)) ok (s\<lparr>r_waits := set_delete k (r_waits s)\<rparr>) else s)"

datatype r_input =
    RText string send_options
  | RMessage string json send_options
  | RStream "stream_mode option"
  | RToolCall string string tool_options
  | RUi string json "json option"
  | RAsk json ask_options
  | RTyping bool
  | RSendRaw json
  | REnd
  | RSetStatus string
  | RWrite nat string
  | RStreamEnd nat
  | RFlushTimer nat
  | RFlushJob nat
  | RStreamContinue nat
  | RFinishContinue
  | RTypingFires
  | RSettled nat bool
  | RAnswer nat "json option"

fun reply_step :: "renv \<times> r_input \<Rightarrow> reply \<Rightarrow> reply" where
  "reply_step (env, RText t o') s = reply_text env t o' NoCont s"
| "reply_step (env, RMessage t d o') s = reply_message env t d o' NoCont s"
| "reply_step (env, RStream m) s = reply_stream m s"
| "reply_step (env, RToolCall i st o') s = toolCall env i st o' s"
| "reply_step (env, RUi c p i) s = reply_ui env c p i s"
| "reply_step (env, RAsk p o') s = reply_ask env p o' s"
| "reply_step (env, RTyping on) s = reply_typing on s"
| "reply_step (env, RSendRaw f) s = reply_send f s"
| "reply_step (env, REnd) s = reply_end s"
| "reply_step (env, RSetStatus st) s = setStatus st s"
| "reply_step (env, RWrite k d) s = stream_write k d s"
| "reply_step (env, RStreamEnd k) s = stream_end k s"
| "reply_step (env, RFlushTimer k) s = flush_timer k s"
| "reply_step (env, RFlushJob k) s = flush_job env k s"
| "reply_step (env, RStreamContinue k) s = stream_continue env k s"
| "reply_step (env, RFinishContinue) s = finish_continue env s"
| "reply_step (env, RTypingFires) s = typing_fires s"
| "reply_step (env, RSettled k ok) s = send_settled env k ok s"
| "reply_step (env, RAnswer n v) s = ask_answer n v s"

end
