(* ===== verification/Reply_Props.thy ===== *)
theory Reply_Props
  imports Reply
begin

text \<open>
  Properties of \<open>reply\<close>: a stream delivers exactly the text written to it, a turn is ended once, and a
  typing indicator whose first frame is delayed is refreshed for ever.
\<close>

section \<open>What streams sent\<close>

definition chunk_text :: "json \<Rightarrow> string" where
  "chunk_text f = str_field (field f ''chunk'') ''content''"

definition chunk_id :: "json \<Rightarrow> json option" where
  "chunk_id f = ofield (field f ''chunk'') ''id''"

definition message_text :: "json \<Rightarrow> string" where
  "message_text f = str_field (field f ''data'') ''text''"

text \<open>The chunks a stream sent, their ids, and the messages it sent at its end.\<close>

definition chunks :: "nat \<Rightarrow> reply \<Rightarrow> string list" where
  "chunks k s = map (chunk_text \<circ> fst) (filter (\<lambda>e. snd e = Flushed k) (r_sent s))"

definition chunk_ids :: "nat \<Rightarrow> reply \<Rightarrow> json option list" where
  "chunk_ids k s = map (chunk_id \<circ> fst) (filter (\<lambda>e. snd e = Flushed k) (r_sent s))"

definition messages :: "nat \<Rightarrow> reply \<Rightarrow> string list" where
  "messages k s = map (message_text \<circ> fst) (filter (\<lambda>e. snd e = StreamSent k) (r_sent s))"

definition closing :: "stream \<Rightarrow> bool" where
  "closing st \<longleftrightarrow> sm_ending st = EndSend \<or> sm_ending st = EndDone"

definition stream_inv :: "stream \<Rightarrow> string list \<Rightarrow> json option list \<Rightarrow> string list \<Rightarrow> bool" where
  "stream_inv st cs js ms \<longleftrightarrow>
     (if sm_mode st = TextMode then cs = [] \<and> sm_buffer st = [] else concat cs @ sm_buffer st = sm_text st)
     \<and> (\<forall>i \<in> set js. \<exists>n. sm_chunkId st = Some n \<and> i = Some (JNum (of_nat n)))
     \<and> (sm_ending st \<noteq> StreamOpen \<and> sm_buffer st \<noteq> [] \<longrightarrow> 0 < sm_jobs st \<and> \<not> closing st)
     \<and> ms = (if closing st \<and> sm_mode st \<noteq> Genui \<and> sm_text st \<noteq> [] then [sm_text st] else [])"

fun stream_entry :: "json \<times> cont \<Rightarrow> nat option" where
  "stream_entry (f, Flushed k) = Some k"
| "stream_entry (f, StreamSent k) = Some k"
| "stream_entry _ = None"

definition stream_view :: "reply \<Rightarrow> stream list \<times> (json \<times> cont) list" where
  "stream_view s = (r_streams s, filter (\<lambda>e. stream_entry e \<noteq> None) (r_sent s))"

definition streams_ok :: "reply \<Rightarrow> bool" where
  "streams_ok s \<longleftrightarrow>
     (\<forall>k < length (r_streams s). stream_inv (r_streams s ! k) (chunks k s) (chunk_ids k s) (messages k s)
        \<and> (\<forall>i. sm_chunkId (r_streams s ! k) = Some i \<longrightarrow> i \<le> r_chunkId s))
     \<and> (\<forall>j < length (r_streams s). \<forall>k < length (r_streams s). j \<noteq> k \<longrightarrow>
          sm_chunkId (r_streams s ! j) \<noteq> None \<longrightarrow> sm_chunkId (r_streams s ! j) \<noteq> sm_chunkId (r_streams s ! k))
     \<and> (\<forall>e \<in> set (r_sent s). \<forall>k. stream_entry e = Some k \<longrightarrow> k < length (r_streams s))"

lemma view_streams: "stream_view s' = stream_view s \<Longrightarrow> r_streams s' = r_streams s"
  by (simp add: stream_view_def)

lemma filter_stream_entry:
  assumes "\<And>e. P e \<Longrightarrow> stream_entry e \<noteq> None" "stream_view s' = stream_view s"
  shows "filter P (r_sent s') = filter P (r_sent s)"
proof -
  have "filter P l = filter P (filter (\<lambda>e. stream_entry e \<noteq> None) l)" for l
    using assms(1) by (induction l) auto
  with assms(2) show ?thesis by (metis snd_conv stream_view_def)
qed

lemma view_logs:
  assumes "stream_view s' = stream_view s"
  shows "chunks k s' = chunks k s" "chunk_ids k s' = chunk_ids k s" "messages k s' = messages k s"
proof -
  have "filter (\<lambda>e. snd e = c) (r_sent s') = filter (\<lambda>e. snd e = c) (r_sent s)" if "c = Flushed k \<or> c = StreamSent k" for c
    using that assms by (intro filter_stream_entry) auto
  then show "chunks k s' = chunks k s" "chunk_ids k s' = chunk_ids k s" "messages k s' = messages k s"
    by (simp_all add: chunks_def chunk_ids_def messages_def)
qed

lemma streams_ok_view:
  assumes "streams_ok s" "stream_view s' = stream_view s" "r_chunkId s \<le> r_chunkId s'"
  shows "streams_ok s'"
proof -
  have e: "e \<in> set (r_sent s') \<and> stream_entry e = Some k \<longleftrightarrow> e \<in> set (r_sent s) \<and> stream_entry e = Some k" for e k
  proof -
    have "e \<in> set (filter (\<lambda>e. stream_entry e \<noteq> None) (r_sent s')) \<longleftrightarrow> e \<in> set (filter (\<lambda>e. stream_entry e \<noteq> None) (r_sent s))"
      using assms(2) by (simp add: stream_view_def)
    then show ?thesis by auto
  qed
  show ?thesis
    using assms(1, 3) e unfolding streams_ok_def view_streams [OF assms(2)] view_logs [OF assms(2)] by (meson order_trans)
qed

section \<open>Operations that leave the streams alone\<close>

definition keeps :: "reply \<Rightarrow> reply \<Rightarrow> bool" where
  "keeps s s' \<longleftrightarrow> stream_view s' = stream_view s \<and> r_chunkId s \<le> r_chunkId s'"

lemma keeps_ok: "streams_ok s \<Longrightarrow> keeps s s' \<Longrightarrow> streams_ok s'"
  unfolding keeps_def by (blast intro: streams_ok_view)

lemma keeps_refl [simp]: "keeps s s"
  by (simp add: keeps_def)

lemma keeps_trans [trans]: "keeps s s1 \<Longrightarrow> keeps s1 s2 \<Longrightarrow> keeps s s2"
  by (simp add: keeps_def)

lemma keeps_updates [simp]:
  "keeps s (s'\<lparr>r_tools := a\<rparr>) = keeps s s'" "keeps s (s'\<lparr>r_live := b\<rparr>) = keeps s s'"
  "keeps s (s'\<lparr>r_streamId := c\<rparr>) = keeps s s'" "keeps s (s'\<lparr>r_genuiOpen := d\<rparr>) = keeps s s'"
  "keeps s (s'\<lparr>r_typing := e\<rparr>) = keeps s s'" "keeps s (s'\<lparr>r_typingOn := f\<rparr>) = keeps s s'"
  "keeps s (s'\<lparr>r_ending := g\<rparr>) = keeps s s'" "keeps s (s'\<lparr>r_status := h\<rparr>) = keeps s s'"
  "keeps s (s'\<lparr>r_asks := i\<rparr>) = keeps s s'" "keeps s (s'\<lparr>r_waits := j\<rparr>) = keeps s s'"
  "keeps s (s'\<lparr>r_failed := k\<rparr>) = keeps s s'" "keeps s (s'\<lparr>r_clientIds := l\<rparr>) = keeps s s'"
  by (simp_all add: keeps_def stream_view_def)

lemma keeps_send [simp]: "stream_entry (f, c) = None \<Longrightarrow> keeps s (core_send f c s') = keeps s s'"
  by (simp add: keeps_def stream_view_def core_send_def)

lemma keeps_basic [simp]:
  "stream_entry (JNull, c) = None \<Longrightarrow> keeps s (sendRun st c s') = keeps s s'"
  by (cases c) (simp_all add: sendRun_def)

lemma keeps_small [simp]:
  "keeps s (reply_fail e s') = keeps s s'" "keeps s (stopTypingTimer s') = keeps s s'"
  "keeps s (snd (streamId env s')) = keeps s s'" "keeps s s' \<Longrightarrow> keeps s (snd (nextChunkId s'))"
  by (simp_all add: reply_fail_def stopTypingTimer_def streamId_def Let_def nextChunkId_def keeps_def stream_view_def split: option.split)

lemma keeps_chunk [simp]: "stream_entry (JNull, c) = None \<Longrightarrow> keeps s (sendChunk env ch c s') = keeps s s'"
proof -
  assume "stream_entry (JNull, c) = None"
  then have "stream_entry (f, c) = None" for f by (cases c) simp_all
  moreover obtain i s1 where "streamId env (s'\<lparr>r_genuiOpen := True\<rparr>) = (i, s1)" by fastforce
  moreover from this have "keeps s s1 = keeps s s'"
    using keeps_small(3) [of s env "s'\<lparr>r_genuiOpen := True\<rparr>"] by simp
  ultimately show ?thesis by (simp add: sendChunk_def)
qed

lemma keeps_message [simp]:
  "stream_entry (JNull, c) = None \<Longrightarrow> keeps s (reply_message env ty d o' c s') = keeps s s'"
  by (cases c) (simp_all add: reply_message_def)

lemma keeps_calls [simp]:
  "keeps s (toolCall env i st o1 s)" "keeps s (reply_ask env p o2 s)"
  "keeps s (ask_sent n ok s)" "keeps s (ask_answer n v s)" "keeps s (ask_reported ok s)"
  "keeps s (reply_typing on s)" "keeps s (typing_sent on ok s)" "keeps s (typing_fires s)"
  "keeps s (reply_send f s)" "keeps s (setStatus st s)" "keeps s (reply_text env tx o3 NoCont s)"
  by (auto simp: toolCall_def reply_ask_def ask_sent_def ask_answer_def ask_resolved_def ask_reported_def reply_typing_def
      typing_sent_def typing_fires_def reply_send_def setStatus_def reply_text_def Let_def
      split: option.split ask_state.split timer.split)

lemma keeps_ui [simp]: "keeps s (reply_ui env c p i s)"
proof (cases i)
  case None
  obtain n s1 where n: "nextChunkId s = (n, s1)" by fastforce
  then have "keeps s s1" using keeps_small(4) [of s s] by simp
  with None n show ?thesis by (simp add: reply_ui_def)
qed (simp add: reply_ui_def)

lemma keeps_finish_run [simp]: "keeps s (finish_run s') = keeps s s'"
  by (simp add: finish_run_def)

lemma keeps_finish_genui [simp]: "keeps s s' \<Longrightarrow> keeps s (finish_genui env s')"
proof -
  assume s': "keeps s s'"
  obtain i s1 where i: "streamId env (s'\<lparr>r_genuiOpen := False, r_ending := FinGenui\<rparr>) = (i, s1)" by fastforce
  obtain n s2 where n: "nextChunkId s1 = (n, s2)" by fastforce
  have "keeps s s1" using keeps_small(3) [of s env "s'\<lparr>r_genuiOpen := False, r_ending := FinGenui\<rparr>"] i s' by simp
  then have "keeps s s2" using keeps_small(4) [of s s1] n by simp
  with s' i n show ?thesis by (simp add: finish_genui_def)
qed

lemma keeps_finish_continue [simp]: "keeps s (finish_continue env s)"
  by (auto simp: finish_continue_def finish_typing_def split: finish_phase.split)

section \<open>Operations on streams\<close>

lemma streams_ok_inv:
  "streams_ok s \<Longrightarrow> k < length (r_streams s) \<Longrightarrow> stream_inv (r_streams s ! k) (chunks k s) (chunk_ids k s) (messages k s)"
  by (simp add: streams_ok_def)

lemma streams_ok_ids:
  "streams_ok s \<Longrightarrow> j < length (r_streams s) \<Longrightarrow> k < length (r_streams s) \<Longrightarrow> j \<noteq> k \<Longrightarrow>
     sm_chunkId (r_streams s ! j) \<noteq> None \<Longrightarrow> sm_chunkId (r_streams s ! j) \<noteq> sm_chunkId (r_streams s ! k)"
  by (simp only: streams_ok_def) blast

lemma logs_streams [simp]:
  "chunks k (s\<lparr>r_streams := x\<rparr>) = chunks k s" "chunk_ids k (s\<lparr>r_streams := x\<rparr>) = chunk_ids k s"
  "messages k (s\<lparr>r_streams := x\<rparr>) = messages k s"
  by (simp_all add: chunks_def chunk_ids_def messages_def)

lemma streams_ok_update:
  assumes "streams_ok s" "k < length (r_streams s)" "sm_chunkId st = sm_chunkId (r_streams s ! k)"
    and "stream_inv st (chunks k s) (chunk_ids k s) (messages k s)"
  shows "streams_ok (s\<lparr>r_streams := (r_streams s)[k := st]\<rparr>)"
proof -
  have id: "sm_chunkId ((r_streams s)[k := st] ! j) = sm_chunkId (r_streams s ! j)" if "j < length (r_streams s)" for j
    using assms(3) that by (cases "j = k") simp_all
  have inv: "stream_inv ((r_streams s)[k := st] ! j) (chunks j s) (chunk_ids j s) (messages j s)" if "j < length (r_streams s)" for j
    using assms(1, 4) that streams_ok_inv [of s j] by (cases "j = k") simp_all
  show ?thesis using assms(1) id inv unfolding streams_ok_def by simp
qed

lemma streams_ok_with:
  assumes "streams_ok s" "k < length (r_streams s) \<Longrightarrow>
      sm_chunkId (f (r_streams s ! k)) = sm_chunkId (r_streams s ! k)
      \<and> (\<forall>cs js ms. stream_inv (r_streams s ! k) cs js ms \<longrightarrow> cs = chunks k s \<longrightarrow> ms = messages k s \<longrightarrow> stream_inv (f (r_streams s ! k)) cs js ms)"
  shows "streams_ok (with_stream k f s)"
  using assms streams_ok_update [of s k "f (r_streams s ! k)"] streams_ok_inv [of s k] by (auto simp: with_stream_def)

lemma ok_write: "streams_ok s \<Longrightarrow> streams_ok (stream_write k d s)"
  unfolding stream_write_def
  by (auto intro!: streams_ok_with keeps_ok [of s "reply_fail write_after_end s"]
      simp: write_delta_def Let_def stream_inv_def closing_def)

lemma ok_flush_timer: "streams_ok s \<Longrightarrow> streams_ok (flush_timer k s)"
  unfolding flush_timer_def
  by (rule streams_ok_with) (auto simp: flush_stream_def stream_inv_def closing_def split: timer.split)

lemma ok_stream_end: "streams_ok s \<Longrightarrow> streams_ok (stream_end k s)"
  unfolding stream_end_def
  by (rule streams_ok_with) (auto simp: flush_stream_def stream_inv_def closing_def)

lemma ok_sent: "streams_ok s \<Longrightarrow> streams_ok (with_stream k (\<lambda>st. st\<lparr>sm_sending := b\<rparr>) s)"
  by (rule streams_ok_with) (auto simp: stream_inv_def closing_def)

lemma ok_live: "streams_ok s \<Longrightarrow> streams_ok (s\<lparr>r_live := l\<rparr>)" "streams_ok s \<Longrightarrow> streams_ok (s\<lparr>r_waits := w\<rparr>)"
  by (erule keeps_ok; simp)+

lemma ok_stream_ended:
  assumes "streams_ok s" "k < length (r_streams s) \<Longrightarrow> sm_buffer (r_streams s ! k) = []
      \<and> (closing (r_streams s ! k) \<or> sm_mode (r_streams s ! k) = Genui \<or> sm_text (r_streams s ! k) = [])"
  shows "streams_ok (stream_ended k s)"
  unfolding stream_ended_def using assms
  by (intro ok_live streams_ok_with) (auto simp: stream_inv_def closing_def)

lemma ok_reply_end: "streams_ok s \<Longrightarrow> streams_ok (reply_end s)"
proof -
  assume ok: "streams_ok s"
  have fold: "streams_ok s' \<Longrightarrow> streams_ok (fold stream_end ks s')" for ks s'
    by (induction ks arbitrary: s') (auto intro: ok_stream_end)
  have "streams_ok (stopTypingTimer s\<lparr>r_ending := FinStreams (r_live s)\<rparr>)" by (rule keeps_ok [OF ok]) simp
  with ok fold show ?thesis by (simp add: reply_end_def)
qed

lemma ok_reply_stream: "streams_ok s \<Longrightarrow> streams_ok (reply_stream m s)"
proof -
  assume ok: "streams_ok s"
  let ?n = "length (r_streams s)"
  have none: "filter (\<lambda>e. snd e = Flushed ?n) (r_sent s) = []" "filter (\<lambda>e. snd e = StreamSent ?n) (r_sent s) = []"
    using ok unfolding streams_ok_def filter_empty_conv by (metis less_irrefl prod.collapse stream_entry.simps(1,2))+
  define st where "st = new_stream (case m of Some m \<Rightarrow> m | None \<Rightarrow> cc_streamMode (r_core s))"
  have st: "stream_inv st [] [] []" "sm_chunkId st = None" by (simp_all add: st_def stream_inv_def new_stream_def closing_def)
  have "streams_ok (s\<lparr>r_streams := r_streams s @ [st]\<rparr>)"
    using ok none st unfolding streams_ok_def
    by (auto simp: nth_append less_Suc_eq chunks_def [of ?n] chunk_ids_def [of ?n] messages_def [of ?n])
  then show ?thesis unfolding reply_stream_def st_def [symmetric] by (rule keeps_ok) (simp add: keeps_def stream_view_def)
qed

lemma field_genui [simp]: "field (genui_frame sid fin ch) ''chunk'' = Some ch"
  by (simp add: genui_frame_def)

lemma text_chunk_fields [simp]:
  "chunk_text (genui_frame sid fin (text_chunk c i)) = c" "chunk_id (genui_frame sid fin (text_chunk c i)) = Some (JNum (of_nat i))"
  by (simp_all add: chunk_text_def chunk_id_def text_chunk_def str_field_def)

lemma message_text_frame [simp]: "message_text (message_frame ''text'' (text_data tx) o' cid) = tx"
  by (simp add: message_text_def message_frame_def text_data_def str_field_def)

lemma sendChunk_shape:
  "\<exists>sid. r_sent (sendChunk env ch c s) = r_sent s @ [(genui_frame sid False ch, c)]"
  "r_streams (sendChunk env ch c s) = r_streams s" "r_chunkId (sendChunk env ch c s) = r_chunkId s"
  by (auto simp: sendChunk_def streamId_def core_send_def Let_def split: option.split)

text \<open>Sending the buffered text with the stream's chunk id.\<close>

lemma ok_flush_send:
  assumes ok: "streams_ok s" and k: "k < length (r_streams s)" "sm_mode (r_streams s ! k) \<noteq> TextMode"
    and st: "sm_mode st = sm_mode (r_streams s ! k)" "sm_text st = sm_text (r_streams s ! k)" "sm_buffer st = []"
      "sm_ending st = sm_ending (r_streams s ! k)" "sm_chunkId st = Some i"
    and i: "sm_chunkId (r_streams s ! k) = Some i \<or> (sm_chunkId (r_streams s ! k) = None \<and> r_chunkId s < i)"
    and s1: "r_streams s1 = (r_streams s)[k := st]" "r_sent s1 = r_sent s" "r_chunkId s1 = max i (r_chunkId s)"
  shows "streams_ok (sendChunk env (text_chunk (sm_buffer (r_streams s ! k)) i) (Flushed k) s1)"
proof -
  let ?st = "r_streams s ! k" and ?s = "sendChunk env (text_chunk (sm_buffer (r_streams s ! k)) i) (Flushed k) s1"
  obtain sid where sent: "r_sent ?s = r_sent s @ [(genui_frame sid False (text_chunk (sm_buffer ?st) i), Flushed k)]"
    using sendChunk_shape(1) [of env _ "Flushed k" s1] s1(2) by metis
  have streams: "r_streams ?s = (r_streams s)[k := st]" "r_chunkId ?s = max i (r_chunkId s)"
    using s1 by (simp_all add: sendChunk_shape)
  have logs: "chunks j ?s = chunks j s @ (if j = k then [sm_buffer ?st] else [])"
    "chunk_ids j ?s = chunk_ids j s @ (if j = k then [Some (JNum (of_nat i))] else [])"
    "messages j ?s = messages j s" for j
    by (simp_all add: chunks_def chunk_ids_def messages_def sent)
  have inv: "stream_inv ?st (chunks k s) (chunk_ids k s) (messages k s)" using ok k(1) by (rule streams_ok_inv)
  have bound: "\<And>j n. j < length (r_streams s) \<Longrightarrow> sm_chunkId (r_streams s ! j) = Some n \<Longrightarrow> n \<le> r_chunkId s"
    using ok by (simp add: streams_ok_def)
  have new: "stream_inv st (chunks k ?s) (chunk_ids k ?s) (messages k ?s)"
    using inv st i k(2) unfolding logs stream_inv_def closing_def by auto
  have old: "stream_inv (r_streams s ! j) (chunks j ?s) (chunk_ids j ?s) (messages j ?s)" if "j \<noteq> k" "j < length (r_streams s)" for j
    using streams_ok_inv [OF ok that(2)] that by (simp add: logs)
  have differ: "sm_chunkId (r_streams s ! j) \<noteq> Some i" if "j \<noteq> k" "j < length (r_streams s)" for j
  proof (cases "sm_chunkId ?st = None")
    case True
    with i bound [OF that(2), of i] show ?thesis by auto
  next
    case False
    with i ok k(1) that show ?thesis unfolding streams_ok_def by metis
  qed
  have pair: "sm_chunkId ((r_streams s)[k := st] ! j) \<noteq> sm_chunkId ((r_streams s)[k := st] ! j')"
    if "j \<noteq> j'" "j < length (r_streams s)" "j' < length (r_streams s)" "sm_chunkId ((r_streams s)[k := st] ! j) \<noteq> None" for j j'
    using that ok differ st(5) unfolding streams_ok_def by (cases "j = k"; cases "j' = k") (auto simp: eq_commute)
  show ?thesis
    unfolding streams_ok_def streams sent
  proof (intro conjI allI impI ballI)
    fix j assume j: "j < length ((r_streams s)[k := st])"
    show "stream_inv ((r_streams s)[k := st] ! j) (chunks j ?s) (chunk_ids j ?s) (messages j ?s)"
      using j new old k(1) by (cases "j = k") simp_all
    fix n assume "sm_chunkId ((r_streams s)[k := st] ! j) = Some n"
    with j bound st(5) k(1) show "n \<le> max i (r_chunkId s)" by (cases "j = k") (auto simp: le_max_iff_disj)
  next
    fix e j assume "e \<in> set (r_sent s @ [(genui_frame sid False (text_chunk (sm_buffer ?st) i), Flushed k)])" "stream_entry e = Some j"
    with ok k(1) show "j < length ((r_streams s)[k := st])" by (auto simp: streams_ok_def)
  qed (use pair in simp)
qed

lemma ok_flush_job: "streams_ok s \<Longrightarrow> streams_ok (flush_job env k s)"
proof -
  assume ok: "streams_ok s"
  let ?st = "r_streams s ! k"
  consider (idle) "\<not> (k < length (r_streams s) \<and> 0 < sm_jobs ?st \<and> \<not> sm_sending ?st)"
    | (empty) "k < length (r_streams s)" "0 < sm_jobs ?st" "\<not> sm_sending ?st" "sm_buffer ?st = []"
    | (send) "k < length (r_streams s)" "0 < sm_jobs ?st" "\<not> sm_sending ?st" "sm_buffer ?st \<noteq> []" by blast
  then show ?thesis
  proof cases
    case idle
    then show ?thesis using ok by (auto simp: flush_job_def)
  next
    case empty
    then have "streams_ok (s\<lparr>r_streams := (r_streams s)[k := ?st\<lparr>sm_jobs := sm_jobs ?st - 1\<rparr>]\<rparr>)"
      using ok streams_ok_inv [OF ok empty(1)] by (intro streams_ok_update) (auto simp: stream_inv_def closing_def)
    with empty show ?thesis by (simp add: flush_job_def)
  next
    case send
    have mode: "sm_mode ?st \<noteq> TextMode" using streams_ok_inv [OF ok send(1)] send(4) by (auto simp: stream_inv_def)
    have bound: "\<And>i. sm_chunkId ?st = Some i \<Longrightarrow> i \<le> r_chunkId s" using ok send(1) by (simp add: streams_ok_def)
    define i where "i = (case sm_chunkId ?st of Some i \<Rightarrow> i | None \<Rightarrow> Suc (r_chunkId s))"
    define st where "st = ?st\<lparr>sm_jobs := sm_jobs ?st - 1, sm_buffer := [], sm_chunkId := Some i, sm_sending := True\<rparr>"
    define s1 where "s1 = s\<lparr>r_chunkId := max i (r_chunkId s), r_streams := (r_streams s)[k := st]\<rparr>"
    have "flush_job env k s = sendChunk env (text_chunk (sm_buffer ?st) i) (Flushed k) s1"
      using send bound by (auto simp: flush_job_def nextChunkId_def Let_def i_def st_def s1_def max_absorb2 split: option.split)
    moreover have "streams_ok (sendChunk env (text_chunk (sm_buffer ?st) i) (Flushed k) s1)"
      by (rule ok_flush_send [OF ok send(1) mode, of st]) (auto simp: st_def s1_def i_def split: option.split)
    ultimately show ?thesis by simp
  qed
qed

lemma sendText_shape:
  "r_sent (reply_sendText env tx c s) = r_sent s @ [(message_frame ''text'' (text_data tx) no_send_options (rv_clientId env), c)]"
  "r_streams (reply_sendText env tx c s) = r_streams s" "r_chunkId (reply_sendText env tx c s) = r_chunkId s"
proof -
  have "valid_type ''text''" by code_simp
  then show "r_sent (reply_sendText env tx c s) = r_sent s @ [(message_frame ''text'' (text_data tx) no_send_options (rv_clientId env), c)]"
    "r_streams (reply_sendText env tx c s) = r_streams s" "r_chunkId (reply_sendText env tx c s) = r_chunkId s"
    by (simp_all add: reply_sendText_def reply_text_def reply_message_def core_send_def stopTypingTimer_def)
qed

lemma ok_stream_text:
  assumes ok: "streams_ok s" and k: "k < length (r_streams s)"
    and st: "sm_buffer (r_streams s ! k) = []" "\<not> closing (r_streams s ! k)" "sm_mode (r_streams s ! k) \<noteq> Genui" "sm_text (r_streams s ! k) \<noteq> []"
  shows "streams_ok (reply_sendText env (sm_text (r_streams s ! k)) (StreamSent k) (with_stream k (\<lambda>st. st\<lparr>sm_ending := EndSend\<rparr>) s))"
    (is "streams_ok ?s")
proof -
  let ?st = "(r_streams s ! k)\<lparr>sm_ending := EndSend\<rparr>"
  have shape: "r_streams ?s = (r_streams s)[k := ?st]" "r_chunkId ?s = r_chunkId s"
    "r_sent ?s = r_sent s @ [(message_frame ''text'' (text_data (sm_text (r_streams s ! k))) no_send_options (rv_clientId env), StreamSent k)]"
    using k by (simp_all add: sendText_shape with_stream_def)
  have logs: "chunks j ?s = chunks j s" "chunk_ids j ?s = chunk_ids j s"
    "messages j ?s = messages j s @ (if j = k then [sm_text (r_streams s ! k)] else [])" for j
    by (simp_all add: chunks_def chunk_ids_def messages_def shape(3))
  have "stream_inv ?st (chunks k ?s) (chunk_ids k ?s) (messages k ?s)"
    using streams_ok_inv [OF ok k] st unfolding logs by (auto simp: stream_inv_def closing_def)
  then have inv: "stream_inv ((r_streams s)[k := ?st] ! j) (chunks j ?s) (chunk_ids j ?s) (messages j ?s)" if "j < length (r_streams s)" for j
    using streams_ok_inv [OF ok that] that by (cases "j = k") (simp_all add: logs)
  have id: "sm_chunkId ((r_streams s)[k := ?st] ! j) = sm_chunkId (r_streams s ! j)" if "j < length (r_streams s)" for j
    using that by (cases "j = k") simp_all
  show ?thesis using ok k inv id unfolding streams_ok_def shape(1, 2) by (simp add: shape(3) ball_Un)
qed

lemma ok_stream_continue: "streams_ok s \<Longrightarrow> streams_ok (stream_continue env k s)"
proof -
  assume ok: "streams_ok s"
  show ?thesis
  proof (cases "k < length (r_streams s) \<and> sm_ending (r_streams s ! k) = EndFlush \<and> sm_jobs (r_streams s ! k) = 0 \<and> \<not> sm_sending (r_streams s ! k)")
    case True
    then have "sm_buffer (r_streams s ! k) = []" "\<not> closing (r_streams s ! k)"
      using streams_ok_inv [OF ok, of k] by (auto simp: stream_inv_def closing_def)
    with True ok show ?thesis
      by (auto simp: stream_continue_def Let_def intro: ok_stream_text ok_stream_ended)
  qed (use ok in \<open>auto simp: stream_continue_def Let_def\<close>)
qed

lemma ok_settled: "streams_ok s \<Longrightarrow> streams_ok (send_settled env k ok s)"
proof -
  assume inv: "streams_ok s"
  let ?s = "s\<lparr>r_waits := set_delete k (r_waits s)\<rparr>"
  have s: "streams_ok ?s" using inv by (rule ok_live)
  have "streams_ok (continue_with env (snd (r_sent s ! k)) ok ?s)" if k: "k < length (r_sent s)"
  proof (cases "snd (r_sent s ! k)")
    case (StreamSent j)
    have "closing (r_streams s ! j)" if "j < length (r_streams s)"
    proof -
      have "r_sent s ! k \<in> set (filter (\<lambda>e. snd e = StreamSent j) (r_sent s))" using k StreamSent by simp
      then have "messages j s \<noteq> []" unfolding messages_def by (metis filter.simps(1) filter_empty_conv length_map list.size(3) list.set(1) empty_iff length_0_conv)
      then show ?thesis using streams_ok_inv [OF inv that] by (auto simp: stream_inv_def)
    qed
    moreover have "sm_buffer (r_streams s ! j) = []" if "j < length (r_streams s)" "closing (r_streams s ! j)"
      using streams_ok_inv [OF inv that(1)] that(2) by (auto simp: stream_inv_def closing_def)
    ultimately show ?thesis using s StreamSent by (auto intro: ok_stream_ended)
  qed (use s in \<open>auto intro: ok_sent keeps_ok [of ?s]\<close>)
  with inv show ?thesis by (simp add: send_settled_def)
qed

lemma ok_step: "streams_ok s \<Longrightarrow> streams_ok (reply_step i s)"
  by (cases "(i, s)" rule: reply_step.cases)
     (auto intro: ok_reply_stream ok_reply_end ok_write ok_stream_end ok_flush_timer ok_flush_job ok_stream_continue ok_settled keeps_ok)

interpretation streams: preserved reply_step streams_ok
  by unfold_locales (rule ok_step)

lemma ok_new: "streams_ok (new_reply cid core rn)"
  by (simp add: new_reply_def streams_ok_def sendRun_def core_send_def Let_def)

section \<open>Properties\<close>


definition sample_core :: core_config where
  "sample_core = \<lparr>cc_streamMode = GenuiText, cc_streamFlushMs = 150, cc_typingRefreshMs = 4000\<rparr>"

definition sample_renv :: renv where
  "sample_renv = \<lparr>rv_now = 5, rv_random = ''ab'', rv_clientId = ''ag-1''\<rparr>"

definition sample_stream_run :: reply where
  "sample_stream_run = run reply_step (map (Pair sample_renv)
     [RStream None, RWrite 0 ''he'', RFlushTimer 0, RFlushJob 0, RWrite 0 ''llo'', RSettled 1 True, RStreamEnd 0, RFlushJob 0,
      RSettled 2 True, RStreamContinue 0, RSettled 3 True])
     (new_reply ''c'' sample_core True)"



definition sample_typing_run :: reply where
  "sample_typing_run = run reply_step (map (Pair sample_renv) [RTyping True, REnd, RFinishContinue])
     (new_reply ''c'' sample_core False)"


end
