(* ===== verification/Tracker.thy ===== *)
theory Tracker
  imports Prelude
begin

text \<open>
  The resume positions of an agent, \<open>packages/agent-ts/src/watermarks.ts\<close>: for every conversation the
  highest seq seen and a window of the seqs seen below it, and the eviction of the least recently active
  conversation. The map of positions is an association list, least recently active first.
\<close>

section \<open>Operations\<close>

record position =
  pos_high :: int
  pos_floor :: int
  pos_seen :: "int list"

record tracker =
  tr_capacity :: nat
  tr_positions :: "(string \<times> position) list"

definition WINDOW :: nat where "WINDOW = 512"

definition no_position :: position where
  "no_position = \<lparr>pos_high = 0, pos_floor = 0, pos_seen = []\<rparr>"

lemma length_delete_less [termination_simp]: "length (AList.delete k ps) < Suc (length ps)"
  by (simp add: le_imp_less_Suc length_delete_le)

text \<open>The loop of \<open>#touch\<close> that forgets the first key while there are too many.\<close>

fun evict :: "nat \<Rightarrow> (string \<times> position) list \<Rightarrow> (string \<times> position) list" where
  "evict cap [] = []"
| "evict cap ((k, p) # ps) =
     (if cap < Suc (length ps) then evict cap (AList.delete k ps) else (k, p) # ps)"

definition touch_position :: "string \<Rightarrow> position \<Rightarrow> tracker \<Rightarrow> tracker" where
  "touch_position cid p t =
     t\<lparr>tr_positions := evict (tr_capacity t) (AList.update cid p (AList.delete cid (tr_positions t)))\<rparr>"

fun tracker_initial :: "(string \<times> jsnum) list \<Rightarrow> tracker \<Rightarrow> tracker" where
  "tracker_initial [] t = t"
| "tracker_initial ((cid, seq) # es) t =
     tracker_initial es
       (if is_integer seq \<and> 0 \<le> seq
        then touch_position cid \<lparr>pos_high = \<lfloor>seq\<rfloor>, pos_floor = \<lfloor>seq\<rfloor>, pos_seen = []\<rparr> t
        else t)"

definition new_tracker :: "int \<Rightarrow> (string \<times> jsnum) list \<Rightarrow> tracker" where
  "new_tracker capacity initial =
     tracker_initial initial \<lparr>tr_capacity = nat (max 1 capacity), tr_positions = []\<rparr>"

definition tracker_get :: "string \<Rightarrow> tracker \<Rightarrow> int" where
  "tracker_get cid t = (case map_of (tr_positions t) cid of Some p \<Rightarrow> pos_high p | None \<Rightarrow> 0)"

definition tracker_has :: "string \<Rightarrow> tracker \<Rightarrow> bool" where
  "tracker_has cid t \<longleftrightarrow> map_of (tr_positions t) cid \<noteq> None"

definition pos_has :: "int \<Rightarrow> position \<Rightarrow> bool" where
  "pos_has seq p \<longleftrightarrow> seq \<le> pos_floor p \<or> seq \<in> set (pos_seen p)"

definition tracker_seen :: "string \<Rightarrow> int \<Rightarrow> tracker \<Rightarrow> bool" where
  "tracker_seen cid seq t = (case map_of (tr_positions t) cid of Some p \<Rightarrow> pos_has seq p | None \<Rightarrow> False)"

text \<open>Forgetting the oldest seqs of a full window.\<close>

fun forget :: "int list \<Rightarrow> position \<Rightarrow> position" where
  "forget [] p = p"
| "forget (old # olds) p =
     forget olds (p\<lparr>pos_seen := set_delete old (pos_seen p), pos_floor := (if old > pos_floor p then old else pos_floor p)\<rparr>)"

definition trim_window :: "position \<Rightarrow> position" where
  "trim_window p =
     (if length (pos_seen p) > WINDOW
      then (let sorted = sort (pos_seen p) in forget (take (length sorted - WINDOW) sorted) p)
      else p)"

definition record_position :: "int \<Rightarrow> position \<Rightarrow> bool \<times> position" where
  "record_position seq p =
     (let fresh = (\<not> pos_has seq p) in
      (fresh,
       if fresh
       then trim_window (p\<lparr>pos_seen := set_add seq (pos_seen p), pos_high := (if seq > pos_high p then seq else pos_high p)\<rparr>)
       else p))"

definition tracker_record :: "string \<Rightarrow> jsnum \<Rightarrow> tracker \<Rightarrow> bool \<times> tracker" where
  "tracker_record cid seq t =
     (if \<not> is_integer seq \<or> seq < 1 then (True, t)
      else
        (let p = (case map_of (tr_positions t) cid of Some p \<Rightarrow> p | None \<Rightarrow> no_position);
             (fresh, p') = record_position \<lfloor>seq\<rfloor> p
         in (fresh, touch_position cid p' t)))"

definition tracker_snapshot :: "tracker \<Rightarrow> (string \<times> int) list" where
  "tracker_snapshot t = map (\<lambda>(cid, p). (cid, pos_high p)) (tr_positions t)"

definition tracker_touch :: "string \<Rightarrow> tracker \<Rightarrow> tracker" where
  "tracker_touch cid t =
     (case map_of (tr_positions t) cid of Some p \<Rightarrow> touch_position cid p t | None \<Rightarrow> t)"

section \<open>Positions\<close>

text \<open>
  A position describes the set \<open>R\<close> of seqs recorded for its conversation above its base: everything
  recorded is known, only seqs at or below the floor are taken for seen without having been recorded,
  and the floor rises only while the window is full of larger seqs.
\<close>

definition pos_ok :: "int set \<Rightarrow> position \<Rightarrow> bool" where
  "pos_ok R p \<longleftrightarrow>
     finite R \<and> distinct (pos_seen p) \<and> set (pos_seen p) = {n \<in> R. n > pos_floor p} \<and> length (pos_seen p) \<le> WINDOW
     \<and> (pos_floor p \<noteq> 0 \<longrightarrow> length (pos_seen p) = WINDOW) \<and> 0 \<le> pos_floor p \<and> (\<forall>n \<in> R. 1 \<le> n)
     \<and> pos_high p = Max (insert 0 R)"

lemma pos_ok_none: "pos_ok {} no_position"
  by (simp add: pos_ok_def no_position_def WINDOW_def)

lemma forget_seen: "pos_seen (forget olds p) = filter (\<lambda>n. n \<notin> set olds) (pos_seen p)"
  by (induction olds p rule: forget.induct) (auto simp: set_delete_def intro: filter_cong)

lemma forget_high [simp]: "pos_high (forget olds p) = pos_high p"
  by (induction olds p rule: forget.induct) simp_all

lemma forget_floor: "pos_floor (forget olds p) = Max (insert (pos_floor p) (set olds))"
proof (induction olds p rule: forget.induct)
  case (2 old olds p)
  have "Max (insert (pos_floor p) (insert old (set olds))) = Max (insert (max old (pos_floor p)) (set olds))"
    by (cases "olds = []") (simp_all add: max.commute max.left_commute)
  with 2 show ?case by (simp add: max_def)
qed simp

text \<open>One seq over the limit: the smallest one becomes the floor.\<close>

lemma trim_full:
  assumes "length (pos_seen p) = Suc WINDOW"
  shows "trim_window p = p\<lparr>pos_seen := set_delete (Min (set (pos_seen p))) (pos_seen p),
    pos_floor := max (Min (set (pos_seen p))) (pos_floor p)\<rparr>"
proof -
  obtain m ms where s: "sort (pos_seen p) = m # ms" using assms by (cases "sort (pos_seen p)") (auto dest: arg_cong [where f = length])
  have "sorted (m # ms)" "set (m # ms) = set (pos_seen p)" using s by (metis sorted_sort, metis set_sort)
  then have "Min (set (pos_seen p)) = m" by (metis List.finite_set Min_eqI list.set_intros(1) sorted_simps(2) set_ConsD order_refl)
  moreover have "length ms = WINDOW" using s assms by (metis Suc_inject length_Cons length_sort)
  ultimately show ?thesis using s assms by (simp add: trim_window_def Let_def max_def)
qed


lemma pos_ok_high: "pos_ok R p \<Longrightarrow> pos_floor p \<le> pos_high p"
proof -
  assume ok: "pos_ok R p"
  show ?thesis
  proof (cases "pos_seen p = []")
    case True
    with ok show ?thesis by (auto simp: pos_ok_def WINDOW_def)
  next
    case False
    then obtain n where "n \<in> set (pos_seen p)" by (cases "pos_seen p") auto
    with ok have "n > pos_floor p" "n \<in> R" "finite R" by (auto simp: pos_ok_def)
    then have "n \<le> Max (insert 0 R)" by simp
    with \<open>n > pos_floor p\<close> ok show ?thesis by (simp add: pos_ok_def)
  qed
qed

lemma Max_insert_high:
  assumes "finite R" "pos_high p = Max (insert 0 R)" "1 \<le> seq"
  shows "(if seq > pos_high p then seq else pos_high p) = Max (insert 0 (insert seq R))"
proof -
  have "Max (insert seq (insert 0 R)) = max seq (Max (insert 0 R))" using assms(1) by (intro Max_insert) auto
  then have "Max (insert 0 (insert seq R)) = max seq (Max (insert 0 R))" by (simp only: insert_commute)
  with assms(2) show ?thesis by (simp add: max_def)
qed

lemma record_position_trim:
  assumes "pos_ok R p" "\<not> pos_has seq p" "1 \<le> seq" "length (pos_seen p) = WINDOW"
  shows "pos_ok (insert seq R) (snd (record_position seq p))"
proof -
  define h where "h = (if seq > pos_high p then seq else pos_high p)"
  define S where "S = pos_seen p @ [seq]"
  define m where "m = Min (set S)"
  have new: "seq \<notin> set (pos_seen p)" "pos_floor p < seq" using assms(2) by (auto simp: pos_has_def)
  have seen: "set S = {n \<in> insert seq R. n > pos_floor p}"
    using assms(1) new by (auto simp: pos_ok_def S_def)
  have d: "distinct S" "length S = Suc WINDOW" using assms(1, 4) new by (simp_all add: pos_ok_def S_def)
  have m: "m \<in> set S" "\<And>n. n \<in> set S \<Longrightarrow> m \<le> n" using Min_in [of "set S"] by (simp_all add: m_def S_def)
  have gt: "pos_floor p < m" using m(1) seen by auto
  have "trim_window (p\<lparr>pos_seen := S, pos_high := h\<rparr>) = p\<lparr>pos_seen := set_delete m S, pos_high := h, pos_floor := m\<rparr>"
    using trim_full [of "p\<lparr>pos_seen := S, pos_high := h\<rparr>"] d(2) gt by (simp add: m_def [symmetric])
  then have rec: "snd (record_position seq p) = p\<lparr>pos_seen := set_delete m S, pos_high := h, pos_floor := m\<rparr>"
    using assms(2) new by (simp add: record_position_def set_add_def S_def h_def)
  have "length (set_delete m S) = card (set S - {m})"
    using d(1) by (metis distinct_card distinct_set_delete set_set_delete)
  then have len: "length (set_delete m S) = WINDOW" using m(1) d distinct_card [OF d(1)] by simp
  have "set (set_delete m S) = {n \<in> insert seq R. n > m}"
    using m seen gt by fastforce
  moreover have "h = Max (insert 0 (insert seq R))"
    unfolding h_def using assms(1, 3) by (intro Max_insert_high) (simp_all add: pos_ok_def)
  ultimately show ?thesis
    unfolding rec pos_ok_def using assms(1, 3) d(1) len gt by (simp add: pos_ok_def)
qed

lemma record_position_ok:
  assumes "pos_ok R p" "1 \<le> seq"
  shows "pos_ok (insert seq R) (snd (record_position seq p))"
proof (cases "pos_has seq p")
  case True
  have "seq \<le> pos_high p"
  proof (cases "seq \<le> pos_floor p")
    case False
    with True assms(1) have "seq \<in> R" "finite R" by (auto simp: pos_ok_def pos_has_def)
    with assms(1) show ?thesis by (simp add: pos_ok_def)
  qed (use pos_ok_high [OF assms(1)] in simp)
  then have "Max (insert 0 (insert seq R)) = pos_high p"
    using assms Max_insert_high [of R p seq] unfolding pos_ok_def by (metis leD)
  moreover have "{n \<in> insert seq R. n > pos_floor p} = {n \<in> R. n > pos_floor p}"
    using True assms(1) by (auto simp: pos_ok_def pos_has_def)
  ultimately show ?thesis using True assms by (simp add: pos_ok_def record_position_def)
next
  case False
  show ?thesis
  proof (cases "length (pos_seen p) = WINDOW")
    case True
    with assms False show ?thesis by (intro record_position_trim)
  next
    case notfull: False
    with assms(1) have "pos_floor p = 0" "length (pos_seen p) < WINDOW" by (auto simp: pos_ok_def)
    moreover from this have "snd (record_position seq p) = p\<lparr>pos_seen := pos_seen p @ [seq], pos_high := Max (insert 0 (insert seq R))\<rparr>"
      using False assms Max_insert_high [of R p seq]
      by (auto simp: record_position_def trim_window_def set_add_def pos_has_def pos_ok_def)
    ultimately show ?thesis using False assms by (auto simp: pos_ok_def pos_has_def)
  qed
qed

lemma pos_has_recorded: "pos_ok R p \<Longrightarrow> seq \<in> R \<Longrightarrow> pos_has seq p"
  by (auto simp: pos_ok_def pos_has_def)

text \<open>A seq taken for seen without having been recorded is older than a full window.\<close>

lemma pos_has_window:
  assumes "pos_ok R p" "pos_has seq p" "seq \<notin> R" "1 \<le> seq"
  shows "WINDOW \<le> card {n \<in> R. n > seq}"
proof -
  have seen: "set (pos_seen p) = {n \<in> R. n > pos_floor p}" and fin: "finite R" and d: "distinct (pos_seen p)"
    and full: "pos_floor p \<noteq> 0 \<longrightarrow> length (pos_seen p) = WINDOW"
    using assms(1) unfolding pos_ok_def by blast+
  have "seq \<notin> set (pos_seen p)" using assms(3) by (simp add: seen)
  then have fl: "seq \<le> pos_floor p" using assms(2) by (simp add: pos_has_def)
  then have "length (pos_seen p) = WINDOW" using assms(4) full by linarith
  with d have "card (set (pos_seen p)) = WINDOW" by (simp only: distinct_card)
  moreover have "card (set (pos_seen p)) \<le> card {n \<in> R. n > seq}"
  proof (rule card_mono)
    show "set (pos_seen p) \<subseteq> {n \<in> R. n > seq}" using fl unfolding seen by (intro Collect_mono) linarith
  qed (use fin in simp)
  ultimately show ?thesis by simp
qed

section \<open>Tracked conversations\<close>

definition tracked :: "tracker \<Rightarrow> string list" where
  "tracked t = map fst (tr_positions t)"

definition tracker_ok :: "tracker \<Rightarrow> bool" where
  "tracker_ok t \<longleftrightarrow> distinct (tracked t) \<and> length (tracked t) \<le> tr_capacity t \<and> 0 < tr_capacity t"

lemma evict_drop: "distinct (map fst ps) \<Longrightarrow> evict cap ps = drop (length ps - cap) ps"
proof (induction cap ps rule: evict.induct)
  case (2 cap k p ps)
  then show ?case by (auto simp: Suc_diff_le)
qed simp

lemma update_delete: "AList.update k v (AList.delete k m) = AList.delete k m @ [(k, v)]"
proof -
  have "k \<notin> fst ` set m \<Longrightarrow> AList.update k v m = m @ [(k, v)]" for m :: "('a \<times> 'b) list"
    by (induction m) auto
  then show ?thesis by simp
qed

lemma map_fst_delete: "map fst (AList.delete k m) = removeAll k (map fst m)"
  by (induction m) auto

lemma distinct_moved: "distinct ks \<Longrightarrow> distinct (removeAll k ks @ [k])"
  by (simp add: distinct_removeAll)

lemma length_moved: "distinct ks \<Longrightarrow> length (removeAll k ks @ [k]) = card (insert k (set ks))"
  using distinct_card [OF distinct_moved [of ks k]] by (simp del: distinct_append)

lemma touch_capacity [simp]: "tr_capacity (touch_position cid p t) = tr_capacity t"
  by (simp add: touch_position_def)

lemma touch_positions:
  assumes "distinct (tracked t)"
  shows "tr_positions (touch_position cid p t) =
    (let ps = AList.delete cid (tr_positions t) @ [(cid, p)] in drop (length ps - tr_capacity t) ps)"
proof -
  have "distinct (map fst (AList.delete cid (tr_positions t) @ [(cid, p)]))"
    using assms distinct_moved [of "tracked t" cid] by (simp add: tracked_def map_fst_delete)
  then show ?thesis by (simp only: touch_position_def update_delete evict_drop tracker.simps tracker.surjective Let_def) simp
qed

lemma touch_tracked:
  assumes "distinct (tracked t)"
  shows "tracked (touch_position cid p t) =
    (let ks = removeAll cid (tracked t) @ [cid] in drop (length ks - tr_capacity t) ks)"
proof -
  have "length (AList.delete cid (tr_positions t)) = length (removeAll cid (tracked t))"
    by (metis length_map map_fst_delete tracked_def)
  with assms show ?thesis by (simp add: tracked_def touch_positions Let_def drop_map [symmetric] map_fst_delete)
qed

lemma touch_ok: "tracker_ok t \<Longrightarrow> tracker_ok (touch_position cid p t)"
  unfolding tracker_ok_def by (auto simp: touch_tracked Let_def simp del: drop_append intro!: distinct_drop distinct_moved)

text \<open>With room for the conversation nothing is forgotten.\<close>

lemma touch_room:
  assumes "tracker_ok t" "card (insert cid (set (tracked t))) \<le> tr_capacity t"
  shows "map_of (tr_positions (touch_position cid p t)) = (map_of (tr_positions t))(cid \<mapsto> p)"
proof -
  let ?ps = "AList.delete cid (tr_positions t) @ [(cid, p)]"
  have "length ?ps = card (insert cid (set (tracked t)))"
    using length_moved [of "tracked t" cid] assms(1)
    by (metis length_append length_map list.size(3,4) map_fst_delete tracked_def tracker_ok_def)
  with assms have "tr_positions (touch_position cid p t) = ?ps" by (simp add: touch_positions tracker_ok_def)
  then show ?thesis by (auto simp: map_add_def fun_eq_iff split: option.splits)
qed

lemma touch_room_tracked:
  assumes "tracker_ok t" "card (insert cid (set (tracked t))) \<le> tr_capacity t"
  shows "set (tracked (touch_position cid p t)) = insert cid (set (tracked t))"
proof -
  have "set (tracked t) = dom (map_of (tr_positions t))" for t by (simp add: tracked_def dom_map_of_conv_image_fst)
  with touch_room [OF assms] show ?thesis by simp
qed

lemma initial_ok: "tracker_ok t \<Longrightarrow> tracker_ok (tracker_initial es t)"
  by (induction es t rule: tracker_initial.induct) (simp_all add: touch_ok)

lemma initial_capacity [simp]: "tr_capacity (tracker_initial es t) = tr_capacity t"
  by (induction es t rule: tracker_initial.induct) auto

lemma new_tracker_ok: "tracker_ok (new_tracker c es)"
  unfolding new_tracker_def by (intro initial_ok) (simp add: tracker_ok_def tracked_def)

lemma new_tracker_capacity [simp]: "tr_capacity (new_tracker c es) = nat (max 1 c)"
  by (simp add: new_tracker_def)

lemma record_capacity [simp]: "tr_capacity (snd (tracker_record cid seq t)) = tr_capacity t"
  by (simp add: tracker_record_def split: prod.split)

lemma record_ok: "tracker_ok t \<Longrightarrow> tracker_ok (snd (tracker_record cid seq t))"
  by (auto simp: tracker_record_def split: prod.split intro: touch_ok)

lemma tracker_touch_ok: "tracker_ok t \<Longrightarrow> tracker_ok (tracker_touch cid t)"
  by (auto simp: tracker_touch_def split: option.split intro: touch_ok)

section \<open>Runs of records\<close>

definition valid_seq :: "jsnum \<Rightarrow> bool" where
  "valid_seq x \<longleftrightarrow> is_integer x \<and> 1 \<le> x"

definition tracker_step :: "string \<times> jsnum \<Rightarrow> tracker \<Rightarrow> tracker" where
  "tracker_step r t = snd (tracker_record (fst r) (snd r) t)"

interpretation tracking: preserved tracker_step tracker_ok
  by unfold_locales (simp add: tracker_step_def record_ok)

definition active_ids :: "(string \<times> jsnum) list \<Rightarrow> string list" where
  "active_ids rs = map fst (filter (\<lambda>r. valid_seq (snd r)) rs)"

definition recorded :: "(string \<times> jsnum) list \<Rightarrow> string \<Rightarrow> int set" where
  "recorded rs cid = (\<lambda>r. \<lfloor>snd r\<rfloor>) ` set (filter (\<lambda>r. fst r = cid \<and> valid_seq (snd r)) rs)"

lemma tracker_record_invalid: "\<not> valid_seq seq \<Longrightarrow> tracker_record cid seq t = (True, t)"
  by (auto simp: tracker_record_def valid_seq_def)

lemma tracker_record_valid:
  "valid_seq seq \<Longrightarrow> tracker_record cid seq t =
     (let p = (case map_of (tr_positions t) cid of Some p \<Rightarrow> p | None \<Rightarrow> no_position)
      in (\<not> pos_has \<lfloor>seq\<rfloor> p, touch_position cid (snd (record_position \<lfloor>seq\<rfloor> p)) t))"
  by (auto simp: tracker_record_def valid_seq_def record_position_def Let_def)

lemma valid_seq_floor: "valid_seq x \<Longrightarrow> 1 \<le> \<lfloor>x\<rfloor>"
  by (simp add: valid_seq_def)

lemma run_capacity [simp]: "tr_capacity (run tracker_step rs t) = tr_capacity t"
  by (induction rs arbitrary: t) (simp_all add: tracker_step_def)

text \<open>Moving an element to the end commutes with keeping the last elements.\<close>

lemma moved_last:
  fixes l :: "'a list"
  assumes "distinct l" "0 < cap"
  defines "last_of \<equiv> \<lambda>l :: 'a list. drop (length l - cap) l"
  shows "last_of (removeAll x (last_of l) @ [x]) = last_of (removeAll x l @ [x])"
proof -
  define a b where "a = take (length l - cap) l" and "b = drop (length l - cap) l"
  have l: "l = a @ b" "length b \<le> cap" "a = [] \<or> length b = cap" "set a \<inter> set b = {}" "distinct b"
    using assms(1) by (auto simp: a_def b_def set_take_disj_set_drop_if_distinct)
  have b: "last_of l = b" by (simp add: last_of_def b_def)
  show ?thesis
  proof (cases "a = []")
    case False
    then have cap: "length b = cap" using l(3) by simp
    show ?thesis
    proof (cases "x \<in> set b")
      case True
      then have "x \<notin> set a" "length (removeAll x b) = cap - 1"
        using l(4, 5) cap by (auto simp: distinct_remove1_removeAll [symmetric] length_remove1)
      then show ?thesis using assms(2) unfolding b by (simp add: last_of_def l(1))
    next
      case False
      then show ?thesis using cap assms(2) unfolding b by (simp add: last_of_def l(1))
    qed
  qed (use l b in simp)
qed

lemma remdups_snoc: "remdups (xs @ [x]) = removeAll x (remdups xs) @ [x]"
  by (induction xs) auto

lemma active_ids_snoc [simp]:
  "active_ids (rs @ [r]) = active_ids rs @ (if valid_seq (snd r) then [fst r] else [])"
  by (simp add: active_ids_def)

lemma recorded_snoc:
  "recorded (rs @ [r]) cid =
     (if fst r = cid \<and> valid_seq (snd r) then insert \<lfloor>snd r\<rfloor> (recorded rs cid) else recorded rs cid)"
  by (auto simp: recorded_def)

text \<open>The state of a tracker that never had to forget a conversation.\<close>

definition tracks :: "(string \<times> jsnum) list \<Rightarrow> tracker \<Rightarrow> bool" where
  "tracks rs t \<longleftrightarrow> tracker_ok t \<and> set (tracked t) = set (active_ids rs)
     \<and> (\<forall>cid. pos_ok (recorded rs cid) (case map_of (tr_positions t) cid of Some p \<Rightarrow> p | None \<Rightarrow> no_position))"

lemma tracks_step:
  assumes "tracks rs t" "card (set (active_ids (rs @ [r]))) \<le> tr_capacity t"
  shows "tracks (rs @ [r]) (tracker_step r t)"
proof (cases "valid_seq (snd r)")
  case True
  obtain cid seq where r: "r = (cid, seq)" by fastforce
  define p where "p = (case map_of (tr_positions t) cid of Some p \<Rightarrow> p | None \<Rightarrow> no_position)"
  define t' where "t' = touch_position cid (snd (record_position \<lfloor>seq\<rfloor> p)) t"
  have step: "tracker_step r t = t'"
    using True by (simp add: r tracker_step_def tracker_record_valid p_def t'_def Let_def)
  have ok: "tracker_ok t" "set (tracked t) = set (active_ids rs)" using assms(1) by (auto simp: tracks_def)
  have room: "card (insert cid (set (tracked t))) \<le> tr_capacity t" using assms(2) True ok(2) by (simp add: r)
  have "pos_ok (insert \<lfloor>seq\<rfloor> (recorded rs cid)) (snd (record_position \<lfloor>seq\<rfloor> p))"
    using assms(1) True by (intro record_position_ok) (auto simp: tracks_def p_def r valid_seq_def)
  then show ?thesis
    unfolding step t'_def tracks_def
    using assms(1) True ok room
    by (auto simp: tracks_def touch_ok touch_room touch_room_tracked r recorded_snoc)
next
  case False
  with assms(1) show ?thesis by (simp add: tracker_step_def tracker_record_invalid tracks_def recorded_snoc)
qed

lemma tracks_run:
  assumes "card (set (active_ids rs)) \<le> nat (max 1 c)"
  shows "tracks rs (run tracker_step rs (new_tracker c []))"
  using assms
proof (induction rs rule: rev_induct)
  case Nil
  have "tracker_ok (new_tracker c [])" by (rule new_tracker_ok)
  then show ?case by (simp add: tracks_def new_tracker_def tracked_def active_ids_def recorded_def pos_ok_none)
next
  case (snoc r rs)
  have "card (set (active_ids rs)) \<le> card (set (active_ids (rs @ [r])))" by (intro card_mono) auto
  with snoc have "tracks rs (run tracker_step rs (new_tracker c []))" by simp
  then show ?case using snoc.prems by (simp add: tracks_step)
qed

section \<open>Properties\<close>

text \<open>
  C33. The tracker implements the set of seqs seen: as long as no more conversations are active than it has
  room for, and whatever was recorded before, \<open>record\<close> calls a seq of a conversation new only if it was not recorded
  before, calls an unrecorded one seen only if at least 512 larger seqs of the conversation were recorded,
  and \<open>get\<close> is the highest seq recorded.
\<close>

theorem tracker_refines_seen:
  assumes "card (set (active_ids rs)) \<le> nat (max 1 c)" "valid_seq seq"
  shows "let t = run tracker_step rs (new_tracker c []); R = recorded rs cid; fresh = fst (tracker_record cid seq t) in
    (fresh \<longrightarrow> \<lfloor>seq\<rfloor> \<notin> R) \<and> (\<not> fresh \<and> \<lfloor>seq\<rfloor> \<notin> R \<longrightarrow> 512 \<le> card {n \<in> R. n > \<lfloor>seq\<rfloor>})
    \<and> tracker_get cid t = Max (insert 0 R)"
proof -
  define t where "t = run tracker_step rs (new_tracker c [])"
  define p where "p = (case map_of (tr_positions t) cid of Some p \<Rightarrow> p | None \<Rightarrow> no_position)"
  have ok: "pos_ok (recorded rs cid) p" using tracks_run [OF assms(1)] by (simp add: tracks_def t_def p_def)
  have "fst (tracker_record cid seq t) \<longleftrightarrow> \<not> pos_has \<lfloor>seq\<rfloor> p"
    using assms(2) by (simp add: tracker_record_valid p_def Let_def)
  moreover have "tracker_get cid t = pos_high p"
    by (simp add: tracker_get_def p_def no_position_def split: option.split)
  moreover have "pos_high p = Max (insert 0 (recorded rs cid))" using ok by (simp only: pos_ok_def)
  ultimately show ?thesis
    using pos_has_recorded [OF ok] pos_has_window [OF ok _ _ valid_seq_floor [OF assms(2)]]
    unfolding t_def [symmetric] Let_def by (auto simp: WINDOW_def)
qed

definition sample_records :: "(string \<times> jsnum) list" where
  "sample_records = [(''a'', 2), (''b'', 1), (''a'', 5)]"

theorem tracker_refines_seen_witness:
  "let t = run tracker_step sample_records (new_tracker 2 []); R = recorded sample_records ''a''; fresh = fst (tracker_record ''a'' 5 t) in
    (fresh \<longrightarrow> \<lfloor>5::jsnum\<rfloor> \<notin> R) \<and> (\<not> fresh \<and> \<lfloor>5::jsnum\<rfloor> \<notin> R \<longrightarrow> 512 \<le> card {n \<in> R. n > \<lfloor>5::jsnum\<rfloor>})
    \<and> tracker_get ''a'' t = Max (insert 0 R)"
proof -
  have "card (set (active_ids sample_records)) \<le> nat (max 1 2)"
    by (simp add: active_ids_def sample_records_def valid_seq_def insert_commute)
  moreover have "valid_seq 5" by (simp add: valid_seq_def)
  ultimately show ?thesis by (rule tracker_refines_seen)
qed

text \<open>
  A full tracker forgets the least recently active conversations only: after any sequence of records it
  tracks exactly the last conversations with a recorded seq, as many as its capacity, in the order of their
  last activity.
\<close>

theorem tracker_keeps_recent:
  "tracked (run tracker_step rs (new_tracker c [])) =
    (let ids = remdups (active_ids rs) in drop (length ids - nat (max 1 c)) ids)"
proof (induction rs rule: rev_induct)
  case Nil
  then show ?case by (simp add: new_tracker_def tracked_def active_ids_def)
next
  case (snoc r rs)
  let ?t = "run tracker_step rs (new_tracker c [])"
  show ?case
  proof (cases "valid_seq (snd r)")
    case True
    have ok: "tracker_ok ?t" by (intro tracking.run_good new_tracker_ok)
    then have d: "distinct (tracked ?t)" by (simp add: tracker_ok_def)
    have cap: "0 < nat (max 1 c)" by simp
    have "tracked (tracker_step r ?t) =
      (let ks = removeAll (fst r) (tracked ?t) @ [fst r] in drop (length ks - nat (max 1 c)) ks)"
      using True touch_tracked [OF d] by (simp add: tracker_step_def tracker_record_valid Let_def)
    also have "\<dots> = (let ks = removeAll (fst r) (remdups (active_ids rs)) @ [fst r] in drop (length ks - nat (max 1 c)) ks)"
      unfolding snoc.IH using moved_last [OF distinct_remdups [of "active_ids rs"] cap] by (simp only: Let_def)
    finally show ?thesis using True by (simp only: run_append run_Cons run_Nil active_ids_snoc if_True remdups_snoc)
  next
    case False
    with snoc show ?thesis by (simp add: tracker_step_def tracker_record_invalid)
  qed
qed

end
