(* ===== verification/Agent_Socket.thy ===== *)
theory Agent_Socket
  imports Agent_Base
begin

text \<open>
  One connection attempt of the agent, \<open>packages/agent-ts/src/socket.ts\<close>: the fields of \<open>AgentSocket\<close>
  are the record \<open>asocket\<close>, its calls of the handlers and of the platform are appended to \<open>k_out\<close>.
  \<open>k_attached\<close> says that the WebSocket's event handlers are set, \<open>k_failing\<close> holds the message of the
  microtask that reports a failed constructor. How an attempt ended is a \<open>transport_close\<close>, which has the
  fields of \<open>SocketClose\<close>.
\<close>

section \<open>State and operations\<close>

datatype k_effect =
    KOnOpen
  | KOnMessage json
  | KOnClose transport_close
  | KNew string "string list"
  | KSend string
  | KClose int string

record socket_options =
  so_url :: string
  so_hello :: json
  so_connectTimeoutMs :: jsnum
  so_livenessGraceMs :: jsnum

record asocket =
  k_options :: socket_options
  k_socket :: bool
  k_attached :: bool
  k_failing :: "string option"
  k_opened :: bool
  k_closed :: bool
  k_welcomed :: bool
  k_timer :: "unit timer"
  k_connectTimer :: "unit timer"
  k_idleTimeoutMs :: jsnum
  k_lastIn :: jsnum
  k_lastOut :: jsnum
  k_pings :: nat
  k_retryAfterMs :: "jsnum option"
  k_out :: "k_effect list"

definition AGENT_IDLE_CLOSE :: int where "AGENT_IDLE_CLOSE = 4000"

definition new_asocket :: "socket_options \<Rightarrow> asocket" where
  "new_asocket o' =
     \<lparr>k_options = o', k_socket = False, k_attached = False, k_failing = None, k_opened = False, k_closed = False,
      k_welcomed = False, k_timer = Unset, k_connectTimer = Unset, k_idleTimeoutMs = 60000, k_lastIn = 0,
      k_lastOut = 0, k_pings = 0, k_retryAfterMs = None, k_out = []\<rparr>"

definition k_perform :: "k_effect \<Rightarrow> asocket \<Rightarrow> asocket" where
  "k_perform e s = s\<lparr>k_out := k_out s @ [e]\<rparr>"

definition asocket_open :: "tenv \<Rightarrow> asocket \<Rightarrow> bool" where
  "asocket_open env s \<longleftrightarrow> \<not> k_closed s \<and> k_socket s \<and> te_ready env"

text \<open>\<open>retryAfterFromReason\<close> of the package; \<open>JSON.parse\<close> of a text that starts with a brace gives an object.\<close>

definition agent_retryAfterFromReason :: "string \<Rightarrow> jsnum option" where
  "agent_retryAfterFromReason reason =
     (if reason = [] \<or> hd reason \<noteq> CHR ''{'' then None
      else (case JSON_parse reason of Some j \<Rightarrow> as_num (field j ''retryAfterMs'') | None \<Rightarrow> None))"

definition asocket_finish :: "int \<Rightarrow> string \<Rightarrow> asocket \<Rightarrow> asocket" where
  "asocket_finish code reason s =
     (if k_closed s then s
      else
        (let close = \<lparr>tc_code = code, tc_reason = reason,
                      tc_retryAfterMs = or_else (agent_retryAfterFromReason reason) (k_retryAfterMs s),
                      tc_opened = k_opened s\<rparr>
         in k_perform (KOnClose close)
              (s\<lparr>k_closed := True, k_timer := clear_timeout (k_timer s),
                 k_connectTimer := clear_timeout (k_connectTimer s), k_attached := False\<rparr>)))"

definition asocket_send :: "tenv \<Rightarrow> json \<Rightarrow> asocket \<Rightarrow> bool \<times> asocket" where
  "asocket_send env message s =
     (if k_closed s \<or> \<not> k_socket s \<or> \<not> te_ready env then (False, s)
      else if \<not> te_sends env then (False, s)
      else (True, (k_perform (KSend (JSON_stringify message)) s)\<lparr>k_lastOut := te_now env\<rparr>))"

definition asocket_close :: "int \<Rightarrow> string \<Rightarrow> asocket \<Rightarrow> asocket" where
  "asocket_close code reason s =
     (let s1 = asocket_finish code reason s in
      if k_socket s \<and> \<not> k_closed s then k_perform (KClose code reason) s1 else s1)"

definition asocket_connect :: "ws_result \<Rightarrow> asocket \<Rightarrow> asocket" where
  "asocket_connect ws s =
     (case ws of
        WsCreated \<Rightarrow>
          (k_perform (KNew (so_url (k_options s)) [AGENT_SUBPROTOCOL]) s)
            \<lparr>k_socket := True, k_attached := True, k_connectTimer := Armed (so_connectTimeoutMs (k_options s)) ()\<rparr>
      | WsThrows msg \<Rightarrow> s\<lparr>k_failing := Some msg\<rparr>
      | NoWebSocket \<Rightarrow> s\<lparr>k_failing := Some ''connect failed''\<rparr>)"

definition asocket_onopen :: "tenv \<Rightarrow> asocket \<Rightarrow> asocket" where
  "asocket_onopen env s =
     (let s1 = snd (asocket_send env (so_hello (k_options s)) (s\<lparr>k_opened := True, k_lastIn := te_now env\<rparr>))
      in k_perform KOnOpen (s1\<lparr>k_timer := Armed 1000 ()\<rparr>))"

text \<open>A parsed message: what the socket reads of a \<open>welcome\<close> or an \<open>error\<close> before it hands it on.\<close>

definition asocket_record :: "json \<Rightarrow> asocket \<Rightarrow> asocket" where
  "asocket_record j s =
     (let s1 =
        (if field j ''type'' = Some (JStr ''welcome'') then
           (let s0 = s\<lparr>k_welcomed := True, k_connectTimer := clear_timeout (k_connectTimer s)\<rparr> in
            case as_num (ofield (ofield (field j ''data'') ''limits'') ''idleTimeoutMs'') of
              Some idle \<Rightarrow> if idle > 0 then s0\<lparr>k_idleTimeoutMs := idle\<rparr> else s0
            | None \<Rightarrow> s0)
         else if field j ''type'' = Some (JStr ''error'') then
           (case as_num (ofield (field j ''data'') ''retryAfterMs'') of
              Some r \<Rightarrow> s\<lparr>k_retryAfterMs := Some r\<rparr>
            | None \<Rightarrow> s)
         else s)
      in k_perform (KOnMessage j) s1)"

definition asocket_onmessage :: "tenv \<Rightarrow> string option \<Rightarrow> asocket \<Rightarrow> asocket" where
  "asocket_onmessage env data s =
     (let s1 = s\<lparr>k_lastIn := te_now env\<rparr> in
      case data of
        None \<Rightarrow> s1
      | Some text \<Rightarrow>
          (case as_record (JSON_parse text) of Some j \<Rightarrow> asocket_record j s1 | None \<Rightarrow> s1))"

definition asocket_tick :: "tenv \<Rightarrow> asocket \<Rightarrow> asocket" where
  "asocket_tick env s =
     (if te_now env - k_lastIn s > k_idleTimeoutMs s + so_livenessGraceMs (k_options s)
      then asocket_close AGENT_IDLE_CLOSE ''server silent'' s
      else if te_now env - k_lastOut s \<ge> k_idleTimeoutMs s / 2
      then (let s1 = s\<lparr>k_pings := Suc (k_pings s)\<rparr>
            in snd (asocket_send env (JObj [(''type'', JStr ''ping''), (''nonce'', JStr (''p-'' @ nat_str (k_pings s1)))]) s1))
      else s)"

section \<open>Runs\<close>

text \<open>
  Callbacks run only while they are registered: the WebSocket's events while its handlers are attached
  (\<open>open\<close> once, messages after it), timers while they are armed. \<open>connect\<close> is called once, by the agent.
\<close>

datatype k_input =
    KConnect ws_result
  | KFailed
  | KOpen
  | KMessage "string option"
  | KSocketClose int string
  | KTick
  | KConnectTimeout
  | KCallSend json
  | KCallClose int string

fun asocket_step :: "tenv \<times> k_input \<Rightarrow> asocket \<Rightarrow> asocket" where
  "asocket_step (env, KConnect ws) s = (if k_socket s \<or> k_failing s \<noteq> None \<or> k_closed s then s else asocket_connect ws s)"
| "asocket_step (env, KFailed) s =
     (case k_failing s of Some msg \<Rightarrow> asocket_finish 1006 msg (s\<lparr>k_failing := None\<rparr>) | None \<Rightarrow> s)"
| "asocket_step (env, KOpen) s = (if k_attached s \<and> \<not> k_opened s then asocket_onopen env s else s)"
| "asocket_step (env, KMessage data) s = (if k_attached s \<and> k_opened s then asocket_onmessage env data s else s)"
| "asocket_step (env, KSocketClose code reason) s = (if k_attached s then asocket_finish code reason s else s)"
| "asocket_step (env, KTick) s = (case k_timer s of Armed _ _ \<Rightarrow> asocket_tick env s | _ \<Rightarrow> s)"
| "asocket_step (env, KConnectTimeout) s =
     (case k_connectTimer s of
        Armed _ _ \<Rightarrow> asocket_close AGENT_IDLE_CLOSE ''connect timeout'' (s\<lparr>k_connectTimer := Spent\<rparr>)
      | _ \<Rightarrow> s)"
| "asocket_step (env, KCallSend j) s = snd (asocket_send env j s)"
| "asocket_step (env, KCallClose code reason) s = asocket_close code reason s"

section \<open>The contract of a connection attempt\<close>

text \<open>The reports of a close, in the log of a transport.\<close>

fun close_effect :: "k_effect \<Rightarrow> t_effect list" where
  "close_effect (KOnClose c) = [OnClose c]"
| "close_effect _ = []"

definition k_log :: "asocket \<Rightarrow> t_effect list" where
  "k_log s = concat (map close_effect (k_out s))"

lemma k_log_perform [simp]:
  "k_log (k_perform e s) = k_log s @ close_effect e"
  "k_log (k_perform e s\<lparr>k_timer := t1\<rparr>) = k_log s @ close_effect e"
  "k_log (k_perform e s\<lparr>k_lastOut := l1\<rparr>) = k_log s @ close_effect e"
  by (simp_all add: k_log_def k_perform_def)

lemma k_log_cong: "k_out s' = k_out s \<Longrightarrow> k_log s' = k_log s"
  by (simp add: k_log_def)

lemmas asocket_defs = asocket_finish_def asocket_close_def asocket_send_def asocket_connect_def asocket_onopen_def
  asocket_onmessage_def asocket_record_def asocket_tick_def k_perform_def k_log_def Let_def

lemma asocket_close_facts [simp]:
  "k_closed (asocket_finish c r s)" "k_closed (asocket_close c r s)"
  "closes (k_log (asocket_finish c r s)) = closes (k_log s) + (if k_closed s then 0 else 1)"
  "closes (k_log (asocket_close c r s)) = closes (k_log s) + (if k_closed s then 0 else 1)"
  by (auto simp: asocket_defs)

lemma asocket_quiet_facts [simp]:
  "k_closed (snd (asocket_send env j s)) = k_closed s" "k_log (snd (asocket_send env j s)) = k_log s"
  "k_closed (asocket_onopen env s) = k_closed s" "k_log (asocket_onopen env s) = k_log s"
  "k_closed (asocket_onmessage env d s) = k_closed s" "k_log (asocket_onmessage env d s) = k_log s"
  "k_closed (asocket_connect ws s) = k_closed s" "k_log (asocket_connect ws s) = k_log s"
  by (auto simp: asocket_defs split: option.split ws_result.split)

lemma asocket_tick_facts:
  "k_closed s \<Longrightarrow> k_closed (asocket_tick env s)"
  "closes (k_log (asocket_tick env s)) = closes (k_log s) + (if k_closed (asocket_tick env s) \<and> \<not> k_closed s then 1 else 0)"
proof -
  have l: "k_log (s\<lparr>k_pings := n\<rparr>) = k_log s" for n by (simp add: k_log_def)
  show "k_closed s \<Longrightarrow> k_closed (asocket_tick env s)"
    "closes (k_log (asocket_tick env s)) = closes (k_log s) + (if k_closed (asocket_tick env s) \<and> \<not> k_closed s then 1 else 0)"
    by (auto simp: asocket_tick_def Let_def l)
qed

lemma asocket_step_closes:
  "closes (k_log (asocket_step i s)) = closes (k_log s) + (if k_closed (asocket_step i s) \<and> \<not> k_closed s then 1 else 0)"
  "k_closed s \<Longrightarrow> k_closed (asocket_step i s)"
proof -
  have l: "k_log (s\<lparr>k_failing := f\<rparr>) = k_log s" "k_log (s\<lparr>k_connectTimer := t\<rparr>) = k_log s" for f t
    by (simp_all add: k_log_def)
  show "closes (k_log (asocket_step i s)) = closes (k_log s) + (if k_closed (asocket_step i s) \<and> \<not> k_closed s then 1 else 0)"
    "k_closed s \<Longrightarrow> k_closed (asocket_step i s)"
    using asocket_tick_facts
    by (cases "(i, s)" rule: asocket_step.cases; auto simp: l split: option.split timer.split)+
qed

lemma asocket_new [simp]: "\<not> k_closed (new_asocket o')" "k_log (new_asocket o') = []"
  by (simp_all add: new_asocket_def k_log_def)

interpretation asocket: transport_contract asocket_step "\<lambda>_. True" k_closed k_log "\<lambda>s. \<exists>o'. s = new_asocket o'"
  by unfold_locales (auto simp: asocket_step_closes)

section \<open>Liveness\<close>

text \<open>
  An attempt in progress always has something that ends it: the pending report of a failed constructor,
  the connect timer, or, once open, the interval that watches for silence.
\<close>

definition asocket_live :: "asocket \<Rightarrow> bool" where
  "asocket_live s \<longleftrightarrow> k_closed s \<or> k_failing s \<noteq> None
     \<or> (if k_opened s then k_timer s = Armed 1000 () else k_connectTimer s = Armed (so_connectTimeoutMs (k_options s)) ())"

lemma asocket_live_facts [simp]:
  "asocket_live (asocket_finish c r s)" "asocket_live (asocket_close c r s)"
  "asocket_live (snd (asocket_send env j s)) = asocket_live s" "asocket_live (asocket_onopen env s)"
  "asocket_live (asocket_connect ws s) \<longleftrightarrow> ws \<noteq> WsCreated \<or> \<not> k_opened s \<or> k_failing s \<noteq> None \<or> k_closed s \<or> k_timer s = Armed 1000 ()"
  by (auto simp: asocket_live_def asocket_defs split: option.split ws_result.split)

lemma asocket_live_message: "k_opened s \<Longrightarrow> asocket_live s \<Longrightarrow> asocket_live (asocket_onmessage env d s)"
  by (auto simp: asocket_live_def asocket_defs split: option.split)

lemma asocket_live_tick: "asocket_live s \<Longrightarrow> asocket_live (asocket_tick env s)"
  by (auto simp: asocket_tick_def Let_def) (auto simp: asocket_live_def)

lemma asocket_live_step: "asocket_live s \<Longrightarrow> asocket_live (asocket_step i s)"
  using asocket_live_message asocket_live_tick
  by (cases "(i, s)" rule: asocket_step.cases)
     (auto simp: asocket_live_def [of "s\<lparr>k_failing := None\<rparr>"] split: option.split timer.split, simp_all add: asocket_live_def)

interpretation asocket_live: preserved asocket_step asocket_live
  by unfold_locales (rule asocket_live_step)

lemma asocket_live_connect: "asocket_live (asocket_connect ws (new_asocket o'))"
  by (simp add: new_asocket_def)

text \<open>What ends it, for a live attempt.\<close>

lemma asocket_live_ends:
  assumes "asocket_live s" "\<not> k_closed s"
  shows "k_closed (asocket_step (env, KFailed) s) \<or> k_closed (asocket_step (env, KConnectTimeout) s)
    \<or> (\<forall>e. te_now e > k_lastIn s + k_idleTimeoutMs s + so_livenessGraceMs (k_options s) \<longrightarrow> k_closed (asocket_step (e, KTick) s))"
  using assms by (auto simp: asocket_live_def asocket_tick_def split: if_splits)

end
