(* ===== verification/Agent.thy ===== *)
theory Agent
  imports Tracker Agent_Socket Reply
begin

text \<open>
  The agent, \<open>packages/agent-ts/src/agent.ts\<close>: one channel-scoped connection that serves every
  conversation of a channel. The fields of \<open>Agent\<close> are the record \<open>agent\<close>; every callback (a timer, an
  event of the socket, a settled promise, a call of the application) is one step.

  \<^item> A promise of \<open>#enqueue\<close> is named by a number; \<open>og_owner\<close> says whose continuation waits for it, and
    its settlement is logged (\<open>SendDone\<close>, \<open>SendFailed\<close>). Continuations inside a reply are queued in
    \<open>g_jobs\<close> and run as steps of their own.
  \<^item> The replies of all turns are in \<open>g_replies\<close>; a turn's handler acts through \<open>GReply\<close> steps, in any
    order and at any time, and \<open>GHandlerReturns\<close>.
  \<^item> \<open>g_retries\<close> and \<open>g_syncs\<close> are the timers started with \<open>setTimeout\<close> whose handles are not kept, with their delays.
\<close>

section \<open>State\<close>

record agent_options =
  ag_url :: string
  ag_token :: "string option"
  ag_getToken :: bool
  ag_group :: "string option"
  ag_userId :: "string option"
  ag_reconnect :: reconnect_arg
  ag_path :: "string option"
  ag_watermarks :: "(string \<times> jsnum) list"
  ag_maxTrackedConversations :: "int option"
  ag_maxInFlight :: "int option"
  ag_maxFramesPerSecond :: "jsnum option"
  ag_ackTimeoutMs :: "jsnum option"
  ag_sendTimeoutMs :: "jsnum option"
  ag_maxConcurrentTurns :: "int option"
  ag_includeBotTurns :: bool
  ag_streamMode :: "stream_mode option"
  ag_streamFlushMs :: "jsnum option"
  ag_typingRefreshMs :: "jsnum option"
  ag_connectTimeoutMs :: "jsnum option"
  ag_livenessGraceMs :: "jsnum option"
  ag_runFrames :: "bool option"

datatype owner = Application | OfReply nat nat | OfHistory nat | Ignored

record outgoing =
  og_id :: nat
  og_owner :: owner
  og_conversationId :: string
  og_frame :: json
  og_clientId :: "string option"
  og_deadline :: jsnum
  og_sentAt :: jsnum
  og_attempts :: nat

text \<open>
  The turn at the head of a lane: not started, waiting for a slot, with a slot, in its handler, or
  waiting for \<open>reply.end()\<close>. A controller exists exactly while the handler runs.
\<close>

datatype turn_phase = TurnReady | TurnWaiting | TurnGranted | TurnRunning nat | TurnEnding nat

record lane =
  ln_turns :: "json list"
  ln_phase :: turn_phase

text \<open>A reply with what the agent keeps of its abort signal.\<close>

record reply_slot =
  rs_reply :: reply
  rs_signal :: bool
  rs_aborted :: bool

record collector =
  hc_id :: nat
  hc_until :: int
  hc_frames :: "json list"

datatype job = JSettled nat nat bool | JAnswer nat nat "json option"

datatype stop_phase = NotStopping | StopTails jsnum | StopDrain jsnum | Stopped

datatype g_effect =
    EConnected json
  | EDisconnected int string bool "int option"
  | EError agent_error
  | EResume string "string list"
  | GNotify json "string option"
  | GetToken agent_token_reason
  | GWrite string json
  | SendDone nat "json option"
  | SendFailed nat agent_error
  | HandlerStart turn
  | Dispatched string json
  | HistoryDone string "json list"

record agent =
  g_options :: agent_options
  g_prefix :: string
  g_handler :: bool
  g_tracker :: tracker
  g_lanes :: "(string \<times> lane) list"
  g_asks :: "(string \<times> (nat \<times> nat)) list"
  g_histories :: "(string \<times> collector) list"
  g_queue :: "outgoing list"
  g_inflight :: "(string \<times> outgoing) list"
  g_socket :: "asocket option"
  g_welcome :: "json option"
  g_running :: bool
  g_stopping :: bool
  g_everConnected :: bool
  g_attempt :: nat
  g_clientCounter :: nat
  g_reconnectTimer :: "agent_token_reason timer"
  g_refreshTimer :: "unit timer"
  g_tickTimer :: "unit timer"
  g_pumpTimer :: "unit timer"
  g_tokens :: jsnum
  g_tokensAt :: jsnum
  g_pausedUntil :: jsnum
  g_active :: nat
  g_waiters :: "string list"
  g_start :: bool
  g_startResult :: "(agent_error + unit) option"
  g_rejected :: bool
  g_connects :: nat
  g_refreshes :: nat
  g_retries :: "(jsnum \<times> outgoing) list"
  g_syncs :: "(jsnum \<times> string \<times> json) list"
  g_replies :: "reply_slot list"
  g_jobs :: "job list"
  g_sends :: nat
  g_collectors :: nat
  g_stop :: stop_phase
  g_out :: "g_effect list"

text \<open>
  One callback's answers of the platform: clock, socket and \<open>send\<close> (\<open>ge_t\<close>), \<open>Math.random\<close>, random hex
  text, \<open>new WebSocket\<close> and the URL parser.
\<close>

record genv =
  ge_t :: tenv
  ge_random :: jsnum
  ge_hex :: string
  ge_ws :: ws_result
  ge_url :: "string \<Rightarrow> url option"

abbreviation ge_now :: "genv \<Rightarrow> jsnum" where
  "ge_now env \<equiv> te_now (ge_t env)"

definition TRANSIENT :: "string list" where
  "TRANSIENT = [''typing'', ''run'', ''read'', ''sync'', ''error'', ''genui_components'', ''skills'']"

definition RESEND_CODES :: "string list" where
  "RESEND_CODES = [''rate_limited'', ''too_many_in_flight'', ''unavailable'', ''internal'']"

definition MAX_SEND_ATTEMPTS :: nat where "MAX_SEND_ATTEMPTS = 6"

section \<open>Settings\<close>

definition g_policy :: "agent \<Rightarrow> resolved_reconnect" where
  "g_policy s = agent_resolveReconnect (ag_reconnect (g_options s))"

definition g_maxInFlight :: "agent \<Rightarrow> nat" where
  "g_maxInFlight s = nat (max 1 (or_default (ag_maxInFlight (g_options s)) 32))"

definition fps_of :: "agent_options \<Rightarrow> jsnum" where
  "fps_of o' = max 1 (or_default (ag_maxFramesPerSecond o') 15)"

definition g_fps :: "agent \<Rightarrow> jsnum" where
  "g_fps s = fps_of (g_options s)"

definition g_ackTimeoutMs :: "agent \<Rightarrow> jsnum" where
  "g_ackTimeoutMs s = or_default (ag_ackTimeoutMs (g_options s)) 10000"

definition g_sendTimeoutMs :: "agent \<Rightarrow> jsnum" where
  "g_sendTimeoutMs s = or_default (ag_sendTimeoutMs (g_options s)) 120000"

definition g_maxConcurrent :: "agent \<Rightarrow> nat" where
  "g_maxConcurrent s = nat (max 1 (or_default (ag_maxConcurrentTurns (g_options s)) 64))"

definition g_core :: "agent \<Rightarrow> core_config" where
  "g_core s = \<lparr>cc_streamMode = or_default (ag_streamMode (g_options s)) Genui,
     cc_streamFlushMs = or_default (ag_streamFlushMs (g_options s)) 150,
     cc_typingRefreshMs = or_default (ag_typingRefreshMs (g_options s)) 4000\<rparr>"

text \<open>The constructor; \<open>prefix\<close> is the random client id prefix.\<close>

definition new_agent :: "agent_options \<Rightarrow> string \<Rightarrow> jsnum \<Rightarrow> agent_error + agent" where
  "new_agent o' prefix now =
     (if \<not> truthy (ag_token o') \<and> \<not> ag_getToken o'
      then Inl (fatal_error ''token_error'' ''createAgent needs `token` or `getToken`'')
      else
        Inr \<lparr>g_options = o', g_prefix = prefix, g_handler = False,
             g_tracker = new_tracker (or_default (ag_maxTrackedConversations o') 1000) (ag_watermarks o'),
             g_lanes = [], g_asks = [], g_histories = [], g_queue = [], g_inflight = [], g_socket = None,
             g_welcome = None, g_running = False, g_stopping = False, g_everConnected = False, g_attempt = 0,
             g_clientCounter = 0, g_reconnectTimer = Unset, g_refreshTimer = Unset, g_tickTimer = Unset,
             g_pumpTimer = Unset, g_tokens = fps_of o', g_tokensAt = now, g_pausedUntil = 0, g_active = 0,
             g_waiters = [], g_start = False, g_startResult = None, g_rejected = False, g_connects = 0,
             g_refreshes = 0, g_retries = [], g_syncs = [], g_replies = [], g_jobs = [], g_sends = 0,
             g_collectors = 0, g_stop = NotStopping, g_out = []\<rparr>)"

definition agent_connected :: "agent \<Rightarrow> bool" where
  "agent_connected s \<longleftrightarrow> g_welcome s \<noteq> None \<and> (case g_socket s of Some k \<Rightarrow> k_welcomed k | None \<Rightarrow> False)"

definition channelId :: "agent \<Rightarrow> json option" where
  "channelId s = ofield (ofield (g_welcome s) ''data'') ''channelId''"

definition agent_watermarks :: "agent \<Rightarrow> (string \<times> int) list" where
  "agent_watermarks s = tracker_snapshot (g_tracker s)"

definition g_perform :: "g_effect \<Rightarrow> agent \<Rightarrow> agent" where
  "g_perform e s = s\<lparr>g_out := g_out s @ [e]\<rparr>"

definition emitError :: "agent_error \<Rightarrow> agent \<Rightarrow> agent" where
  "emitError e s = g_perform (EError e) s"

text \<open>\<open>resolve\<close> and \<open>reject\<close> of the promise of \<open>start\<close>; only the first settles it.\<close>

definition settle_start :: "agent_error + unit \<Rightarrow> agent \<Rightarrow> agent" where
  "settle_start r s = (if g_start s \<and> g_startResult s = None then s\<lparr>g_startResult := Some r\<rparr> else s)"

section \<open>Outbound\<close>

definition agent_nextClientId :: "agent \<Rightarrow> string \<times> agent" where
  "agent_nextClientId s =
     (let n = Suc (g_clientCounter s) in (g_prefix s @ ''-'' @ nat_str n, s\<lparr>g_clientCounter := n\<rparr>))"

text \<open>The key of a send or an ask: \<open>`${conversationId}\u0000${id}`\<close>.\<close>

definition send_key :: "string \<Rightarrow> string \<Rightarrow> string" where
  "send_key cid i = cid @ [CHR 0x00] @ i"

definition og_key :: "outgoing \<Rightarrow> string" where
  "og_key e = send_key (og_conversationId e) (case og_clientId e of Some c \<Rightarrow> c | None \<Rightarrow> [])"

text \<open>
  A collected history ends: the collector goes, the frames are returned in the order of their seqs.
\<close>

definition frame_seq :: "json \<Rightarrow> jsnum" where
  "frame_seq f = (case as_num (field f ''seq'') of Some x \<Rightarrow> x | None \<Rightarrow> 0)"

definition history_done :: "string \<Rightarrow> agent \<Rightarrow> agent" where
  "history_done cid s =
     (case map_of (g_histories s) cid of
        Some c \<Rightarrow> g_perform (HistoryDone cid (sort_key frame_seq (hc_frames c))) (s\<lparr>g_histories := AList.delete cid (g_histories s)\<rparr>)
      | None \<Rightarrow> s)"

definition history_failed :: "nat \<Rightarrow> agent \<Rightarrow> agent" where
  "history_failed hid s =
     (case find (\<lambda>e. hc_id (snd e) = hid) (g_histories s) of Some e \<Rightarrow> history_done (fst e) s | None \<Rightarrow> s)"

text \<open>\<open>entry.resolve\<close> and \<open>entry.reject\<close>; the continuation of the owner is queued.\<close>

definition wake_owner :: "owner \<Rightarrow> bool \<Rightarrow> agent \<Rightarrow> agent" where
  "wake_owner own ok s =
     (case own of
        OfReply rid k \<Rightarrow> s\<lparr>g_jobs := g_jobs s @ [JSettled rid k ok]\<rparr>
      | OfHistory hid \<Rightarrow> if ok then s else history_failed hid s
      | _ \<Rightarrow> s)"

definition resolve_send :: "outgoing \<Rightarrow> json option \<Rightarrow> agent \<Rightarrow> agent" where
  "resolve_send e ack s = wake_owner (og_owner e) True (g_perform (SendDone (og_id e) ack) s)"

definition reject_send :: "agent_error \<Rightarrow> outgoing \<Rightarrow> agent \<Rightarrow> agent" where
  "reject_send err e s = wake_owner (og_owner e) False (g_perform (SendFailed (og_id e) err) s)"

definition envelope_json :: "string \<Rightarrow> json \<Rightarrow> json" where
  "envelope_json cid frame = JObj [(''conversationId'', JStr cid), (''frame'', frame)]"

text \<open>The loop of \<open>#pump\<close> over the queue; nothing else touches the queue while it runs.\<close>

fun pump_entries :: "genv \<Rightarrow> outgoing list \<Rightarrow> agent \<Rightarrow> agent" where
  "pump_entries env [] s = s"
| "pump_entries env (h # q) s =
     (if truthy (og_clientId h) \<and> length (g_inflight s) \<ge> g_maxInFlight s then s
      else if g_tokens s < 1 then s\<lparr>g_pumpTimer := Armed (of_int \<lceil>(1 - g_tokens s) / g_fps s * 1000\<rceil>) ()\<rparr>
      else
        (case g_socket s of
           None \<Rightarrow> s
         | Some k \<Rightarrow>
             (case asocket_send (ge_t env) (envelope_json (og_conversationId h) (og_frame h)) k of
                (False, _) \<Rightarrow> s
              | (True, k') \<Rightarrow>
                  (let h' = h\<lparr>og_attempts := Suc (og_attempts h), og_sentAt := ge_now env\<rparr>;
                       s1 = (g_perform (GWrite (og_conversationId h) (og_frame h)) s)
                              \<lparr>g_queue := q, g_socket := Some k', g_tokens := g_tokens s - 1\<rparr>
                   in pump_entries env q
                        (if truthy (og_clientId h)
                         then s1\<lparr>g_inflight := AList.update (og_key h) h' (g_inflight s1)\<rparr>
                         else resolve_send h' None s1)))))"

definition agent_pump :: "genv \<Rightarrow> agent \<Rightarrow> agent" where
  "agent_pump env s =
     (if timer_truthy (g_pumpTimer s) then s
      else if g_socket s = None \<or> \<not> agent_connected s then s
      else if ge_now env < g_pausedUntil s then s\<lparr>g_pumpTimer := Armed (g_pausedUntil s - ge_now env) ()\<rparr>
      else
        (let s1 = s\<lparr>g_tokens := min (g_fps s) (g_tokens s + (ge_now env - g_tokensAt s) / 1000 * g_fps s),
                    g_tokensAt := ge_now env\<rparr>
         in pump_entries env (g_queue s1) s1))"

definition pump_fires :: "genv \<Rightarrow> agent \<Rightarrow> agent" where
  "pump_fires env s =
     (case g_pumpTimer s of Armed _ _ \<Rightarrow> agent_pump env (s\<lparr>g_pumpTimer := Unset\<rparr>) | _ \<Rightarrow> s)"

text \<open>\<open>String(frame["type"])\<close>.\<close>

definition type_str :: "json \<Rightarrow> string" where
  "type_str f = (case as_str (field f ''type'') of Some t \<Rightarrow> t | None \<Rightarrow> ''undefined'')"

definition closed_send :: "string \<Rightarrow> agent \<Rightarrow> agent_error" where
  "closed_send cid s =
     new_agent_error ''closed'' (if g_start s then ''the agent was stopped'' else ''the agent is not started'') (Some False) (Some cid) None"

definition enqueue :: "genv \<Rightarrow> owner \<Rightarrow> string \<Rightarrow> json \<Rightarrow> agent \<Rightarrow> agent" where
  "enqueue env own cid frame s0 =
     (let n = g_sends s0; s = s0\<lparr>g_sends := Suc n\<rparr>;
          entry = \<lparr>og_id = n, og_owner = own, og_conversationId = cid, og_frame = frame, og_clientId = None,
                   og_deadline = ge_now env + g_sendTimeoutMs s, og_sentAt = 0, og_attempts = 0\<rparr>
      in if \<not> g_running s then reject_send (closed_send cid s) entry s
         else if type_str frame \<in> set TRANSIENT \<and> type_str frame \<noteq> ''sync'' \<and> \<not> agent_connected s
         then resolve_send entry None s
         else
           (let (entry', s1) =
              (if type_str frame \<in> set UNACKED_TYPES then (entry, s)
               else
                 (let (c, s') = (case (field frame ''clientId'', field frame ''id'') of
                                   (Some (JStr c), _) \<Rightarrow> (c, s)
                                 | (_, Some (JStr i)) \<Rightarrow> (i, s)
                                 | _ \<Rightarrow> agent_nextClientId s)
                  in (entry\<lparr>og_clientId := Some c,
                            og_frame := (if field frame ''clientId'' = None \<and> field frame ''id'' = None
                                         then with_field ''clientId'' (JStr c) frame else frame)\<rparr>, s')))
            in agent_pump env
                 (s1\<lparr>g_queue := g_queue s1 @ [entry'], g_tracker := tracker_touch cid (g_tracker s1)\<rparr>)))"

text \<open>The delay of the retry timer of \<open>#onSendError\<close>.\<close>

definition retry_delay :: "genv \<Rightarrow> agent_error \<Rightarrow> outgoing \<Rightarrow> agent \<Rightarrow> jsnum" where
  "retry_delay env e entry s =
     (case ae_retryAfterMs e of
        Some r \<Rightarrow> r
      | None \<Rightarrow> of_int (agent_backoffDelay (og_attempts entry) (g_policy s) None (ge_random env)))"

definition agent_onSendError :: "genv \<Rightarrow> agent_error \<Rightarrow> agent \<Rightarrow> agent" where
  "agent_onSendError env e s =
     (let key = send_key (or_default (ae_conversationId e) []) (or_default (ae_clientId e) []) in
      case map_of (g_inflight s) key of
        None \<Rightarrow> emitError e s
      | Some entry \<Rightarrow>
          (let s1 = s\<lparr>g_inflight := AList.delete key (g_inflight s)\<rparr>
           in agent_pump env
                (if ae_retryable e \<and> ae_code e \<in> set RESEND_CODES \<and> og_attempts entry < MAX_SEND_ATTEMPTS
                 then s1\<lparr>g_retries := g_retries s1 @ [(retry_delay env e entry s1, entry)]\<rparr>
                 else reject_send e entry s1)))"

definition agent_retry_fires :: "genv \<Rightarrow> nat \<Rightarrow> agent \<Rightarrow> agent" where
  "agent_retry_fires env i s =
     (if i < length (g_retries s) then
        (let entry = snd (g_retries s ! i);
             s1 = s\<lparr>g_retries := take i (g_retries s) @ drop (Suc i) (g_retries s)\<rparr>
         in if \<not> g_running s then s1
            else agent_pump env (s1\<lparr>g_queue := entry # g_queue s1\<rparr>))
      else s)"

definition timeout_error :: "string \<Rightarrow> outgoing \<Rightarrow> agent_error" where
  "timeout_error msg e = new_agent_error ''timeout'' msg (Some True) (Some (og_conversationId e)) (og_clientId e)"

text \<open>The two loops of \<open>#tick\<close>: the queue from its end, then the map of unacknowledged sends in order.\<close>

definition tick_queue :: "genv \<Rightarrow> agent \<Rightarrow> agent" where
  "tick_queue env s =
     fold (\<lambda>e. reject_send (timeout_error ''the send was not delivered in time'' e) e)
       (rev (filter (\<lambda>e. og_deadline e < ge_now env) (g_queue s)))
       (s\<lparr>g_queue := filter (\<lambda>e. \<not> og_deadline e < ge_now env) (g_queue s)\<rparr>)"

fun tick_inflight :: "genv \<Rightarrow> (string \<times> outgoing) list \<Rightarrow> agent \<Rightarrow> agent" where
  "tick_inflight env [] s = s"
| "tick_inflight env ((key, e) # es) s =
     tick_inflight env es
       (if og_deadline e < ge_now env
        then reject_send (timeout_error ''no ack in time'' e) e (s\<lparr>g_inflight := AList.delete key (g_inflight s)\<rparr>)
        else if agent_connected s \<and> ge_now env - og_sentAt e > g_ackTimeoutMs s
        then s\<lparr>g_inflight := AList.delete key (g_inflight s), g_queue := e # g_queue s\<rparr>
        else s)"

definition agent_tick :: "genv \<Rightarrow> agent \<Rightarrow> agent" where
  "agent_tick env s =
     (case g_tickTimer s of
        Armed _ _ \<Rightarrow> (let s1 = tick_queue env s in agent_pump env (tick_inflight env (g_inflight s1) s1))
      | _ \<Rightarrow> s)"

section \<open>Replies and asks\<close>

text \<open>\<open>#waitForAnswer\<close>: the ask is the pair of its reply and its number there.\<close>

definition waitForAnswer :: "string \<Rightarrow> string \<Rightarrow> nat \<Rightarrow> nat \<Rightarrow> agent \<Rightarrow> agent" where
  "waitForAnswer cid interruptId rid n s =
     (if rid < length (g_replies s) \<and> rs_signal (g_replies s ! rid) \<and> rs_aborted (g_replies s ! rid)
      then s\<lparr>g_jobs := g_jobs s @ [JAnswer rid n None]\<rparr>
      else s\<lparr>g_asks := AList.update (send_key cid interruptId) (rid, n) (g_asks s)\<rparr>)"

text \<open>Rejecting pending asks, in the order of the map.\<close>

definition reject_asks :: "(string \<times> (nat \<times> nat) \<Rightarrow> bool) \<Rightarrow> agent \<Rightarrow> agent" where
  "reject_asks P s =
     s\<lparr>g_asks := filter (\<lambda>a. \<not> P a) (g_asks s),
       g_jobs := g_jobs s @ map (\<lambda>a. JAnswer (fst (snd a)) (snd (snd a)) None) (filter P (g_asks s))\<rparr>"

text \<open>The timeout of an ask, or the abort of a signal the caller gave.\<close>

definition ask_cancelled :: "nat \<Rightarrow> nat \<Rightarrow> agent \<Rightarrow> agent" where
  "ask_cancelled rid n s = reject_asks (\<lambda>a. snd a = (rid, n)) s"

definition new_asks :: "reply \<Rightarrow> reply \<Rightarrow> (nat \<times> string) list" where
  "new_asks r r' =
     map (\<lambda>n. (n, case r_asks r' ! n of AskSending i _ \<Rightarrow> i | AskWaiting i \<Rightarrow> i | AskDone \<Rightarrow> []))
       [length (r_asks r)..<length (r_asks r')]"

definition new_sends :: "reply \<Rightarrow> reply \<Rightarrow> (nat \<times> json) list" where
  "new_sends r r' = map (\<lambda>k. (k, fst (r_sent r' ! k))) [length (r_sent r)..<length (r_sent r')]"

text \<open>
  The calls of the core a step of a reply makes: first the registration of an ask, then the sends.
\<close>

definition core_calls :: "genv \<Rightarrow> nat \<Rightarrow> reply \<Rightarrow> reply \<Rightarrow> agent \<Rightarrow> agent" where
  "core_calls env rid r r' s =
     (let cid = r_conversationId r';
          s1 = s\<lparr>g_clientCounter := g_clientCounter s + (r_clientIds r' - r_clientIds r)\<rparr>;
          s2 = fold (\<lambda>(n, i). waitForAnswer cid i rid n) (new_asks r r') s1
      in fold (\<lambda>(k, f). enqueue env (OfReply rid k) cid f) (new_sends r r') s2)"

definition reply_env :: "genv \<Rightarrow> agent \<Rightarrow> renv" where
  "reply_env env s = \<lparr>rv_now = ge_now env, rv_random = ge_hex env, rv_clientId = fst (agent_nextClientId s)\<rparr>"

definition reply_apply :: "genv \<Rightarrow> nat \<Rightarrow> r_input \<Rightarrow> agent \<Rightarrow> agent" where
  "reply_apply env rid i s =
     (if rid < length (g_replies s) then
        (let slot = g_replies s ! rid;
             r' = reply_step (reply_env env s, i) (rs_reply slot)
         in core_calls env rid (rs_reply slot) r' (s\<lparr>g_replies := (g_replies s)[rid := slot\<lparr>rs_reply := r'\<rparr>]\<rparr>))
      else s)"

text \<open>\<open>new ReplyImpl(...)\<close>, which reports \<open>run started\<close> where runs are reported.\<close>

definition agent_new_reply :: "genv \<Rightarrow> string \<Rightarrow> bool \<Rightarrow> bool \<Rightarrow> agent \<Rightarrow> agent" where
  "agent_new_reply env cid rn signal s =
     (let r = new_reply cid (g_core s) rn;
          rid = length (g_replies s);
          s1 = s\<lparr>g_replies := g_replies s @ [\<lparr>rs_reply = r, rs_signal = signal, rs_aborted = False\<rparr>]\<rparr>
      in fold (\<lambda>(k, f). enqueue env (OfReply rid k) cid f) (new_sends (r\<lparr>r_sent := []\<rparr>) r) s1)"

definition run_job :: "genv \<Rightarrow> agent \<Rightarrow> agent" where
  "run_job env s =
     (case g_jobs s of
        [] \<Rightarrow> s
      | JSettled rid k ok # js \<Rightarrow> reply_apply env rid (RSettled k ok) (s\<lparr>g_jobs := js\<rparr>)
      | JAnswer rid n v # js \<Rightarrow> reply_apply env rid (RAnswer n v) (s\<lparr>g_jobs := js\<rparr>))"

text \<open>What the application and the reply's own timers and promise chains do; the rest is the agent's.\<close>

fun external_call :: "r_input \<Rightarrow> bool" where
  "external_call (RSettled _ _) = False"
| "external_call (RAnswer _ _) = False"
| "external_call (RSetStatus _) = False"
| "external_call _ = True"

section \<open>Connection\<close>

definition watermarks_json :: "(string \<times> int) list \<Rightarrow> json" where
  "watermarks_json ws = JObj (map (\<lambda>(cid, n). (cid, JNum (of_int n))) ws)"

definition agent_hello :: "string \<Rightarrow> agent \<Rightarrow> json" where
  "agent_hello token s =
     JObj ([(''type'', JStr ''hello''), (''protocol'', JStr AGENT_PROTOCOL_VERSION), (''token'', JStr token)]
       @ (if truthy (ag_group (g_options s)) then [(''group'', JStr (the (ag_group (g_options s))))] else [])
       @ (if truthy (ag_userId (g_options s)) then [(''userId'', JStr (the (ag_userId (g_options s))))] else [])
       @ (if agent_watermarks s \<noteq> [] then [(''watermarks'', watermarks_json (agent_watermarks s))] else []))"

definition agent_scheduleReconnect :: "genv \<Rightarrow> int \<Rightarrow> string \<Rightarrow> jsnum option \<Rightarrow> agent \<Rightarrow> agent" where
  "agent_scheduleReconnect env code reason retryAfterMs s =
     (if \<not> g_running s then s
      else if reaches (g_attempt s) (maxAttempts (g_policy s)) then
        settle_start (Inl (fatal_error ''connect_failed'' (''gave up after '' @ nat_str (g_attempt s) @ '' attempts'')))
          (g_perform (EDisconnected code reason False None) (s\<lparr>g_running := False\<rparr>))
      else
        (let delay = agent_backoffDelay (max 1 (g_attempt s)) (g_policy s) retryAfterMs (ge_random env) in
         (g_perform (EDisconnected code reason True (Some delay)) s)
           \<lparr>g_reconnectTimer := Armed (of_int delay) (if code = 4401 then RejectedToken else Connect)\<rparr>))"

definition token_cause :: "thrown \<Rightarrow> agent_error" where
  "token_cause c = (case c of AgentThrow e \<Rightarrow> e | OtherThrow _ \<Rightarrow> new_agent_error ''token_error'' ''getToken failed'' (Some True) None None)"

definition connect_token_failed :: "genv \<Rightarrow> thrown \<Rightarrow> agent \<Rightarrow> agent" where
  "connect_token_failed env cause s =
     (let e = token_cause cause; s1 = emitError e s in
      if \<not> ae_retryable e \<and> \<not> g_everConnected s1
      then settle_start (Inl e) (s1\<lparr>g_running := False, g_tickTimer := clear_timeout (g_tickTimer s1)\<rparr>)
      else agent_scheduleReconnect env 1006 ''token_error'' (ae_retryAfterMs e) s1)"

text \<open>The rest of \<open>#connect\<close> with a token; an invalid URL throws, which nothing handles.\<close>

definition agent_endpoint :: "genv \<Rightarrow> agent \<Rightarrow> string option" where
  "agent_endpoint env s = endpointUrl (ge_url env) (ag_url (g_options s)) (or_default (ag_path (g_options s)) DEFAULT_PATH)"

definition connect_with_token :: "genv \<Rightarrow> string \<Rightarrow> agent \<Rightarrow> agent" where
  "connect_with_token env token s =
     (if \<not> g_running s then s
      else if ge_ws env = NoWebSocket then
        settle_start (Inl (fatal_error ''connect_failed''
            ''no WebSocket implementation: use Node 22+, or pass `WebSocket` from the `ws` package'')) (s\<lparr>g_running := False\<rparr>)
      else
        (case agent_endpoint env s of
           None \<Rightarrow> s
         | Some u \<Rightarrow>
             s\<lparr>g_socket := Some (asocket_connect (ge_ws env)
                 (new_asocket \<lparr>so_url = u, so_hello = agent_hello token s,
                    so_connectTimeoutMs = or_default (ag_connectTimeoutMs (g_options s)) 15000,
                    so_livenessGraceMs = or_default (ag_livenessGraceMs (g_options s)) 15000\<rparr>))\<rparr>))"

definition agent_connect :: "genv \<Rightarrow> agent_token_reason \<Rightarrow> agent \<Rightarrow> agent" where
  "agent_connect env reason s =
     (if \<not> g_running s then s
      else
        (let s1 = s\<lparr>g_attempt := Suc (g_attempt s)\<rparr> in
         if ag_getToken (g_options s1) then (g_perform (GetToken reason) s1)\<lparr>g_connects := Suc (g_connects s1)\<rparr>
         else connect_with_token env (or_default (ag_token (g_options s1)) []) s1))"

definition connect_token :: "genv \<Rightarrow> thrown + string \<Rightarrow> agent \<Rightarrow> agent" where
  "connect_token env result s =
     (if g_connects s = 0 then s
      else
        (let s1 = s\<lparr>g_connects := g_connects s - 1\<rparr> in
         case result of Inl cause \<Rightarrow> connect_token_failed env cause s1 | Inr token \<Rightarrow> connect_with_token env token s1))"

definition agent_reconnect_fires :: "genv \<Rightarrow> agent \<Rightarrow> agent" where
  "agent_reconnect_fires env s =
     (case g_reconnectTimer s of Armed _ reason \<Rightarrow> agent_connect env reason (s\<lparr>g_reconnectTimer := Spent\<rparr>) | _ \<Rightarrow> s)"

definition agent_start :: "genv \<Rightarrow> agent \<Rightarrow> agent" where
  "agent_start env s =
     (if g_start s then s
      else agent_connect env Connect (s\<lparr>g_start := True, g_running := True, g_tickTimer := Armed 1000 ()\<rparr>))"

definition agent_scheduleRefresh :: "genv \<Rightarrow> jsnum option \<Rightarrow> agent \<Rightarrow> agent" where
  "agent_scheduleRefresh env expiresAt s =
     (let s1 = s\<lparr>g_refreshTimer := clear_timeout (g_refreshTimer s)\<rparr> in
      if \<not> ag_getToken (g_options s1) then s1
      else (case expiresAt of
              None \<Rightarrow> s1
            | Some e \<Rightarrow>
                (let remaining = e - ge_now env
                 in s1\<lparr>g_refreshTimer := Armed (max 1000 (min (remaining - 60000) (remaining / 2))) ()\<rparr>)))"

definition agent_refresh_fires :: "agent \<Rightarrow> agent" where
  "agent_refresh_fires s =
     (case g_refreshTimer s of
        Armed _ _ \<Rightarrow>
          (let s1 = s\<lparr>g_refreshTimer := Spent\<rparr> in
           if \<not> agent_connected s1 then s1
           else (g_perform (GetToken RefreshToken) s1)\<lparr>g_refreshes := Suc (g_refreshes s1)\<rparr>)
      | _ \<Rightarrow> s)"

definition refresh_token :: "genv \<Rightarrow> thrown + string \<Rightarrow> agent \<Rightarrow> agent" where
  "refresh_token env result s =
     (if g_refreshes s = 0 then s
      else
        (let s1 = s\<lparr>g_refreshes := g_refreshes s - 1\<rparr> in
         case result of
           Inl _ \<Rightarrow> emitError (new_agent_error ''token_error'' ''getToken failed during refresh'' (Some True) None None) s1
         | Inr token \<Rightarrow>
             (case g_socket s1 of
                None \<Rightarrow> s1
              | Some k \<Rightarrow>
                  s1\<lparr>g_socket := Some (snd (asocket_send (ge_t env)
                        (JObj [(''type'', JStr ''auth''), (''token'', JStr token)]) k))\<rparr>)))"

text \<open>
  \<open>#onWelcome\<close> (with no logger): the unacknowledged sends go first, in the order they were sent. A
  \<open>welcome\<close> without \<open>data\<close> makes it throw after that.
\<close>

definition agent_onWelcome :: "genv \<Rightarrow> json \<Rightarrow> agent \<Rightarrow> agent" where
  "agent_onWelcome env w s =
     (let resend = sort_key og_sentAt (map snd (g_inflight s));
          s1 = s\<lparr>g_welcome := Some w, g_attempt := 0, g_everConnected := True, g_rejected := False,
                 g_inflight := [], g_queue := resend @ g_queue s\<rparr>
      in if \<not> has_data w then s1
         else
           agent_pump env
             (settle_start (Inr ())
               (g_perform (EConnected w)
                 (agent_scheduleRefresh env (as_num (ofield (field w ''data'') ''expiresAt'')) s1))))"

definition agent_fatal :: "int \<Rightarrow> agent \<Rightarrow> bool" where
  "agent_fatal code s \<longleftrightarrow>
     code = 4400 \<or> code = 4401 \<and> \<not> ag_getToken (g_options s) \<or> code = 4401 \<and> g_rejected s
     \<or> (code = 4403 \<or> code = 1008) \<and> \<not> g_everConnected s"

definition close_error :: "int \<Rightarrow> string \<Rightarrow> agent_error" where
  "close_error code reason =
     fatal_error (if code = 4401 then ''unauthorized'' else if code = 4400 then ''unsupported_protocol''
                  else if code = 4403 then ''forbidden'' else ''connect_failed'')
       (''connection closed ('' @ int_str code @ '' '' @ reason @ '')'')"

definition reject_all :: "agent_error \<Rightarrow> agent \<Rightarrow> agent" where
  "reject_all e s =
     fold (reject_send e) (g_queue s @ map snd (g_inflight s)) (s\<lparr>g_queue := [], g_inflight := []\<rparr>)"

definition drop_transient :: "agent \<Rightarrow> agent" where
  "drop_transient s =
     fold (\<lambda>e. resolve_send e None) (rev (filter (\<lambda>e. type_str (og_frame e) \<in> set TRANSIENT) (g_queue s)))
       (s\<lparr>g_queue := filter (\<lambda>e. type_str (og_frame e) \<notin> set TRANSIENT) (g_queue s)\<rparr>)"

definition agent_onClose :: "genv \<Rightarrow> transport_close \<Rightarrow> agent \<Rightarrow> agent" where
  "agent_onClose env close s =
     (let s1 = drop_transient (s\<lparr>g_socket := None, g_welcome := None, g_refreshTimer := clear_timeout (g_refreshTimer s)\<rparr>);
          code = tc_code close
      in if \<not> g_running s1 then s1
         else if agent_fatal code s1 \<or> \<not> enabled (g_policy s1) then
           (let e = close_error code (tc_reason close);
                s2 = g_perform (EDisconnected code (tc_reason close) False None)
                       (s1\<lparr>g_running := False, g_tickTimer := clear_timeout (g_tickTimer s1)\<rparr>);
                s3 = (if g_everConnected s2 then emitError e s2 else s2)
            in reject_all e (settle_start (Inl e) s3))
         else agent_scheduleReconnect env code (tc_reason close) (tc_retryAfterMs close)
                (if code = 4401 then s1\<lparr>g_rejected := True\<rparr> else s1))"

section \<open>Turns\<close>

definition agent_dispatch :: "string \<Rightarrow> json \<Rightarrow> agent \<Rightarrow> agent" where
  "agent_dispatch cid frame s =
     (let l = (case map_of (g_lanes s) cid of Some l \<Rightarrow> l | None \<Rightarrow> \<lparr>ln_turns = [], ln_phase = TurnReady\<rparr>)
      in (g_perform (Dispatched cid frame) s)\<lparr>g_lanes := AList.update cid (l\<lparr>ln_turns := ln_turns l @ [frame]\<rparr>) (g_lanes s)\<rparr>)"

definition with_phase :: "string \<Rightarrow> turn_phase \<Rightarrow> agent \<Rightarrow> agent" where
  "with_phase cid ph s =
     (case map_of (g_lanes s) cid of
        Some l \<Rightarrow> s\<lparr>g_lanes := AList.update cid (l\<lparr>ln_phase := ph\<rparr>) (g_lanes s)\<rparr>
      | None \<Rightarrow> s)"

text \<open>A turn is over: the next one of the lane becomes ready, an empty lane goes.\<close>

definition lane_next :: "string \<Rightarrow> agent \<Rightarrow> agent" where
  "lane_next cid s =
     (case map_of (g_lanes s) cid of
        Some l \<Rightarrow>
          if length (ln_turns l) \<le> 1 then s\<lparr>g_lanes := AList.delete cid (g_lanes s)\<rparr>
          else s\<lparr>g_lanes := AList.update cid \<lparr>ln_turns = tl (ln_turns l), ln_phase = TurnReady\<rparr> (g_lanes s)\<rparr>
      | None \<Rightarrow> s)"

definition agent_acquire :: "string \<Rightarrow> agent \<Rightarrow> agent" where
  "agent_acquire cid s =
     (if g_active s < g_maxConcurrent s then with_phase cid TurnGranted (s\<lparr>g_active := Suc (g_active s)\<rparr>)
      else with_phase cid TurnWaiting (s\<lparr>g_waiters := g_waiters s @ [cid]\<rparr>))"

definition agent_release :: "agent \<Rightarrow> agent" where
  "agent_release s =
     (case g_waiters s of
        next # ws \<Rightarrow> with_phase next TurnGranted (s\<lparr>g_waiters := ws\<rparr>)
      | [] \<Rightarrow> s\<lparr>g_active := g_active s - 1\<rparr>)"

text \<open>\<open>#runTurn\<close> up to its first \<open>await\<close>, from there to the handler, and after the handler.\<close>

definition runTurn :: "string \<Rightarrow> agent \<Rightarrow> agent" where
  "runTurn cid s =
     (case map_of (g_lanes s) cid of
        Some l \<Rightarrow>
          if ln_phase l = TurnReady then
            (if \<not> g_handler s \<or> \<not> g_running s \<or> g_stopping s then lane_next cid s else agent_acquire cid s)
          else s
      | None \<Rightarrow> s)"

definition run_handler :: "genv \<Rightarrow> string \<Rightarrow> agent \<Rightarrow> agent" where
  "run_handler env cid s =
     (case map_of (g_lanes s) cid of
        Some l \<Rightarrow>
          if ln_phase l = TurnGranted \<and> ln_turns l \<noteq> [] then
            g_perform (HandlerStart (buildTurn cid (hd (ln_turns l))))
              (agent_new_reply env cid (ag_runFrames (g_options s) \<noteq> Some False) True
                (with_phase cid (TurnRunning (length (g_replies s))) s))
          else s
      | None \<Rightarrow> s)"

definition handler_failed :: "string \<Rightarrow> thrown \<Rightarrow> agent_error" where
  "handler_failed cid cause =
     (case cause of
        AgentThrow e \<Rightarrow>
          if ae_code e \<noteq> ''handler_error'' then e
          else new_agent_error ''handler_error'' (''onTurn handler failed: '' @ ae_message e) (Some False) (Some cid) None
      | OtherThrow msg \<Rightarrow> new_agent_error ''handler_error'' (''onTurn handler failed: '' @ msg) (Some False) (Some cid) None)"

definition key_of :: "string \<Rightarrow> string \<Rightarrow> bool" where
  "key_of cid k \<longleftrightarrow> take (Suc (length cid)) k = cid @ [CHR 0x00]"

definition handler_returns :: "genv \<Rightarrow> string \<Rightarrow> thrown option \<Rightarrow> agent \<Rightarrow> agent" where
  "handler_returns env cid cause s =
     (case map_of (g_lanes s) cid of
        Some l \<Rightarrow>
          (case ln_phase l of
             TurnRunning rid \<Rightarrow>
               (let aborted = rid < length (g_replies s) \<and> rs_aborted (g_replies s ! rid);
                    s1 = (if aborted then reply_apply env rid (RSetStatus ''aborted'') s
                          else (case cause of
                                  None \<Rightarrow> s
                                | Some c \<Rightarrow> emitError (handler_failed cid c) (reply_apply env rid (RSetStatus ''error'') s)));
                    s2 = reject_asks (\<lambda>a. key_of cid (fst a)) (with_phase cid (TurnEnding rid) s1)
                in reply_apply env rid REnd s2)
           | _ \<Rightarrow> s)
      | None \<Rightarrow> s)"

definition turn_done :: "string \<Rightarrow> agent \<Rightarrow> agent" where
  "turn_done cid s =
     (case map_of (g_lanes s) cid of
        Some l \<Rightarrow>
          (case ln_phase l of
             TurnEnding rid \<Rightarrow>
               if rid < length (g_replies s) \<and> r_ending (rs_reply (g_replies s ! rid)) = FinDone
               then lane_next cid (agent_release s) else s
           | _ \<Rightarrow> s)
      | None \<Rightarrow> s)"

text \<open>\<open>lane.controller?.abort(...)\<close>: the asks that listen to the signal are rejected.\<close>

definition abort_lane :: "string \<Rightarrow> agent \<Rightarrow> agent" where
  "abort_lane cid s =
     (case map_of (g_lanes s) cid of
        Some l \<Rightarrow>
          (case ln_phase l of
             TurnRunning rid \<Rightarrow>
               if rid < length (g_replies s) \<and> \<not> rs_aborted (g_replies s ! rid)
               then reject_asks (\<lambda>a. fst (snd a) = rid)
                      (s\<lparr>g_replies := (g_replies s)[rid := (g_replies s ! rid)\<lparr>rs_aborted := True\<rparr>]\<rparr>)
               else s
           | _ \<Rightarrow> s)
      | None \<Rightarrow> s)"

section \<open>History\<close>

definition sync_frame :: "json \<Rightarrow> json" where
  "sync_frame w = JObj [(''type'', JStr ''sync''), (''watermark'', w)]"

text \<open>\<open>#history\<close>: a second call shares the running collector; \<open>since\<close> is the option.\<close>

definition agent_history :: "genv \<Rightarrow> string \<Rightarrow> jsnum option \<Rightarrow> agent \<Rightarrow> agent" where
  "agent_history env cid since s =
     (if map_of (g_histories s) cid \<noteq> None then s
      else
        (let upto = tracker_get cid (g_tracker s) in
         if upto = 0 then g_perform (HistoryDone cid []) s
         else
           (let hid = g_collectors s;
                s1 = s\<lparr>g_collectors := Suc hid,
                       g_histories := AList.update cid \<lparr>hc_id = hid, hc_until = upto, hc_frames = []\<rparr> (g_histories s)\<rparr>
            in enqueue env (OfHistory hid) cid (sync_frame (JNum (max 0 (or_default since 0)))) s1)))"

text \<open>\<open>slice\<close>: the last \<open>limit\<close> frames (\<open>slice(-0)\<close> is everything).\<close>

definition history_slice :: "int option \<Rightarrow> json list \<Rightarrow> json list" where
  "history_slice limit frames =
     (case limit of
        Some n \<Rightarrow> if 0 < n then drop (length frames - nat n) frames else frames
      | None \<Rightarrow> frames)"

section \<open>Inbound\<close>

text \<open>
  An \<open>error\<close> frame without \<open>data\<close> makes the handler throw, after the observers of frames ran.
\<close>

definition onBare :: "genv \<Rightarrow> json \<Rightarrow> agent \<Rightarrow> agent" where
  "onBare env frame s0 =
     (let s = g_perform (GNotify frame None) s0; t = type_str frame in
      if t = ''welcome'' then agent_onWelcome env frame s
      else if t = ''tokenRefreshed'' then
        (case as_num (ofield (field frame ''data'') ''expiresAt'') of
           Some e \<Rightarrow> agent_scheduleRefresh env (Some e) s
         | None \<Rightarrow> s)
      else if t = ''error'' then
        (if \<not> has_data frame then s
         else
           (let e = fromFrame frame None;
                s1 = (if ae_code e = ''rate_limited''
                      then s\<lparr>g_pausedUntil := ge_now env + or_default (ae_retryAfterMs e) 1000\<rparr> else s)
            in if truthy (ae_clientId e) then agent_onSendError env e s1 else emitError e s1))
      else s)"

text \<open>\<open>Object.entries\<close> of an object or an array.\<close>

fun object_entries :: "json option \<Rightarrow> (string \<times> json) list" where
  "object_entries (Some (JObj fs)) = fs"
| "object_entries (Some (JArr xs)) = zip (map nat_str [0..<length xs]) xs"
| "object_entries _ = []"

fun resume_answers :: "string \<Rightarrow> (string \<times> json) list \<Rightarrow> agent \<Rightarrow> string list \<times> agent" where
  "resume_answers cid [] s = ([], s)"
| "resume_answers cid ((i, v) # es) s =
     (case map_of (g_asks s) (send_key cid i) of
        Some (rid, n) \<Rightarrow>
          (let (matched, s') = resume_answers cid es
             (s\<lparr>g_asks := AList.delete (send_key cid i) (g_asks s), g_jobs := g_jobs s @ [JAnswer rid n (Some v)]\<rparr>)
           in (i # matched, s'))
      | None \<Rightarrow> resume_answers cid es s)"

definition onResume :: "string \<Rightarrow> json \<Rightarrow> agent \<Rightarrow> agent" where
  "onResume cid frame s =
     (let (matched, s1) = resume_answers cid (object_entries (field frame ''answers'')) s
      in g_perform (EResume cid matched) s1)"

definition template_str :: "json option \<Rightarrow> string" where
  "template_str v = (case as_str v of Some t \<Rightarrow> t | None \<Rightarrow> ''undefined'')"

definition agent_onAck :: "genv \<Rightarrow> string \<Rightarrow> json \<Rightarrow> agent \<Rightarrow> agent" where
  "agent_onAck env cid ack s =
     (let s1 = (case as_num (field ack ''seq'') of
                  Some seq \<Rightarrow> s\<lparr>g_tracker := snd (tracker_record cid seq (g_tracker s))\<rparr>
                | None \<Rightarrow> s);
          key = send_key cid (template_str (field ack ''clientId''))
      in case map_of (g_inflight s1) key of
           Some entry \<Rightarrow>
             agent_pump env (resolve_send entry (Some ack) (s1\<lparr>g_inflight := AList.delete key (g_inflight s1)\<rparr>))
         | None \<Rightarrow> s1)"

definition agent_onError :: "genv \<Rightarrow> string \<Rightarrow> json \<Rightarrow> agent \<Rightarrow> agent" where
  "agent_onError env cid frame s =
     (if \<not> has_data frame then s
      else
        (let e = fromFrame frame (Some cid);
             w = (case nullish (ofield (ae_details e) ''watermark'') None of
                    Some j \<Rightarrow> j
                  | None \<Rightarrow> JNum (of_int (tracker_get cid (g_tracker s))));
             s1 = (if ae_code e = ''replay_unavailable''
                   then s\<lparr>g_syncs := g_syncs s @ [(or_default (ae_retryAfterMs e) 1000, cid, w)]\<rparr> else s)
         in if truthy (ae_clientId e) \<and> map_of (g_inflight s1) (send_key cid (the (ae_clientId e))) \<noteq> None
            then agent_onSendError env e s1 else emitError e s1))"

definition sync_fires :: "genv \<Rightarrow> nat \<Rightarrow> agent \<Rightarrow> agent" where
  "sync_fires env i s =
     (if i < length (g_syncs s) then
        (case g_syncs s ! i of
           (_, cid, w) \<Rightarrow>
             enqueue env Ignored cid (sync_frame w) (s\<lparr>g_syncs := take i (g_syncs s) @ drop (Suc i) (g_syncs s)\<rparr>))
      else s)"

definition replay_truncated_frame :: "genv \<Rightarrow> string \<Rightarrow> json \<Rightarrow> agent \<Rightarrow> agent" where
  "replay_truncated_frame env cid frame s =
     (if map_of (g_histories s) cid \<noteq> None then history_done cid s
      else (case as_num (ofield (field frame ''data'') ''watermark'') of
              Some w \<Rightarrow> enqueue env Ignored cid (sync_frame (JNum w)) s
            | None \<Rightarrow> s))"

definition history_frame :: "string \<Rightarrow> jsnum \<Rightarrow> json \<Rightarrow> collector \<Rightarrow> agent \<Rightarrow> agent" where
  "history_frame cid seq frame c s =
     (let s1 = s\<lparr>g_histories := AList.update cid (c\<lparr>hc_frames := hc_frames c @ [frame]\<rparr>) (g_histories s),
                 g_tracker := snd (tracker_record cid seq (g_tracker s))\<rparr>
      in if of_int (hc_until c) \<le> seq then history_done cid s1 else s1)"

definition dispatch_turn :: "string \<Rightarrow> json \<Rightarrow> agent \<Rightarrow> agent" where
  "dispatch_turn cid frame s =
     (if \<not> isMessageFrame frame then s
      else if field frame ''from'' = Some (JStr ''user'')
              \<or> field frame ''from'' = Some (JStr ''bot'') \<and> ag_includeBotTurns (g_options s)
      then agent_dispatch cid frame s else s)"

text \<open>The part of \<open>#onEnveloped\<close> after its switch.\<close>

definition onConversationFrame :: "string \<Rightarrow> json \<Rightarrow> agent \<Rightarrow> agent" where
  "onConversationFrame cid frame s =
     (case as_num (field frame ''seq'') of
        None \<Rightarrow> dispatch_turn cid frame s
      | Some seq \<Rightarrow>
          (case map_of (g_histories s) cid of
             Some c \<Rightarrow>
               if seq \<le> of_int (hc_until c) then history_frame cid seq frame c s
               else (let (fresh, tr) = tracker_record cid seq (g_tracker s)
                     in if fresh then dispatch_turn cid frame (s\<lparr>g_tracker := tr\<rparr>) else s\<lparr>g_tracker := tr\<rparr>)
           | None \<Rightarrow>
               (let (fresh, tr) = tracker_record cid seq (g_tracker s)
                in if fresh then dispatch_turn cid frame (s\<lparr>g_tracker := tr\<rparr>) else s\<lparr>g_tracker := tr\<rparr>)))"

definition onEnveloped :: "genv \<Rightarrow> string \<Rightarrow> json \<Rightarrow> agent \<Rightarrow> agent" where
  "onEnveloped env cid frame s0 =
     (let s = g_perform (GNotify frame (Some cid)) s0; t = type_str frame in
      if t = ''ack'' then agent_onAck env cid frame s
      else if t = ''error'' then agent_onError env cid frame s
      else if t = ''replayTruncated'' then replay_truncated_frame env cid frame s
      else if t = ''resume'' then onResume cid frame s
      else if t = ''abort'' then abort_lane cid s
      else onConversationFrame cid frame s)"

definition agent_onMessage :: "genv \<Rightarrow> json \<Rightarrow> agent \<Rightarrow> agent" where
  "agent_onMessage env message s =
     (if as_str (field message ''type'') \<noteq> None then onBare env message s
      else
        (case (field message ''conversationId'', field message ''frame'') of
           (Some (JStr cid), Some frame) \<Rightarrow>
             if as_str (field frame ''type'') \<noteq> None then onEnveloped env cid frame s else s
         | _ \<Rightarrow> s))"

section \<open>Stopping\<close>

definition stopped_error :: agent_error where
  "stopped_error = fatal_error ''closed'' ''the agent was stopped''"

definition agent_handle :: "genv \<Rightarrow> k_effect \<Rightarrow> agent \<Rightarrow> agent" where
  "agent_handle env e s =
     (case e of
        KOnMessage j \<Rightarrow> agent_onMessage env j s
      | KOnClose c \<Rightarrow> agent_onClose env c s
      | _ \<Rightarrow> s)"

text \<open>
  A step of the current socket, with the handlers it calls. A socket that is no longer the current one
  is closed and calls none.
\<close>

definition agent_socket :: "genv \<Rightarrow> k_input \<Rightarrow> agent \<Rightarrow> agent" where
  "agent_socket env i s =
     (case g_socket s of
        None \<Rightarrow> s
      | Some k \<Rightarrow>
          (let k' = asocket_step (ge_t env, i) k
           in fold (agent_handle env) (drop (length (k_out k)) (k_out k')) (s\<lparr>g_socket := Some k'\<rparr>)))"

definition stop_close :: "genv \<Rightarrow> agent \<Rightarrow> agent" where
  "stop_close env s =
     (let s1 = reject_all stopped_error
                 (s\<lparr>g_running := False, g_reconnectTimer := clear_timeout (g_reconnectTimer s),
                    g_refreshTimer := clear_timeout (g_refreshTimer s), g_tickTimer := clear_timeout (g_tickTimer s),
                    g_pumpTimer := Unset, g_stop := Stopped\<rparr>);
          s2 = agent_socket env (KCallClose 1000 ''agent stopped'') s1
      in settle_start (Inl stopped_error) (s2\<lparr>g_socket := None, g_welcome := None\<rparr>))"

definition drain_poll :: "genv \<Rightarrow> agent \<Rightarrow> agent" where
  "drain_poll env s =
     (case g_stop s of
        StopDrain deadline \<Rightarrow>
          if (g_queue s \<noteq> [] \<or> g_inflight s \<noteq> []) \<and> agent_connected s \<and> ge_now env < deadline then s
          else stop_close env s
      | _ \<Rightarrow> s)"

text \<open>The handlers returned, or the time for them is up.\<close>

definition stop_tails :: "genv \<Rightarrow> agent \<Rightarrow> agent" where
  "stop_tails env s =
     (case g_stop s of
        StopTails timeoutMs \<Rightarrow> drain_poll env (s\<lparr>g_stop := StopDrain (ge_now env + timeoutMs)\<rparr>)
      | _ \<Rightarrow> s)"

definition agent_stop :: "jsnum option \<Rightarrow> agent \<Rightarrow> agent" where
  "agent_stop timeoutMs s =
     (if \<not> g_running s \<or> g_stopping s then s
      else
        (let s1 = fold abort_lane (map fst (g_lanes s)) (s\<lparr>g_stopping := True\<rparr>);
             s2 = reject_asks (\<lambda>_. True) s1;
             s3 = fold history_done (map fst (g_histories s2)) s2
         in s3\<lparr>g_stop := StopTails (or_default timeoutMs 5000)\<rparr>))"

section \<open>Steps\<close>

datatype g_input =
    GOnTurn
  | GStart
  | GStop "jsnum option"
  | GStopTails
  | GDrainPoll
  | GTokenResult "thrown + string"
  | GRefreshResult "thrown + string"
  | GReconnectFires
  | GRefreshFires
  | GTick
  | GPumpFires
  | GRetryFires nat
  | GSyncFires nat
  | GSocket k_input
  | GSend string json
  | GNewReply string
  | GReply nat r_input
  | GJob
  | GLane string
  | GGranted string
  | GHandlerReturns string "thrown option"
  | GTurnDone string
  | GAskCancelled nat nat
  | GHistory string "jsnum option"
  | GHistoryTimeout string

text \<open>The inputs a socket gets from the platform.\<close>

fun platform_input :: "k_input \<Rightarrow> bool" where
  "platform_input (KConnect _) = False"
| "platform_input (KCallSend _) = False"
| "platform_input (KCallClose _ _) = False"
| "platform_input _ = True"

fun agent_step :: "genv \<times> g_input \<Rightarrow> agent \<Rightarrow> agent" where
  "agent_step (env, GOnTurn) s = s\<lparr>g_handler := True\<rparr>"
| "agent_step (env, GStart) s = agent_start env s"
| "agent_step (env, GStop ms) s = agent_stop ms s"
| "agent_step (env, GStopTails) s = stop_tails env s"
| "agent_step (env, GDrainPoll) s = drain_poll env s"
| "agent_step (env, GTokenResult r) s = connect_token env r s"
| "agent_step (env, GRefreshResult r) s = refresh_token env r s"
| "agent_step (env, GReconnectFires) s = agent_reconnect_fires env s"
| "agent_step (env, GRefreshFires) s = agent_refresh_fires s"
| "agent_step (env, GTick) s = agent_tick env s"
| "agent_step (env, GPumpFires) s = pump_fires env s"
| "agent_step (env, GRetryFires i) s = agent_retry_fires env i s"
| "agent_step (env, GSyncFires i) s = sync_fires env i s"
| "agent_step (env, GSocket i) s = (if platform_input i then agent_socket env i s else s)"
| "agent_step (env, GSend cid f) s = enqueue env Application cid f s"
| "agent_step (env, GNewReply cid) s = agent_new_reply env cid False False s"
| "agent_step (env, GReply rid i) s = (if external_call i then reply_apply env rid i s else s)"
| "agent_step (env, GJob) s = run_job env s"
| "agent_step (env, GLane cid) s = runTurn cid s"
| "agent_step (env, GGranted cid) s = run_handler env cid s"
| "agent_step (env, GHandlerReturns cid c) s = handler_returns env cid c s"
| "agent_step (env, GTurnDone cid) s = turn_done cid s"
| "agent_step (env, GAskCancelled rid n) s = ask_cancelled rid n s"
| "agent_step (env, GHistory cid since) s = agent_history env cid since s"
| "agent_step (env, GHistoryTimeout cid) s = history_done cid s"

end
