(* ===== verification/Agent_Sends.thy ===== *)
theory Agent_Sends
  imports Agent "HOL-Library.Multiset" "HOL-Library.Sublist"
begin

text \<open>
  How the operations of the agent move its sends. A \<^emph>\<open>move\<close> relates the state before and after an
  operation of the outbound part: no send is duplicated, the limit on unacknowledged sends is kept, the
  token bucket pays for every frame written, and connection, turns and positions are left alone.
\<close>

section \<open>Accounts of the sends\<close>

fun settles :: "g_effect \<Rightarrow> nat list" where
  "settles (SendDone n _) = [n]"
| "settles (SendFailed n _) = [n]"
| "settles _ = []"

definition agent_settled :: "agent \<Rightarrow> nat list" where
  "agent_settled s = concat (map settles (g_out s))"

definition agent_pending :: "agent \<Rightarrow> nat list" where
  "agent_pending s = map og_id (g_queue s) @ map (og_id \<circ> snd) (g_inflight s) @ map (og_id \<circ> snd) (g_retries s)"

definition account :: "agent \<Rightarrow> nat multiset" where
  "account s = mset (agent_pending s) + mset (agent_settled s)"

fun is_write :: "g_effect \<Rightarrow> bool" where
  "is_write (GWrite _ _) = True"
| "is_write _ = False"

definition agent_writes :: "agent \<Rightarrow> nat" where
  "agent_writes s = length (filter is_write (g_out s))"

text \<open>The tokens of the bucket at a time.\<close>

definition avail :: "jsnum \<Rightarrow> agent \<Rightarrow> jsnum" where
  "avail t s = min (g_fps s) (g_tokens s + (t - g_tokensAt s) / 1000 * g_fps s)"

fun is_armed :: "'a timer \<Rightarrow> bool" where
  "is_armed (Armed _ _) = True"
| "is_armed _ = False"

definition sock_ok :: "asocket \<Rightarrow> bool" where
  "sock_ok k \<longleftrightarrow> \<not> k_closed k \<and> asocket_live k"

definition link_state :: "agent \<Rightarrow> bool \<times> bool \<times> nat \<times> bool \<times> bool option" where
  "link_state s = (g_start s, g_running s, g_connects s, is_armed (g_reconnectTimer s), map_option sock_ok (g_socket s))"

fun turn_event :: "g_effect \<Rightarrow> bool" where
  "turn_event (HandlerStart _) = True"
| "turn_event (Dispatched _ _) = True"
| "turn_event (GNotify _ (Some _)) = True"
| "turn_event (SendDone _ (Some _)) = True"
| "turn_event _ = False"

definition lane_view :: "agent \<Rightarrow> (string \<times> lane) list \<times> nat \<times> string list \<times> agent_options \<times> g_effect list" where
  "lane_view s = (g_lanes s, g_active s, g_waiters s, g_options s, filter turn_event (g_out s))"

definition same_positions :: "tracker \<Rightarrow> tracker \<Rightarrow> bool" where
  "same_positions t t' \<longleftrightarrow> tracker_ok t \<longrightarrow>
     tracker_ok t' \<and> map_of (tr_positions t') = map_of (tr_positions t) \<and> tr_capacity t' = tr_capacity t"

definition grows :: "agent \<Rightarrow> agent \<Rightarrow> bool" where
  "grows s s' \<longleftrightarrow> g_sends s \<le> g_sends s' \<and> (distinct (map fst (g_inflight s)) \<longrightarrow>
     distinct (map fst (g_inflight s')) \<and> account s' \<subseteq># account s + mset [g_sends s..<g_sends s'])
     \<and> (length (g_inflight s) \<le> g_maxInFlight s \<longrightarrow> length (g_inflight s') \<le> g_maxInFlight s')"

definition paced :: "jsnum \<Rightarrow> agent \<Rightarrow> agent \<Rightarrow> bool" where
  "paced now s s' \<longleftrightarrow> (0 \<le> g_tokens s \<and> g_tokensAt s \<le> now \<longrightarrow>
     0 \<le> g_tokens s' \<and> g_tokensAt s' \<le> now \<and> agent_writes s' + avail now s' \<le> agent_writes s + avail now s)"

definition moves :: "jsnum \<Rightarrow> agent \<Rightarrow> agent \<Rightarrow> bool" where
  "moves now s s' \<longleftrightarrow> grows s s' \<and> paced now s s' \<and> g_options s' = g_options s"

definition aside :: "agent \<Rightarrow> agent \<Rightarrow> bool" where
  "aside s s' \<longleftrightarrow> link_state s' = link_state s \<and> lane_view s' = lane_view s \<and> same_positions (g_tracker s) (g_tracker s')"

lemma grows_refl: "grows s s"
  by (simp add: grows_def)

lemma grows_trans: "grows s s1 \<Longrightarrow> grows s1 s2 \<Longrightarrow> grows s s2"
proof -
  assume a: "grows s s1" "grows s1 s2"
  then have le: "g_sends s \<le> g_sends s1" "g_sends s1 \<le> g_sends s2" by (auto simp: grows_def)
  define X Y where "X = mset [g_sends s..<g_sends s1]" and "Y = mset [g_sends s1..<g_sends s2]"
  have "[g_sends s..<g_sends s2] = [g_sends s..<g_sends s1] @ [g_sends s1..<g_sends s2]"
    using le upt_add_eq_append [of "g_sends s" "g_sends s1" "g_sends s2 - g_sends s1"] by simp
  then have upt: "mset [g_sends s..<g_sends s2] = X + Y" by (simp add: X_def Y_def)
  have "account s2 \<subseteq># account s + (X + Y) \<and> distinct (map fst (g_inflight s2))" if "distinct (map fst (g_inflight s))"
  proof -
    have s1: "account s1 \<subseteq># account s + X" "distinct (map fst (g_inflight s1))" using a(1) that by (simp_all add: grows_def X_def)
    then have "account s1 + Y \<subseteq># account s + X + Y" by (intro subset_mset.add_right_mono)
    moreover have "account s2 \<subseteq># account s1 + Y" "distinct (map fst (g_inflight s2))" using a(2) s1(2) by (simp_all add: grows_def Y_def)
    ultimately show ?thesis by (metis add.assoc subset_mset.order_trans)
  qed
  then show ?thesis using a le unfolding grows_def upt by simp
qed

lemma moves_refl [simp]: "moves now s s"
  by (simp add: moves_def grows_refl paced_def)

lemma moves_trans [trans]: "moves now s s1 \<Longrightarrow> moves now s1 s2 \<Longrightarrow> moves now s s2"
  unfolding moves_def paced_def using grows_trans [of s s1 s2] by force

lemma aside_refl [simp]: "aside s s"
  by (simp add: aside_def same_positions_def)

lemma aside_trans [trans]: "aside s s1 \<Longrightarrow> aside s1 s2 \<Longrightarrow> aside s s2"
  by (auto simp: aside_def same_positions_def)

section \<open>Updates of other fields\<close>

lemma moves_updates [simp]:
  "moves now s (s'\<lparr>g_prefix := x0\<rparr>) = moves now s s'" "moves now s (s'\<lparr>g_handler := x1\<rparr>) = moves now s s'"
  "moves now s (s'\<lparr>g_tracker := x2\<rparr>) = moves now s s'" "moves now s (s'\<lparr>g_lanes := x3\<rparr>) = moves now s s'"
  "moves now s (s'\<lparr>g_asks := x4\<rparr>) = moves now s s'" "moves now s (s'\<lparr>g_histories := x5\<rparr>) = moves now s s'"
  "moves now s (s'\<lparr>g_socket := x6\<rparr>) = moves now s s'" "moves now s (s'\<lparr>g_welcome := x7\<rparr>) = moves now s s'"
  "moves now s (s'\<lparr>g_running := x8\<rparr>) = moves now s s'" "moves now s (s'\<lparr>g_stopping := x9\<rparr>) = moves now s s'"
  "moves now s (s'\<lparr>g_everConnected := x10\<rparr>) = moves now s s'" "moves now s (s'\<lparr>g_attempt := x11\<rparr>) = moves now s s'"
  "moves now s (s'\<lparr>g_clientCounter := x12\<rparr>) = moves now s s'" "moves now s (s'\<lparr>g_reconnectTimer := x13\<rparr>) = moves now s s'"
  "moves now s (s'\<lparr>g_refreshTimer := x14\<rparr>) = moves now s s'" "moves now s (s'\<lparr>g_tickTimer := x15\<rparr>) = moves now s s'"
  "moves now s (s'\<lparr>g_pumpTimer := x16\<rparr>) = moves now s s'" "moves now s (s'\<lparr>g_pausedUntil := x17\<rparr>) = moves now s s'"
  "moves now s (s'\<lparr>g_active := x18\<rparr>) = moves now s s'" "moves now s (s'\<lparr>g_waiters := x19\<rparr>) = moves now s s'"
  "moves now s (s'\<lparr>g_start := x20\<rparr>) = moves now s s'" "moves now s (s'\<lparr>g_startResult := x21\<rparr>) = moves now s s'"
  "moves now s (s'\<lparr>g_rejected := x22\<rparr>) = moves now s s'" "moves now s (s'\<lparr>g_connects := x23\<rparr>) = moves now s s'"
  "moves now s (s'\<lparr>g_refreshes := x24\<rparr>) = moves now s s'" "moves now s (s'\<lparr>g_syncs := x25\<rparr>) = moves now s s'"
  "moves now s (s'\<lparr>g_replies := x26\<rparr>) = moves now s s'" "moves now s (s'\<lparr>g_jobs := x27\<rparr>) = moves now s s'"
  "moves now s (s'\<lparr>g_collectors := x28\<rparr>) = moves now s s'" "moves now s (s'\<lparr>g_stop := x29\<rparr>) = moves now s s'"
  by (simp_all add: moves_def grows_def paced_def account_def agent_pending_def agent_settled_def agent_writes_def
      avail_def g_fps_def g_maxInFlight_def)

lemma aside_updates [simp]:
  "aside s (s'\<lparr>g_prefix := x0\<rparr>) = aside s s'" "aside s (s'\<lparr>g_handler := x1\<rparr>) = aside s s'"
  "aside s (s'\<lparr>g_asks := x2\<rparr>) = aside s s'" "aside s (s'\<lparr>g_histories := x3\<rparr>) = aside s s'"
  "aside s (s'\<lparr>g_queue := x4\<rparr>) = aside s s'" "aside s (s'\<lparr>g_inflight := x5\<rparr>) = aside s s'"
  "aside s (s'\<lparr>g_welcome := x6\<rparr>) = aside s s'" "aside s (s'\<lparr>g_stopping := x7\<rparr>) = aside s s'"
  "aside s (s'\<lparr>g_everConnected := x8\<rparr>) = aside s s'" "aside s (s'\<lparr>g_attempt := x9\<rparr>) = aside s s'"
  "aside s (s'\<lparr>g_clientCounter := x10\<rparr>) = aside s s'" "aside s (s'\<lparr>g_refreshTimer := x11\<rparr>) = aside s s'"
  "aside s (s'\<lparr>g_tickTimer := x12\<rparr>) = aside s s'" "aside s (s'\<lparr>g_pumpTimer := x13\<rparr>) = aside s s'"
  "aside s (s'\<lparr>g_tokens := x14\<rparr>) = aside s s'" "aside s (s'\<lparr>g_tokensAt := x15\<rparr>) = aside s s'"
  "aside s (s'\<lparr>g_pausedUntil := x16\<rparr>) = aside s s'" 
  "aside s (s'\<lparr>g_startResult := x18\<rparr>) = aside s s'" "aside s (s'\<lparr>g_rejected := x19\<rparr>) = aside s s'"
  "aside s (s'\<lparr>g_refreshes := x20\<rparr>) = aside s s'" "aside s (s'\<lparr>g_retries := x21\<rparr>) = aside s s'"
  "aside s (s'\<lparr>g_syncs := x22\<rparr>) = aside s s'" "aside s (s'\<lparr>g_replies := x23\<rparr>) = aside s s'"
  "aside s (s'\<lparr>g_jobs := x24\<rparr>) = aside s s'" "aside s (s'\<lparr>g_sends := x25\<rparr>) = aside s s'"
  "aside s (s'\<lparr>g_collectors := x26\<rparr>) = aside s s'" "aside s (s'\<lparr>g_stop := x27\<rparr>) = aside s s'"
  by (simp_all add: aside_def link_state_def lane_view_def)

text \<open>Operations of the outbound part: a move that leaves the rest alone.\<close>

definition quiet :: "jsnum \<Rightarrow> agent \<Rightarrow> agent \<Rightarrow> bool" where
  "quiet now s s' \<longleftrightarrow> moves now s s' \<and> aside s s'"

lemma quiet_refl [simp]: "quiet now s s"
  by (simp add: quiet_def)

lemma quiet_trans [trans]: "quiet now s s1 \<Longrightarrow> quiet now s1 s2 \<Longrightarrow> quiet now s s2"
  by (meson quiet_def moves_trans aside_trans)

lemma quiet_moves: "quiet now s s' \<Longrightarrow> moves now s s'" and quiet_aside: "quiet now s s' \<Longrightarrow> aside s s'"
  by (simp_all add: quiet_def)

lemma moves_perform: "settles e = [] \<Longrightarrow> \<not> is_write e \<Longrightarrow> moves now s (g_perform e s') = moves now s s'"
  by (simp add: g_perform_def moves_def grows_def paced_def account_def agent_pending_def agent_settled_def
      agent_writes_def avail_def g_fps_def g_maxInFlight_def)

lemma aside_perform: "\<not> turn_event e \<Longrightarrow> aside s (g_perform e s') = aside s s'"
  by (simp add: g_perform_def aside_def link_state_def lane_view_def)

lemma quiet_perform [simp]:
  "settles e = [] \<Longrightarrow> \<not> is_write e \<Longrightarrow> \<not> turn_event e \<Longrightarrow> quiet now s (g_perform e s') = quiet now s s'"
  by (simp add: quiet_def moves_perform aside_perform)

section \<open>Settling\<close>

text \<open>What settling a send does not touch.\<close>

definition rest_view where
  "rest_view s = (g_queue s, g_inflight s, g_retries s, g_sends s, g_options s, g_tokens s, g_tokensAt s,
     agent_writes s, link_state s, lane_view s, g_tracker s)"

lemma rest_view_simps:
  "rest_view (s\<lparr>g_jobs := a\<rparr>) = rest_view s" "rest_view (s\<lparr>g_histories := b\<rparr>) = rest_view s"
  "\<not> is_write e \<Longrightarrow> \<not> turn_event e \<Longrightarrow> rest_view (g_perform e s) = rest_view s"
  by (simp_all add: rest_view_def link_state_def lane_view_def agent_writes_def g_perform_def)

lemma account_simps:
  "account (s\<lparr>g_jobs := a\<rparr>) = account s" "account (s\<lparr>g_histories := b\<rparr>) = account s"
  "account (g_perform e s) = mset (settles e) + account s"
  by (simp_all add: account_def agent_pending_def agent_settled_def g_perform_def)

lemma settle_history:
  "rest_view (history_done cid s) = rest_view s" "account (history_done cid s) = account s"
  "rest_view (history_failed hid s) = rest_view s" "account (history_failed hid s) = account s"
proof -
  have h: "rest_view (history_done cid s) = rest_view s \<and> account (history_done cid s) = account s" for cid
    by (simp add: history_done_def rest_view_simps account_simps split: option.split)
  then show "rest_view (history_done cid s) = rest_view s" "account (history_done cid s) = account s" by auto
  show "rest_view (history_failed hid s) = rest_view s" "account (history_failed hid s) = account s"
    using h by (auto simp: history_failed_def split: option.split)
qed

lemma settle_wake: "rest_view (wake_owner own ok s) = rest_view s" "account (wake_owner own ok s) = account s"
  by (simp_all add: wake_owner_def settle_history rest_view_simps account_simps split: owner.split)

lemma settle_rest [simp]:
  "rest_view (resolve_send e None s) = rest_view s" "rest_view (reject_send err e s) = rest_view s"
  by (simp_all add: resolve_send_def reject_send_def settle_wake rest_view_simps)

lemma settle_account [simp]:
  "account (resolve_send e ack s) = add_mset (og_id e) (account s)" "account (reject_send err e s) = add_mset (og_id e) (account s)"
  by (simp_all add: resolve_send_def reject_send_def settle_wake account_simps)

lemma rest_fields:
  assumes "rest_view s' = rest_view s"
  shows "g_queue s' = g_queue s" "g_inflight s' = g_inflight s" "g_retries s' = g_retries s" "g_sends s' = g_sends s"
    "g_options s' = g_options s" "g_tokens s' = g_tokens s" "g_tokensAt s' = g_tokensAt s" "agent_writes s' = agent_writes s"
    "link_state s' = link_state s" "lane_view s' = lane_view s" "g_tracker s' = g_tracker s"
  using assms by (simp_all add: rest_view_def)

text \<open>A send that left the queue, the map or the timers may be settled.\<close>

lemma quiet_settled:
  assumes "rest_view s' = rest_view s1" "aside s s1" "g_sends s1 = g_sends s" "g_options s1 = g_options s"
    "length (g_inflight s1) \<le> length (g_inflight s)" "account s' \<subseteq># account s" "g_tokens s1 = g_tokens s"
    "distinct (map fst (g_inflight s)) \<longrightarrow> distinct (map fst (g_inflight s1))"
    "g_tokensAt s1 = g_tokensAt s" "agent_writes s1 = agent_writes s"
  shows "quiet now s s'"
  using assms rest_fields [OF assms(1)]
  by (auto simp: quiet_def moves_def grows_def paced_def avail_def g_fps_def g_maxInFlight_def aside_def)

lemma settle_all_rest [simp]:
  "rest_view (fold (\<lambda>e. resolve_send e None) es s) = rest_view s" "rest_view (fold (\<lambda>e. reject_send (err e) e) es s) = rest_view s"
  by (induction es arbitrary: s) simp_all

lemma settle_all_account [simp]:
  "account (fold (\<lambda>e. resolve_send e None) es s) = mset (map og_id es) + account s"
  "account (fold (\<lambda>e. reject_send (err e) e) es s) = mset (map og_id es) + account s"
  by (induction es arbitrary: s) simp_all

section \<open>Writing\<close>

lemma mset_map_update:
  "mset (map (f \<circ> snd) (AList.update k v m)) \<subseteq># add_mset (f v) (mset (map (f \<circ> snd) m))"
  by (induction m) (auto simp: add_mset_commute [of "f v"] intro: subset_mset.order_trans)

lemma length_update_le: "length (AList.update k v m) \<le> Suc (length m)"
  by (induction m) auto

lemma mset_map_delete:
  "mset (map (f \<circ> snd) (AList.delete k m)) \<subseteq># mset (map (f \<circ> snd) m)"
  by (induction m) (auto intro: subset_mset.order_trans)

lemma mset_map_delete_Some:
  "map_of m k = Some e \<Longrightarrow> add_mset (f e) (mset (map (f \<circ> snd) (AList.delete k m))) \<subseteq># mset (map (f \<circ> snd) m)"
  using mset_map_delete [of f k] by (induction m) (auto simp: add_mset_commute)

lemma sock_ok_send: "sock_ok (snd (asocket_send env j k)) = sock_ok k"
  by (simp add: sock_ok_def)

text \<open>The state after one frame was written.\<close>

definition written :: "genv \<Rightarrow> outgoing \<Rightarrow> outgoing list \<Rightarrow> asocket \<Rightarrow> agent \<Rightarrow> agent" where
  "written env h q k s =
     (let h' = h\<lparr>og_attempts := Suc (og_attempts h), og_sentAt := ge_now env\<rparr>;
          s1 = (g_perform (GWrite (og_conversationId h) (og_frame h)) s)\<lparr>g_queue := q, g_socket := Some k, g_tokens := g_tokens s - 1\<rparr>
      in if truthy (og_clientId h) then s1\<lparr>g_inflight := AList.update (og_key h) h' (g_inflight s1)\<rparr>
         else resolve_send h' None s1)"

lemma written_quiet:
  assumes "g_queue s = h # q" "g_tokensAt s = now" "g_tokens s \<le> g_fps s" "1 \<le> g_tokens s"
    and "g_socket s = Some k0 \<and> sock_ok k0 = sock_ok k"
    and "truthy (og_clientId h) \<Longrightarrow> length (g_inflight s) < g_maxInFlight s"
  shows "quiet now s (written env h q k s)"
proof -
  define s1 where "s1 = (g_perform (GWrite (og_conversationId h) (og_frame h)) s)\<lparr>g_queue := q, g_socket := Some k, g_tokens := g_tokens s - 1\<rparr>"
  define h' where "h' = h\<lparr>og_attempts := Suc (og_attempts h), og_sentAt := ge_now env\<rparr>"
  have acc: "add_mset (og_id h) (account s1) = account s"
    using assms(1) by (simp add: s1_def g_perform_def account_def agent_pending_def agent_settled_def)
  have s1: "g_sends s1 = g_sends s" "g_options s1 = g_options s" "g_inflight s1 = g_inflight s" "g_tokens s1 = g_tokens s - 1"
    "g_tokensAt s1 = g_tokensAt s" "agent_writes s1 = Suc (agent_writes s)" "aside s s1" "g_fps s1 = g_fps s" "g_maxInFlight s1 = g_maxInFlight s"
    using assms(5) by (simp_all add: s1_def g_perform_def agent_writes_def aside_def link_state_def lane_view_def same_positions_def g_fps_def g_maxInFlight_def)
  show ?thesis
  proof (cases "truthy (og_clientId h)")
    case True
    define s2 where "s2 = s1\<lparr>g_inflight := AList.update (og_key h) h' (g_inflight s1)\<rparr>"
    have "account s2 \<subseteq># add_mset (og_id h) (account s1)"
    proof -
      have "mset (map (og_id \<circ> snd) (g_inflight s2)) \<subseteq># add_mset (og_id h) (mset (map (og_id \<circ> snd) (g_inflight s1)))"
        using mset_map_update [of og_id "og_key h" h'] by (simp add: s2_def h'_def)
      then show ?thesis by (simp add: account_def agent_pending_def s2_def agent_settled_def ac_simps)
    qed
    moreover have "length (g_inflight s2) \<le> g_maxInFlight s"
      using assms(6) [OF True] length_update_le [of "og_key h" h' "g_inflight s1"] s1(3) by (simp add: s2_def)
    moreover have "aside s s2" "g_sends s2 = g_sends s" "g_options s2 = g_options s" "g_tokens s2 = g_tokens s - 1"
      "g_tokensAt s2 = g_tokensAt s" "agent_writes s2 = Suc (agent_writes s)" "g_fps s2 = g_fps s" "g_maxInFlight s2 = g_maxInFlight s"
      "distinct (map fst (g_inflight s)) \<longrightarrow> distinct (map fst (g_inflight s2))"
      using s1 by (simp_all add: s2_def agent_writes_def g_fps_def g_maxInFlight_def distinct_update)
    ultimately have "quiet now s s2"
      using assms(2-4) acc by (simp add: quiet_def moves_def grows_def paced_def avail_def)
    then show ?thesis using True by (simp add: written_def s2_def s1_def h'_def Let_def)
  next
    case False
    have r: "rest_view (resolve_send h' None s1) = rest_view s1" by simp
    have "quiet now s (resolve_send h' None s1)"
      using assms(2-4) acc s1 rest_fields [OF r]
      by (simp add: quiet_def moves_def grows_def paced_def avail_def g_fps_def g_maxInFlight_def aside_def h'_def)
    then show ?thesis using False by (simp add: written_def s1_def h'_def Let_def)
  qed
qed

lemma written_fields:
  "g_queue (written env h q k s) = q" "g_tokensAt (written env h q k s) = g_tokensAt s" "g_tokens (written env h q k s) = g_tokens s - 1"
  "g_options (written env h q k s) = g_options s"
proof -
  define s1 where "s1 = (g_perform (GWrite (og_conversationId h) (og_frame h)) s)\<lparr>g_queue := q, g_socket := Some k, g_tokens := g_tokens s - 1\<rparr>"
  have s1: "g_queue s1 = q" "g_tokensAt s1 = g_tokensAt s" "g_tokens s1 = g_tokens s - 1" "g_options s1 = g_options s"
    by (simp_all add: s1_def g_perform_def)
  show "g_queue (written env h q k s) = q" "g_tokensAt (written env h q k s) = g_tokensAt s" "g_tokens (written env h q k s) = g_tokens s - 1"
    "g_options (written env h q k s) = g_options s"
    using s1 rest_fields [OF settle_rest(1)] by (simp_all add: written_def s1_def [symmetric] Let_def)
qed

lemma pump_entries_quiet:
  "g_queue s = q \<Longrightarrow> g_tokensAt s = now \<Longrightarrow> g_tokens s \<le> g_fps s \<Longrightarrow> quiet now s (pump_entries env q s)"
proof (induction q arbitrary: s)
  case (Cons h q)
  show ?case
  proof (cases "truthy (og_clientId h) \<and> length (g_inflight s) \<ge> g_maxInFlight s \<or> g_tokens s < 1 \<or> g_socket s = None")
    case True
    then show ?thesis by (auto simp: quiet_def)
  next
    case False
    then obtain k where k: "g_socket s = Some k" by blast
    obtain b k' where send: "asocket_send (ge_t env) (envelope_json (og_conversationId h) (og_frame h)) k = (b, k')" by fastforce
    show ?thesis
    proof (cases b)
      case True
      have "sock_ok k' = sock_ok k" using sock_ok_send [of "ge_t env" _ k] send by (metis snd_conv)
      then have q1: "quiet now s (written env h q k' s)"
        using False Cons.prems k by (intro written_quiet) auto
      have "quiet now (written env h q k' s) (pump_entries env q (written env h q k' s))"
        using Cons.prems by (intro Cons.IH) (simp_all add: written_fields g_fps_def)
      moreover have "pump_entries env (h # q) s = pump_entries env q (written env h q k' s)"
        using False k send True by (auto simp: written_def Let_def)
      ultimately show ?thesis using quiet_trans [OF q1] by simp
    next
      case b: False
      with False k send show ?thesis by auto
    qed
  qed
qed simp

lemma g_fps_pos: "1 \<le> g_fps s"
  by (simp add: g_fps_def fps_of_def)

lemma refill_quiet:
  "quiet now s (s\<lparr>g_tokens := min (g_fps s) (g_tokens s + (now - g_tokensAt s) / 1000 * g_fps s), g_tokensAt := now\<rparr>)"
proof -
  define a where "a = (now - g_tokensAt s) / 1000 * g_fps s"
  have "0 \<le> a" if "g_tokensAt s \<le> now" using that g_fps_pos [of s] by (simp add: a_def)
  then have "0 \<le> min (g_fps s) (g_tokens s + a)" if "0 \<le> g_tokens s" "g_tokensAt s \<le> now"
    using that g_fps_pos [of s] by simp
  then show ?thesis
    unfolding a_def by (simp add: quiet_def moves_def grows_def paced_def avail_def account_def agent_pending_def agent_settled_def
        agent_writes_def g_fps_def g_maxInFlight_def aside_def link_state_def lane_view_def same_positions_def)
qed

lemma pump_quiet: "quiet (ge_now env) s (agent_pump env s)"
proof -
  let ?s1 = "s\<lparr>g_tokens := min (g_fps s) (g_tokens s + (ge_now env - g_tokensAt s) / 1000 * g_fps s), g_tokensAt := ge_now env\<rparr>"
  have "quiet (ge_now env) ?s1 (pump_entries env (g_queue ?s1) ?s1)"
    by (rule pump_entries_quiet) (simp_all add: g_fps_def)
  with refill_quiet [of "ge_now env" s] have "quiet (ge_now env) s (pump_entries env (g_queue ?s1) ?s1)" by (rule quiet_trans)
  then show ?thesis by (simp add: agent_pump_def Let_def quiet_def)
qed

lemma quiet_pump: "quiet (ge_now env) s s' \<Longrightarrow> quiet (ge_now env) s (agent_pump env s')"
  using pump_quiet quiet_trans by blast

lemma quiet_updates:
  "quiet now s s' \<Longrightarrow> quiet now s (s'\<lparr>g_pumpTimer := a\<rparr>)" "quiet now s s' \<Longrightarrow> quiet now s (s'\<lparr>g_clientCounter := b\<rparr>)"
  "quiet now s s' \<Longrightarrow> quiet now s (s'\<lparr>g_syncs := c\<rparr>)" "quiet now s s' \<Longrightarrow> quiet now s (s'\<lparr>g_histories := d\<rparr>)"
  "quiet now s s' \<Longrightarrow> quiet now s (s'\<lparr>g_collectors := e\<rparr>)" "quiet now s s' \<Longrightarrow> quiet now s (s'\<lparr>g_replies := f\<rparr>)"
  "quiet now s s' \<Longrightarrow> quiet now s (s'\<lparr>g_jobs := g\<rparr>)" "quiet now s s' \<Longrightarrow> quiet now s (s'\<lparr>g_asks := h\<rparr>)"
  "quiet now s s' \<Longrightarrow> quiet now s (s'\<lparr>g_pausedUntil := i\<rparr>)" "quiet now s s' \<Longrightarrow> quiet now s (s'\<lparr>g_refreshTimer := j\<rparr>)"
  "quiet now s s' \<Longrightarrow> quiet now s (s'\<lparr>g_handler := k\<rparr>)" "quiet now s s' \<Longrightarrow> quiet now s (s'\<lparr>g_startResult := l\<rparr>)"
  "quiet now s s' \<Longrightarrow> quiet now s (s'\<lparr>g_refreshes := m\<rparr>)" "quiet now s s' \<Longrightarrow> quiet now s (s'\<lparr>g_stopping := n\<rparr>)"
  "quiet now s s' \<Longrightarrow> quiet now s (s'\<lparr>g_stop := q\<rparr>)" "quiet now s s' \<Longrightarrow> quiet now s (s'\<lparr>g_rejected := r\<rparr>)"
  "quiet now s s' \<Longrightarrow> quiet now s (s'\<lparr>g_attempt := t\<rparr>)" "quiet now s s' \<Longrightarrow> quiet now s (s'\<lparr>g_welcome := u\<rparr>)"
  "quiet now s s' \<Longrightarrow> quiet now s (s'\<lparr>g_everConnected := v\<rparr>)" "quiet now s s' \<Longrightarrow> quiet now s (s'\<lparr>g_tickTimer := w\<rparr>)"
  by (simp_all add: quiet_def)

lemma pump_fires_quiet: "quiet (ge_now env) s (pump_fires env s)"
  by (auto simp: pump_fires_def split: timer.split intro!: quiet_pump quiet_updates)

lemma quiet_history: "quiet now s (history_done cid s)"
proof -
  have r: "rest_view (history_done cid s) = rest_view s" by (rule settle_history)
  show ?thesis by (rule quiet_settled [OF r]) (simp_all add: settle_history)
qed

section \<open>Sending\<close>

lemma same_positions_touch: "same_positions t (tracker_touch cid t)"
proof -
  have "map_of (tr_positions (touch_position cid p t)) = map_of (tr_positions t)"
    if "tracker_ok t" "map_of (tr_positions t) cid = Some p" for p
  proof -
    have "cid \<in> set (tracked t)" using that(2) by (force simp: tracked_def dest: map_of_SomeD)
    then have "card (insert cid (set (tracked t))) \<le> tr_capacity t"
      using that(1) card_length [of "tracked t"] by (simp add: tracker_ok_def insert_absorb)
    then show ?thesis using touch_room [OF that(1)] that(2) by (simp add: fun_upd_idem)
  qed
  then show ?thesis by (auto simp: same_positions_def tracker_touch_def touch_ok split: option.split)
qed

text \<open>A new send enters the queue.\<close>

lemma enqueue_push:
  assumes "og_id e = g_sends s"
  shows "quiet now s (s\<lparr>g_sends := Suc (g_sends s), g_queue := g_queue s @ [e], g_tracker := tracker_touch cid (g_tracker s)\<rparr>)"
    "quiet now s (s\<lparr>g_sends := Suc (g_sends s), g_clientCounter := c, g_queue := g_queue s @ [e], g_tracker := tracker_touch cid (g_tracker s)\<rparr>)"
  using assms same_positions_touch [of "g_tracker s" cid]
  by (simp_all add: quiet_def moves_def grows_def paced_def avail_def account_def agent_pending_def agent_settled_def
      agent_writes_def g_fps_def g_maxInFlight_def aside_def link_state_def lane_view_def)

lemma enqueue_settled:
  assumes "rest_view s' = rest_view (s\<lparr>g_sends := Suc (g_sends s)\<rparr>)" "account s' = add_mset (g_sends s) (account s)"
  shows "quiet now s s'"
  using assms rest_fields [OF assms(1)]
  by (simp add: quiet_def moves_def grows_def paced_def avail_def agent_writes_def g_fps_def g_maxInFlight_def aside_def link_state_def
      lane_view_def same_positions_def)

lemma account_sends [simp]: "account (s\<lparr>g_sends := n\<rparr>) = account s"
  by (simp add: account_def agent_pending_def agent_settled_def)

text \<open>The client id of an acknowledged frame: the frame's own, or the next one of the agent.\<close>

lemma client_id_cases:
  obtains c where "(case (a, b) of (Some (JStr c), _) \<Rightarrow> (c, s) | (_, Some (JStr i)) \<Rightarrow> (i, s) | _ \<Rightarrow> agent_nextClientId s) = (c, s)"
  | c n where "(case (a, b) of (Some (JStr c), _) \<Rightarrow> (c, s) | (_, Some (JStr i)) \<Rightarrow> (i, s) | _ \<Rightarrow> agent_nextClientId s) = (c, s\<lparr>g_clientCounter := n\<rparr>)"
proof (cases "as_str a")
  case (Some c)
  then show ?thesis using that(1) [of c] by simp
next
  case a: None
  show ?thesis
  proof (cases "as_str b")
    case (Some i)
    then show ?thesis using a that(1) [of i] by (cases a rule: as_str.cases) simp_all
  next
    case None
    have "(case (a, b) of (Some (JStr c), _) \<Rightarrow> (c, s) | (_, Some (JStr i)) \<Rightarrow> (i, s) | _ \<Rightarrow> agent_nextClientId s) = agent_nextClientId s"
      using a None by (cases a rule: as_str.cases; cases b rule: as_str.cases) simp_all
    then show ?thesis using that(2) by (simp add: agent_nextClientId_def Let_def)
  qed
qed

lemma enqueue_quiet: "quiet (ge_now env) s (enqueue env own cid frame s)"
proof -
  let ?s = "s\<lparr>g_sends := Suc (g_sends s)\<rparr>"
  consider (off) "\<not> g_running ?s"
    | (drop) "g_running ?s" "type_str frame \<in> set TRANSIENT \<and> type_str frame \<noteq> ''sync'' \<and> \<not> agent_connected ?s"
    | (plain) "g_running ?s" "\<not> (type_str frame \<in> set TRANSIENT \<and> type_str frame \<noteq> ''sync'' \<and> \<not> agent_connected ?s)"
        "type_str frame \<in> set UNACKED_TYPES"
    | (acked) "g_running ?s" "\<not> (type_str frame \<in> set TRANSIENT \<and> type_str frame \<noteq> ''sync'' \<and> \<not> agent_connected ?s)"
        "type_str frame \<notin> set UNACKED_TYPES" by blast
  then show ?thesis
  proof cases
    case off
    then show ?thesis unfolding enqueue_def Let_def by (simp only: if_True not_False_eq_True) (rule enqueue_settled; simp)
  next
    case drop
    then show ?thesis unfolding enqueue_def Let_def by (simp only: if_True if_False not_False_eq_True simp_thms) (rule enqueue_settled; simp)
  next
    case plain
    then show ?thesis unfolding enqueue_def Let_def by (simp only: if_True if_False simp_thms prod.case) (rule quiet_pump, simp add: enqueue_push)
  next
    case acked
    show ?thesis
    proof (cases rule: client_id_cases [where a = "field frame ''clientId''" and b = "field frame ''id''" and s = ?s])
      case (1 c)
      then show ?thesis using acked unfolding enqueue_def Let_def
        by (simp only: if_True if_False simp_thms prod.case) (rule quiet_pump, simp add: enqueue_push)
    next
      case (2 c n)
      then show ?thesis using acked unfolding enqueue_def Let_def
        by (simp only: if_True if_False simp_thms prod.case) (rule quiet_pump, simp add: enqueue_push)
    qed
  qed
qed

section \<open>Errors, retries and timeouts\<close>

lemma quiet_emitError [simp]: "quiet now s (emitError e s') = quiet now s s'"
  by (simp add: emitError_def)

lemma account_delete:
  "map_of (g_inflight s) key = Some e \<Longrightarrow> add_mset (og_id e) (account (s\<lparr>g_inflight := AList.delete key (g_inflight s)\<rparr>)) \<subseteq># account s"
proof -
  assume "map_of (g_inflight s) key = Some e"
  then have "add_mset (og_id e) (mset (map (og_id \<circ> snd) (AList.delete key (g_inflight s)))) \<subseteq># mset (map (og_id \<circ> snd) (g_inflight s))"
    by (rule mset_map_delete_Some)
  then show ?thesis by (simp add: account_def agent_pending_def agent_settled_def ac_simps)
qed

lemma aside_more [simp]:
  "aside s (s'\<lparr>g_inflight := a\<rparr>) = aside s s'" "aside s (s'\<lparr>g_queue := b\<rparr>) = aside s s'" "aside s (s'\<lparr>g_retries := c\<rparr>) = aside s s'"
  by (simp_all add: aside_def link_state_def lane_view_def)

lemma writes_updates [simp]:
  "agent_writes (s\<lparr>g_inflight := a\<rparr>) = agent_writes s" "agent_writes (s\<lparr>g_queue := b\<rparr>) = agent_writes s"
  "agent_writes (s\<lparr>g_retries := c\<rparr>) = agent_writes s"
  by (simp_all add: agent_writes_def)

text \<open>An acknowledged or refused send leaves the map and is settled.\<close>

lemma quiet_take:
  assumes "map_of (g_inflight s) key = Some e"
  shows "quiet now s (resolve_send e None (s\<lparr>g_inflight := AList.delete key (g_inflight s)\<rparr>))"
    "quiet now s (reject_send err e (s\<lparr>g_inflight := AList.delete key (g_inflight s)\<rparr>))"
    "quiet now s (s\<lparr>g_inflight := AList.delete key (g_inflight s), g_retries := g_retries s @ [(d, e)]\<rparr>)"
    "quiet now s (s\<lparr>g_inflight := AList.delete key (g_inflight s), g_queue := e # g_queue s\<rparr>)"
proof -
  note acc = account_delete [OF assms]
  let ?s1 = "s\<lparr>g_inflight := AList.delete key (g_inflight s)\<rparr>"
  show "quiet now s (resolve_send e None ?s1)" "quiet now s (reject_send err e ?s1)"
    by (rule quiet_settled [where ?s1.0 = ?s1]; simp add: acc length_delete_le distinct_delete)+
  have "account (?s1\<lparr>g_retries := g_retries s @ [(d, e)]\<rparr>) = add_mset (og_id e) (account ?s1)"
    "account (?s1\<lparr>g_queue := e # g_queue s\<rparr>) = add_mset (og_id e) (account ?s1)"
    by (simp_all add: account_def agent_pending_def agent_settled_def)
  with acc show "quiet now s (s\<lparr>g_inflight := AList.delete key (g_inflight s), g_retries := g_retries s @ [(d, e)]\<rparr>)"
    "quiet now s (s\<lparr>g_inflight := AList.delete key (g_inflight s), g_queue := e # g_queue s\<rparr>)"
    by (simp_all add: quiet_def moves_def grows_def paced_def avail_def g_fps_def g_maxInFlight_def le_trans [OF length_delete_le] distinct_delete)
qed

lemma onSendError_quiet: "quiet (ge_now env) s (agent_onSendError env e s)"
  by (auto simp: agent_onSendError_def Let_def split: option.split intro!: quiet_pump quiet_take)

lemma mset_take_drop: "i < length xs \<Longrightarrow> add_mset (xs ! i) (mset (take i xs @ drop (Suc i) xs)) = mset xs"
  by (metis id_take_nth_drop mset_append mset.simps(2) union_mset_add_mset_right)

lemma retry_fires_quiet: "quiet (ge_now env) s (agent_retry_fires env i s)"
proof (cases "i < length (g_retries s)")
  case True
  define rs where "rs = take i (g_retries s) @ drop (Suc i) (g_retries s)"
  have "mset (g_retries s) = add_mset (g_retries s ! i) (mset rs)" using mset_take_drop [OF True] by (simp add: rs_def)
  then have ms: "mset (map (og_id \<circ> snd) (g_retries s)) = add_mset (og_id (snd (g_retries s ! i))) (mset (map (og_id \<circ> snd) rs))"
    by (simp add: mset_map)
  then have "account (s\<lparr>g_retries := rs\<rparr>) \<subseteq># account s" "account (s\<lparr>g_retries := rs, g_queue := snd (g_retries s ! i) # g_queue s\<rparr>) = account s"
    by (simp_all add: account_def agent_pending_def agent_settled_def)
  then have "quiet (ge_now env) s (s\<lparr>g_retries := rs\<rparr>)" "quiet (ge_now env) s (s\<lparr>g_retries := rs, g_queue := snd (g_retries s ! i) # g_queue s\<rparr>)"
    by (simp_all add: quiet_def moves_def grows_def paced_def avail_def g_fps_def g_maxInFlight_def)
  then show ?thesis using True by (auto simp: agent_retry_fires_def Let_def rs_def [symmetric] intro: quiet_pump)
qed (simp add: agent_retry_fires_def)

text \<open>Settling everything of a kind that is in the queue.\<close>

lemma account_filter:
  "mset (map og_id (filter P (g_queue s))) + account (s\<lparr>g_queue := filter (\<lambda>e. \<not> P e) (g_queue s)\<rparr>) = account s"
proof -
  have "mset (filter P q) + mset (filter (\<lambda>e. \<not> P e) q) = mset q" for q :: "outgoing list" by (induction q) auto
  then have "mset (map og_id (filter P (g_queue s))) + mset (map og_id (filter (\<lambda>e. \<not> P e) (g_queue s))) = mset (map og_id (g_queue s))"
    by (metis image_mset_union mset_map)
  then show ?thesis by (simp add: account_def agent_pending_def agent_settled_def ac_simps)
qed

lemma quiet_filter:
  "quiet now s (fold (\<lambda>e. reject_send (err e) e) (rev (filter P (g_queue s))) (s\<lparr>g_queue := filter (\<lambda>e. \<not> P e) (g_queue s)\<rparr>))"
  "quiet now s (fold (\<lambda>e. resolve_send e None) (rev (filter P (g_queue s))) (s\<lparr>g_queue := filter (\<lambda>e. \<not> P e) (g_queue s)\<rparr>))"
proof -
  let ?s1 = "s\<lparr>g_queue := filter (\<lambda>e. \<not> P e) (g_queue s)\<rparr>"
  show "quiet now s (fold (\<lambda>e. reject_send (err e) e) (rev (filter P (g_queue s))) ?s1)"
    "quiet now s (fold (\<lambda>e. resolve_send e None) (rev (filter P (g_queue s))) ?s1)"
    using account_filter [of P s] by - (rule quiet_settled [where ?s1.0 = ?s1]; simp add: rev_map [symmetric])+
qed

lemma tick_queue_quiet: "quiet (ge_now env) s (tick_queue env s)"
  unfolding tick_queue_def by (rule quiet_filter)

lemma drop_transient_quiet: "quiet now s (drop_transient s)"
  unfolding drop_transient_def using quiet_filter(2) [of now s "\<lambda>e. type_str (og_frame e) \<in> set TRANSIENT"] by simp

lemma reject_all_quiet:
  "quiet now s (reject_all e s)"
proof -
  let ?s1 = "s\<lparr>g_queue := [], g_inflight := []\<rparr>"
  let ?es = "g_queue s @ map snd (g_inflight s)"
  have "account (reject_all e s) = mset (map og_id ?es) + account ?s1"
    unfolding reject_all_def by (rule settle_all_account(2) [of "\<lambda>_. e"])
  also have "\<dots> = account s" by (simp add: account_def agent_pending_def agent_settled_def ac_simps)
  finally have "account (reject_all e s) = account s" .
  moreover have "rest_view (reject_all e s) = rest_view ?s1"
    unfolding reject_all_def by (rule settle_all_rest(2) [of "\<lambda>_. e"])
  ultimately show ?thesis by - (rule quiet_settled [where ?s1.0 = ?s1]; simp)
qed

lemma tick_inflight_quiet:
  assumes "distinct (map fst es)" "\<And>x. x \<in> set es \<Longrightarrow> map_of (g_inflight s) (fst x) = Some (snd x)"
  shows "quiet (ge_now env) s (tick_inflight env es s)"
  using assms
proof (induction es arbitrary: s)
  case (Cons x es)
  obtain key e where x: "x = (key, e)" by fastforce
  have e: "map_of (g_inflight s) key = Some e" using Cons.prems(2) [of x] x by simp
  define s1 where "s1 = (if og_deadline e < ge_now env
     then reject_send (timeout_error ''no ack in time'' e) e (s\<lparr>g_inflight := AList.delete key (g_inflight s)\<rparr>)
     else if agent_connected s \<and> ge_now env - og_sentAt e > g_ackTimeoutMs s
     then s\<lparr>g_inflight := AList.delete key (g_inflight s), g_queue := e # g_queue s\<rparr> else s)"
  have q: "quiet (ge_now env) s s1" using quiet_take [OF e] by (simp add: s1_def)
  have infl: "g_inflight s1 = AList.delete key (g_inflight s) \<or> g_inflight s1 = g_inflight s"
    using rest_fields(2) [OF settle_rest(2)] by (simp add: s1_def)
  have "map_of (g_inflight s1) (fst y) = Some (snd y)" if "y \<in> set es" for y
  proof -
    have "fst y \<noteq> key" using Cons.prems(1) x that by force
    with infl Cons.prems(2) [of y] that show ?thesis by auto
  qed
  then have "quiet (ge_now env) s1 (tick_inflight env es s1)" using Cons.prems(1) by (intro Cons.IH) auto
  with q have "quiet (ge_now env) s (tick_inflight env es s1)" by (rule quiet_trans)
  then show ?case by (simp only: x tick_inflight.simps s1_def)
qed simp

lemma tick_quiet: "distinct (map fst (g_inflight s)) \<Longrightarrow> quiet (ge_now env) s (agent_tick env s)"
proof -
  assume d: "distinct (map fst (g_inflight s))"
  have q: "quiet (ge_now env) s (tick_queue env s)" by (rule tick_queue_quiet)
  then have d1: "distinct (map fst (g_inflight (tick_queue env s)))" using d by (simp add: quiet_def moves_def grows_def)
  have "quiet (ge_now env) (tick_queue env s) (tick_inflight env (g_inflight (tick_queue env s)) (tick_queue env s))"
    using d1 by (intro tick_inflight_quiet) (auto simp: map_of_is_SomeI)
  with q show ?thesis by (auto simp: agent_tick_def Let_def split: timer.split intro: quiet_pump quiet_trans)
qed

end
