(* ===== verification/Agent_Moves.thy ===== *)
theory Agent_Moves
  imports Agent_Sends
begin

text \<open>
  The moves of the remaining operations of the agent: replies and asks, inbound frames, connection and
  turns, up to one lemma per step. The operations that touch the connection, the turns or the positions
  are described by what they do to these.
\<close>

section \<open>Replies and asks\<close>

lemma quiet_fold: "(\<And>x s. quiet now s (f x s)) \<Longrightarrow> quiet now s (fold f xs s)"
proof (induction xs arbitrary: s)
  case (Cons x xs)
  have "quiet now s (f x s)" "quiet now (f x s) (fold f xs (f x s))" using Cons by blast+
  then show ?case by (simp add: quiet_trans)
qed simp

lemma quiet_then: "quiet now s s1 \<Longrightarrow> (\<And>s. quiet now s (f s)) \<Longrightarrow> quiet now s (f s1)"
  using quiet_trans by blast

lemma waitForAnswer_quiet: "quiet now s (waitForAnswer cid i rid n s)"
  by (simp add: waitForAnswer_def quiet_def)

lemma reject_asks_quiet: "quiet now s (reject_asks P s)"
  by (simp add: reject_asks_def quiet_def)

lemma core_calls_quiet: "quiet (ge_now env) s (core_calls env rid r r' s)"
proof -
  define s1 where "s1 = s\<lparr>g_clientCounter := g_clientCounter s + (r_clientIds r' - r_clientIds r)\<rparr>"
  define s2 where "s2 = fold (\<lambda>(n, i). waitForAnswer (r_conversationId r') i rid n) (new_asks r r') s1"
  have "quiet (ge_now env) s s1" by (simp add: s1_def quiet_updates)
  moreover have "quiet (ge_now env) s1 s2"
    unfolding s2_def by (rule quiet_fold) (auto intro: waitForAnswer_quiet)
  moreover have "quiet (ge_now env) s2 (fold (\<lambda>(k, f). enqueue env (OfReply rid k) (r_conversationId r') f) (new_sends r r') s2)"
    by (rule quiet_fold) (auto intro: enqueue_quiet)
  ultimately show ?thesis unfolding core_calls_def Let_def s1_def s2_def by (meson quiet_trans)
qed

lemma reply_apply_quiet: "quiet (ge_now env) s (reply_apply env rid i s)"
  by (auto simp: reply_apply_def Let_def intro!: quiet_then [OF _ core_calls_quiet] quiet_updates)

lemma new_reply_quiet: "quiet (ge_now env) s (agent_new_reply env cid rn sig s)"
proof -
  define s1 where "s1 = s\<lparr>g_replies := g_replies s @ [\<lparr>rs_reply = new_reply cid (g_core s) rn, rs_signal = sig, rs_aborted = False\<rparr>]\<rparr>"
  have "quiet (ge_now env) s s1" by (simp add: s1_def quiet_updates)
  then show ?thesis
    unfolding agent_new_reply_def Let_def s1_def [symmetric]
    by (rule quiet_trans) (rule quiet_fold, auto intro: enqueue_quiet)
qed

lemma run_job_quiet: "quiet (ge_now env) s (run_job env s)"
  by (auto simp: run_job_def split: list.split job.split intro!: quiet_then [OF _ reply_apply_quiet] quiet_updates)

lemma ask_cancelled_quiet: "quiet now s (ask_cancelled rid n s)"
  by (simp add: ask_cancelled_def reject_asks_quiet)

lemma abort_lane_quiet: "quiet now s (abort_lane cid s)"
  by (auto simp: abort_lane_def split: option.split turn_phase.split intro!: quiet_then [OF _ reject_asks_quiet] quiet_updates)

lemma settle_start_quiet: "quiet now s (settle_start r s)"
  by (auto simp: settle_start_def intro: quiet_updates)

lemma agent_stop_quiet: "quiet now s (agent_stop ms s)"
proof -
  define s1 where "s1 = fold abort_lane (map fst (g_lanes s)) (s\<lparr>g_stopping := True\<rparr>)"
  define s2 where "s2 = reject_asks (\<lambda>_. True) s1"
  define s3 where "s3 = fold history_done (map fst (g_histories s2)) s2"
  have "quiet now (s\<lparr>g_stopping := True\<rparr>) s1" unfolding s1_def by (rule quiet_fold) (rule abort_lane_quiet)
  then have "quiet now s s1" by (rule quiet_trans [rotated]) (simp add: quiet_updates)
  moreover have "quiet now s1 s2" unfolding s2_def by (rule reject_asks_quiet)
  moreover have "quiet now s2 s3" unfolding s3_def by (rule quiet_fold) (rule quiet_history)
  ultimately have "quiet now s s3" by (meson quiet_trans)
  then show ?thesis by (auto simp: agent_stop_def Let_def s1_def [symmetric] s2_def [symmetric] s3_def [symmetric] intro: quiet_updates)
qed

section \<open>Frames\<close>

lemma history_quiet: "quiet (ge_now env) s (agent_history env cid since s)"
  by (auto simp: agent_history_def Let_def intro!: quiet_then [OF _ enqueue_quiet] quiet_updates)

lemma sync_fires_quiet: "quiet (ge_now env) s (sync_fires env i s)"
  by (auto simp: sync_fires_def split: prod.split intro!: quiet_then [OF _ enqueue_quiet] quiet_updates)

lemma replay_truncated_quiet: "quiet (ge_now env) s (replay_truncated_frame env cid f s)"
  by (auto simp: replay_truncated_frame_def split: option.split intro: enqueue_quiet quiet_history)

lemma resume_answers_quiet: "quiet now s (snd (resume_answers cid es s))"
proof (induction cid es s rule: resume_answers.induct)
  case (2 cid i v es s)
  show ?case
  proof (cases "map_of (g_asks s) (send_key cid i)")
    case (Some x)
    obtain rid n where x: "x = (rid, n)" by fastforce
    let ?s = "s\<lparr>g_asks := AList.delete (send_key cid i) (g_asks s), g_jobs := g_jobs s @ [JAnswer rid n (Some v)]\<rparr>"
    have "quiet now s ?s" by (intro quiet_updates) simp
    moreover have "quiet now ?s (snd (resume_answers cid es ?s))" using 2(2) [OF Some x [symmetric]] by simp
    ultimately have "quiet now s (snd (resume_answers cid es ?s))" by (rule quiet_trans)
    then show ?thesis using Some x by (simp add: split_beta)
  qed (use 2(1) in simp)
qed simp

lemma onResume_quiet: "quiet now s (onResume cid f s)"
  using resume_answers_quiet [of now s cid "object_entries (field f ''answers'')"] by (simp add: onResume_def split_beta)

lemma onError_quiet: "quiet (ge_now env) s (agent_onError env cid f s)"
  by (auto simp: agent_onError_def Let_def intro!: quiet_then [OF _ onSendError_quiet] quiet_updates)

lemma scheduleRefresh_quiet: "quiet now s (agent_scheduleRefresh env e s)"
  by (auto simp: agent_scheduleRefresh_def Let_def split: option.split intro!: quiet_updates)

lemma onWelcome_quiet: "quiet (ge_now env) s (agent_onWelcome env w s)"
proof -
  define s0 where "s0 = s\<lparr>g_inflight := [], g_queue := sort_key og_sentAt (map snd (g_inflight s)) @ g_queue s\<rparr>"
  define s1 where "s1 = s\<lparr>g_welcome := Some w, g_attempt := 0, g_everConnected := True, g_rejected := False,
     g_inflight := [], g_queue := sort_key og_sentAt (map snd (g_inflight s)) @ g_queue s\<rparr>"
  have "account s0 = account s"
    by (simp add: s0_def account_def agent_pending_def agent_settled_def image_mset.compositionality ac_simps)
  then have "quiet (ge_now env) s s0"
    by (simp add: s0_def quiet_def moves_def grows_def paced_def avail_def g_fps_def g_maxInFlight_def)
  then have "quiet (ge_now env) s (s0\<lparr>g_welcome := Some w, g_attempt := 0, g_everConnected := True, g_rejected := False\<rparr>)"
    by (intro quiet_updates)
  moreover have "s0\<lparr>g_welcome := Some w, g_attempt := 0, g_everConnected := True, g_rejected := False\<rparr> = s1"
    by (simp add: s0_def s1_def)
  ultimately have s1: "quiet (ge_now env) s s1" by simp
  have "quiet (ge_now env) s (agent_pump env (settle_start (Inr ()) (g_perform (EConnected w)
      (agent_scheduleRefresh env (as_num (ofield (field w ''data'') ''expiresAt'')) s1))))"
    by (rule quiet_pump, rule quiet_then [OF _ settle_start_quiet], simp, rule quiet_then [OF s1 scheduleRefresh_quiet])
  with s1 show ?thesis unfolding agent_onWelcome_def Let_def s1_def by simp
qed

lemma onBare_quiet: "quiet (ge_now env) s (onBare env f s)"
proof -
  have n: "quiet (ge_now env) s (g_perform (GNotify f None) s)" by simp
  show ?thesis unfolding onBare_def Let_def
    by (auto split: option.split intro!: quiet_then [OF n onWelcome_quiet] quiet_then [OF n scheduleRefresh_quiet]
        quiet_then [OF _ onSendError_quiet] quiet_updates)
qed

text \<open>Frames that record a seq or start a turn: the connection is left alone.\<close>

definition calm :: "jsnum \<Rightarrow> agent \<Rightarrow> agent \<Rightarrow> bool" where
  "calm now s s' \<longleftrightarrow> moves now s s' \<and> link_state s' = link_state s"

lemma calm_refl [simp]: "calm now s s"
  by (simp add: calm_def)

lemma calm_trans [trans]: "calm now s s1 \<Longrightarrow> calm now s1 s2 \<Longrightarrow> calm now s s2"
  unfolding calm_def using moves_trans by force

lemma quiet_calm: "quiet now s s' \<Longrightarrow> calm now s s'"
  by (simp add: quiet_def calm_def aside_def)

lemma calm_updates [simp]:
  "calm now s (s'\<lparr>g_tracker := a\<rparr>) = calm now s s'" "calm now s (s'\<lparr>g_lanes := b\<rparr>) = calm now s s'"
  "calm now s (s'\<lparr>g_active := c\<rparr>) = calm now s s'" "calm now s (s'\<lparr>g_waiters := d\<rparr>) = calm now s s'"
  "calm now s (s'\<lparr>g_histories := e\<rparr>) = calm now s s'"
  by (simp_all add: calm_def link_state_def)

lemma calm_perform [simp]: "settles e = [] \<Longrightarrow> \<not> is_write e \<Longrightarrow> calm now s (g_perform e s') = calm now s s'"
  by (simp add: calm_def moves_perform) (simp add: link_state_def g_perform_def)

lemma calm_quiet: "calm now s s1 \<Longrightarrow> (\<And>s. quiet now s (f s)) \<Longrightarrow> calm now s (f s1)"
  using calm_trans quiet_calm by blast

text \<open>An acknowledged send is settled like one that needs no ack; only the log shows the ack.\<close>

lemma resolve_acked:
  "rest_view (resolve_send e ack s) = rest_view (g_perform (SendDone (og_id e) ack) s)"
  "account (resolve_send e ack s) = account (resolve_send e None s)"
  by (simp_all add: resolve_send_def settle_wake account_simps)

lemma calm_acked: "calm now s (resolve_send e (Some ack) s') = calm now s (resolve_send e None s')"
proof -
  note a = rest_fields [OF resolve_acked(1) [of e "Some ack" s']] rest_fields [OF resolve_acked(1) [of e None s']]
  have "agent_writes (g_perform (SendDone (og_id e) x) s') = agent_writes s'" "link_state (g_perform (SendDone (og_id e) x) s') = link_state s'" for x
    by (simp_all add: agent_writes_def link_state_def g_perform_def)
  then show ?thesis
    unfolding calm_def moves_def grows_def paced_def avail_def g_fps_def g_maxInFlight_def resolve_acked(2) [of e "Some ack"] a
    by (simp add: g_perform_def)
qed

lemma onAck_calm: "calm (ge_now env) s (agent_onAck env cid ack s)"
proof -
  define s1 where "s1 = (case as_num (field ack ''seq'') of
     Some seq \<Rightarrow> s\<lparr>g_tracker := snd (tracker_record cid seq (g_tracker s))\<rparr> | None \<Rightarrow> s)"
  have s1: "calm (ge_now env) s s1" by (simp add: s1_def split: option.split)
  have "calm (ge_now env) s1 (agent_pump env (resolve_send e (Some ack) (s1\<lparr>g_inflight := AList.delete key (g_inflight s1)\<rparr>)))"
    if "map_of (g_inflight s1) key = Some e" for key e
    using that by (intro calm_quiet [OF calm_acked [THEN iffD2] quiet_pump [OF quiet_refl]] quiet_calm quiet_take)
  then show ?thesis
    unfolding agent_onAck_def Let_def s1_def [symmetric] using s1 by (auto split: option.split intro: calm_trans)
qed

lemma dispatch_turn_calm: "calm now s s' \<Longrightarrow> calm now s (dispatch_turn cid f s')"
  by (simp add: dispatch_turn_def agent_dispatch_def Let_def)

lemma history_frame_calm: "calm now s (history_frame cid seq f c s)"
  by (auto simp: history_frame_def Let_def intro!: calm_quiet [OF _ quiet_history])

lemma conversation_frame_calm: "calm now s (onConversationFrame cid f s)"
  by (auto simp: onConversationFrame_def Let_def split_beta split: option.split intro: history_frame_calm dispatch_turn_calm)

lemma onMessage_calm: "calm (ge_now env) s (agent_onMessage env j s)"
proof -
  have e: "calm (ge_now env) s (onEnveloped env cid f s)" for cid f
  proof -
    have n: "calm (ge_now env) s (g_perform (GNotify f (Some cid)) s)" by simp
    show ?thesis unfolding onEnveloped_def Let_def
      by (auto intro!: calm_quiet [OF n onError_quiet] calm_quiet [OF n replay_truncated_quiet] calm_quiet [OF n onResume_quiet]
          calm_quiet [OF n abort_lane_quiet] calm_trans [OF n onAck_calm] calm_trans [OF n conversation_frame_calm])
  qed
  show ?thesis
    by (auto simp: agent_onMessage_def split: option.split json.split intro: e quiet_calm [OF onBare_quiet])
qed

section \<open>Turns\<close>

lemma with_phase_calm [simp]: "calm now s (with_phase cid ph s') = calm now s s'"
  by (simp add: with_phase_def split: option.split)

lemma lane_next_calm [simp]: "calm now s (lane_next cid s') = calm now s s'"
  by (simp add: lane_next_def split: option.split)

lemma release_calm [simp]: "calm now s (agent_release s') = calm now s s'"
  by (simp add: agent_release_def split: list.split)

lemma runTurn_calm: "calm now s (runTurn cid s)"
  by (auto simp: runTurn_def agent_acquire_def split: option.split)

lemma run_handler_calm: "calm (ge_now env) s (run_handler env cid s)"
  by (auto simp: run_handler_def split: option.split intro!: calm_quiet [OF _ new_reply_quiet])

lemma handler_returns_calm: "calm (ge_now env) s (handler_returns env cid c s)"
  by (auto simp: handler_returns_def Let_def emitError_def split: option.split turn_phase.split
      intro!: calm_quiet [OF _ reply_apply_quiet] calm_quiet [OF _ reject_asks_quiet])

lemma turn_done_calm: "calm now s (turn_done cid s)"
  by (auto simp: turn_done_def split: option.split turn_phase.split)

section \<open>Connection\<close>

definition link_count :: "agent \<Rightarrow> nat" where
  "link_count s = g_connects s + (if g_socket s = None then 0 else 1) + (if is_armed (g_reconnectTimer s) then 1 else 0)"

text \<open>
  A running agent has exactly one of a token request, a connection attempt or a reconnect timer, and the
  current connection attempt is not closed and has something that ends it.
\<close>

definition link_ok :: "agent \<Rightarrow> bool" where
  "link_ok s \<longleftrightarrow> (\<forall>k. g_socket s = Some k \<longrightarrow> sock_ok k) \<and> (g_running s \<longrightarrow> link_count s = 1)
     \<and> (\<not> g_start s \<longrightarrow> \<not> g_running s \<and> link_count s = 0)"

lemma link_ok_state: "link_state s' = link_state s \<Longrightarrow> link_ok s' = link_ok s"
proof -
  have "link_ok s = (case link_state s of (st, r, c, a, k) \<Rightarrow>
      k \<noteq> Some False \<and> (r \<longrightarrow> c + (if k = None then 0 else 1) + (if a then 1 else 0) = 1)
      \<and> (\<not> st \<longrightarrow> \<not> r \<and> c + (if k = None then 0 else 1) + (if a then 1 else 0) = 0))" for s
    by (auto simp: link_ok_def link_count_def link_state_def)
  then show "link_state s' = link_state s \<Longrightarrow> link_ok s' = link_ok s" by simp
qed

lemma calm_link: "calm now s s' \<Longrightarrow> link_ok s' = link_ok s"
  by (intro link_ok_state) (simp add: calm_def)

text \<open>Between two connections nothing is pending.\<close>

definition unlinked :: "agent \<Rightarrow> bool" where
  "unlinked s \<longleftrightarrow> g_start s \<and> (g_running s \<longrightarrow> link_count s = 0) \<and> (\<forall>k. g_socket s = Some k \<longrightarrow> sock_ok k)"

lemma unlinked_state:
  "link_state s' = link_state s \<Longrightarrow> unlinked s' = unlinked s"
proof -
  have "unlinked s = (case link_state s of (st, r, c, a, k) \<Rightarrow>
      st \<and> k \<noteq> Some False \<and> (r \<longrightarrow> c + (if k = None then 0 else 1) + (if a then 1 else 0) = 0))" for s
    by (auto simp: unlinked_def link_count_def link_state_def)
  then show "link_state s' = link_state s \<Longrightarrow> unlinked s' = unlinked s" by simp
qed

lemma link_perform [simp]: "link_state (g_perform e s) = link_state s"
  by (simp add: link_state_def g_perform_def)

lemma link_settle_start [simp]: "link_state (settle_start r s) = link_state s"
  by (simp add: settle_start_def link_state_def)

lemma link_fields [simp]:
  "link_state (s\<lparr>g_tickTimer := a\<rparr>) = link_state s" "link_state (s\<lparr>g_attempt := b\<rparr>) = link_state s"
  "link_state (s\<lparr>g_rejected := c\<rparr>) = link_state s" "link_state (s\<lparr>g_welcome := d\<rparr>) = link_state s"
  "link_state (s\<lparr>g_refreshTimer := e\<rparr>) = link_state s" "link_state (s\<lparr>g_stop := f\<rparr>) = link_state s"
  "link_state (s\<lparr>g_pumpTimer := g\<rparr>) = link_state s"
  by (simp_all add: link_state_def)

lemma moves_settle_start: "moves now s (settle_start r s') = moves now s s'"
  by (simp add: settle_start_def)

lemma unlinked_fields: "unlinked (emitError e s) = unlinked s" "unlinked (s\<lparr>g_attempt := n\<rparr>) = unlinked s"
  "unlinked (s\<lparr>g_rejected := c\<rparr>) = unlinked s"
  by (rule unlinked_state, simp add: emitError_def)+

lemma scheduleReconnect_link: "unlinked s \<Longrightarrow> link_ok (agent_scheduleReconnect env code reason ra s)"
  by (auto simp: agent_scheduleReconnect_def Let_def unlinked_def link_ok_def link_count_def settle_start_def g_perform_def)

lemma scheduleReconnect_moves: "moves now s (agent_scheduleReconnect env code reason ra s)"
  by (simp add: agent_scheduleReconnect_def Let_def moves_settle_start moves_perform)

lemma token_failed_link: "unlinked s \<Longrightarrow> link_ok (connect_token_failed env cause s)"
proof -
  assume u: "unlinked s"
  then have "unlinked (emitError e s)" for e by (simp add: unlinked_fields)
  then have "link_ok (agent_scheduleReconnect env 1006 ''token_error'' ra (emitError e s))" for e ra by (rule scheduleReconnect_link)
  moreover have "link_ok (settle_start (Inl e) (emitError e s\<lparr>g_running := False, g_tickTimer := t\<rparr>))" for e t
    using u by (simp add: link_ok_def unlinked_def link_count_def settle_start_def emitError_def g_perform_def split: if_splits)
  ultimately show ?thesis by (simp add: connect_token_failed_def Let_def)
qed

lemma token_failed_moves: "moves now s (connect_token_failed env cause s)"
proof -
  have "moves now s (emitError e s)" for e by (simp add: emitError_def moves_perform)
  then show ?thesis
    by (auto simp: connect_token_failed_def Let_def moves_settle_start intro: moves_trans [OF _ scheduleReconnect_moves])
qed

lemma sock_ok_connect: "sock_ok (asocket_connect ws (new_asocket o'))"
  unfolding sock_ok_def using asocket_live_connect by (simp add: new_asocket_def)

lemma with_token_link: "unlinked s \<Longrightarrow> agent_endpoint env s \<noteq> None \<Longrightarrow> link_ok (connect_with_token env tok s)"
  by (auto simp: connect_with_token_def unlinked_def link_ok_def link_count_def settle_start_def sock_ok_connect)

lemma with_token_moves: "moves now s (connect_with_token env tok s)"
  by (auto simp: connect_with_token_def moves_settle_start split: option.split)

definition endpoint_ok :: "genv \<Rightarrow> agent_options \<Rightarrow> bool" where
  "endpoint_ok env o' \<longleftrightarrow> endpointUrl (ge_url env) (ag_url o') (or_default (ag_path o') DEFAULT_PATH) \<noteq> None"

lemma connect_link: "unlinked s \<Longrightarrow> endpoint_ok env (g_options s) \<Longrightarrow> link_ok (agent_connect env reason s)"
proof -
  assume u: "unlinked s" and e: "endpoint_ok env (g_options s)"
  have "link_ok (connect_with_token env tok (s\<lparr>g_attempt := n\<rparr>))" for tok n
  proof (rule with_token_link)
    show "unlinked (s\<lparr>g_attempt := n\<rparr>)" using u by (simp add: unlinked_fields)
    show "agent_endpoint env (s\<lparr>g_attempt := n\<rparr>) \<noteq> None" using e by (simp add: agent_endpoint_def endpoint_ok_def)
  qed
  moreover have "\<not> g_running s \<Longrightarrow> link_ok s" using u by (simp add: link_ok_def unlinked_def link_count_def split: if_splits)
  moreover have "link_ok (g_perform f (s\<lparr>g_attempt := n\<rparr>)\<lparr>g_connects := Suc (g_connects s)\<rparr>)" for f n
    using u by (simp add: link_ok_def unlinked_def link_count_def g_perform_def split: if_splits)
  ultimately show ?thesis by (simp add: agent_connect_def Let_def)
qed

lemma connect_moves: "moves now s (agent_connect env reason s)"
  by (auto simp: agent_connect_def Let_def moves_perform intro: moves_trans [OF _ with_token_moves])

lemma connect_token_link: "link_ok s \<Longrightarrow> endpoint_ok env (g_options s) \<Longrightarrow> link_ok (connect_token env r s)"
proof (cases "g_connects s = 0")
  case False
  assume l: "link_ok s" and e: "endpoint_ok env (g_options s)"
  define s1 where "s1 = s\<lparr>g_connects := g_connects s - 1\<rparr>"
  have "unlinked s1" using False l by (auto simp: s1_def unlinked_def link_ok_def link_count_def split: if_splits)
  moreover have "agent_endpoint env s1 \<noteq> None" using e by (simp add: agent_endpoint_def endpoint_ok_def s1_def)
  ultimately show ?thesis
    using False token_failed_link [of s1 env] with_token_link [of s1 env]
    by (simp add: connect_token_def s1_def Let_def split: sum.split)
qed (simp add: connect_token_def)

lemma connect_token_moves: "moves now s (connect_token env r s)"
proof -
  define s1 where "s1 = s\<lparr>g_connects := g_connects s - 1\<rparr>"
  have "moves now s s1" by (simp add: s1_def)
  then have "moves now s (connect_token_failed env c s1)" "moves now s (connect_with_token env tok s1)" for c tok
    using moves_trans token_failed_moves with_token_moves by blast+
  then show ?thesis by (simp add: connect_token_def s1_def Let_def split: sum.split)
qed

lemma reconnect_fires_link: "link_ok s \<Longrightarrow> endpoint_ok env (g_options s) \<Longrightarrow> link_ok (agent_reconnect_fires env s)"
proof -
  assume l: "link_ok s" and e: "endpoint_ok env (g_options s)"
  have "link_ok (agent_connect env r (s\<lparr>g_reconnectTimer := Spent\<rparr>))" if "g_reconnectTimer s = Armed d r" for d r
  proof (rule connect_link)
    show "unlinked (s\<lparr>g_reconnectTimer := Spent\<rparr>)"
      using l that by (auto simp: unlinked_def link_ok_def link_count_def split: if_splits)
    show "endpoint_ok env (g_options (s\<lparr>g_reconnectTimer := Spent\<rparr>))" using e by simp
  qed
  then show ?thesis using l by (simp add: agent_reconnect_fires_def split: timer.split)
qed

lemma reconnect_fires_moves: "moves now s (agent_reconnect_fires env s)"
proof -
  have "moves now s (agent_connect env r (s\<lparr>g_reconnectTimer := Spent\<rparr>))" for r
    by (rule moves_trans [OF _ connect_moves]) simp
  then show ?thesis by (simp add: agent_reconnect_fires_def split: timer.split)
qed

lemma start_link: "link_ok s \<Longrightarrow> endpoint_ok env (g_options s) \<Longrightarrow> link_ok (agent_start env s)"
proof (cases "g_start s")
  case False
  assume l: "link_ok s" and e: "endpoint_ok env (g_options s)"
  have "link_ok (agent_connect env Connect (s\<lparr>g_start := True, g_running := True, g_tickTimer := Armed 1000 ()\<rparr>))"
  proof (rule connect_link)
    show "unlinked (s\<lparr>g_start := True, g_running := True, g_tickTimer := Armed 1000 ()\<rparr>)"
      using l False by (auto simp: unlinked_def link_ok_def link_count_def split: if_splits)
  qed (use e in simp)
  then show ?thesis using False by (simp add: agent_start_def)
qed (simp add: agent_start_def)

lemma start_moves: "moves now s (agent_start env s)"
proof -
  have "moves now s (agent_connect env Connect (s\<lparr>g_start := True, g_running := True, g_tickTimer := Armed 1000 ()\<rparr>))"
    by (rule moves_trans [OF _ connect_moves]) simp
  then show ?thesis by (simp add: agent_start_def)
qed

lemma refresh_fires_quiet: "quiet now s (agent_refresh_fires s)"
  by (auto simp: agent_refresh_fires_def Let_def split: timer.split intro!: quiet_updates)

lemma refresh_token_calm: "calm now s (refresh_token env r s)"
proof -
  have "link_state (s\<lparr>g_refreshes := n\<rparr>) = link_state s" for n by (simp add: link_state_def)
  moreover have "link_state (s\<lparr>g_refreshes := n, g_socket := Some (snd (asocket_send e j k))\<rparr>) = link_state s"
    if "g_socket s = Some k" for n e j k using that by (simp add: link_state_def sock_ok_send)
  ultimately show ?thesis
    by (auto simp: refresh_token_def Let_def calm_def emitError_def moves_perform split: sum.split option.split)
qed

section \<open>The socket of the agent\<close>

fun handled :: "k_effect \<Rightarrow> bool" where
  "handled (KOnMessage _) = True"
| "handled (KOnClose _) = True"
| "handled _ = False"

lemma handle_filter: "fold (agent_handle env) es s = fold (agent_handle env) (filter handled es) s"
proof (induction es arbitrary: s)
  case (Cons e es)
  then show ?case by (cases e) (simp_all add: agent_handle_def)
qed simp

text \<open>A step of an open socket reports nothing, one message, or that it closed.\<close>

definition reports :: "asocket \<Rightarrow> asocket \<Rightarrow> k_effect list" where
  "reports k k' = filter handled (drop (length (k_out k)) (k_out k'))"

lemma reports_simps [simp]:
  "reports k k = []" "reports k (snd (asocket_send env j k)) = []"
  "\<not> k_closed k \<Longrightarrow> \<exists>c. reports k (asocket_finish code r k) = [KOnClose c]"
  "\<not> k_closed k \<Longrightarrow> \<exists>c. reports k (asocket_close code r k) = [KOnClose c]"
  "reports k (asocket_onopen env k) = []" "reports k (asocket_connect ws k) = []"
  "reports k (asocket_onmessage env d k) = [] \<or> (\<exists>j. reports k (asocket_onmessage env d k) = [KOnMessage j])"
  by (auto simp: reports_def asocket_defs split: option.split ws_result.split)

lemma reports_fields [simp]: "reports (k\<lparr>k_pings := n\<rparr>) k' = reports k k'"
  "reports (k\<lparr>k_failing := f\<rparr>) k' = reports k k'" "reports (k\<lparr>k_connectTimer := t\<rparr>) k' = reports k k'"
  "reports k (snd (asocket_send env j (k\<lparr>k_pings := n\<rparr>))) = []"
  by (auto simp: reports_def asocket_defs)

lemma reports_tick:
  "\<not> k_closed k \<Longrightarrow> \<not> k_closed (asocket_tick env k) \<and> reports k (asocket_tick env k) = []
     \<or> k_closed (asocket_tick env k) \<and> (\<exists>c. reports k (asocket_tick env k) = [KOnClose c])"
  by (auto simp: asocket_tick_def Let_def)

lemma socket_reports:
  assumes "\<not> k_closed k"
  shows "\<not> k_closed (asocket_step i k) \<and> reports k (asocket_step i k) = []
    \<or> \<not> k_closed (asocket_step i k) \<and> (\<exists>j. reports k (asocket_step i k) = [KOnMessage j])
    \<or> k_closed (asocket_step i k) \<and> (\<exists>c. reports k (asocket_step i k) = [KOnClose c])"
proof (cases "(i, k)" rule: asocket_step.cases)
  case (2 env s)
  then show ?thesis using assms reports_simps(3) [of "k\<lparr>k_failing := None\<rparr>"]
    by (auto split: option.split)
next
  case (7 env s)
  then show ?thesis
    using assms reports_simps(4) [of "k\<lparr>k_connectTimer := Spent\<rparr>"]
    by (auto split: timer.split)
next
  case (4 env d s)
  then show ?thesis using assms reports_simps(7) [of k env d] by auto
next
  case (6 env s)
  then show ?thesis using assms reports_tick [of k env] by (auto split: timer.split)
qed (use assms reports_simps(3,4) [of k] in auto)

lemma aside_unlinked: "aside s s' \<Longrightarrow> unlinked s' = unlinked s"
  by (intro unlinked_state) (simp add: aside_def)

lemma onClose_link: "unlinked (s\<lparr>g_socket := None\<rparr>) \<Longrightarrow> link_ok (agent_onClose env c s)"
proof -
  assume u: "unlinked (s\<lparr>g_socket := None\<rparr>)"
  define s0 where "s0 = s\<lparr>g_socket := None, g_welcome := None, g_refreshTimer := clear_timeout (g_refreshTimer s)\<rparr>"
  define s1 where "s1 = drop_transient s0"
  have a: "aside s0 s1" unfolding s1_def by (rule quiet_aside [OF drop_transient_quiet])
  have "unlinked s0 = unlinked (s\<lparr>g_socket := None\<rparr>)" by (intro unlinked_state) (simp add: s0_def link_state_def)
  then have u1: "unlinked s1" using u aside_unlinked [OF a] by simp
  have idle: "\<not> g_running s1 \<Longrightarrow> link_ok s1" using u1 by (simp add: link_ok_def unlinked_def)
  have ended: "link_ok (reject_all e (settle_start r s'))"
    if "link_state s' = link_state (s1\<lparr>g_running := False\<rparr>)" for e r s'
  proof -
    have "quiet 0 (settle_start r s') (reject_all e (settle_start r s'))" by (rule reject_all_quiet)
    then have "link_ok (reject_all e (settle_start r s')) = link_ok (settle_start r s')" by (intro calm_link quiet_calm)
    also have "\<dots> = link_ok (s1\<lparr>g_running := False\<rparr>)" using that by (intro link_ok_state) simp
    finally show ?thesis using u1 by (simp add: link_ok_def unlinked_def)
  qed
  have again: "link_ok (agent_scheduleReconnect env code r ra s1)"
    "link_ok (agent_scheduleReconnect env code r ra (s1\<lparr>g_rejected := True\<rparr>))" for code r ra
    using u1 by (simp_all add: scheduleReconnect_link unlinked_fields)
  have "link_ok (reject_all e (settle_start r (let s2 = g_perform d (s1\<lparr>g_running := False, g_tickTimer := tm\<rparr>)
      in if g_everConnected s2 then emitError e s2 else s2)))" for e r d tm
    by (rule ended) (simp add: Let_def emitError_def link_state_def g_perform_def)
  then show ?thesis using idle again unfolding agent_onClose_def s0_def [symmetric] s1_def [symmetric] Let_def by simp
qed

lemma onClose_moves: "moves now s (agent_onClose env c s)"
proof -
  define s0 where "s0 = s\<lparr>g_socket := None, g_welcome := None, g_refreshTimer := clear_timeout (g_refreshTimer s)\<rparr>"
  define s1 where "s1 = drop_transient s0"
  have "moves now s0 s1" unfolding s1_def by (rule quiet_moves [OF drop_transient_quiet])
  then have m: "moves now s s1" using moves_trans [of now s s0 s1] by (simp add: s0_def)
  have "moves now s (reject_all e s')" if "moves now s s'" for e s'
    using moves_trans [OF that] quiet_moves [OF reject_all_quiet] by blast
  moreover have "moves now s (agent_scheduleReconnect env code r ra s')" if "moves now s s'" for code r ra s'
    using moves_trans [OF that] scheduleReconnect_moves by blast
  ultimately show ?thesis using m
    unfolding agent_onClose_def s0_def [symmetric] s1_def [symmetric] Let_def
    by (simp add: moves_settle_start emitError_def moves_perform)
qed

lemma socket_link: "link_ok s \<Longrightarrow> link_ok (agent_socket env i s)"
proof (cases "g_socket s")
  case (Some k)
  assume l: "link_ok s"
  define k' where "k' = asocket_step (ge_t env, i) k"
  have k: "\<not> k_closed k" "asocket_live k" using l Some by (simp_all add: link_ok_def sock_ok_def)
  have f: "agent_socket env i s = fold (agent_handle env) (reports k k') (s\<lparr>g_socket := Some k'\<rparr>)"
    using handle_filter by (simp add: agent_socket_def Some k'_def Let_def reports_def)
  have live: "link_ok (s\<lparr>g_socket := Some k'\<rparr>)" if "\<not> k_closed k'"
    using l Some that asocket_live_step [OF k(2), of "(ge_t env, i)"]
    by (simp add: link_ok_def link_count_def sock_ok_def k'_def)
  have "unlinked (s\<lparr>g_socket := Some k'\<rparr>\<lparr>g_socket := None\<rparr>)"
    using l Some by (auto simp: unlinked_def link_ok_def link_count_def split: if_splits)
  then have shut: "link_ok (agent_onClose env c (s\<lparr>g_socket := Some k'\<rparr>))" for c by (rule onClose_link)
  have "link_ok (agent_onMessage env j s') = link_ok s'" for j s' by (rule calm_link [OF onMessage_calm])
  then show ?thesis using socket_reports [OF k(1), of "(ge_t env, i)"] live shut
    unfolding f k'_def [symmetric] by (auto simp: agent_handle_def)
qed (simp add: agent_socket_def)

lemma socket_moves: "moves (ge_now env) s (agent_socket env i s)"
proof -
  have h: "moves (ge_now env) s (agent_handle env e s)" for e s
    using onMessage_calm [of env s] onClose_moves [of "ge_now env" s env]
    by (auto simp: agent_handle_def calm_def split: k_effect.split)
  have "moves (ge_now env) s (fold (agent_handle env) es s)" for es s
  proof (induction es arbitrary: s)
    case (Cons e es)
    then show ?case using moves_trans [OF h [of s e]] by simp
  qed simp
  then have "moves (ge_now env) s (fold (agent_handle env) es (s\<lparr>g_socket := x\<rparr>))" for es x
    using moves_trans [of "ge_now env" s "s\<lparr>g_socket := x\<rparr>"] by simp
  then show ?thesis by (simp add: agent_socket_def Let_def split: option.split)
qed

section \<open>Steps\<close>

lemma stop_close_moves: "moves (ge_now env) s (stop_close env s)"
proof -
  define s0 where "s0 = s\<lparr>g_running := False, g_reconnectTimer := clear_timeout (g_reconnectTimer s),
     g_refreshTimer := clear_timeout (g_refreshTimer s), g_tickTimer := clear_timeout (g_tickTimer s),
     g_pumpTimer := Unset, g_stop := Stopped\<rparr>"
  define s1 where "s1 = reject_all stopped_error s0"
  have "moves (ge_now env) s s0" by (simp add: s0_def)
  also have "moves (ge_now env) s0 s1" unfolding s1_def by (rule quiet_moves [OF reject_all_quiet])
  also have "moves (ge_now env) s1 (agent_socket env (KCallClose 1000 ''agent stopped'') s1)" by (rule socket_moves)
  finally show ?thesis
    unfolding stop_close_def s0_def [symmetric] s1_def [symmetric] Let_def by (simp add: moves_settle_start)
qed

text \<open>A socket's step when the agent no longer runs does not connect again.\<close>

lemma link_without_socket: "link_state s' = link_state s \<Longrightarrow> link_state (s'\<lparr>g_socket := None\<rparr>) = link_state (s\<lparr>g_socket := None\<rparr>)"
  by (simp add: link_state_def)

lemma handle_stopped:
  assumes "\<not> g_running s"
  shows "link_state (agent_handle env e s\<lparr>g_socket := None\<rparr>) = link_state (s\<lparr>g_socket := None\<rparr>)"
proof -
  define s0 where "s0 = s\<lparr>g_socket := None, g_welcome := None, g_refreshTimer := clear_timeout (g_refreshTimer s)\<rparr>"
  have d: "link_state (drop_transient s0) = link_state s0" using quiet_aside [OF drop_transient_quiet] by (auto simp: aside_def)
  have "\<not> g_running (drop_transient s0)" using d assms by (simp add: link_state_def s0_def)
  then have "agent_onClose env c s = drop_transient s0" for c by (simp add: agent_onClose_def s0_def [symmetric] Let_def)
  moreover have "link_state (s0\<lparr>g_socket := None\<rparr>) = link_state (s\<lparr>g_socket := None\<rparr>)" by (simp add: s0_def link_state_def)
  ultimately have "link_state (agent_onClose env c s\<lparr>g_socket := None\<rparr>) = link_state (s\<lparr>g_socket := None\<rparr>)" for c
    using link_without_socket [OF d] by metis
  moreover have "link_state (agent_onMessage env j s\<lparr>g_socket := None\<rparr>) = link_state (s\<lparr>g_socket := None\<rparr>)" for j
    using onMessage_calm [of env s j] by (intro link_without_socket) (simp add: calm_def)
  ultimately show ?thesis by (simp add: agent_handle_def split: k_effect.split)
qed

lemma socket_stopped:
  assumes "\<not> g_running s"
  shows "link_state (agent_socket env i s\<lparr>g_socket := None\<rparr>) = link_state (s\<lparr>g_socket := None\<rparr>)"
proof -
  have "link_state (fold (agent_handle env) es s\<lparr>g_socket := None\<rparr>) = link_state (s\<lparr>g_socket := None\<rparr>)"
    if "\<not> g_running s" for es s using that
  proof (induction es arbitrary: s)
    case (Cons e es)
    have "\<not> g_running (agent_handle env e s)" using handle_stopped [OF Cons.prems, of env e] Cons.prems by (simp add: link_state_def)
    then show ?case using Cons.IH handle_stopped [OF Cons.prems] by simp
  qed simp
  from this [of "s\<lparr>g_socket := x\<rparr>" for x] assms show ?thesis by (simp add: agent_socket_def Let_def split: option.split)
qed

lemma stop_close_link: "link_ok s \<Longrightarrow> link_ok (stop_close env s)"
proof -
  assume l: "link_ok s"
  define s0 where "s0 = s\<lparr>g_running := False, g_reconnectTimer := clear_timeout (g_reconnectTimer s),
     g_refreshTimer := clear_timeout (g_refreshTimer s), g_tickTimer := clear_timeout (g_tickTimer s),
     g_pumpTimer := Unset, g_stop := Stopped\<rparr>"
  define s1 where "s1 = reject_all stopped_error s0"
  define s2 where "s2 = agent_socket env (KCallClose 1000 ''agent stopped'') s1"
  have s1: "link_state s1 = link_state s0"
    unfolding s1_def using quiet_aside [OF reject_all_quiet, of s0] by (simp add: aside_def)
  then have "\<not> g_running s1" by (simp add: link_state_def s0_def)
  then have "link_state (s2\<lparr>g_socket := None\<rparr>) = link_state (s1\<lparr>g_socket := None\<rparr>)" unfolding s2_def by (rule socket_stopped)
  also have "\<dots> = link_state (s0\<lparr>g_socket := None\<rparr>)" by (rule link_without_socket [OF s1])
  finally have "link_ok (settle_start (Inl stopped_error) (s2\<lparr>g_socket := None, g_welcome := None\<rparr>)) = link_ok (s0\<lparr>g_socket := None\<rparr>)"
    by (intro link_ok_state) simp
  moreover have "link_ok (s0\<lparr>g_socket := None\<rparr>)"
    using l by (cases "g_reconnectTimer s") (simp_all add: s0_def link_ok_def link_count_def split: if_splits)
  ultimately show ?thesis unfolding stop_close_def s0_def [symmetric] s1_def [symmetric] s2_def [symmetric] Let_def by simp
qed

lemma drain_poll_moves: "moves (ge_now env) s (drain_poll env s)"
  by (simp add: drain_poll_def stop_close_moves split: stop_phase.split)

lemma drain_poll_link: "link_ok s \<Longrightarrow> link_ok (drain_poll env s)"
  by (simp add: drain_poll_def stop_close_link split: stop_phase.split)

lemma stop_tails_moves: "moves (ge_now env) s (stop_tails env s)"
proof -
  have "moves (ge_now env) s (drain_poll env (s\<lparr>g_stop := x\<rparr>))" for x by (rule moves_trans [OF _ drain_poll_moves]) simp
  then show ?thesis by (simp add: stop_tails_def split: stop_phase.split)
qed

lemma stop_tails_link: "link_ok s \<Longrightarrow> link_ok (stop_tails env s)"
proof -
  assume "link_ok s"
  then have "link_ok (s\<lparr>g_stop := x\<rparr>)" for x using link_ok_state [OF link_fields(6)] by blast
  then show ?thesis using \<open>link_ok s\<close> by (simp add: stop_tails_def drain_poll_link split: stop_phase.split)
qed

lemmas quiet_operations = agent_stop_quiet refresh_fires_quiet tick_quiet pump_fires_quiet retry_fires_quiet sync_fires_quiet
  enqueue_quiet new_reply_quiet reply_apply_quiet run_job_quiet ask_cancelled_quiet history_quiet quiet_history

lemmas calm_operations = refresh_token_calm runTurn_calm run_handler_calm handler_returns_calm turn_done_calm

lemmas linking_operations = start_moves stop_tails_moves drain_poll_moves connect_token_moves reconnect_fires_moves socket_moves

text \<open>Inputs other than those of the connection leave it alone.\<close>

fun linking :: "g_input \<Rightarrow> bool" where
  "linking GStart = True"
| "linking GStopTails = True"
| "linking GDrainPoll = True"
| "linking (GTokenResult _) = True"
| "linking GReconnectFires = True"
| "linking (GSocket _) = True"
| "linking _ = False"

lemma step_calm:
  "distinct (map fst (g_inflight s)) \<Longrightarrow> \<not> linking i \<Longrightarrow> calm (ge_now env) s (agent_step (env, i) s)"
  by (cases i) (simp_all add: calm_operations quiet_calm [OF quiet_operations(1)] quiet_calm quiet_operations,
    simp add: calm_def link_state_def)

lemma step_moves: "distinct (map fst (g_inflight s)) \<Longrightarrow> moves (ge_now env) s (agent_step (env, i) s)"
  using step_calm [of s i env] by (cases "linking i"; cases i) (simp_all add: linking_operations calm_def)

lemma step_link:
  "distinct (map fst (g_inflight s)) \<Longrightarrow> link_ok s \<Longrightarrow> endpoint_ok env (g_options s) \<Longrightarrow> link_ok (agent_step (env, i) s)"
  using calm_link [OF step_calm, of s i env]
  by (cases "linking i"; cases i)
    (simp_all add: start_link stop_tails_link drain_poll_link connect_token_link reconnect_fires_link socket_link)

end
