(* ===== verification/Agent_Props.thy ===== *)
theory Agent_Props
  imports Agent_Moves
begin

text \<open>
  What the agent guarantees over its runs: each send settles once and the limit on unacknowledged sends
  holds, the frames it writes obey its rate, and while it runs it is always about to be connected.
\<close>

section \<open>Sends\<close>

definition sends_ok :: "agent \<Rightarrow> bool" where
  "sends_ok s \<longleftrightarrow> distinct (map fst (g_inflight s)) \<and> account s \<subseteq># mset [0..<g_sends s]
     \<and> length (g_inflight s) \<le> g_maxInFlight s"

lemma sends_ok_moves: "moves now s s' \<Longrightarrow> sends_ok s \<Longrightarrow> sends_ok s'"
proof -
  assume m: "moves now s s'" and s: "sends_ok s"
  define X where "X = mset [g_sends s..<g_sends s']"
  have g: "g_sends s \<le> g_sends s'" "distinct (map fst (g_inflight s'))" "account s' \<subseteq># account s + X"
    "length (g_inflight s') \<le> g_maxInFlight s'"
    using m s unfolding moves_def grows_def sends_ok_def X_def by blast+
  have "[0..<g_sends s'] = [0..<g_sends s] @ [g_sends s..<g_sends s']"
    using g(1) upt_add_eq_append [of 0 "g_sends s" "g_sends s' - g_sends s"] by simp
  then have "mset [0..<g_sends s'] = mset [0..<g_sends s] + X" by (simp add: X_def)
  moreover have "account s + X \<subseteq># mset [0..<g_sends s] + X" using s by (intro subset_mset.add_right_mono) (simp add: sends_ok_def)
  ultimately show ?thesis unfolding sends_ok_def using g by (metis subset_mset.order_trans)
qed

lemma sends_ok_step: "sends_ok s \<Longrightarrow> sends_ok (agent_step e s)"
proof -
  assume s: "sends_ok s"
  obtain env i where e: "e = (env, i)" by force
  have "moves (ge_now env) s (agent_step (env, i) s)" using s by (intro step_moves) (simp add: sends_ok_def)
  then show ?thesis unfolding e using s by (rule sends_ok_moves)
qed

interpretation agent_sends: preserved agent_step sends_ok
  by unfold_locales (rule sends_ok_step)

lemma new_agent_facts:
  assumes "new_agent o' pfx now = Inr s"
  shows "sends_ok s" "link_ok s" "g_options s = o'" "g_tokens s = fps_of o'" "g_tokensAt s = now" "agent_writes s = 0"
  using assms by (auto simp: new_agent_def sends_ok_def account_def agent_pending_def agent_settled_def link_ok_def
      link_count_def agent_writes_def split: if_splits)

section \<open>A meter on runs\<close>

text \<open>
  A system whose steps carry a clock and spend at most the credit they have. The credit is capped and grows
  with time at a fixed rate; what a stretch of steps spends is then bounded by the cap and its duration.
\<close>

locale metered =
  fixes step :: "'e \<Rightarrow> 's \<Rightarrow> 's"
    and clock :: "'e \<Rightarrow> jsnum"
    and spent :: "'s \<Rightarrow> nat"
    and credit :: "jsnum \<Rightarrow> 's \<Rightarrow> jsnum"
    and rate :: "'s \<Rightarrow> jsnum"
    and good :: "jsnum \<Rightarrow> 's \<Rightarrow> bool"
  assumes step_good: "good (clock e) s \<Longrightarrow> good (clock e) (step e s)"
    and good_later: "good t s \<Longrightarrow> t \<le> t' \<Longrightarrow> good t' s"
    and step_spends: "good (clock e) s \<Longrightarrow> spent (step e s) + credit (clock e) (step e s) \<le> spent s + credit (clock e) s"
    and credit_bounds: "good t s \<Longrightarrow> 0 \<le> credit t s \<and> credit t s \<le> rate s"
    and credit_grows: "good t s \<Longrightarrow> t \<le> t' \<Longrightarrow> credit t' s \<le> credit t s + (t' - t) / 1000 * rate s"
    and rate_const: "good (clock e) s \<Longrightarrow> rate (step e s) = rate s"
begin

lemma run_meters:
  "good t s \<Longrightarrow> sorted (t # map clock es) \<Longrightarrow>
     spent (run step es s) + credit (last (t # map clock es)) (run step es s)
       \<le> spent s + credit t s + (last (t # map clock es) - t) / 1000 * rate s
     \<and> good (last (t # map clock es)) (run step es s) \<and> rate (run step es s) = rate s"
proof (induction es arbitrary: t s)
  case (Cons e es)
  let ?t = "clock e" let ?s = "step e s" let ?u = "last (?t # map clock es)"
  have le: "t \<le> ?t" and g: "good ?t s" using Cons.prems good_later by auto
  have "good ?t ?s" using g by (rule step_good)
  then have IH: "spent (run step es ?s) + credit ?u (run step es ?s) \<le> spent ?s + credit ?t ?s + (?u - ?t) / 1000 * rate s"
    "good ?u (run step es ?s)" "rate (run step es ?s) = rate s"
    using Cons.IH [of ?t ?s] Cons.prems by (simp_all add: rate_const [OF g])
  have "credit ?t s \<le> credit t s + (?t - t) / 1000 * rate s" using Cons.prems(1) le by (rule credit_grows)
  moreover have "(?u - ?t) / 1000 * rate s + (?t - t) / 1000 * rate s = (?u - t) / 1000 * rate s" by (simp add: field_simps)
  ultimately have "spent (run step es ?s) + credit ?u (run step es ?s) \<le> spent s + credit t s + (?u - t) / 1000 * rate s"
    using IH(1) step_spends [OF g] by linarith
  then show ?case using IH(2,3) by simp
qed simp

lemma run_bounded:
  assumes "good t s" "sorted (t # map clock (es @ fs))" "fs \<noteq> []"
  shows "real (spent (run step fs (run step es s))) - real (spent (run step es s))
    \<le> rate s * (1 + (clock (last fs) - clock (hd fs)) / 1000)"
proof -
  define s1 where "s1 = run step es s"
  define s2 where "s2 = run step fs s1"
  define h where "h = clock (hd fs)"
  have "sorted ((t # map clock es) @ map clock fs)" using assms(2) by simp
  then have es: "sorted (t # map clock es)" and "sorted (map clock fs)"
    and all: "\<forall>x\<in>set (t # map clock es). \<forall>y\<in>set (map clock fs). x \<le> y"
    unfolding sorted_append by blast+
  then have srt: "sorted (h # map clock fs)" using assms(3) by (cases fs) (simp_all add: h_def)
  have "h \<in> set (map clock fs)" using assms(3) by (simp add: h_def)
  moreover have "last (t # map clock es) \<in> set (t # map clock es)" by (rule last_in_set) simp
  ultimately have le: "last (t # map clock es) \<le> h" using all by blast
  have s: "good (last (t # map clock es)) s1" "rate s1 = rate s"
    using run_meters [OF assms(1) es] by (simp_all add: s1_def)
  from s(1) le have g: "good h s1" by (rule good_later)
  have "last (h # map clock fs) = clock (last fs)" using assms(3) by (simp add: last_map)
  then have m: "spent s2 + credit (clock (last fs)) s2 \<le> spent s1 + credit h s1 + (clock (last fs) - h) / 1000 * rate s"
    "good (clock (last fs)) s2" using run_meters [OF g srt] by (simp_all add: s(2) s2_def)
  have "rate s * (1 + (clock (last fs) - h) / 1000) = rate s + (clock (last fs) - h) / 1000 * rate s" by (simp add: field_simps)
  then have "real (spent s2) - real (spent s1) \<le> rate s * (1 + (clock (last fs) - h) / 1000)"
    using m(1) credit_bounds [OF g] credit_bounds [OF m(2)] s(2) by linarith
  then show ?thesis by (simp only: s1_def s2_def h_def)
qed

end

section \<open>The rate of frames\<close>

definition meter_ok :: "jsnum \<Rightarrow> agent \<Rightarrow> bool" where
  "meter_ok t s \<longleftrightarrow> sends_ok s \<and> 0 \<le> g_tokens s \<and> g_tokensAt s \<le> t"

lemma avail_grows: "t \<le> t' \<Longrightarrow> avail t' s \<le> avail t s + (t' - t) / 1000 * g_fps s"
proof -
  assume t: "t \<le> t'"
  have "(t' - g_tokensAt s) / 1000 * g_fps s = (t - g_tokensAt s) / 1000 * g_fps s + (t' - t) / 1000 * g_fps s" by (simp add: field_simps)
  moreover have "0 \<le> (t' - t) / 1000 * g_fps s" using t g_fps_pos [of s] by simp
  ultimately show ?thesis unfolding avail_def by linarith
qed

interpretation agent_meter: metered agent_step "\<lambda>e. ge_now (fst e)" agent_writes avail g_fps meter_ok
proof unfold_locales
  fix e :: "genv \<times> g_input" and s
  obtain env i where e: "e = (env, i)" by force
  have m: "moves (ge_now env) s (agent_step e s)" if "sends_ok s" using that step_moves by (simp add: sends_ok_def e)
  show "meter_ok (ge_now (fst e)) (agent_step e s)" if "meter_ok (ge_now (fst e)) s"
    using that m sends_ok_step [of s e] by (auto simp: meter_ok_def moves_def paced_def e)
  show "agent_writes (agent_step e s) + avail (ge_now (fst e)) (agent_step e s) \<le> agent_writes s + avail (ge_now (fst e)) s"
    if "meter_ok (ge_now (fst e)) s" using that m by (auto simp: meter_ok_def moves_def paced_def e)
  show "g_fps (agent_step e s) = g_fps s" if "meter_ok (ge_now (fst e)) s"
    using that m by (auto simp: meter_ok_def moves_def g_fps_def)
qed (use avail_grows order_trans [OF zero_le_one g_fps_pos] in \<open>auto simp: meter_ok_def avail_def order_less_imp_le\<close>)

section \<open>The connection\<close>

definition agent_ok :: "agent_options \<Rightarrow> agent \<Rightarrow> bool" where
  "agent_ok o' s \<longleftrightarrow> sends_ok s \<and> link_ok s \<and> g_options s = o'"

definition valid_step :: "agent_options \<Rightarrow> genv \<times> g_input \<Rightarrow> agent \<Rightarrow> agent" where
  "valid_step o' e s = (if endpoint_ok (fst e) o' then agent_step e s else s)"

interpretation agent_link: preserved "valid_step o'" "agent_ok o'"
proof unfold_locales
  fix s and e :: "genv \<times> g_input"
  assume ok: "agent_ok o' s"
  obtain env i where e: "e = (env, i)" by force
  have "moves (ge_now env) s (agent_step e s)" using ok step_moves by (simp add: agent_ok_def sends_ok_def e)
  then show "agent_ok o' (valid_step o' e s)"
    using ok sends_ok_step [of s e] step_link [of s env i] by (auto simp: valid_step_def agent_ok_def sends_ok_def moves_def e)
qed

lemma run_valid: "\<forall>e \<in> set es. endpoint_ok (fst e) o' \<Longrightarrow> run agent_step es s = run (valid_step o') es s"
  by (induction es arbitrary: s) (simp_all add: valid_step_def)

section \<open>Samples\<close>

definition sample_agent_options :: agent_options where
  "sample_agent_options =
     \<lparr>ag_url = ''wss://h/agents'', ag_token = Some ''t'', ag_getToken = False, ag_group = None, ag_userId = None,
      ag_reconnect = ReconnectUndefined, ag_path = None, ag_watermarks = [], ag_maxTrackedConversations = None,
      ag_maxInFlight = Some 1, ag_maxFramesPerSecond = Some 2, ag_ackTimeoutMs = None, ag_sendTimeoutMs = None,
      ag_maxConcurrentTurns = Some 1, ag_includeBotTurns = False, ag_streamMode = None, ag_streamFlushMs = None,
      ag_typingRefreshMs = None, ag_connectTimeoutMs = None, ag_livenessGraceMs = None, ag_runFrames = Some False\<rparr>"

definition sample_genv :: "jsnum \<Rightarrow> genv" where
  "sample_genv now =
     \<lparr>ge_t = \<lparr>te_now = now, te_ready = True, te_sends = True, te_date_parse = (\<lambda>_. None), te_typeError = []\<rparr>,
      ge_random = 0, ge_hex = ''00'', ge_ws = WsCreated,
      ge_url = (\<lambda>_. Some \<lparr>url_protocol = ''wss:'', url_host = ''h'', url_pathname = ''/agents'', url_rest = []\<rparr>)\<rparr>"

text \<open>An agent that connects, and the sends of two messages.\<close>

definition sample_connect :: "(genv \<times> g_input) list" where
  "sample_connect =
     [(sample_genv 0, GOnTurn), (sample_genv 0, GStart), (sample_genv 10, GSocket KOpen),
      (sample_genv 20, GSocket (KMessage (Some (JSON_stringify (JObj [(''type'', JStr ''welcome''), (''data'', JObj [])])))))]"

definition sample_sends :: "(genv \<times> g_input) list" where
  "sample_sends =
     [(sample_genv 30, GSend ''c'' (JObj [(''type'', JStr ''message''), (''id'', JStr ''a'')])),
      (sample_genv 40, GSend ''c'' (JObj [(''type'', JStr ''message''), (''id'', JStr ''b'')])),
      (sample_genv 50, GSocket (KMessage (Some (JSON_stringify (JObj [(''conversationId'', JStr ''c''),
         (''frame'', JObj [(''type'', JStr ''ack''), (''clientId'', JStr ''a''), (''seq'', JNum 1)])])))))]"

definition sample_agent :: agent where
  "sample_agent = (case new_agent sample_agent_options ''p'' 0 of Inr s \<Rightarrow> s)"

lemma sample_new: "new_agent sample_agent_options ''p'' 0 = Inr sample_agent"
  by (simp add: sample_agent_def new_agent_def sample_agent_options_def truthy_def)

definition sends_digest :: "agent \<Rightarrow> bool \<times> nat \<times> nat list \<times> nat list" where
  "sends_digest s = (g_running s, g_sends s, agent_settled s, agent_pending s)"

lemma sample_run_facts: "sends_digest (run agent_step (sample_connect @ sample_sends) sample_agent) = (True, 2, [0], [1])"
  by code_simp

section \<open>Properties\<close>

text \<open>
  C5. Whatever the agent is given, every promise of \<open>send\<close> is settled at most once, and none that is
  still queued, unacknowledged or waiting for its retry has been settled; ids are those of calls made. The
  number of unacknowledged sends never exceeds \<open>maxInFlight\<close>.
\<close>

theorem agent_sends_settle_once:
  assumes "new_agent o' pfx now = Inr s0" "s = run agent_step es s0"
  shows "distinct (agent_pending s @ agent_settled s) \<and> set (agent_pending s @ agent_settled s) \<subseteq> {..<g_sends s}
    \<and> length (g_inflight s) \<le> g_maxInFlight s"
proof -
  have s: "sends_ok s" using agent_sends.run_good new_agent_facts(1) assms by simp
  define X where "X = agent_pending s @ agent_settled s"
  have "mset X \<subseteq># mset [0..<g_sends s]" using s by (simp add: sends_ok_def account_def X_def)
  moreover from this have "set X \<subseteq> {..<g_sends s}" using set_mset_mono by fastforce
  moreover have "distinct ys \<Longrightarrow> mset xs \<subseteq># mset ys \<Longrightarrow> distinct xs" for xs ys :: "nat list"
    by (metis mset_subset_eq_exists_conv distinct_append ex_mset mset_append mset_eq_imp_distinct_iff)
  ultimately have "distinct X" "set X \<subseteq> {..<g_sends s}" using distinct_upt by blast+
  then show ?thesis using s unfolding X_def by (simp add: sends_ok_def)
qed

theorem agent_sends_settle_once_witness:
  "let s = run agent_step (sample_connect @ sample_sends) sample_agent
   in agent_pending s @ agent_settled s = [1, 0] \<and> distinct (agent_pending s @ agent_settled s)
      \<and> length (g_inflight s) \<le> g_maxInFlight s"
  using agent_sends_settle_once [OF sample_new refl, of "sample_connect @ sample_sends"] sample_run_facts
  unfolding Let_def by (simp add: sends_digest_def)



text \<open>
  C4. While the agent runs it has exactly one of a token request, a connection and a reconnect timer, and
  its connection is open or opening with something that ends it: a failed attempt is reported, the connect
  timeout is armed, or the liveness check closes it once the server is silent for too long. The URL parser
  accepts the agent's URL.
\<close>

theorem agent_has_one_link:
  assumes "new_agent o' pfx now = Inr s0" "\<forall>e \<in> set es. endpoint_ok (fst e) o'"
    and "s = run agent_step es s0" "g_running s"
  shows "(g_connects s, g_socket s \<noteq> None, is_armed (g_reconnectTimer s)) \<in> {(1, False, False), (0, True, False), (0, False, True)}
    \<and> (\<forall>k. g_socket s = Some k \<longrightarrow> \<not> k_closed k \<and>
      (k_closed (asocket_step (env, KFailed) k) \<or> k_closed (asocket_step (env, KConnectTimeout) k)
       \<or> (\<forall>e. te_now e > k_lastIn k + k_idleTimeoutMs k + so_livenessGraceMs (k_options k) \<longrightarrow> k_closed (asocket_step (e, KTick) k))))"
proof -
  have "agent_ok o' s0" using new_agent_facts [OF assms(1)] by (simp add: agent_ok_def)
  then have "agent_ok o' s" using agent_link.run_good [of o' s0 es] run_valid [OF assms(2), of s0] assms(3) by simp
  then have l: "link_count s = 1" "\<forall>k. g_socket s = Some k \<longrightarrow> sock_ok k" using assms(4) by (auto simp: agent_ok_def link_ok_def)
  from l(1) have "(g_connects s, g_socket s \<noteq> None, is_armed (g_reconnectTimer s)) \<in> {(1, False, False), (0, True, False), (0, False, True)}"
    by (auto simp: link_count_def split: if_splits)
  then show ?thesis using l(2) asocket_live_ends unfolding sock_ok_def by blast
qed

theorem agent_has_one_link_witness:
  "let s = run agent_step (sample_connect @ sample_sends) sample_agent in g_running s \<and>
     (g_connects s, g_socket s \<noteq> None, is_armed (g_reconnectTimer s)) \<in> {(1, False, False), (0, True, False), (0, False, True)}"
proof -
  have "\<forall>e \<in> set (sample_connect @ sample_sends). endpoint_ok (fst e) sample_agent_options"
    by (simp add: sample_connect_def sample_sends_def endpoint_ok_def endpointUrl_def sample_genv_def Let_def)
  moreover have "g_running (run agent_step (sample_connect @ sample_sends) sample_agent)"
    using sample_run_facts by (simp add: sends_digest_def)
  ultimately show ?thesis using agent_has_one_link [OF sample_new _ refl] unfolding Let_def by blast
qed

end
