(* ===== verification/Agent_Turns.thy ===== *)
theory Agent_Turns
  imports Agent_Props
begin

text \<open>
  Turns of the agent. The lanes of the conversations and the slots for handlers keep an invariant from
  which the limit on concurrent handlers and the order of turns follow, and the tracker keeps a numbered
  turn from being handled twice.
\<close>

section \<open>Operations that leave turns alone\<close>

definition still :: "agent \<Rightarrow> agent \<Rightarrow> bool" where
  "still s s' \<longleftrightarrow> lane_view s' = lane_view s \<and> same_positions (g_tracker s) (g_tracker s')"

lemma still_refl [simp]: "still s s"
  by (simp add: still_def same_positions_def)

lemma still_trans [trans]: "still s s1 \<Longrightarrow> still s1 s2 \<Longrightarrow> still s s2"
  by (auto simp: still_def same_positions_def)

lemma still_updates [simp]:
  "still s (s'\<lparr>g_socket := a\<rparr>) = still s s'" "still s (s'\<lparr>g_welcome := b\<rparr>) = still s s'"
  "still s (s'\<lparr>g_running := c\<rparr>) = still s s'" "still s (s'\<lparr>g_start := d\<rparr>) = still s s'"
  "still s (s'\<lparr>g_startResult := e\<rparr>) = still s s'" "still s (s'\<lparr>g_tickTimer := f\<rparr>) = still s s'"
  "still s (s'\<lparr>g_refreshTimer := g\<rparr>) = still s s'" "still s (s'\<lparr>g_reconnectTimer := h\<rparr>) = still s s'"
  "still s (s'\<lparr>g_attempt := i\<rparr>) = still s s'" "still s (s'\<lparr>g_rejected := j\<rparr>) = still s s'"
  "still s (s'\<lparr>g_connects := k\<rparr>) = still s s'" "still s (s'\<lparr>g_refreshes := l\<rparr>) = still s s'"
  "still s (s'\<lparr>g_pumpTimer := m\<rparr>) = still s s'" "still s (s'\<lparr>g_stop := n\<rparr>) = still s s'"
  "still s (s'\<lparr>g_handler := x\<rparr>) = still s s'"
  by (simp_all add: still_def lane_view_def)

lemma still_perform [simp]: "\<not> turn_event e \<Longrightarrow> still s (g_perform e s') = still s s'"
  by (simp add: still_def lane_view_def g_perform_def)

lemma still_settle_start [simp]: "still s (settle_start r s') = still s s'"
  by (simp add: settle_start_def)

lemma quiet_still: "quiet now s s' \<Longrightarrow> still s s'"
  by (simp add: quiet_def aside_def still_def)

lemma still_then: "still s s1 \<Longrightarrow> (\<And>s. still s (f s)) \<Longrightarrow> still s (f s1)"
  using still_trans by blast

lemma reconnect_still: "still s (agent_scheduleReconnect env code r ra s)"
  by (simp add: agent_scheduleReconnect_def Let_def)

lemma token_failed_still: "still s (connect_token_failed env c s)"
  by (auto simp: connect_token_failed_def Let_def emitError_def intro!: still_then [OF _ reconnect_still])

lemma with_token_still: "still s (connect_with_token env tok s)"
  by (simp add: connect_with_token_def split: option.split)

lemma connect_still: "still s (agent_connect env r s)"
  by (auto simp: agent_connect_def Let_def intro!: still_then [OF _ with_token_still])

lemma connect_token_still: "still s (connect_token env r s)"
  by (auto simp: connect_token_def Let_def split: sum.split intro!: still_then [OF _ with_token_still] still_then [OF _ token_failed_still])

lemma reconnect_fires_still: "still s (agent_reconnect_fires env s)"
  by (auto simp: agent_reconnect_fires_def split: timer.split intro!: still_then [OF _ connect_still])

lemma start_still: "still s (agent_start env s)"
  by (auto simp: agent_start_def intro!: still_then [OF _ connect_still])

lemma refresh_token_still: "still s (refresh_token env r s)"
  by (auto simp: refresh_token_def Let_def emitError_def split: sum.split option.split)

lemma reject_all_still: "still s (reject_all e s)" and drop_transient_still: "still s (drop_transient s)"
  by (rule quiet_still [OF reject_all_quiet], rule quiet_still [OF drop_transient_quiet])

lemma onClose_still: "still s (agent_onClose env c s)"
  by (auto simp: agent_onClose_def Let_def emitError_def
      intro!: still_then [OF _ drop_transient_still] still_then [OF _ reject_all_still] still_then [OF _ reconnect_still])

section \<open>Lanes\<close>

fun holds_slot :: "turn_phase \<Rightarrow> bool" where
  "holds_slot TurnGranted = True"
| "holds_slot (TurnRunning _) = True"
| "holds_slot (TurnEnding _) = True"
| "holds_slot _ = False"

definition holders :: "(string \<rightharpoonup> lane) \<Rightarrow> string set" where
  "holders m = {c. \<exists>l. m c = Some l \<and> holds_slot (ln_phase l)}"

definition waiting :: "(string \<rightharpoonup> lane) \<Rightarrow> string set" where
  "waiting m = {c. \<exists>l. m c = Some l \<and> ln_phase l = TurnWaiting}"

fun dispatched_of :: "string \<Rightarrow> g_effect \<Rightarrow> json list" where
  "dispatched_of cid (Dispatched c f) = (if c = cid then [f] else [])"
| "dispatched_of cid _ = []"

fun started_of :: "string \<Rightarrow> g_effect \<Rightarrow> json list" where
  "started_of cid (HandlerStart t) = (if tn_conversationId t = cid then [tn_message t] else [])"
| "started_of cid _ = []"

text \<open>The messages of a conversation that became turns, and those whose handler was called.\<close>

definition agent_dispatched :: "string \<Rightarrow> agent \<Rightarrow> json list" where
  "agent_dispatched cid s = concat (map (dispatched_of cid) (g_out s))"

definition agent_started :: "string \<Rightarrow> agent \<Rightarrow> json list" where
  "agent_started cid s = concat (map (started_of cid) (g_out s))"

fun begun :: "turn_phase \<Rightarrow> bool" where
  "begun (TurnRunning _) = True"
| "begun (TurnEnding _) = True"
| "begun _ = False"

definition todo :: "lane option \<Rightarrow> json list" where
  "todo x = (case x of Some l \<Rightarrow> (if begun (ln_phase l) then tl (ln_turns l) else ln_turns l) | None \<Rightarrow> [])"

definition slots_ok :: "(string \<rightharpoonup> lane) \<Rightarrow> nat \<Rightarrow> string list \<Rightarrow> nat \<Rightarrow> bool" where
  "slots_ok m active ws cap \<longleftrightarrow> finite (dom m) \<and> (\<forall>c l. m c = Some l \<longrightarrow> ln_turns l \<noteq> [])
     \<and> active = card (holders m) \<and> active \<le> cap \<and> distinct ws \<and> set ws = waiting m \<and> (ws \<noteq> [] \<longrightarrow> active = cap)"

definition lanes_ok :: "agent \<Rightarrow> bool" where
  "lanes_ok s \<longleftrightarrow> slots_ok (map_of (g_lanes s)) (g_active s) (g_waiters s) (g_maxConcurrent s)
     \<and> (\<forall>cid. subseq (agent_started cid s @ todo (map_of (g_lanes s) cid)) (agent_dispatched cid s))"

lemma concat_filter: "(\<And>x. \<not> P x \<Longrightarrow> f x = []) \<Longrightarrow> concat (map f (filter P xs)) = concat (map f xs)"
  by (induction xs) auto

lemma still_turns:
  assumes "still s s'"
  shows "g_lanes s' = g_lanes s" "g_active s' = g_active s" "g_waiters s' = g_waiters s" "g_options s' = g_options s"
    "agent_dispatched cid s' = agent_dispatched cid s" "agent_started cid s' = agent_started cid s"
proof -
  have v: "lane_view s' = lane_view s" using assms by (simp add: still_def)
  have d: "\<not> turn_event e \<Longrightarrow> dispatched_of cid e = []" "\<not> turn_event e \<Longrightarrow> started_of cid e = []" for e cid by (cases e; simp)+
  then have "agent_dispatched cid s = concat (map (dispatched_of cid) (filter turn_event (g_out s)))"
    "agent_started cid s = concat (map (started_of cid) (filter turn_event (g_out s)))" for s
    by (simp_all add: agent_dispatched_def agent_started_def concat_filter)
  then show "agent_dispatched cid s' = agent_dispatched cid s" "agent_started cid s' = agent_started cid s"
    using v by (simp_all add: lane_view_def)
qed (use assms in \<open>simp_all add: still_def lane_view_def\<close>)

lemma lanes_still: "still s s' \<Longrightarrow> lanes_ok s' = lanes_ok s"
  by (simp add: lanes_ok_def still_turns g_maxConcurrent_def)

lemma slots_update:
  assumes "slots_ok m active ws cap" "m c = Some l" "holds_slot (ln_phase l)" "holds_slot (ln_phase l')" "ln_turns l' \<noteq> []"
  shows "slots_ok (m(c \<mapsto> l')) active ws cap"
proof -
  have "ln_phase l \<noteq> TurnWaiting" "ln_phase l' \<noteq> TurnWaiting" using assms(3,4) by auto
  then have "holders (m(c \<mapsto> l')) = holders m" "waiting (m(c \<mapsto> l')) = waiting m"
    using assms by (auto simp: holders_def waiting_def)
  then show ?thesis using assms by (auto simp: slots_ok_def)
qed

lemma holders_upd:
  "holders (m(c \<mapsto> l)) = (if holds_slot (ln_phase l) then insert c (holders m) else holders m - {c})"
  "waiting (m(c \<mapsto> l)) = (if ln_phase l = TurnWaiting then insert c (waiting m) else waiting m - {c})"
  "holders (m(c := None)) = holders m - {c}" "waiting (m(c := None)) = waiting m - {c}"
  by (auto simp: holders_def waiting_def)

lemma holders_finite [simp]: "finite (dom m) \<Longrightarrow> finite (holders m)"
  by (rule finite_subset [of _ "dom m"]) (auto simp: holders_def)

text \<open>A new turn at the end of a lane.\<close>

lemma dispatch_lanes: "lanes_ok s \<Longrightarrow> lanes_ok (agent_dispatch cid f s)"
proof -
  assume ok: "lanes_ok s"
  let ?m = "map_of (g_lanes s)"
  define l where "l = (case ?m cid of Some l \<Rightarrow> l | None \<Rightarrow> \<lparr>ln_turns = [], ln_phase = TurnReady\<rparr>)"
  define l' where "l' = l\<lparr>ln_turns := ln_turns l @ [f]\<rparr>"
  have "holders (?m(cid \<mapsto> l')) = holders ?m" "waiting (?m(cid \<mapsto> l')) = waiting ?m"
    by (auto simp: holders_def waiting_def l'_def l_def split: option.splits)
  then have slots: "slots_ok (?m(cid \<mapsto> l')) (g_active s) (g_waiters s) (g_maxConcurrent s)"
    using ok by (auto simp: lanes_ok_def slots_ok_def l'_def)
  have todo: "todo (Some l') = todo (?m cid) @ [f]"
    using ok by (auto simp: todo_def l'_def l_def lanes_ok_def slots_ok_def split: option.split)
  have new: "agent_dispatch cid f s = g_perform (Dispatched cid f) s\<lparr>g_lanes := AList.update cid l' (g_lanes s)\<rparr>"
    by (simp add: agent_dispatch_def l_def l'_def Let_def)
  have ev: "agent_dispatched c (agent_dispatch cid f s) = agent_dispatched c s @ (if c = cid then [f] else [])"
    "agent_started c (agent_dispatch cid f s) = agent_started c s" for c
    by (simp_all add: new agent_dispatched_def agent_started_def g_perform_def)
  have "subseq (agent_started c s @ todo ((?m(cid \<mapsto> l')) c)) (agent_dispatched c s @ (if c = cid then [f] else []))" for c
  proof (cases "c = cid")
    case True
    have "subseq ((agent_started c s @ todo (?m c)) @ [f]) (agent_dispatched c s @ [f])"
      using ok by (intro list_emb_append_mono) (simp_all add: lanes_ok_def)
    then show ?thesis using True todo by simp
  qed (use ok in \<open>simp add: lanes_ok_def\<close>)
  then show ?thesis unfolding lanes_ok_def ev using slots by (simp add: new g_perform_def g_maxConcurrent_def update_conv')
qed

text \<open>An operation on the lanes that dispatches nothing.\<close>

lemma lanes_change:
  assumes "lanes_ok s" "slots_ok (map_of (g_lanes s')) (g_active s') (g_waiters s') (g_maxConcurrent s')"
    and "\<And>c. agent_dispatched c s' = agent_dispatched c s"
    and "\<And>c. subseq (agent_started c s' @ todo (map_of (g_lanes s') c)) (agent_started c s @ todo (map_of (g_lanes s) c))"
  shows "lanes_ok s'"
  using assms unfolding lanes_ok_def by (metis subseq_order.trans)

lemma lane_simps [simp]:
  "agent_dispatched c (s\<lparr>g_lanes := a\<rparr>) = agent_dispatched c s" "agent_started c (s\<lparr>g_lanes := a\<rparr>) = agent_started c s"
  "agent_dispatched c (s\<lparr>g_active := b\<rparr>) = agent_dispatched c s" "agent_started c (s\<lparr>g_active := b\<rparr>) = agent_started c s"
  "agent_dispatched c (s\<lparr>g_waiters := d\<rparr>) = agent_dispatched c s" "agent_started c (s\<lparr>g_waiters := d\<rparr>) = agent_started c s"
  "agent_dispatched c (s\<lparr>g_tracker := t\<rparr>) = agent_dispatched c s" "agent_started c (s\<lparr>g_tracker := t\<rparr>) = agent_started c s"
  "agent_dispatched c (g_perform e s) = agent_dispatched c s @ dispatched_of c e"
  "agent_started c (g_perform e s) = agent_started c s @ started_of c e"
  "g_maxConcurrent (s\<lparr>g_lanes := a\<rparr>) = g_maxConcurrent s" "g_maxConcurrent (s\<lparr>g_active := b\<rparr>) = g_maxConcurrent s"
  "g_maxConcurrent (s\<lparr>g_waiters := d\<rparr>) = g_maxConcurrent s" "g_maxConcurrent (s\<lparr>g_tracker := t\<rparr>) = g_maxConcurrent s"
  "g_maxConcurrent (g_perform e s) = g_maxConcurrent s"
  by (simp_all add: agent_dispatched_def agent_started_def g_maxConcurrent_def g_perform_def)

lemma perform_lanes [simp]: "g_lanes (g_perform e s) = g_lanes s" "g_active (g_perform e s) = g_active s" "g_waiters (g_perform e s) = g_waiters s"
  by (simp_all add: g_perform_def)

lemma subseq_tl: "subseq (tl xs) xs"
  by (cases xs) (auto intro: list_emb_Cons)

lemma lane_map:
  "map_of (g_lanes (with_phase c ph s)) = (case map_of (g_lanes s) c of Some l \<Rightarrow> (map_of (g_lanes s))(c \<mapsto> l\<lparr>ln_phase := ph\<rparr>) | None \<Rightarrow> map_of (g_lanes s))"
  "map_of (g_lanes (lane_next c s)) = (case map_of (g_lanes s) c of
     Some l \<Rightarrow> (map_of (g_lanes s))(c := if length (ln_turns l) \<le> 1 then None else Some \<lparr>ln_turns = tl (ln_turns l), ln_phase = TurnReady\<rparr>)
   | None \<Rightarrow> map_of (g_lanes s))"
  by (simp_all add: with_phase_def lane_next_def update_conv' delete_conv' split: option.split)

lemma lane_rest [simp]:
  "g_active (with_phase c ph s) = g_active s" "g_waiters (with_phase c ph s) = g_waiters s"
  "g_maxConcurrent (with_phase c ph s) = g_maxConcurrent s" "agent_dispatched c' (with_phase c ph s) = agent_dispatched c' s"
  "agent_started c' (with_phase c ph s) = agent_started c' s"
  "g_active (lane_next c s) = g_active s" "g_waiters (lane_next c s) = g_waiters s"
  "g_maxConcurrent (lane_next c s) = g_maxConcurrent s" "agent_dispatched c' (lane_next c s) = agent_dispatched c' s"
  "agent_started c' (lane_next c s) = agent_started c' s"
  by (simp_all add: with_phase_def lane_next_def split: option.split)

lemma todo_next: "ln_turns l \<noteq> [] \<Longrightarrow>
  todo (if length (ln_turns l) \<le> 1 then None else Some \<lparr>ln_turns = tl (ln_turns l), ln_phase = TurnReady\<rparr>) = tl (ln_turns l)"
  by (cases "ln_turns l") (auto simp: todo_def)

lemma lane_next_lanes:
  assumes "lanes_ok s" "map_of (g_lanes s) cid = Some l" "ln_phase l = TurnReady"
  shows "lanes_ok (lane_next cid s)"
proof (rule lanes_change [OF assms(1)])
  let ?m = "map_of (g_lanes s)"
  have t: "ln_turns l \<noteq> []" using assms(1,2) by (auto simp: lanes_ok_def slots_ok_def)
  have "cid \<notin> holders ?m" "cid \<notin> waiting ?m" using assms(2,3) by (auto simp: holders_def waiting_def)
  then have "slots_ok (?m(cid := x)) (g_active s) (g_waiters s) (g_maxConcurrent s)"
    if "x = None \<or> (\<exists>l'. x = Some l' \<and> ln_phase l' = TurnReady \<and> ln_turns l' \<noteq> [])" for x
    using assms(1) that by (auto simp: lanes_ok_def slots_ok_def holders_upd)
  moreover have "length (ln_turns l) \<le> 1 \<or> tl (ln_turns l) \<noteq> []" by (cases "ln_turns l") auto
  ultimately show "slots_ok (map_of (g_lanes (lane_next cid s))) (g_active (lane_next cid s)) (g_waiters (lane_next cid s)) (g_maxConcurrent (lane_next cid s))"
    using assms(2) by (auto simp: lane_map)
  show "subseq (agent_started c (lane_next cid s) @ todo (map_of (g_lanes (lane_next cid s)) c)) (agent_started c s @ todo (?m c))" for c
    using assms(2,3) subseq_tl [of "ln_turns l"] todo_next [OF t] by (auto simp: lane_map todo_def [of "Some l"] subseq_append')
qed simp

lemma acquire_lanes:
  assumes "lanes_ok s" "map_of (g_lanes s) cid = Some l" "ln_phase l = TurnReady"
  shows "lanes_ok (agent_acquire cid s)"
proof (rule lanes_change [OF assms(1)])
  let ?m = "map_of (g_lanes s)"
  have n: "cid \<notin> holders ?m" "cid \<notin> waiting ?m" using assms(2,3) by (auto simp: holders_def waiting_def)
  have ok: "slots_ok ?m (g_active s) (g_waiters s) (g_maxConcurrent s)" using assms(1) by (simp add: lanes_ok_def)
  show "slots_ok (map_of (g_lanes (agent_acquire cid s))) (g_active (agent_acquire cid s)) (g_waiters (agent_acquire cid s)) (g_maxConcurrent (agent_acquire cid s))"
    using ok n assms(2) by (auto simp: agent_acquire_def lane_map slots_ok_def holders_upd)
  show "subseq (agent_started c (agent_acquire cid s) @ todo (map_of (g_lanes (agent_acquire cid s)) c)) (agent_started c s @ todo (?m c))" for c
    using assms(2,3) by (auto simp: agent_acquire_def lane_map todo_def)
qed (simp add: agent_acquire_def)

lemma runTurn_lanes: "lanes_ok s \<Longrightarrow> lanes_ok (runTurn cid s)"
  using lane_next_lanes [of s cid] acquire_lanes [of s cid] by (auto simp: runTurn_def split: option.split)

lemma phase_lanes:
  assumes "lanes_ok s" "map_of (g_lanes s) cid = Some l" "holds_slot (ln_phase l)" "holds_slot ph" "begun (ln_phase l) = begun ph"
  shows "lanes_ok (with_phase cid ph s)"
proof (rule lanes_change [OF assms(1)])
  have "ln_turns l \<noteq> []" using assms(1,2) by (auto simp: lanes_ok_def slots_ok_def)
  then show "slots_ok (map_of (g_lanes (with_phase cid ph s))) (g_active (with_phase cid ph s)) (g_waiters (with_phase cid ph s)) (g_maxConcurrent (with_phase cid ph s))"
    using assms slots_update [of "map_of (g_lanes s)" "g_active s" "g_waiters s" "g_maxConcurrent s" cid l "l\<lparr>ln_phase := ph\<rparr>"]
    by (auto simp: lane_map lanes_ok_def)
  show "subseq (agent_started c (with_phase cid ph s) @ todo (map_of (g_lanes (with_phase cid ph s)) c)) (agent_started c s @ todo (map_of (g_lanes s) c))" for c
    using assms by (auto simp: lane_map todo_def)
qed simp

lemma run_handler_lanes: "lanes_ok s \<Longrightarrow> lanes_ok (run_handler env cid s)"
proof -
  assume ok: "lanes_ok s"
  have "lanes_ok (g_perform (HandlerStart (buildTurn cid (hd (ln_turns l)))) (agent_new_reply env cid rf True (with_phase cid (TurnRunning r) s)))"
    (is "lanes_ok (g_perform _ ?s2)")
    if l: "map_of (g_lanes s) cid = Some l" "ln_phase l = TurnGranted" "ln_turns l \<noteq> []" for l rf r
  proof -
    let ?s1 = "with_phase cid (TurnRunning r) s"
    note same = still_turns [OF quiet_still [OF new_reply_quiet [of env ?s1 cid rf True]]]
    have "g_maxConcurrent ?s2 = g_maxConcurrent ?s1" by (simp add: g_maxConcurrent_def same)
    moreover have "slots_ok (map_of (g_lanes ?s1)) (g_active s) (g_waiters s) (g_maxConcurrent s)"
      using ok l slots_update [of "map_of (g_lanes s)" "g_active s" "g_waiters s" "g_maxConcurrent s" cid l "l\<lparr>ln_phase := TurnRunning r\<rparr>"]
      by (simp add: lane_map lanes_ok_def)
    moreover have "tn_message (buildTurn cid x) = x" "tn_conversationId (buildTurn cid x) = cid" for x
      by (simp_all add: buildTurn_def Let_def)
    moreover have "agent_started cid s @ hd (ln_turns l) # tl (ln_turns l) = agent_started cid s @ todo (map_of (g_lanes s) cid)"
      using l by (simp add: todo_def)
    ultimately show ?thesis
      using l by (intro lanes_change [OF ok]) (auto simp: same lane_map todo_def)
  qed
  then show ?thesis using ok by (simp add: run_handler_def split: option.split)
qed

lemma handler_returns_lanes: "lanes_ok s \<Longrightarrow> lanes_ok (handler_returns env cid cause s)"
proof -
  assume ok: "lanes_ok s"
  note r = quiet_still [OF reply_apply_quiet] and a = quiet_still [OF reject_asks_quiet]
  have "lanes_ok (reply_apply env rid REnd (reject_asks P (with_phase cid (TurnEnding rid) s1)))"
    if "map_of (g_lanes s) cid = Some l" "ln_phase l = TurnRunning rid" "still s s1" for l rid s1 P
  proof -
    have "lanes_ok s1" "map_of (g_lanes s1) cid = Some l" using ok that lanes_still still_turns(1) by auto
    then have "lanes_ok (with_phase cid (TurnEnding rid) s1)" using that(2) by (intro phase_lanes) auto
    then show ?thesis by (simp add: lanes_still [OF r] lanes_still [OF a])
  qed
  moreover have "still s (emitError e (reply_apply env rid i s))" for e rid i using r by (simp add: emitError_def)
  ultimately show ?thesis
    using ok r by (auto simp: handler_returns_def Let_def split: option.split turn_phase.split)
qed

text \<open>The slot goes to the turn that waits longest, or is free.\<close>

lemma release_slots:
  assumes "slots_ok m active ws cap" "m c = Some l" "holds_slot (ln_phase l)"
    and "x = None \<or> (\<exists>l'. x = Some l' \<and> ln_phase l' = TurnReady \<and> ln_turns l' \<noteq> [])"
  shows "ws = [] \<Longrightarrow> slots_ok (m(c := x)) (active - 1) [] cap"
    and "ws = w # ws' \<Longrightarrow> \<exists>lw. m w = Some lw \<and> w \<noteq> c \<and> ln_phase lw = TurnWaiting
      \<and> slots_ok ((m(w \<mapsto> lw\<lparr>ln_phase := TurnGranted\<rparr>))(c := x)) active ws' cap"
proof -
  have fin: "finite (holders m)" using assms(1) by (intro holders_finite) (simp add: slots_ok_def)
  have c: "c \<in> holders m" "c \<notin> waiting m" using assms(2,3) by (auto simp: holders_def waiting_def)
  show "ws = [] \<Longrightarrow> slots_ok (m(c := x)) (active - 1) [] cap"
    using assms(1,4) fin c by (auto simp: slots_ok_def holders_upd)
  assume ws: "ws = w # ws'"
  then have "w \<in> waiting m" using assms(1) unfolding slots_ok_def by (metis list.set_intros(1))
  then obtain lw where w: "m w = Some lw" "ln_phase lw = TurnWaiting" "ln_turns lw \<noteq> []"
    using assms(1) by (auto simp: slots_ok_def waiting_def)
  then have nw: "w \<noteq> c" "w \<notin> holders m" using c by (auto simp: waiting_def holders_def)
  have "card (insert w (holders m) - {c}) = card (holders m)" using fin nw c by (simp add: card_Diff_singleton)
  moreover have "card (insert w (holders m - {c})) = card (holders m)" using fin nw card_Suc_Diff1 [OF fin c(1)] by simp
  ultimately have "slots_ok ((m(w \<mapsto> lw\<lparr>ln_phase := TurnGranted\<rparr>))(c := x)) active ws' cap"
    using assms(1,4) ws w nw c by (auto simp: slots_ok_def holders_upd insert_Diff_if)
  then show "\<exists>lw. m w = Some lw \<and> w \<noteq> c \<and> ln_phase lw = TurnWaiting
      \<and> slots_ok ((m(w \<mapsto> lw\<lparr>ln_phase := TurnGranted\<rparr>))(c := x)) active ws' cap" using w nw by blast
qed

lemma turn_done_lanes: "lanes_ok s \<Longrightarrow> lanes_ok (turn_done cid s)"
proof -
  assume ok: "lanes_ok s"
  have "lanes_ok (lane_next cid (agent_release s))" if l: "map_of (g_lanes s) cid = Some l" "ln_phase l = TurnEnding rid" for l rid
  proof -
    let ?m = "map_of (g_lanes s)"
    define x where "x = (if length (ln_turns l) \<le> 1 then None else Some \<lparr>ln_turns = tl (ln_turns l), ln_phase = TurnReady\<rparr>)"
    have slots: "slots_ok ?m (g_active s) (g_waiters s) (g_maxConcurrent s)" and t: "ln_turns l \<noteq> []"
      using ok l by (auto simp: lanes_ok_def slots_ok_def)
    have "length (ln_turns l) \<le> 1 \<or> tl (ln_turns l) \<noteq> []" by (cases "ln_turns l") auto
    then have "x = None \<or> (\<exists>l'. x = Some l' \<and> ln_phase l' = TurnReady \<and> ln_turns l' \<noteq> [])" by (auto simp: x_def)
    note rel = release_slots [OF slots l(1) _ this]
    have nx: "map_of (g_lanes (lane_next cid s2)) = (map_of (g_lanes s2))(cid := x)" if "map_of (g_lanes s2) cid = Some l" for s2
      using that by (simp add: lane_map x_def)
    have tx: "todo x = todo (?m cid)" using l todo_next [OF t] by (simp add: x_def todo_def [of "Some l"])
    show ?thesis
    proof (cases "g_waiters s")
      case Nil
      then show ?thesis using rel(1) l tx
        by (intro lanes_change [OF ok]) (auto simp: agent_release_def nx)
    next
      case (Cons w ws)
      then obtain lw where w: "?m w = Some lw" "w \<noteq> cid" "ln_phase lw = TurnWaiting"
        "slots_ok ((?m(w \<mapsto> lw\<lparr>ln_phase := TurnGranted\<rparr>))(cid := x)) (g_active s) ws (g_maxConcurrent s)"
        using rel(2) [of w ws] l by auto
      define s' where "s' = lane_next cid (agent_release s)"
      have m: "map_of (g_lanes s') = (?m(w \<mapsto> lw\<lparr>ln_phase := TurnGranted\<rparr>))(cid := x)"
        "g_active s' = g_active s" "g_waiters s' = ws" "g_maxConcurrent s' = g_maxConcurrent s"
        "agent_dispatched c s' = agent_dispatched c s" "agent_started c s' = agent_started c s" for c
        using Cons w l by (simp_all add: s'_def agent_release_def nx lane_map(1))
      have "todo (map_of (g_lanes s') c) = todo (?m c)" for c using w tx by (auto simp: m todo_def)
      then show ?thesis unfolding s'_def [symmetric] using w(4) by (intro lanes_change [OF ok]) (simp_all add: m)
    qed
  qed
  then show ?thesis using ok by (simp add: turn_done_def split: option.split turn_phase.split)
qed

section \<open>Messages\<close>

text \<open>The part of \<open>onAck\<close> that turns and their numbers see.\<close>

definition acked :: "string \<Rightarrow> json \<Rightarrow> agent \<Rightarrow> agent" where
  "acked cid ack s =
     (let s1 = (case as_num (field ack ''seq'') of
                  Some seq \<Rightarrow> s\<lparr>g_tracker := snd (tracker_record cid seq (g_tracker s))\<rparr> | None \<Rightarrow> s)
      in case map_of (g_inflight s) (send_key cid (template_str (field ack ''clientId''))) of
           Some e \<Rightarrow> g_perform (SendDone (og_id e) (Some ack)) s1 | None \<Rightarrow> s1)"

lemma onAck_still: "still (acked cid ack s) (agent_onAck env cid ack s)"
proof -
  have p: "still s1 (agent_pump env s1)" for s1 by (intro quiet_still [of "ge_now env"] quiet_pump quiet_refl)
  have r: "still (g_perform (SendDone (og_id e) ack) s1) (resolve_send e ack (s1\<lparr>g_inflight := m\<rparr>))" for e ack s1 m
    using rest_fields(10,11) [OF resolve_acked(1) [of e ack "s1\<lparr>g_inflight := m\<rparr>"]]
    by (simp add: still_def same_positions_def lane_view_def g_perform_def)
  show ?thesis unfolding agent_onAck_def acked_def Let_def by (auto split: option.splits intro: still_trans [OF r p])
qed

lemma lanes_tracker [simp]: "lanes_ok (s\<lparr>g_tracker := t\<rparr>) = lanes_ok s" "lanes_ok (s\<lparr>g_histories := h\<rparr>) = lanes_ok s"
  "lanes_ok (g_perform (GNotify f c) s) = lanes_ok s" "lanes_ok (g_perform (SendDone n a) s) = lanes_ok s"
  by (simp_all add: lanes_ok_def agent_dispatched_def agent_started_def g_maxConcurrent_def g_perform_def)

lemma history_done_still: "still s (history_done cid s)"
  by (rule quiet_still [OF quiet_history(1)])

lemma dispatch_turn_lanes: "lanes_ok s \<Longrightarrow> lanes_ok (dispatch_turn cid f s)"
  by (simp add: dispatch_turn_def dispatch_lanes)

lemma conversation_frame_lanes: "lanes_ok s \<Longrightarrow> lanes_ok (onConversationFrame cid f s)"
  by (auto simp: onConversationFrame_def history_frame_def Let_def split_beta lanes_still [OF history_done_still]
      split: option.split intro!: dispatch_turn_lanes)

text \<open>What the other frames of a conversation do.\<close>

lemmas enveloped_still = quiet_still [OF onError_quiet] quiet_still [OF replay_truncated_quiet] quiet_still [OF onResume_quiet]
  quiet_still [OF abort_lane_quiet]

lemma onMessage_lanes: "lanes_ok s \<Longrightarrow> lanes_ok (agent_onMessage env j s)"
proof -
  assume ok: "lanes_ok s"
  have "lanes_ok (onEnveloped env cid f s)" for cid f
    using ok conversation_frame_lanes [of "g_perform (GNotify f (Some cid)) s" cid f] lanes_still [OF onAck_still [where ack = f and s = "g_perform (GNotify f (Some cid)) s" and cid = cid and env = env]]
    by (simp add: onEnveloped_def acked_def Let_def lanes_still [OF enveloped_still(1)] lanes_still [OF enveloped_still(2)]
        lanes_still [OF enveloped_still(3)] lanes_still [OF enveloped_still(4)] split: option.splits)
  then show ?thesis using ok lanes_still [OF quiet_still [OF onBare_quiet]]
    by (auto simp: agent_onMessage_def split: option.split json.split)
qed

section \<open>Invariants of turns\<close>

text \<open>The messages an input brings.\<close>

fun brings :: "(json \<Rightarrow> bool) \<Rightarrow> g_input \<Rightarrow> bool" where
  "brings M (GSocket (KMessage (Some raw))) = (case JSON_parse raw of Some j \<Rightarrow> M j | None \<Rightarrow> True)"
| "brings M _ = True"

lemma brings_all [simp]: "brings (\<lambda>_. True) i"
  by (cases "(\<lambda>_ :: json. True, i)" rule: brings.cases) (auto split: option.split)

lemma socket_brings:
  assumes "brings M (GSocket i)" "KOnMessage j \<in> set (drop (length (k_out k)) (k_out (asocket_step (env, i) k)))"
  shows "M j"
  using assms
  by (cases "((env, i), k)" rule: asocket_step.cases)
    (auto simp: asocket_defs split: if_splits option.splits timer.splits ws_result.splits)

text \<open>
  What the operations on turns and the messages keep, and what depends on nothing else, every step keeps.
\<close>

locale turn_invariant =
  fixes P :: "agent \<Rightarrow> bool"
    and M :: "json \<Rightarrow> bool"
  assumes keeps_still: "still s s' \<Longrightarrow> P s \<Longrightarrow> P s'"
    and keeps_message: "M j \<Longrightarrow> P s \<Longrightarrow> P (agent_onMessage env j s)"
    and keeps_turn: "P s \<Longrightarrow> P (runTurn cid s)"
    and keeps_handler: "P s \<Longrightarrow> P (run_handler env cid s)"
    and keeps_returns: "P s \<Longrightarrow> P (handler_returns env cid cause s)"
    and keeps_done: "P s \<Longrightarrow> P (turn_done cid s)"
begin

lemma keeps_handle: "P s \<Longrightarrow> (\<And>j. e = KOnMessage j \<Longrightarrow> M j) \<Longrightarrow> P (agent_handle env e s)"
  using keeps_message keeps_still [OF onClose_still] by (simp add: agent_handle_def split: k_effect.split)

lemma keeps_socket: "brings M (GSocket i) \<Longrightarrow> P s \<Longrightarrow> P (agent_socket env i s)"
proof -
  assume b: "brings M (GSocket i)" and p: "P s"
  have "P s \<Longrightarrow> (\<And>j. KOnMessage j \<in> set es \<Longrightarrow> M j) \<Longrightarrow> P (fold (agent_handle env) es s)" for es s
    by (induction es arbitrary: s) (simp_all add: keeps_handle)
  note this [OF _ socket_brings [OF b]]
  moreover have "P (s\<lparr>g_socket := x\<rparr>)" for x by (rule keeps_still [OF _ p]) simp
  ultimately show ?thesis using p by (simp add: agent_socket_def Let_def split: option.split)
qed

lemma keeps_stop: "P s \<Longrightarrow> P (stop_close env s)"
proof -
  assume p: "P s"
  define s0 where "s0 = s\<lparr>g_running := False, g_reconnectTimer := clear_timeout (g_reconnectTimer s),
     g_refreshTimer := clear_timeout (g_refreshTimer s), g_tickTimer := clear_timeout (g_tickTimer s),
     g_pumpTimer := Unset, g_stop := Stopped\<rparr>"
  define s1 where "s1 = reject_all stopped_error s0"
  define s2 where "s2 = agent_socket env (KCallClose 1000 ''agent stopped'') s1"
  have "still s s1" unfolding s1_def by (rule still_then [OF _ reject_all_still]) (simp add: s0_def)
  then have "P s2" unfolding s2_def using keeps_socket keeps_still [OF _ p] by simp
  moreover have "still s2 (stop_close env s)"
    unfolding stop_close_def s0_def [symmetric] s1_def [symmetric] s2_def [symmetric] Let_def by simp
  ultimately show ?thesis using keeps_still by blast
qed

lemma keeps_drain: "P s \<Longrightarrow> P (drain_poll env s)"
  using keeps_stop by (simp add: drain_poll_def split: stop_phase.split)

lemma keeps_tails: "P s \<Longrightarrow> P (stop_tails env s)"
  using keeps_drain keeps_still [of s "s\<lparr>g_stop := x\<rparr>" for x] by (auto simp: stop_tails_def split: stop_phase.split)

lemma keeps_step: "distinct (map fst (g_inflight s)) \<Longrightarrow> brings M i \<Longrightarrow> P s \<Longrightarrow> P (agent_step (env, i) s)"
proof -
  assume d: "distinct (map fst (g_inflight s))" and b: "brings M i" and p: "P s"
  have "still s (s\<lparr>g_handler := True\<rparr>)" by simp
  then show ?thesis using p d b
    by (cases i) (auto intro!: keeps_tails keeps_drain keeps_socket keeps_turn keeps_handler keeps_returns keeps_done
        intro: keeps_still [OF _ p] start_still connect_token_still refresh_token_still reconnect_fires_still
          quiet_operations [THEN quiet_still])
qed

lemma run_keeps: "sends_ok s \<Longrightarrow> list_all (brings M \<circ> snd) es \<Longrightarrow> P s \<Longrightarrow> P (run agent_step es s)"
proof (induction es arbitrary: s)
  case (Cons e es)
  then have "P (agent_step e s)" using keeps_step [of s "snd e" "fst e"] by (simp add: sends_ok_def)
  then show ?case using Cons sends_ok_step by simp
qed simp

end

interpretation lanes: turn_invariant lanes_ok "\<lambda>_. True"
  by unfold_locales (simp_all add: lanes_still onMessage_lanes runTurn_lanes run_handler_lanes handler_returns_lanes turn_done_lanes)

section \<open>Numbered turns\<close>

definition turn_key :: "string \<Rightarrow> json \<Rightarrow> (string \<times> int) list" where
  "turn_key cid f = (case as_num (field f ''seq'') of Some x \<Rightarrow> if valid_seq x then [(cid, \<lfloor>x\<rfloor>)] else [] | None \<Rightarrow> [])"

fun event_key :: "g_effect \<Rightarrow> (string \<times> int) list" where
  "event_key (Dispatched cid f) = turn_key cid f"
| "event_key _ = []"

definition turn_keys :: "agent \<Rightarrow> (string \<times> int) list" where
  "turn_keys s = concat (map event_key (g_out s))"

fun heard_of :: "g_effect \<Rightarrow> string list" where
  "heard_of (GNotify f (Some cid)) = [cid]"
| "heard_of _ = []"

text \<open>The conversations the agent received a frame of.\<close>

definition agent_heard :: "agent \<Rightarrow> string list" where
  "agent_heard s = concat (map heard_of (g_out s))"

definition known :: "agent \<Rightarrow> string set" where
  "known s = set (agent_heard s) \<union> fst ` set (ag_watermarks (g_options s))"

definition tracked_capacity :: "agent_options \<Rightarrow> nat" where
  "tracked_capacity o' = nat (max 1 (or_default (ag_maxTrackedConversations o') 1000))"

definition seen_ok :: "agent \<Rightarrow> bool" where
  "seen_ok s \<longleftrightarrow> tracker_ok (g_tracker s) \<and> tr_capacity (g_tracker s) = tracked_capacity (g_options s)
     \<and> set (tracked (g_tracker s)) \<subseteq> known s
     \<and> (card (known s) \<le> tracked_capacity (g_options s) \<longrightarrow>
          distinct (turn_keys s) \<and> (\<forall>(c, n) \<in> set (turn_keys s). tracker_seen c n (g_tracker s)))"

lemma known_finite [simp]: "finite (known s)"
  by (simp add: known_def)

lemma still_keys:
  assumes "still s s'"
  shows "turn_keys s' = turn_keys s" "agent_heard s' = agent_heard s" "known s' = known s"
proof -
  have v: "filter turn_event (g_out s') = filter turn_event (g_out s)" using assms by (simp add: still_def lane_view_def)
  have d: "\<not> turn_event e \<Longrightarrow> event_key e = []" "\<not> turn_event e \<Longrightarrow> heard_of e = []" for e
    by (cases e rule: event_key.cases; simp) (cases e rule: heard_of.cases; simp)
  then have "turn_keys s = concat (map event_key (filter turn_event (g_out s)))"
    "agent_heard s = concat (map heard_of (filter turn_event (g_out s)))" for s
    by (simp_all add: turn_keys_def agent_heard_def concat_filter)
  then show "turn_keys s' = turn_keys s" "agent_heard s' = agent_heard s" using v by simp_all
  then show "known s' = known s" using still_turns(4) [OF assms] by (simp add: known_def)
qed

lemma same_positions_seen:
  "same_positions t t' \<Longrightarrow> tracker_ok t \<Longrightarrow> tracker_ok t' \<and> tr_capacity t' = tr_capacity t
     \<and> set (tracked t') = set (tracked t) \<and> tracker_seen c n t' = tracker_seen c n t"
  by (auto simp: same_positions_def tracker_seen_def tracked_def dom_map_of_conv_image_fst [symmetric])

lemma seen_still: "still s s' \<Longrightarrow> seen_ok s \<Longrightarrow> seen_ok s'"
  using same_positions_seen [of "g_tracker s" "g_tracker s'"] still_turns(4) [of s s']
  by (auto simp: seen_ok_def still_keys still_def)

lemma pos_has_forget: "pos_has n p \<Longrightarrow> pos_has n (forget olds p)"
proof -
  assume "pos_has n p"
  moreover have "pos_floor p \<le> pos_floor (forget olds p)" "n \<in> set olds \<Longrightarrow> n \<le> pos_floor (forget olds p)"
    by (simp_all add: forget_floor)
  ultimately show ?thesis by (auto simp: pos_has_def forget_seen)
qed

lemma pos_has_trim: "pos_has n p \<Longrightarrow> pos_has n (trim_window p)"
  by (simp add: trim_window_def Let_def pos_has_forget)

lemma pos_has_record: "pos_has n p \<or> n = m \<Longrightarrow> pos_has n (snd (record_position m p))"
  by (auto simp: record_position_def Let_def intro!: pos_has_trim) (auto simp: pos_has_def set_add_def)

text \<open>With room for the conversation, recording a seq forgets nothing.\<close>

lemma record_seen:
  assumes "tracker_ok t" "card (insert cid (set (tracked t))) \<le> tr_capacity t"
  shows "tracker_seen c n t \<Longrightarrow> tracker_seen c n (snd (tracker_record cid x t))"
    and "valid_seq x \<Longrightarrow> tracker_seen cid \<lfloor>x\<rfloor> (snd (tracker_record cid x t))"
    and "valid_seq x \<Longrightarrow> fst (tracker_record cid x t) \<Longrightarrow> \<not> tracker_seen cid \<lfloor>x\<rfloor> t"
proof -
  note room = touch_room [OF assms]
  show "tracker_seen c n t \<Longrightarrow> tracker_seen c n (snd (tracker_record cid x t))"
    by (cases "valid_seq x") (auto simp: tracker_record_invalid tracker_record_valid Let_def tracker_seen_def room
        pos_has_record split: option.splits)
  show "valid_seq x \<Longrightarrow> tracker_seen cid \<lfloor>x\<rfloor> (snd (tracker_record cid x t))"
    by (simp add: tracker_record_valid Let_def tracker_seen_def room pos_has_record)
  show "valid_seq x \<Longrightarrow> fst (tracker_record cid x t) \<Longrightarrow> \<not> tracker_seen cid \<lfloor>x\<rfloor> t"
    by (auto simp: tracker_record_valid Let_def tracker_seen_def split: option.splits)
qed

lemma touch_tracked_subset: "tracker_ok t \<Longrightarrow> set (tracked (touch_position cid p t)) \<subseteq> insert cid (set (tracked t))"
  using touch_tracked [of t cid p] set_drop_subset unfolding tracker_ok_def Let_def by fastforce

lemma initial_tracked: "tracker_ok t \<Longrightarrow> set (tracked (tracker_initial es t)) \<subseteq> fst ` set es \<union> set (tracked t)"
proof (induction es t rule: tracker_initial.induct)
  case (2 cid x es t)
  let ?t = "if is_integer x \<and> 0 \<le> x then touch_position cid \<lparr>pos_high = \<lfloor>x\<rfloor>, pos_floor = \<lfloor>x\<rfloor>, pos_seen = []\<rparr> t else t"
  have "tracker_ok ?t" "set (tracked ?t) \<subseteq> insert cid (set (tracked t))" using 2 touch_ok touch_tracked_subset by auto
  moreover have "set (tracked (tracker_initial es ?t)) \<subseteq> fst ` set es \<union> set (tracked ?t)" using 2 calculation(1) by simp
  ultimately show ?case by auto
qed simp

lemma record_tracked: "tracker_ok t \<Longrightarrow> set (tracked (snd (tracker_record cid x t))) \<subseteq> insert cid (set (tracked t))"
proof (cases "valid_seq x")
  case True
  assume "tracker_ok t"
  then have "set (tracked (touch_position cid p t)) \<subseteq> insert cid (set (tracked t))" for p by (rule touch_tracked_subset)
  then show ?thesis using True by (simp add: tracker_record_valid Let_def)
qed (auto simp: tracker_record_invalid)

lemma seen_updates [simp]:
  "seen_ok (s\<lparr>g_lanes := a\<rparr>) = seen_ok s" "seen_ok (s\<lparr>g_active := b\<rparr>) = seen_ok s"
  "seen_ok (s\<lparr>g_waiters := c\<rparr>) = seen_ok s" "seen_ok (s\<lparr>g_histories := h\<rparr>) = seen_ok s"
  "event_key e = [] \<Longrightarrow> heard_of e = [] \<Longrightarrow> seen_ok (g_perform e s) = seen_ok s"
  by (simp_all add: seen_ok_def known_def turn_keys_def agent_heard_def g_perform_def)

lemma seen_lane [simp]: "seen_ok (with_phase c ph s) = seen_ok s" "seen_ok (lane_next c s) = seen_ok s"
  "seen_ok (agent_release s) = seen_ok s" "seen_ok (agent_acquire c s) = seen_ok s"
proof -
  show w: "seen_ok (with_phase c ph s) = seen_ok s" for c ph s by (simp add: with_phase_def split: option.split)
  show "seen_ok (lane_next c s) = seen_ok s" by (simp add: lane_next_def split: option.split)
  show "seen_ok (agent_release s) = seen_ok s" "seen_ok (agent_acquire c s) = seen_ok s"
    by (simp_all add: agent_release_def agent_acquire_def w split: list.split)
qed

lemma seen_notify: "seen_ok s \<Longrightarrow> seen_ok (g_perform (GNotify f (Some cid)) s)"
proof -
  assume ok: "seen_ok s"
  let ?s = "g_perform (GNotify f (Some cid)) s"
  have k: "known ?s = insert cid (known s)" "turn_keys ?s = turn_keys s" "g_tracker ?s = g_tracker s" "g_options ?s = g_options s"
    by (auto simp: known_def agent_heard_def turn_keys_def g_perform_def)
  have "card (known s) \<le> card (insert cid (known s))" by (intro card_mono) auto
  then show ?thesis using ok unfolding seen_ok_def k by auto
qed

text \<open>A frame of a conversation the agent knows.\<close>

lemma seen_record:
  assumes "seen_ok s" "cid \<in> known s"
  shows "seen_ok (s\<lparr>g_tracker := snd (tracker_record cid x (g_tracker s))\<rparr>)"
    and "fst (tracker_record cid x (g_tracker s)) \<Longrightarrow> as_num (field f ''seq'') = Some x \<Longrightarrow>
      seen_ok (agent_dispatch cid f (s\<lparr>g_tracker := snd (tracker_record cid x (g_tracker s))\<rparr>))"
proof -
  let ?t = "g_tracker s" let ?t' = "snd (tracker_record cid x (g_tracker s))" let ?cap = "tracked_capacity (g_options s)"
  have ok: "tracker_ok ?t" "tr_capacity ?t = ?cap" "set (tracked ?t) \<subseteq> known s" using assms(1) by (simp_all add: seen_ok_def)
  have ok': "tracker_ok ?t'" "tr_capacity ?t' = ?cap" "set (tracked ?t') \<subseteq> known s"
    using ok assms(2) record_ok record_tracked [OF ok(1), of cid x] by auto
  have room: "card (insert cid (set (tracked ?t))) \<le> tr_capacity ?t" if "card (known s) \<le> ?cap"
  proof -
    have "card (insert cid (set (tracked ?t))) \<le> card (known s)" using ok(3) assms(2) by (intro card_mono) auto
    then show ?thesis using that ok(2) by simp
  qed
  have old: "distinct (turn_keys s)" "\<forall>(c, n) \<in> set (turn_keys s). tracker_seen c n ?t" if "card (known s) \<le> ?cap"
    using assms(1) that by (simp_all add: seen_ok_def)
  have keep: "\<forall>(c, n) \<in> set (turn_keys s). tracker_seen c n ?t'" if "card (known s) \<le> ?cap"
    using old(2) [OF that] record_seen(1) [OF ok(1) room [OF that], of _ _ x] by fast
  have same: "known (s\<lparr>g_tracker := ?t'\<rparr>) = known s" "turn_keys (s\<lparr>g_tracker := ?t'\<rparr>) = turn_keys s"
    by (simp_all add: known_def agent_heard_def turn_keys_def)
  show "seen_ok (s\<lparr>g_tracker := ?t'\<rparr>)" unfolding seen_ok_def same using ok' old(1) keep by simp
  assume fresh: "fst (tracker_record cid x ?t)" and seq: "as_num (field f ''seq'') = Some x"
  let ?s = "agent_dispatch cid f (s\<lparr>g_tracker := ?t'\<rparr>)"
  have new: "known ?s = known s" "turn_keys ?s = turn_keys s @ turn_key cid f" "g_tracker ?s = ?t'" "g_options ?s = g_options s"
    by (simp_all add: agent_dispatch_def Let_def known_def agent_heard_def turn_keys_def g_perform_def)
  have "distinct (turn_keys s @ turn_key cid f) \<and> (\<forall>(c, n) \<in> set (turn_keys s @ turn_key cid f). tracker_seen c n ?t')"
    if "card (known s) \<le> ?cap"
  proof (cases "valid_seq x")
    case True
    then have "tracker_seen cid \<lfloor>x\<rfloor> ?t'" "\<not> tracker_seen cid \<lfloor>x\<rfloor> ?t"
      using record_seen(2,3) [OF ok(1) room [OF that]] fresh by blast+
    then show ?thesis using old [OF that] keep [OF that] True by (auto simp: turn_key_def seq)
  qed (use old(1) [OF that] keep [OF that] in \<open>simp add: turn_key_def seq\<close>)
  then show "seen_ok ?s" unfolding seen_ok_def new using ok' by blast
qed

lemma seen_dispatch_turn:
  assumes "seen_ok s" "seen_ok (agent_dispatch cid f s)"
  shows "seen_ok (dispatch_turn cid f s)"
  using assms by (simp add: dispatch_turn_def)

lemma seen_unnumbered: "as_num (field f ''seq'') = None \<Longrightarrow> seen_ok s \<Longrightarrow> seen_ok (agent_dispatch cid f s)"
  by (simp add: agent_dispatch_def turn_key_def Let_def)

lemma seen_conversation_frame: "seen_ok s \<Longrightarrow> cid \<in> known s \<Longrightarrow> seen_ok (onConversationFrame cid f s)"
proof -
  assume ok: "seen_ok s" and k: "cid \<in> known s"
  have h: "seen_ok (history_frame cid x f c s)" for x c
  proof -
    have "seen_ok (s\<lparr>g_histories := a, g_tracker := snd (tracker_record cid x (g_tracker s))\<rparr>)" for a
      using seen_record(1) [of "s\<lparr>g_histories := a\<rparr>" cid x] ok k by (simp add: known_def agent_heard_def)
    then show ?thesis using seen_still [OF history_done_still] by (simp add: history_frame_def Let_def)
  qed
  then show ?thesis using ok k seen_record [OF ok k]
    by (auto simp: onConversationFrame_def Let_def split_beta split: option.split intro!: seen_dispatch_turn intro: seen_unnumbered)
qed

lemma onMessage_seen: "seen_ok s \<Longrightarrow> seen_ok (agent_onMessage env j s)"
proof -
  assume ok: "seen_ok s"
  have "seen_ok (onEnveloped env cid f s)" for cid f
  proof -
    define s1 where "s1 = g_perform (GNotify f (Some cid)) s"
    have s1: "seen_ok s1" "cid \<in> known s1"
      using seen_notify [OF ok] by (simp_all add: s1_def known_def agent_heard_def g_perform_def)
    then have "seen_ok (acked cid f s1)" using seen_record(1) by (simp add: acked_def Let_def split: option.split)
    then have "seen_ok (agent_onAck env cid f s1)" by (rule seen_still [OF onAck_still])
    then show ?thesis using s1 seen_conversation_frame seen_still [OF enveloped_still(1)] seen_still [OF enveloped_still(2)]
      seen_still [OF enveloped_still(3)] seen_still [OF enveloped_still(4)]
      unfolding onEnveloped_def s1_def [symmetric] Let_def by presburger
  qed
  then show ?thesis using ok seen_still [OF quiet_still [OF onBare_quiet]]
    by (auto simp: agent_onMessage_def split: option.split json.split)
qed

lemma run_handler_seen: "seen_ok s \<Longrightarrow> seen_ok (run_handler env cid s)"
  using seen_still [OF quiet_still [OF new_reply_quiet]] by (auto simp: run_handler_def split: option.split)

lemma handler_returns_seen: "seen_ok s \<Longrightarrow> seen_ok (handler_returns env cid cause s)"
  by (auto simp: handler_returns_def Let_def emitError_def split: option.split turn_phase.split
      intro!: seen_still [OF quiet_still [OF reply_apply_quiet]] seen_still [OF quiet_still [OF reject_asks_quiet]])

interpretation numbered: turn_invariant seen_ok "\<lambda>_. True"
proof unfold_locales
  show "seen_ok s \<Longrightarrow> seen_ok (runTurn cid s)" "seen_ok s \<Longrightarrow> seen_ok (turn_done cid s)" for s cid
    by (simp_all add: runTurn_def turn_done_def split: option.split turn_phase.split)
qed (simp_all add: seen_still onMessage_seen run_handler_seen handler_returns_seen)

lemma new_agent_turns:
  assumes "new_agent o' pfx now = Inr s"
  shows "lanes_ok s" "seen_ok s"
proof -
  have s: "g_lanes s = []" "g_active s = 0" "g_waiters s = []" "g_out s = []" "g_options s = o'"
    "g_tracker s = new_tracker (or_default (ag_maxTrackedConversations o') 1000) (ag_watermarks o')"
    using assms by (auto simp: new_agent_def split: if_splits)
  show "lanes_ok s" by (simp add: lanes_ok_def slots_ok_def s holders_def waiting_def todo_def agent_started_def)
  have "tracker_ok \<lparr>tr_capacity = nat (max 1 c), tr_positions = []\<rparr>" for c by (simp add: tracker_ok_def tracked_def)
  from initial_tracked [OF this] have "set (tracked (new_tracker c es)) \<subseteq> fst ` set es" for c es
    by (simp add: new_tracker_def tracked_def)
  then show "seen_ok s" by (auto simp: seen_ok_def s known_def turn_keys_def new_tracker_ok tracked_capacity_def)
qed

lemma started_dispatched: "lanes_ok s \<Longrightarrow> subseq (agent_started cid s) (agent_dispatched cid s)"
proof -
  assume "lanes_ok s"
  then have "subseq (agent_started cid s @ todo (map_of (g_lanes s) cid)) (agent_dispatched cid s)" by (simp add: lanes_ok_def)
  then show ?thesis using list_emb_append_mono [of "(=)" "agent_started cid s" "agent_started cid s" "[]"] subseq_order.trans by fastforce
qed

lemma subseq_concat: "subseq xs ys \<Longrightarrow> subseq (concat (map f xs)) (concat (map f ys))"
proof (induction rule: list_emb.induct)
  case (list_emb_Cons xs ys y)
  then show ?case using list_emb_append_mono [of "(=)" "[]" "f y"] by fastforce
next
  case (list_emb_Cons2 x y xs ys)
  then show ?case using list_emb_append_mono [of "(=)" "f x" "f y"] by simp
qed simp

lemma subseq_keeps_distinct: "subseq xs ys \<Longrightarrow> distinct ys \<Longrightarrow> distinct xs"
  by (auto simp: subseq_conv_nths distinct_nthsI)

lemma keys_of_conversation: "concat (map (turn_key cid) (agent_dispatched cid s)) = filter (\<lambda>k. fst k = cid) (turn_keys s)"
proof -
  have "concat (map (turn_key cid) (dispatched_of cid e)) = filter (\<lambda>k. fst k = cid) (event_key e)" for e
    by (cases e) (auto simp: turn_key_def split: option.split)
  then have "concat (map (turn_key cid) (concat (map (dispatched_of cid) es))) = filter (\<lambda>k. fst k = cid) (concat (map event_key es))" for es
    by (induction es) simp_all
  then show ?thesis by (simp add: agent_dispatched_def turn_keys_def)
qed

lemma started_once:
  assumes "lanes_ok s" "seen_ok s" "card (known s) \<le> tracked_capacity (g_options s)"
  shows "distinct (concat (map (turn_key cid) (agent_started cid s)))"
proof -
  have "distinct (concat (map (turn_key cid) (agent_dispatched cid s)))" using assms(2,3) by (simp add: keys_of_conversation seen_ok_def)
  then show ?thesis using subseq_keeps_distinct subseq_concat started_dispatched [OF assms(1)] by blast
qed

lemma run_turns:
  assumes "new_agent o' pfx now = Inr s0"
  shows "lanes_ok (run agent_step es s0)" "seen_ok (run agent_step es s0)"
  using lanes.run_keeps numbered.run_keeps new_agent_turns [OF assms] new_agent_facts(1) [OF assms] by (auto simp: list_all_iff)

section \<open>A sample\<close>

definition sample_turn :: "string \<Rightarrow> jsnum \<Rightarrow> genv \<times> g_input" where
  "sample_turn cid seq = (sample_genv 60, GSocket (KMessage (Some (JSON_stringify (JObj [(''conversationId'', JStr cid),
     (''frame'', JObj [(''type'', JStr ''text''), (''from'', JStr ''user''), (''seq'', JNum seq), (''data'', JObj [])])])))))"

text \<open>Two conversations with one slot, and a message that is delivered twice.\<close>

definition sample_turns :: "(genv \<times> g_input) list" where
  "sample_turns = sample_connect @ [sample_turn ''c'' 1, sample_turn ''d'' 1, sample_turn ''c'' 1,
     (sample_genv 70, GLane ''c''), (sample_genv 70, GLane ''d''), (sample_genv 70, GGranted ''c'')]"

definition sample_busy :: agent where
  "sample_busy = run agent_step sample_turns sample_agent"

definition turns_digest :: "agent \<Rightarrow> (string \<times> turn_phase) list \<times> (string \<times> int) list \<times> nat \<times> string list" where
  "turns_digest s = (map (\<lambda>(c, l). (c, ln_phase l)) (g_lanes s), turn_keys s, length (agent_started ''c'' s), agent_heard s)"

lemma sample_busy_digest:
  "turns_digest (run agent_step sample_turns sample_agent) =
     ([(''c'', TurnRunning 0), (''d'', TurnWaiting)], [(''c'', 1), (''d'', 1)], 1, [''c'', ''d'', ''c''])"
  by code_simp

lemma run_options: "sends_ok s \<Longrightarrow> g_options (run agent_step es s) = g_options s"
proof (induction es arbitrary: s)
  case (Cons e es)
  have "moves (ge_now (fst e)) s (agent_step (fst e, snd e) s)" using Cons.prems by (intro step_moves) (simp add: sends_ok_def)
  then show ?case using Cons sends_ok_step [of s e] by (simp add: moves_def)
qed simp

lemma sample_busy_facts:
  "map (\<lambda>(c, l). (c, ln_phase l)) (g_lanes sample_busy) = [(''c'', TurnRunning 0), (''d'', TurnWaiting)]
   \<and> turn_keys sample_busy = [(''c'', 1), (''d'', 1)] \<and> length (agent_started ''c'' sample_busy) = 1
   \<and> agent_heard sample_busy = [''c'', ''d'', ''c''] \<and> g_options sample_busy = sample_agent_options"
  using sample_busy_digest run_options [of sample_agent sample_turns] new_agent_facts [OF sample_new]
  by (simp add: turns_digest_def sample_busy_def)

section \<open>Properties\<close>

text \<open>
  C8. Handlers run one at a time per conversation and in order: the messages whose handler was called are a
  subsequence of those of the conversation, and never more than \<open>maxConcurrentTurns\<close> conversations hold a
  slot. Slots are not lost: a turn waits for one only while all are in use.
\<close>

theorem agent_turns_in_order:
  assumes "new_agent o' pfx now = Inr s0" "s = run agent_step es s0"
  shows "(\<forall>cid. subseq (agent_started cid s) (agent_dispatched cid s))
    \<and> card {cid. \<exists>l. map_of (g_lanes s) cid = Some l \<and> holds_slot (ln_phase l)} \<le> g_maxConcurrent s
    \<and> (\<forall>cid l. map_of (g_lanes s) cid = Some l \<and> ln_phase l = TurnWaiting \<longrightarrow>
         card {cid. \<exists>l. map_of (g_lanes s) cid = Some l \<and> holds_slot (ln_phase l)} = g_maxConcurrent s)"
proof -
  have ok: "lanes_ok s" using run_turns(1) [OF assms(1)] assms(2) by simp
  then have slots: "slots_ok (map_of (g_lanes s)) (g_active s) (g_waiters s) (g_maxConcurrent s)" by (simp add: lanes_ok_def)
  have "cid \<in> waiting (map_of (g_lanes s))" if "map_of (g_lanes s) cid = Some l \<and> ln_phase l = TurnWaiting" for cid l
    using that by (auto simp: waiting_def)
  then show ?thesis using started_dispatched [OF ok] slots unfolding holders_def [symmetric] slots_ok_def by fastforce
qed

theorem agent_turns_in_order_witness:
  "map (\<lambda>(c, l). (c, ln_phase l)) (g_lanes sample_busy) = [(''c'', TurnRunning 0), (''d'', TurnWaiting)]
   \<and> (\<forall>cid. subseq (agent_started cid sample_busy) (agent_dispatched cid sample_busy))
   \<and> card {cid. \<exists>l. map_of (g_lanes sample_busy) cid = Some l \<and> holds_slot (ln_phase l)} \<le> g_maxConcurrent sample_busy"
  using agent_turns_in_order [OF sample_new sample_busy_def] sample_busy_facts by blast

text \<open>
  C7. The handler is called at most once for a numbered message, however often the server replays it: as
  long as the conversations heard of fit the tracker, no two calls in a conversation have the same seq.
\<close>

theorem agent_turns_once:
  assumes "new_agent o' pfx now = Inr s0" "s = run agent_step es s0" "card (known s) \<le> tracked_capacity (g_options s)"
  shows "distinct (turn_keys s) \<and> (\<forall>cid. distinct (concat (map (turn_key cid) (agent_started cid s))))"
proof -
  have ok: "lanes_ok s" "seen_ok s" using run_turns [OF assms(1)] assms(2) by simp_all
  then show ?thesis using assms(3) started_once [OF ok assms(3)] by (simp add: seen_ok_def)
qed

theorem agent_turns_once_witness:
  "card (known sample_busy) \<le> tracked_capacity (g_options sample_busy) \<and> turn_keys sample_busy = [(''c'', 1), (''d'', 1)]
   \<and> distinct (turn_keys sample_busy)"
proof -
  have "known sample_busy = {''c'', ''d''}" using sample_busy_facts by (auto simp: known_def sample_agent_options_def)
  moreover have "tracked_capacity (g_options sample_busy) = 1000"
    using sample_busy_facts by (simp add: tracked_capacity_def sample_agent_options_def or_default_def)
  ultimately have "card (known sample_busy) \<le> tracked_capacity (g_options sample_busy)" by simp
  then show ?thesis using agent_turns_once [OF sample_new sample_busy_def] sample_busy_facts by blast
qed

end
