(* ===== verification/Agent_Faults.thy ===== *)
theory Agent_Faults
  imports Agent_Props
begin

text \<open>
  A promise the agent leaves open. A send that the server refused for the time being waits in a timer of its
  own; when the agent has stopped, or its connection is closed for good, nothing settles that send.
\<close>

lemma run_account:
  assumes "sends_ok s" "n < g_sends s" "n \<notin># account s"
  shows "n \<notin># account (run agent_step es s)"
  using assms
proof (induction es arbitrary: s)
  case (Cons e es)
  obtain env i where e: "e = (env, i)" by force
  let ?s = "agent_step e s"
  have "moves (ge_now env) s ?s" unfolding e using Cons.prems(1) by (intro step_moves) (simp add: sends_ok_def)
  then have g: "g_sends s \<le> g_sends ?s" "account ?s \<subseteq># account s + mset [g_sends s..<g_sends ?s]"
    using Cons.prems(1) by (simp_all add: moves_def grows_def sends_ok_def)
  have "n \<notin># account s + mset [g_sends s..<g_sends ?s]" using Cons.prems by simp
  then have "n \<notin># account ?s" using mset_subset_eqD [OF g(2)] by blast
  then show ?case using Cons.IH [of ?s] Cons.prems g(1) sends_ok_step [of s e] by simp
qed simp

definition sample_retry :: "(genv \<times> g_input) list" where
  "sample_retry = sample_connect @
     [(sample_genv 30, GSend ''c'' (JObj [(''type'', JStr ''message''), (''id'', JStr ''a'')])),
      (sample_genv 40, GSocket (KMessage (Some (JSON_stringify (JObj [(''conversationId'', JStr ''c''),
         (''frame'', JObj [(''type'', JStr ''error''), (''data'', JObj [(''code'', JStr ''unavailable''),
            (''clientId'', JStr ''a''), (''retryAfterMs'', JNum 1)])])]))))),
      (sample_genv 50, GStop None), (sample_genv 60, GStopTails)]"

definition stop_digest :: "agent \<Rightarrow> stop_phase \<times> nat \<times> bool \<times> nat list" where
  "stop_digest s = (g_stop s, g_sends s, g_running s, map (og_id \<circ> snd) (g_retries s))"

lemma sample_retry_facts: "stop_digest (run agent_step sample_retry sample_agent) = (Stopped, 1, False, [0])"
  by code_simp

text \<open>
  C40. \<open>stop\<close> is documented to reject the sends that are pending. One that waits for its retry when the
  agent no longer runs is dropped when the timer fires: its promise is open before that and no step
  afterwards settles it.
\<close>

theorem stop_loses_retry:
  assumes "new_agent o' pfx now = Inr s0" "s = run agent_step es s0"
    and "\<not> g_running s" "i < length (g_retries s)" "n = og_id (snd (g_retries s ! i))"
  shows "n \<notin> set (agent_settled s)
    \<and> (\<forall>fs. n \<notin> set (agent_settled (run agent_step fs (agent_step (env, GRetryFires i) s))))"
proof -
  have ok: "sends_ok s" using agent_sends.run_good new_agent_facts(1) assms(1,2) by simp
  define s1 where "s1 = agent_step (env, GRetryFires i) s"
  define R where "R = take i (g_retries s) @ drop (Suc i) (g_retries s)"
  have s: "s1 = s\<lparr>g_retries := R\<rparr>" using assms(3,4) by (simp add: s1_def agent_retry_fires_def R_def)
  have "mset (g_retries s) = add_mset (g_retries s ! i) (mset R)"
    using arg_cong [OF id_take_nth_drop [OF assms(4)], of mset] by (simp add: R_def)
  then have "mset (map (og_id \<circ> snd) (g_retries s)) = add_mset n (mset (map (og_id \<circ> snd) R))"
    unfolding mset_map assms(5) by simp
  then have acc: "account s = add_mset n (account s1)" by (simp add: account_def agent_pending_def agent_settled_def s)
  have sub: "account s \<subseteq># mset [0..<g_sends s]" using ok by (simp add: sends_ok_def)
  have "n \<in># mset [0..<g_sends s]" using mset_subset_eqD [OF sub] acc by simp
  then have n: "n < g_sends s" "count (account s) n \<le> 1"
    using mset_subset_eq_count [OF sub, of n] by (simp_all add: count_mset_set)
  then have "n \<notin># account s1" using acc by (simp add: count_eq_zero_iff [symmetric])
  moreover have "sends_ok s1" unfolding s1_def by (rule sends_ok_step [OF ok])
  moreover have "g_sends s1 = g_sends s" by (simp add: s)
  ultimately have "n \<notin># account (run agent_step fs s1)" for fs using run_account n(1) by simp
  moreover have "set (agent_settled s) \<subseteq> set_mset (account s1)" by (auto simp: account_def agent_settled_def s)
  ultimately show ?thesis using \<open>n \<notin># account s1\<close> unfolding account_def s1_def [symmetric] by auto
qed

theorem stop_loses_retry_witness:
  "let s = run agent_step sample_retry sample_agent in g_stop s = Stopped \<and> g_sends s = 1 \<and> 0 \<notin> set (agent_settled s)
   \<and> (\<forall>fs. 0 \<notin> set (agent_settled (run agent_step fs (agent_step (sample_genv 5000, GRetryFires 0) s))))"
proof -
  let ?s = "run agent_step sample_retry sample_agent"
  have "g_stop ?s = Stopped \<and> g_sends ?s = 1 \<and> \<not> g_running ?s \<and> 0 < length (g_retries ?s) \<and> 0 = og_id (snd (g_retries ?s ! 0))"
    using sample_retry_facts by (auto simp: stop_digest_def)
  then show ?thesis using stop_loses_retry [OF sample_new refl, of sample_retry 0 0 "sample_genv 5000"] unfolding Let_def by blast
qed

end
