(* ===== verification/Fake_Server.thy ===== *)
theory Fake_Server
  imports Agent_Base
begin

text \<open>
  \<open>FakeConvergerServer\<close>, \<open>packages/agent-ts/src/testing/index.ts\<close>: the server agents are tested against. It
  keeps a transcript per conversation, numbers what it stores, acknowledges the sends of agents and drops
  repeated ones, and replays on \<open>hello\<close> and \<open>sync\<close>. A socket is the index of its connection; whether it is
  open is the platform's answer. Calls that wait (\<open>waitFor\<close> and what is built on it) are entries of a list
  that messages, polls and timeouts check.
\<close>

section \<open>State\<close>

record received_frame =
  rf_conversationId :: "string option"
  rf_frame :: json
  rf_connection :: nat

record fake_connection =
  fc_index :: nat
  fc_hello :: "json option"

record turn_result =
  tres_frames :: "json list"
  tres_messages :: "json list"
  tres_texts :: "string list"
  tres_toolCalls :: "json option list"
  tres_streamed :: string
  tres_interrupts :: "json list"
  tres_status :: "string option"

text \<open>
  What a call waits for: a predicate of the test (by number; the environment says whether it holds), the next
  frame with a property, a number of welcomed agents, the end of a run.
\<close>

datatype wait_pred =
    WaitCustom nat
  | WaitFrame nat "received_frame \<Rightarrow> bool"
  | WaitConnections nat
  | WaitEnded nat string "string list"

datatype wait_value = ValueCustom | ValueFrame received_frame | ValueCount nat | ValueEnded

record waiter =
  wt_id :: nat
  wt_pred :: wait_pred
  wt_timeoutMs :: jsnum

datatype f_effect =
    FSend nat json
  | FClose nat int string
  | FTerminate nat
  | FServerClose
  | WaitDone nat wait_value
  | WaitFailed nat string
  | TurnDone nat "turn_result option"
  | FThrow

record fake_server =
  fs_received :: "received_frame list"
  fs_connections :: "fake_connection list"
  fs_hellos :: "json list"
  fs_rejectedTokens :: "string list"
  fs_sendErrors :: "json list"
  fs_swallowAcks :: bool
  fs_expiresAt :: "jsnum option"
  fs_transcripts :: "(string \<times> json list) list"
  fs_keys :: "(string \<times> json) list"
  fs_connectionCount :: nat
  fs_nextId :: nat
  fs_waiters :: "waiter list"
  fs_waits :: nat
  fs_settling :: "(nat \<times> string \<times> nat) list"
  fs_out :: "f_effect list"

text \<open>The clock, which sockets are open, \<open>Number(value)\<close> of a value that is no number, and the tests' predicates.\<close>

record fenv =
  fe_now :: jsnum
  fe_open :: "nat \<Rightarrow> bool"
  fe_number :: "json \<Rightarrow> jsnum option"
  fe_holds :: "nat \<Rightarrow> bool"

definition FAKE_NATIVE :: "string list" where
  "FAKE_NATIVE = [''tool_call'', ''skill'', ''genui'', ''interrupt'', ''interrupt_resolved'']"

definition FAKE_TRANSIENT :: "string list" where
  "FAKE_TRANSIENT = [''run'', ''genui_components'', ''skills'', ''error'', ''typing'', ''read'', ''sync'']"

definition new_fake_server :: "jsnum \<Rightarrow> fake_server" where
  "new_fake_server now =
     \<lparr>fs_received = [], fs_connections = [], fs_hellos = [], fs_rejectedTokens = [], fs_sendErrors = [],
      fs_swallowAcks = False, fs_expiresAt = Some (now + 1800000), fs_transcripts = [], fs_keys = [],
      fs_connectionCount = 0, fs_nextId = 1, fs_waiters = [], fs_waits = 0, fs_settling = [], fs_out = []\<rparr>"

definition handleProtocols :: "string list \<Rightarrow> string option" where
  "handleProtocols protocols = (if ''converger.v1'' \<in> set protocols then Some ''converger.v1'' else None)"

definition f_perform :: "f_effect \<Rightarrow> fake_server \<Rightarrow> fake_server" where
  "f_perform e s = s\<lparr>fs_out := fs_out s @ [e]\<rparr>"

section \<open>Values\<close>

text \<open>\<open>{...a, ...b}\<close> and \<open>{...a}\<close> without a key.\<close>

fun spread :: "(string \<times> json) list \<Rightarrow> (string \<times> json) list \<Rightarrow> (string \<times> json) list" where
  "spread a [] = a"
| "spread a ((k, v) # b) = spread (AList.update k v a) b"

fun members :: "json \<Rightarrow> (string \<times> json) list" where
  "members (JObj fs) = fs"
| "members _ = []"

text \<open>An object with the members that are defined; \<open>JSON.stringify\<close> leaves out the others.\<close>

fun defined :: "(string \<times> json option) list \<Rightarrow> (string \<times> json) list" where
  "defined [] = []"
| "defined ((k, Some v) # fs) = (k, v) # defined fs"
| "defined ((k, None) # fs) = defined fs"

definition to_number :: "fenv \<Rightarrow> json \<Rightarrow> jsnum option" where
  "to_number env j = (case j of JNum x \<Rightarrow> Some x | _ \<Rightarrow> fe_number env j)"

section \<open>Summaries\<close>

text \<open>
  \<open>summarise\<close>; \<open>None\<close> is a \<open>TypeError\<close>: \<open>null\<close> counts as an object in the filter of messages, and a run may
  come without \<open>data\<close>.
\<close>

definition is_fake_message :: "json \<Rightarrow> bool" where
  "is_fake_message f \<longleftrightarrow>
     js_string (field f ''type'') \<notin> set FAKE_NATIVE \<and> js_string (field f ''type'') \<notin> set FAKE_TRANSIENT
     \<and> (is_object (field f ''data'') \<or> field f ''data'' = Some JNull)"

fun message_texts :: "json list \<Rightarrow> string list option" where
  "message_texts [] = Some []"
| "message_texts (f # fs) =
     (case (property_of (field f ''data'') ''text'', message_texts fs) of
        (Some t, Some ts) \<Rightarrow> Some (js_string t # ts)
      | _ \<Rightarrow> None)"

definition of_type :: "string \<Rightarrow> json \<Rightarrow> bool" where
  "of_type t f \<longleftrightarrow> field f ''type'' = Some (JStr t)"

definition summarise :: "json list \<Rightarrow> turn_result option" where
  "summarise frames =
     (let messages = filter is_fake_message frames;
          streamed = concat (map (\<lambda>f. js_string (ofield (field f ''chunk'') ''content''))
            (filter (\<lambda>f. of_type ''genui'' f \<and> ofield (field f ''chunk'') ''type'' = Some (JStr ''text'')) frames));
          runs = filter (of_type ''run'') frames;
          status = (if runs = [] then Some None
                    else map_option (\<lambda>v. Some (js_string v)) (property_of (field (last runs) ''data'') ''status''))
      in case (message_texts (filter (of_type ''text'') messages), status) of
           (Some texts, Some st) \<Rightarrow>
             Some \<lparr>tres_frames = frames, tres_messages = messages, tres_texts = texts,
                   tres_toolCalls = map (\<lambda>f. field f ''data'') (filter (of_type ''tool_call'') frames),
                   tres_streamed = streamed, tres_interrupts = filter (of_type ''interrupt'') frames, tres_status = st\<rparr>
         | _ \<Rightarrow> None)"

section \<open>Transcripts\<close>

definition transcript :: "string \<Rightarrow> fake_server \<Rightarrow> json list" where
  "transcript cid s = (case map_of (fs_transcripts s) cid of Some fs \<Rightarrow> fs | None \<Rightarrow> [])"

definition framesFor :: "string \<Rightarrow> string option \<Rightarrow> fake_server \<Rightarrow> json list" where
  "framesFor cid type s =
     map rf_frame (filter (\<lambda>r. rf_conversationId r = Some cid
       \<and> (case type of None \<Rightarrow> True | Some t \<Rightarrow> of_type t (rf_frame r))) (fs_received s))"

definition store :: "string \<Rightarrow> (string \<times> json) list \<Rightarrow> fake_server \<Rightarrow> json \<times> fake_server" where
  "store cid frame s =
     (let stored = JObj (AList.update ''seq'' (JNum (of_nat (length (transcript cid s) + 1))) frame)
      in (stored, s\<lparr>fs_transcripts := AList.update cid (transcript cid s @ [stored]) (fs_transcripts s)\<rparr>))"

section \<open>Sending\<close>

definition f_send :: "fenv \<Rightarrow> nat \<Rightarrow> json \<Rightarrow> fake_server \<Rightarrow> fake_server" where
  "f_send env k message s = (if fe_open env k then f_perform (FSend k message) s else s)"

definition f_envelope :: "string \<Rightarrow> json \<Rightarrow> json" where
  "f_envelope cid frame = JObj [(''conversationId'', JStr cid), (''frame'', frame)]"

definition broadcast :: "fenv \<Rightarrow> json \<Rightarrow> fake_server \<Rightarrow> fake_server" where
  "broadcast env frame s = fold (\<lambda>c. f_send env (fc_index c) frame) (fs_connections s) s"

definition fake_deliver :: "fenv \<Rightarrow> string \<Rightarrow> json \<Rightarrow> fake_server \<Rightarrow> fake_server" where
  "fake_deliver env cid frame s = broadcast env (f_envelope cid frame) s"

text \<open>\<open>seq > watermark\<close>; a watermark of \<open>NaN\<close> (\<open>None\<close>) is not below anything.\<close>

definition newer :: "jsnum option \<Rightarrow> json \<Rightarrow> bool" where
  "newer watermark frame =
     (case (as_num (field frame ''seq''), watermark) of (Some n, Some w) \<Rightarrow> n > w | _ \<Rightarrow> False)"

definition fake_replay :: "fenv \<Rightarrow> nat \<Rightarrow> string \<Rightarrow> jsnum option \<Rightarrow> fake_server \<Rightarrow> fake_server" where
  "fake_replay env k cid watermark s =
     fold (\<lambda>frame. f_send env k (f_envelope cid frame)) (filter (newer watermark) (transcript cid s)) s"

section \<open>The users' side\<close>

definition act_id :: "fake_server \<Rightarrow> json" where
  "act_id s = JStr (''act-'' @ nat_str (fs_nextId s))"

definition sender_json :: "string \<Rightarrow> string \<Rightarrow> json" where
  "sender_json i role = JObj [(''id'', JStr i), (''role'', JStr role)]"

definition userSays ::
  "fenv \<Rightarrow> string \<Rightarrow> string + (string \<times> json) list \<Rightarrow> bool \<Rightarrow> string option \<Rightarrow> fake_server \<Rightarrow> json \<times> fake_server" where
  "userSays env cid message deliver sender s =
     (let base = (case message of
                    Inl text \<Rightarrow> [(''type'', JStr ''text''), (''data'', JObj [(''text'', JStr text)])]
                  | Inr fs \<Rightarrow> fs);
          frame = spread [(''id'', act_id s), (''from'', JStr ''user''),
                          (''sender'', sender_json (case sender of Some u \<Rightarrow> u | None \<Rightarrow> ''user-1'') ''user''),
                          (''timestamp'', JNum (fe_now env))] base;
          meta = map_of frame ''meta'';
          (stored, s1) = store cid (AList.delete ''meta'' frame) (s\<lparr>fs_nextId := Suc (fs_nextId s)\<rparr>)
      in (stored,
          if deliver
          then fake_deliver env cid (case meta of None \<Rightarrow> stored | Some m \<Rightarrow> with_field ''meta'' m stored) s1
          else s1))"

definition botSays :: "fenv \<Rightarrow> string \<Rightarrow> string \<Rightarrow> fake_server \<Rightarrow> json \<times> fake_server" where
  "botSays env cid text s =
     (let (stored, s1) = store cid
            [(''type'', JStr ''text''), (''id'', act_id s), (''from'', JStr ''bot''),
             (''sender'', sender_json ''other-bot'' ''bot''), (''data'', JObj [(''text'', JStr text)]),
             (''timestamp'', JNum (fe_now env))] (s\<lparr>fs_nextId := Suc (fs_nextId s)\<rparr>)
      in (stored, fake_deliver env cid stored s1))"

definition fake_resume :: "fenv \<Rightarrow> string \<Rightarrow> (string \<times> json) list \<Rightarrow> fake_server \<Rightarrow> fake_server" where
  "fake_resume env cid answers s =
     fake_deliver env cid (JObj [(''type'', JStr ''resume''), (''answers'', JObj answers)]) s"

definition fake_abort :: "fenv \<Rightarrow> string \<Rightarrow> fake_server \<Rightarrow> fake_server" where
  "fake_abort env cid s = fake_deliver env cid (JObj [(''type'', JStr ''abort'')]) s"

section \<open>Messages of agents\<close>

definition error_json :: "string \<Rightarrow> string \<Rightarrow> jsnum \<Rightarrow> json" where
  "error_json code message number =
     JObj [(''type'', JStr ''error''), (''data'', JObj [(''code'', JStr code), (''message'', JStr message),
       (''number'', JNum number), (''retryable'', JBool False)])]"

definition welcome_json :: "nat \<Rightarrow> fake_server \<Rightarrow> json" where
  "welcome_json k s =
     JObj [(''type'', JStr ''welcome''), (''data'', JObj (
       [(''protocol'', JStr ''converger/1''), (''compat'', JArr [JStr ''mekik/1'']),
        (''connectionId'', JStr (''conn-'' @ nat_str k)), (''scope'', JStr ''channel''),
        (''channelId'', JStr ''fake-channel''),
        (''limits'', JObj [(''maxConversations'', JNum 5000), (''idleTimeoutMs'', JNum 60000)])]
       @ defined [(''expiresAt'', map_option JNum (fs_expiresAt s))]))]"

text \<open>\<open>Object.entries(message["watermarks"] ?? {})\<close>, for an object.\<close>

definition fake_hello :: "fenv \<Rightarrow> nat \<Rightarrow> json \<Rightarrow> fake_server \<Rightarrow> fake_server" where
  "fake_hello env k message s0 =
     (let s = s0\<lparr>fs_hellos := fs_hellos s0 @ [message]\<rparr> in
      case as_str (field message ''token'') of
        Some token \<Rightarrow>
          if token \<in> set (fs_rejectedTokens s)
          then f_perform (FClose k 4401 ''unauthorized'') (f_send env k (error_json ''unauthorized'' ''invalid token'' 2000) s)
          else
            (let s1 = s\<lparr>fs_connections := map (\<lambda>c. if fc_index c = k then c\<lparr>fc_hello := Some message\<rparr> else c) (fs_connections s)\<rparr>
             in fold (\<lambda>(cid, w). fake_replay env k cid (to_number env w))
                  (members (case nullish (field message ''watermarks'') None of Some j \<Rightarrow> j | None \<Rightarrow> JObj []))
                  (f_send env k (welcome_json k s1) s1))
      | None \<Rightarrow>
          f_perform (FClose k 4401 ''unauthorized'') (f_send env k (error_json ''unauthorized'' ''invalid token'' 2000) s))"

definition fake_bare :: "fenv \<Rightarrow> nat \<Rightarrow> string \<Rightarrow> json \<Rightarrow> fake_server \<Rightarrow> fake_server" where
  "fake_bare env k type message s =
     (if type = ''hello'' then fake_hello env k message s
      else if type = ''ping'' then
        f_send env k (JObj ([(''type'', JStr ''heartbeat''), (''timestamp'', JNum (fe_now env))]
          @ defined [(''nonce'', field message ''nonce'')])) s
      else if type = ''auth'' then
        f_send env k (JObj [(''type'', JStr ''tokenRefreshed''), (''data'', JObj [(''expiresAt'', JNum (fe_now env + 1800000))])]) s
      else f_send env k (error_json ''bad_request'' ''conversation frames need an envelope'' 1000) s)"

definition fake_key :: "string \<Rightarrow> string \<Rightarrow> string" where
  "fake_key cid clientId = cid @ '':'' @ clientId"

definition fake_clientId :: "json \<Rightarrow> string option" where
  "fake_clientId frame = or_else (as_str (field frame ''clientId'')) (as_str (field frame ''id''))"

text \<open>The ack of a stored frame.\<close>

definition ack_json :: "fenv \<Rightarrow> string \<Rightarrow> json \<Rightarrow> bool \<Rightarrow> json" where
  "ack_json env clientId stored duplicate =
     JObj (defined ([(''type'', Some (JStr ''ack'')), (''clientId'', Some (JStr clientId)), (''id'', field stored ''id''),
       (''seq'', field stored ''seq''), (''timestamp'', Some (JNum (fe_now env)))]
       @ (if duplicate then [(''duplicate'', Some (JBool True))] else [])))"

definition store_message :: "fenv \<Rightarrow> string \<Rightarrow> json \<Rightarrow> string option \<Rightarrow> fake_server \<Rightarrow> json \<times> fake_server" where
  "store_message env cid frame key s =
     (let (i, s1) = (case as_str (field frame ''id'') of
                       Some i \<Rightarrow> (JStr i, s)
                     | None \<Rightarrow> (act_id s, s\<lparr>fs_nextId := Suc (fs_nextId s)\<rparr>));
          (stored, s2) = store cid (spread (AList.delete ''clientId'' (members frame))
            [(''id'', i), (''from'', JStr ''bot''), (''sender'', sender_json ''agent'' ''bot''), (''timestamp'', JNum (fe_now env))]) s1
      in (stored, case key of Some k \<Rightarrow> s2\<lparr>fs_keys := AList.update k stored (fs_keys s2)\<rparr> | None \<Rightarrow> s2))"

definition fake_message :: "fenv \<Rightarrow> nat \<Rightarrow> string \<Rightarrow> string \<Rightarrow> json \<Rightarrow> fake_server \<Rightarrow> fake_server" where
  "fake_message env k cid type frame s =
     (let clientId = fake_clientId frame in
      case fs_sendErrors s of
        error # rest \<Rightarrow>
          f_send env k (f_envelope cid (JObj [(''type'', JStr ''error''), (''data'', JObj (case clientId of
              Some c \<Rightarrow> spread (members error) [(''clientId'', JStr c), (''frameType'', JStr type)]
            | None \<Rightarrow> spread (AList.delete ''clientId'' (members error)) [(''frameType'', JStr type)]))]))
            (s\<lparr>fs_sendErrors := rest\<rparr>)
      | [] \<Rightarrow>
          (let key = map_option (fake_key cid) clientId;
               existing = (case key of Some q \<Rightarrow> map_of (fs_keys s) q | None \<Rightarrow> None);
               (stored, s1) = (case existing of Some e \<Rightarrow> (e, s) | None \<Rightarrow> store_message env cid frame key s)
           in case clientId of
                Some c \<Rightarrow> if fs_swallowAcks s1 then s1 else f_send env k (f_envelope cid (ack_json env c stored (existing \<noteq> None))) s1
              | None \<Rightarrow> s1))"

definition fake_enveloped :: "fenv \<Rightarrow> nat \<Rightarrow> string \<Rightarrow> json \<Rightarrow> fake_server \<Rightarrow> fake_server" where
  "fake_enveloped env k cid frame s =
     (let type = str_field (Some frame) ''type'' in
      if type = ''sync'' then
        fake_replay env k cid (to_number env (case nullish (field frame ''watermark'') None of Some w \<Rightarrow> w | None \<Rightarrow> JNum 0)) s
      else if type \<in> set FAKE_TRANSIENT then s
      else if type \<in> set FAKE_NATIVE then snd (store cid (AList.delete ''seq'' (members frame)) s)
      else fake_message env k cid type frame s)"

text \<open>\<open>#onMessage\<close>; reading a property of \<open>null\<close> throws.\<close>

definition fake_onMessage :: "fenv \<Rightarrow> nat \<Rightarrow> json \<Rightarrow> fake_server \<Rightarrow> fake_server" where
  "fake_onMessage env k message s =
     (if message = JNull then f_perform FThrow s
      else
        (case as_str (field message ''type'') of
           Some type \<Rightarrow>
             fake_bare env k type message
               (s\<lparr>fs_received := fs_received s @ [\<lparr>rf_conversationId = None, rf_frame = message, rf_connection = k\<rparr>]\<rparr>)
         | None \<Rightarrow>
             (case (field message ''conversationId'', field message ''frame'') of
                (Some (JStr cid), Some frame) \<Rightarrow>
                  if as_str (field frame ''type'') = None then s
                  else fake_enveloped env k cid frame
                    (s\<lparr>fs_received := fs_received s @ [\<lparr>rf_conversationId = Some cid, rf_frame = frame, rf_connection = k\<rparr>]\<rparr>)
              | _ \<Rightarrow> s)))"

section \<open>Waiting\<close>

definition run_ended :: "string list \<Rightarrow> string \<Rightarrow> received_frame \<Rightarrow> bool" where
  "run_ended until cid r \<longleftrightarrow> rf_conversationId r = Some cid \<and> of_type ''run'' (rf_frame r)
     \<and> js_string (ofield (field (rf_frame r) ''data'') ''status'') \<in> set until"

fun wait_check :: "fenv \<Rightarrow> wait_pred \<Rightarrow> fake_server \<Rightarrow> wait_value option" where
  "wait_check env (WaitCustom n) s = (if fe_holds env n then Some ValueCustom else None)"
| "wait_check env (WaitFrame from P) s = map_option ValueFrame (find P (drop from (fs_received s)))"
| "wait_check env (WaitConnections n) s =
     (if n \<le> length (filter (\<lambda>c. fc_hello c \<noteq> None) (fs_connections s)) then Some (ValueCount (length (fs_connections s))) else None)"
| "wait_check env (WaitEnded from cid until) s =
     (if list_ex (run_ended until cid) (drop from (fs_received s)) then Some ValueEnded else None)"

text \<open>The value is there: the promise resolves, or \<open>collect\<close> waits ten more milliseconds.\<close>

fun wait_resolved :: "waiter \<Rightarrow> wait_value \<Rightarrow> fake_server \<Rightarrow> fake_server" where
  "wait_resolved w v s =
     (case wt_pred w of
        WaitEnded from cid until \<Rightarrow> s\<lparr>fs_settling := fs_settling s @ [(wt_id w, cid, from)]\<rparr>
      | _ \<Rightarrow> f_perform (WaitDone (wt_id w) v) s)"

definition drop_waiter :: "waiter \<Rightarrow> fake_server \<Rightarrow> fake_server" where
  "drop_waiter w s = s\<lparr>fs_waiters := filter (\<lambda>x. wt_id x \<noteq> wt_id w) (fs_waiters s)\<rparr>"

definition check_waiter :: "fenv \<Rightarrow> waiter \<Rightarrow> fake_server \<Rightarrow> fake_server" where
  "check_waiter env w s =
     (case wait_check env (wt_pred w) s of
        Some v \<Rightarrow> wait_resolved w v (drop_waiter w s)
      | None \<Rightarrow> s)"

definition waitFor :: "fenv \<Rightarrow> wait_pred \<Rightarrow> jsnum option \<Rightarrow> fake_server \<Rightarrow> fake_server" where
  "waitFor env p timeoutMs s =
     (let w = \<lparr>wt_id = fs_waits s, wt_pred = p, wt_timeoutMs = (case timeoutMs of Some t \<Rightarrow> t | None \<Rightarrow> 5000)\<rparr>
      in check_waiter env w (s\<lparr>fs_waits := Suc (fs_waits s), fs_waiters := fs_waiters s @ [w]\<rparr>))"

definition find_waiter :: "nat \<Rightarrow> fake_server \<Rightarrow> waiter option" where
  "find_waiter n s = find (\<lambda>w. wt_id w = n) (fs_waiters s)"

definition wait_poll :: "fenv \<Rightarrow> nat \<Rightarrow> fake_server \<Rightarrow> fake_server" where
  "wait_poll env n s = (case find_waiter n s of Some w \<Rightarrow> check_waiter env w s | None \<Rightarrow> s)"

definition wait_timeout :: "nat \<Rightarrow> fake_server \<Rightarrow> fake_server" where
  "wait_timeout n s =
     (case find_waiter n s of
        Some w \<Rightarrow>
          f_perform (WaitFailed n (''FakeConvergerServer.waitFor timed out after '' @ num_str (wt_timeoutMs w) @ '' ms'')) (drop_waiter w s)
      | None \<Rightarrow> s)"

definition nextFrame :: "fenv \<Rightarrow> (received_frame \<Rightarrow> bool) \<Rightarrow> jsnum option \<Rightarrow> fake_server \<Rightarrow> fake_server" where
  "nextFrame env P timeoutMs s = waitFor env (WaitFrame (length (fs_received s)) P) timeoutMs s"

definition collect :: "fenv \<Rightarrow> string \<Rightarrow> nat \<Rightarrow> jsnum option \<Rightarrow> string list option \<Rightarrow> fake_server \<Rightarrow> fake_server" where
  "collect env cid from timeoutMs until s =
     waitFor env (WaitEnded from cid (case until of Some u \<Rightarrow> u | None \<Rightarrow> [''finished'', ''error'', ''aborted'', ''interrupted'']))
       timeoutMs s"

definition fake_turn ::
  "fenv \<Rightarrow> string \<Rightarrow> string + (string \<times> json) list \<Rightarrow> jsnum option \<Rightarrow> string list option \<Rightarrow> fake_server \<Rightarrow> fake_server" where
  "fake_turn env cid message timeoutMs until s =
     collect env cid (length (fs_received s)) timeoutMs until (snd (userSays env cid message True None s))"

definition collect_settled :: "nat \<Rightarrow> fake_server \<Rightarrow> fake_server" where
  "collect_settled n s =
     (case map_of (fs_settling s) n of
        Some (cid, from) \<Rightarrow>
          f_perform (TurnDone n (summarise (map rf_frame (filter (\<lambda>r. rf_conversationId r = Some cid) (drop from (fs_received s))))))
            (s\<lparr>fs_settling := AList.delete n (fs_settling s)\<rparr>)
      | None \<Rightarrow> s)"

section \<open>Connections\<close>

definition fake_onConnection :: "fake_server \<Rightarrow> fake_server" where
  "fake_onConnection s =
     s\<lparr>fs_connectionCount := Suc (fs_connectionCount s),
       fs_connections := fs_connections s @ [\<lparr>fc_index = fs_connectionCount s, fc_hello = None\<rparr>]\<rparr>"

definition fake_onClose :: "nat \<Rightarrow> fake_server \<Rightarrow> fake_server" where
  "fake_onClose k s = s\<lparr>fs_connections := filter (\<lambda>c. fc_index c \<noteq> k) (fs_connections s)\<rparr>"

definition fake_onText :: "fenv \<Rightarrow> nat \<Rightarrow> string \<Rightarrow> fake_server \<Rightarrow> fake_server" where
  "fake_onText env k raw s =
     (case JSON_parse raw of
        None \<Rightarrow> s
      | Some JNull \<Rightarrow> fake_onMessage env k JNull s
      | Some message \<Rightarrow> (let s1 = fake_onMessage env k message s in fold (check_waiter env) (fs_waiters s1) s1))"

definition closeAll :: "int \<Rightarrow> string \<Rightarrow> fake_server \<Rightarrow> fake_server" where
  "closeAll code reason s =
     fold (\<lambda>c. f_perform (FClose (fc_index c) code reason)) (fs_connections s) (s\<lparr>fs_connections := []\<rparr>)"

definition fake_kill :: "fake_server \<Rightarrow> fake_server" where
  "fake_kill s = fold (\<lambda>c. f_perform (FTerminate (fc_index c))) (fs_connections s) (s\<lparr>fs_connections := []\<rparr>)"

definition fake_stop :: "fake_server \<Rightarrow> fake_server" where
  "fake_stop s = f_perform FServerClose (fake_kill s)"

section \<open>Steps\<close>

text \<open>The fields tests set are inputs as well.\<close>

datatype f_input =
    FConnection
  | FSocketClose nat
  | FText nat string
  | FUserSays string "string + (string \<times> json) list" bool "string option"
  | FBotSays string string
  | FResume string "(string \<times> json) list"
  | FAbort string
  | FDeliver string json
  | FBroadcast json
  | FWaitFor nat "jsnum option"
  | FNextFrame "received_frame \<Rightarrow> bool" "jsnum option"
  | FWaitForConnections nat "jsnum option"
  | FTurn string "string + (string \<times> json) list" "jsnum option" "string list option"
  | FCollect string nat "jsnum option" "string list option"
  | FPoll nat
  | FTimeout nat
  | FSettled nat
  | FCloseAll int string
  | FKill
  | FStop
  | FRejectTokens "string list"
  | FSendErrors "json list"
  | FSwallowAcks bool
  | FExpiresAt "jsnum option"

fun fake_step :: "fenv \<times> f_input \<Rightarrow> fake_server \<Rightarrow> fake_server" where
  "fake_step (env, FConnection) s = fake_onConnection s"
| "fake_step (env, FSocketClose k) s = fake_onClose k s"
| "fake_step (env, FText k raw) s = fake_onText env k raw s"
| "fake_step (env, FUserSays cid m d u) s = snd (userSays env cid m d u s)"
| "fake_step (env, FBotSays cid x) s = snd (botSays env cid x s)"
| "fake_step (env, FResume cid a) s = fake_resume env cid a s"
| "fake_step (env, FAbort cid) s = fake_abort env cid s"
| "fake_step (env, FDeliver cid f) s = fake_deliver env cid f s"
| "fake_step (env, FBroadcast f) s = broadcast env f s"
| "fake_step (env, FWaitFor n ms) s = waitFor env (WaitCustom n) ms s"
| "fake_step (env, FNextFrame P ms) s = nextFrame env P ms s"
| "fake_step (env, FWaitForConnections n ms) s = waitFor env (WaitConnections n) ms s"
| "fake_step (env, FTurn cid m ms u) s = fake_turn env cid m ms u s"
| "fake_step (env, FCollect cid from ms u) s = collect env cid from ms u s"
| "fake_step (env, FPoll n) s = wait_poll env n s"
| "fake_step (env, FTimeout n) s = wait_timeout n s"
| "fake_step (env, FSettled n) s = collect_settled n s"
| "fake_step (env, FCloseAll code r) s = closeAll code r s"
| "fake_step (env, FKill) s = fake_kill s"
| "fake_step (env, FStop) s = fake_stop s"
| "fake_step (env, FRejectTokens ts) s = s\<lparr>fs_rejectedTokens := ts\<rparr>"
| "fake_step (env, FSendErrors es) s = s\<lparr>fs_sendErrors := es\<rparr>"
| "fake_step (env, FSwallowAcks b) s = s\<lparr>fs_swallowAcks := b\<rparr>"
| "fake_step (env, FExpiresAt e) s = s\<lparr>fs_expiresAt := e\<rparr>"

end
