(* ===== verification/Fake_Props.thy ===== *)
theory Fake_Props
  imports Fake_Server "HOL-Library.Sublist"
begin

text \<open>
  What the fake server promises the agents it tests: transcripts are numbered from one without gaps, a send
  is stored once however often it is repeated, a replay is the rest of the transcript, and everything it
  sends to an agent is a stored frame, an acknowledgement of one, or a control frame.
\<close>

section \<open>Growth\<close>

text \<open>What the agents' acknowledged world depends on, and that it only grows.\<close>

definition grown :: "fake_server \<Rightarrow> fake_server \<Rightarrow> bool" where
  "grown s s' \<longleftrightarrow> (\<forall>cid. prefix (transcript cid s) (transcript cid s')) \<and> map_of (fs_keys s) \<subseteq>\<^sub>m map_of (fs_keys s')
     \<and> prefix (fs_out s) (fs_out s')"

lemma grown_refl [simp]: "grown s s"
  by (simp add: grown_def)

lemma grown_trans [trans]: "grown s s1 \<Longrightarrow> grown s1 s2 \<Longrightarrow> grown s s2"
  using prefix_order.trans [of "transcript cid s" "transcript cid s1" "transcript cid s2" for cid]
    prefix_order.trans [of "fs_out s" "fs_out s1" "fs_out s2"] map_le_trans [of "map_of (fs_keys s)" "map_of (fs_keys s1)" "map_of (fs_keys s2)"]
  by (simp add: grown_def)

definition numbered_frame :: "nat \<Rightarrow> json \<Rightarrow> bool" where
  "numbered_frame n f \<longleftrightarrow> isRecord f \<and> field f ''seq'' = Some (JNum (of_nat n))"

definition numbered :: "fake_server \<Rightarrow> bool" where
  "numbered s \<longleftrightarrow> (\<forall>cid i. i < length (transcript cid s) \<longrightarrow> numbered_frame (Suc i) (transcript cid s ! i))"

definition keyed :: "fake_server \<Rightarrow> bool" where
  "keyed s \<longleftrightarrow> (\<forall>k st. map_of (fs_keys s) k = Some st \<longrightarrow> (\<exists>cid c. k = fake_key cid c \<and> st \<in> set (transcript cid s)))"

text \<open>A frame in an envelope: stored (with the \<open>meta\<close> of its live delivery), an ack of a stored frame, or control.\<close>

definition acks :: "string \<Rightarrow> json \<Rightarrow> fake_server \<Rightarrow> bool" where
  "acks cid f s \<longleftrightarrow> (\<exists>env c st d. f = ack_json env c st d \<and> map_of (fs_keys s) (fake_key cid c) = Some st)"

definition stored_frame :: "string \<Rightarrow> json \<Rightarrow> fake_server \<Rightarrow> bool" where
  "stored_frame cid f s \<longleftrightarrow> (\<exists>g \<in> set (transcript cid s). f = g \<or> (\<exists>m. f = with_field ''meta'' m g))"

definition genuine :: "string \<Rightarrow> json \<Rightarrow> fake_server \<Rightarrow> bool" where
  "genuine cid f s \<longleftrightarrow> stored_frame cid f s \<or> acks cid f s \<or> of_type ''error'' f \<or> of_type ''resume'' f \<or> of_type ''abort'' f"

definition sayable :: "fake_server \<Rightarrow> json \<Rightarrow> bool" where
  "sayable s j \<longleftrightarrow> (\<exists>cid f. j = f_envelope cid f \<and> genuine cid f s) \<or> as_str (field j ''type'') \<noteq> None"

definition honest :: "fake_server \<Rightarrow> bool" where
  "honest s \<longleftrightarrow> (\<forall>k j. FSend k j \<in> set (fs_out s) \<longrightarrow> sayable s j)"

definition transcripts_ok :: "fake_server \<Rightarrow> bool" where
  "transcripts_ok s \<longleftrightarrow> numbered s \<and> keyed s"

lemma genuine_grown: "grown s s' \<Longrightarrow> genuine cid f s \<Longrightarrow> genuine cid f s'"
proof -
  assume g: "grown s s'" and f: "genuine cid f s"
  have "set (transcript cid s) \<subseteq> set (transcript cid s')" using g by (simp add: grown_def set_mono_prefix)
  moreover have "map_of (fs_keys s) k = Some st \<Longrightarrow> map_of (fs_keys s') k = Some st" for k st
    using g unfolding grown_def map_le_def by (metis domI)
  ultimately show ?thesis using f unfolding genuine_def stored_frame_def acks_def by blast
qed

section \<open>Updates of other fields\<close>

lemma transcript_updates [simp]:
  "transcript cid (s\<lparr>fs_received := a\<rparr>) = transcript cid s" "transcript cid (s\<lparr>fs_connections := b\<rparr>) = transcript cid s"
  "transcript cid (s\<lparr>fs_hellos := c\<rparr>) = transcript cid s" "transcript cid (s\<lparr>fs_sendErrors := d\<rparr>) = transcript cid s"
  "transcript cid (s\<lparr>fs_nextId := e\<rparr>) = transcript cid s" "transcript cid (s\<lparr>fs_keys := f\<rparr>) = transcript cid s"
  "transcript cid (s\<lparr>fs_out := g\<rparr>) = transcript cid s" "transcript cid (f_perform x s) = transcript cid s"
  "transcript cid (s\<lparr>fs_waiters := h\<rparr>) = transcript cid s" "transcript cid (s\<lparr>fs_settling := i\<rparr>) = transcript cid s"
  by (simp_all add: transcript_def f_perform_def)

text \<open>A step that stores nothing and says only what is genuine.\<close>

definition says :: "fake_server \<Rightarrow> fake_server \<Rightarrow> bool" where
  "says s s' \<longleftrightarrow> fs_transcripts s' = fs_transcripts s \<and> fs_keys s' = fs_keys s \<and> (\<exists>es. fs_out s' = fs_out s @ es
     \<and> (\<forall>k j. FSend k j \<in> set es \<longrightarrow> sayable s j))"

lemma says_refl [simp]: "says s s"
  by (simp add: says_def)

lemma says_view:
  assumes "says s s1"
  shows "transcript cid s1 = transcript cid s" "genuine cid f s1 = genuine cid f s" "sayable s1 = sayable s"
  using assms by (simp_all add: says_def transcript_def genuine_def stored_frame_def acks_def sayable_def [abs_def])

lemma says_trans [trans]: "says s s1 \<Longrightarrow> says s1 s2 \<Longrightarrow> says s s2"
proof -
  assume a: "says s s1" and b: "says s1 s2"
  from a b obtain es fs where "fs_out s1 = fs_out s @ es" "\<And>k j. FSend k j \<in> set es \<Longrightarrow> sayable s j"
    "fs_out s2 = fs_out s1 @ fs" "\<And>k j. FSend k j \<in> set fs \<Longrightarrow> sayable s1 j" unfolding says_def by blast
  then have "fs_out s2 = fs_out s @ (es @ fs) \<and> (\<forall>k j. FSend k j \<in> set (es @ fs) \<longrightarrow> sayable s j)"
    using says_view(3) [OF a] by auto
  then show ?thesis using a b unfolding says_def by auto
qed

lemma says_ok: "says s s' \<Longrightarrow> transcripts_ok s' = transcripts_ok s" "says s s' \<Longrightarrow> honest s \<Longrightarrow> honest s'"
proof -
  assume a: "says s s'"
  then have "fs_keys s' = fs_keys s" by (simp add: says_def)
  then show "transcripts_ok s' = transcripts_ok s" by (simp add: transcripts_ok_def numbered_def keyed_def says_view(1) [OF a])
  assume "honest s"
  then show "honest s'" using a unfolding honest_def says_view(3) [OF a] says_def by (metis Un_iff set_append)
qed

lemma says_grown: "says s s' \<Longrightarrow> grown s s'"
  using says_view(1) [of s s'] by (auto simp: says_def grown_def)

lemma says_updates [simp]:
  "says s (s'\<lparr>fs_received := a\<rparr>) = says s s'" "says s (s'\<lparr>fs_connections := b\<rparr>) = says s s'"
  "says s (s'\<lparr>fs_hellos := c\<rparr>) = says s s'" "says s (s'\<lparr>fs_rejectedTokens := d\<rparr>) = says s s'"
  "says s (s'\<lparr>fs_sendErrors := e\<rparr>) = says s s'" "says s (s'\<lparr>fs_swallowAcks := f\<rparr>) = says s s'"
  "says s (s'\<lparr>fs_expiresAt := g\<rparr>) = says s s'" "says s (s'\<lparr>fs_connectionCount := h\<rparr>) = says s s'"
  "says s (s'\<lparr>fs_nextId := i\<rparr>) = says s s'" "says s (s'\<lparr>fs_waiters := j\<rparr>) = says s s'"
  "says s (s'\<lparr>fs_waits := k\<rparr>) = says s s'" "says s (s'\<lparr>fs_settling := l\<rparr>) = says s s'"
  by (simp_all add: says_def)

fun silent :: "f_effect \<Rightarrow> bool" where
  "silent (FSend _ _) = False"
| "silent _ = True"

lemma says_perform: "says s s' \<Longrightarrow> silent e \<Longrightarrow> says s (f_perform e s')"
  by (cases e) (auto simp: says_def f_perform_def)

lemma says_send: "says s s' \<Longrightarrow> sayable s j \<Longrightarrow> says s (f_send env k j s')"
  by (auto simp: says_def f_send_def f_perform_def)

lemma says_fold: "(\<And>x s'. x \<in> set xs \<Longrightarrow> says s s' \<Longrightarrow> says s (f x s')) \<Longrightarrow> says s s' \<Longrightarrow> says s (fold f xs s')"
  by (induction xs arbitrary: s') auto

section \<open>Storing\<close>

lemma store_transcript:
  "transcript c (snd (store cid f s)) = transcript c s @ (if c = cid then [fst (store cid f s)] else [])"
  by (simp add: store_def transcript_def update_conv' Let_def)

lemma store_rest [simp]: "fs_keys (snd (store cid f s)) = fs_keys s" "fs_out (snd (store cid f s)) = fs_out s"
  by (simp_all add: store_def Let_def)

lemma store_numbered: "numbered_frame (Suc (length (transcript cid s))) (fst (store cid f s))"
  by (simp add: store_def numbered_frame_def Let_def update_conv')

lemma store_grown: "grown s (snd (store cid f s))"
  by (simp add: grown_def store_transcript)

lemma sayable_grown: "grown s s' \<Longrightarrow> sayable s j \<Longrightarrow> sayable s' j"
  unfolding sayable_def using genuine_grown [of s s'] by blast

lemma grown_honest: "grown s s' \<Longrightarrow> fs_out s' = fs_out s \<Longrightarrow> honest s \<Longrightarrow> honest s'"
  using sayable_grown [of s s'] by (simp add: honest_def)

lemma store_ok: "transcripts_ok s \<Longrightarrow> transcripts_ok (snd (store cid f s))"
proof -
  assume ok: "transcripts_ok s"
  have "numbered_frame (Suc i) ((transcript cid s @ [fst (store cid f s)]) ! i)" if "i < Suc (length (transcript cid s))" for i
    using ok that store_numbered [of cid s f] by (cases "i = length (transcript cid s)") (auto simp: transcripts_ok_def numbered_def nth_append)
  then have "numbered (snd (store cid f s))" using ok by (auto simp: numbered_def store_transcript transcripts_ok_def)
  moreover have "keyed (snd (store cid f s))" using ok unfolding transcripts_ok_def keyed_def store_transcript by fastforce
  ultimately show ?thesis by (simp add: transcripts_ok_def)
qed

text \<open>Everything the server does keeps the invariant and only adds.\<close>

definition serves :: "fake_server \<Rightarrow> fake_server \<Rightarrow> bool" where
  "serves s s' \<longleftrightarrow> grown s s' \<and> (transcripts_ok s \<longrightarrow> transcripts_ok s') \<and> (honest s \<longrightarrow> honest s')"

lemma serves_refl [simp]: "serves s s"
  by (simp add: serves_def)

lemma serves_trans [trans]: "serves s s1 \<Longrightarrow> serves s1 s2 \<Longrightarrow> serves s s2"
  unfolding serves_def using grown_trans by blast

lemma says_serves: "says s s' \<Longrightarrow> serves s s'"
  by (simp add: serves_def says_grown says_ok)

lemma store_serves: "serves s (snd (store cid f s))"
  by (simp add: serves_def store_grown store_ok grown_honest [OF store_grown])

section \<open>Operations\<close>

lemma bare_sayable: "as_str (field j ''type'') \<noteq> None \<Longrightarrow> sayable s j"
  by (simp add: sayable_def)

lemma envelope_sayable: "genuine cid f s \<Longrightarrow> sayable s (f_envelope cid f)"
  unfolding sayable_def by blast

lemma control_genuine [simp]: "of_type ''error'' f \<Longrightarrow> genuine cid f s" "of_type ''resume'' f \<Longrightarrow> genuine cid f s"
  "of_type ''abort'' f \<Longrightarrow> genuine cid f s"
  by (simp_all add: genuine_def)

lemma stored_genuine: "f \<in> set (transcript cid s) \<Longrightarrow> genuine cid f s" "f \<in> set (transcript cid s) \<Longrightarrow> genuine cid (with_field ''meta'' m f) s"
  by (auto simp: genuine_def stored_frame_def)

lemma broadcast_says: "sayable s j \<Longrightarrow> says s s' \<Longrightarrow> says s (broadcast env j s')"
  unfolding broadcast_def by (rule says_fold) (auto intro: says_send)

lemma deliver_says: "genuine cid f s \<Longrightarrow> says s (fake_deliver env cid f s)"
  unfolding fake_deliver_def by (intro broadcast_says envelope_sayable says_refl)

lemma replay_says: "says s s' \<Longrightarrow> says s (fake_replay env k cid w s')"
  unfolding fake_replay_def
proof (rule says_fold)
  fix f s'' assume a: "says s s'" "f \<in> set (filter (newer w) (transcript cid s'))" "says s s''"
  then have "f \<in> set (transcript cid s)" using says_view(1) [OF a(1), of cid] by simp
  then show "says s (f_send env k (f_envelope cid f) s'')" using a(3) by (intro says_send envelope_sayable stored_genuine)
qed

lemma hello_says: "says s (fake_hello env k m s)"
proof -
  have "says s (fold (\<lambda>(cid, w). fake_replay env k cid (to_number env w)) ws (f_send env k j s'))"
    if "as_str (field j ''type'') \<noteq> None" "says s s'" for ws j s'
    by (rule says_fold) (use that in \<open>auto intro!: replay_says says_send intro: bare_sayable\<close>)
  moreover have "says s (f_perform (FClose k c r) (f_send env k j s'))" if "as_str (field j ''type'') \<noteq> None" "says s s'" for c r j s'
    using that by (intro says_perform says_send bare_sayable) simp_all
  ultimately show ?thesis by (simp add: fake_hello_def Let_def error_json_def welcome_json_def split: option.split)
qed

lemma bare_says: "says s (fake_bare env k ty m s)"
  by (auto simp: fake_bare_def error_json_def hello_says intro!: says_send bare_sayable)

lemma user_serves: "serves s (snd (userSays env cid m d u s))"
proof -
  have "serves s (snd (store cid f (s\<lparr>fs_nextId := n\<rparr>)))" for f n
    by (rule serves_trans [OF says_serves store_serves]) simp
  moreover have "serves (snd (store cid f s1)) (fake_deliver env cid (case m of None \<Rightarrow> fst (store cid f s1)
      | Some x \<Rightarrow> with_field ''meta'' x (fst (store cid f s1))) (snd (store cid f s1)))" for m f s1
    by (cases m) (auto intro!: says_serves deliver_says stored_genuine simp: store_transcript)
  ultimately show ?thesis unfolding userSays_def Let_def split_beta snd_conv
    by (cases d) (simp_all only: if_True if_False, rule serves_trans)
qed

lemma bot_serves: "serves s (snd (botSays env cid x s))"
proof -
  have "serves s (snd (store cid f (s\<lparr>fs_nextId := n\<rparr>)))" for f n
    by (rule serves_trans [OF says_serves store_serves]) simp
  moreover have "serves (snd (store cid f s1)) (fake_deliver env cid (fst (store cid f s1)) (snd (store cid f s1)))" for f s1
    by (intro says_serves deliver_says stored_genuine) (simp add: store_transcript)
  ultimately show ?thesis unfolding botSays_def Let_def split_beta snd_conv by (rule serves_trans)
qed

lemma message_stores:
  assumes "key = map_option (fake_key cid) c" "\<And>q. key = Some q \<Longrightarrow> map_of (fs_keys s) q = None"
  shows "serves s (snd (store_message env cid f key s))"
    and "\<And>q. key = Some q \<Longrightarrow> map_of (fs_keys (snd (store_message env cid f key s))) q = Some (fst (store_message env cid f key s))"
proof -
  define r where "r = (case as_str (field f ''id'') of Some i \<Rightarrow> (JStr i, s) | None \<Rightarrow> (act_id s, s\<lparr>fs_nextId := Suc (fs_nextId s)\<rparr>))"
  define g where "g = spread (AList.delete ''clientId'' (members f))
    [(''id'', fst r), (''from'', JStr ''bot''), (''sender'', sender_json ''agent'' ''bot''), (''timestamp'', JNum (fe_now env))]"
  define st s2 where d: "st = fst (store cid g (snd r))" "s2 = snd (store cid g (snd r))"
  have eq: "store_message env cid f key s = (st, case key of Some k \<Rightarrow> s2\<lparr>fs_keys := AList.update k st (fs_keys s2)\<rparr> | None \<Rightarrow> s2)"
    unfolding store_message_def r_def g_def d Let_def split_beta ..
  have "says s (snd r)" by (simp add: r_def split: option.split)
  then have 1: "serves s s2" unfolding d by (rule serves_trans [OF says_serves store_serves])
  have keys: "fs_keys s2 = fs_keys s" by (simp add: d r_def split: option.split)
  have st: "st \<in> set (transcript cid s2)" by (simp add: d store_transcript)
  have 2: "serves s2 (s2\<lparr>fs_keys := AList.update q st (fs_keys s2)\<rparr>)" if k: "key = Some q" for q
  proof -
    obtain x where x: "q = fake_key cid x" using assms(1) k by (cases c) auto
    have "map_of (fs_keys s2) q = None" using assms(2) k keys by simp
    then have g: "grown s2 (s2\<lparr>fs_keys := AList.update q st (fs_keys s2)\<rparr>)"
      by (auto simp: grown_def update_conv' map_le_def)
    have "keyed s2 \<Longrightarrow> keyed (s2\<lparr>fs_keys := AList.update q st (fs_keys s2)\<rparr>)"
      using st x by (auto simp: keyed_def update_conv' split: if_splits)
    then show ?thesis using g grown_honest [OF g] by (auto simp: serves_def transcripts_ok_def numbered_def)
  qed
  show "serves s (snd (store_message env cid f key s))" using 1 2 serves_trans unfolding eq by (cases key) auto
  show "map_of (fs_keys (snd (store_message env cid f key s))) q = Some (fst (store_message env cid f key s))" if "key = Some q" for q
    unfolding eq by (simp add: that update_conv')
qed

lemma ack_genuine: "map_of (fs_keys s) (fake_key cid c) = Some st \<Longrightarrow> genuine cid (ack_json env c st d) s"
  unfolding genuine_def acks_def by blast

lemma message_serves: "serves s (fake_message env k cid type f s)"
proof (cases "fs_sendErrors s")
  case (Cons e es)
  then show ?thesis unfolding fake_message_def Let_def
    by (auto intro!: says_serves says_send envelope_sayable control_genuine(1) simp: of_type_def)
next
  case Nil
  define key where "key = map_option (fake_key cid) (fake_clientId f)"
  define r where "r = (case (case key of Some q \<Rightarrow> map_of (fs_keys s) q | None \<Rightarrow> None) of
    Some e \<Rightarrow> (e, s) | None \<Rightarrow> store_message env cid f key s)"
  have r: "serves s (snd r)" "\<And>q. key = Some q \<Longrightarrow> map_of (fs_keys (snd r)) q = Some (fst r)"
    using message_stores [of key cid "fake_clientId f" s] by (auto simp: r_def key_def split: option.split)
  have "serves (snd r) (f_send env k (f_envelope cid (ack_json env c (fst r) d)) (snd r))" if "fake_clientId f = Some c" for c d
    using that r(2) by (intro says_serves says_send envelope_sayable ack_genuine) (simp_all add: key_def)
  then show ?thesis using r(1) serves_trans unfolding fake_message_def Nil key_def [symmetric] Let_def
    by (auto simp: r_def [symmetric] split_beta split: option.split)
qed

lemma enveloped_serves: "serves s (fake_enveloped env k cid f s)"
  unfolding fake_enveloped_def Let_def using says_serves [OF replay_says [OF says_refl]] store_serves message_serves by simp

lemma onMessage_serves: "serves s (fake_onMessage env k m s)"
proof -
  have "serves s (fake_bare env k ty m (s\<lparr>fs_received := r\<rparr>))" "serves s (fake_enveloped env k cid f (s\<lparr>fs_received := r\<rparr>))" for ty r cid f
    using says_serves [OF bare_says] enveloped_serves serves_trans [OF says_serves [of s "s\<lparr>fs_received := r\<rparr>"]] by simp_all
  moreover have "serves s (f_perform FThrow s)" by (intro says_serves says_perform) simp_all
  ultimately show ?thesis by (simp add: fake_onMessage_def split: option.split json.split)
qed

lemma check_says: "says s s' \<Longrightarrow> says s (check_waiter env w s')"
  by (auto simp: check_waiter_def drop_waiter_def split: option.split wait_pred.split intro!: says_perform)

lemma waitFor_says: "says s s' \<Longrightarrow> says s (waitFor env p ms s')"
  unfolding waitFor_def Let_def by (rule check_says) simp

lemma text_serves: "serves s (fake_onText env k raw s)"
proof -
  have "serves s (fold (check_waiter env) (fs_waiters (fake_onMessage env k m s)) (fake_onMessage env k m s))" for m
    by (rule serves_trans [OF onMessage_serves [of s env k m]], rule says_serves, rule says_fold) (auto intro: check_says)
  then show ?thesis using onMessage_serves by (auto simp: fake_onText_def Let_def split: option.split json.split)
qed

text \<open>Frames the test itself injects may be anything; every other input serves.\<close>

fun scripted :: "f_input \<Rightarrow> bool" where
  "scripted (FDeliver _ _) = False"
| "scripted (FBroadcast _) = False"
| "scripted _ = True"

lemma control_says: "says s (fake_resume env cid a s)" "says s (fake_abort env cid s)"
  unfolding fake_resume_def fake_abort_def by (rule deliver_says, simp add: of_type_def genuine_def)+

lemma waits_say:
  "says s (nextFrame env P ms s)" "says s (collect env cid from ms u s)" "says s (wait_poll env n s)"
  "says s (wait_timeout n s)" "says s (collect_settled n s)"
  by (simp_all add: nextFrame_def collect_def wait_poll_def wait_timeout_def drop_waiter_def collect_settled_def waitFor_says
      check_says says_perform split: option.split)

lemma kill_says: "says s (fake_kill s)"
  unfolding fake_kill_def by (rule says_fold) (simp_all add: says_perform)

lemma close_says: "says s (closeAll code r s)" "says s (fake_stop s)"
  unfolding closeAll_def fake_stop_def by (rule says_fold, simp_all add: says_perform kill_says)

lemma turn_serves: "serves s (fake_turn env cid m ms u s)"
  unfolding fake_turn_def by (rule serves_trans [OF user_serves says_serves [OF waits_say(2)]])

lemmas operations_serve = text_serves user_serves bot_serves turn_serves waitFor_says [OF says_refl, THEN says_serves]
  control_says [THEN says_serves] waits_say [THEN says_serves] kill_says [THEN says_serves] close_says [THEN says_serves]

lemma step_serves: "scripted i \<Longrightarrow> serves s (fake_step (env, i) s)"
  by (cases i) (simp_all add: operations_serve says_serves fake_onConnection_def fake_onClose_def)

section \<open>Runs\<close>

text \<open>Injected frames are sent and not stored.\<close>

lemma broadcast_rest [simp]:
  "fs_transcripts (broadcast env f s) = fs_transcripts s" "fs_keys (broadcast env f s) = fs_keys s"
  "prefix (fs_out s) (fs_out (broadcast env f s))"
proof -
  have "fs_transcripts s' = fs_transcripts s \<and> fs_keys s' = fs_keys s \<and> prefix (fs_out s) (fs_out s') \<Longrightarrow>
    fs_transcripts (fold (\<lambda>c. f_send env (fc_index c) f) cs s') = fs_transcripts s
    \<and> fs_keys (fold (\<lambda>c. f_send env (fc_index c) f) cs s') = fs_keys s
    \<and> prefix (fs_out s) (fs_out (fold (\<lambda>c. f_send env (fc_index c) f) cs s'))" for cs s'
    by (induction cs arbitrary: s') (simp_all add: f_send_def f_perform_def)
  from this [of s "fs_connections s"] show "fs_transcripts (broadcast env f s) = fs_transcripts s"
    "fs_keys (broadcast env f s) = fs_keys s" "prefix (fs_out s) (fs_out (broadcast env f s))"
    by (simp_all add: broadcast_def)
qed

lemma injected: "\<not> scripted i \<Longrightarrow> \<exists>f. fake_step (env, i) s = broadcast env f s"
  by (cases i) (auto simp: fake_deliver_def)

lemma fake_step_grown: "grown s (fake_step e s)"
proof (cases e)
  case (Pair env i)
  then show ?thesis using step_serves [of i s env] injected [of i env s]
    by (cases "scripted i") (auto simp: serves_def grown_def transcript_def)
qed

lemma fake_step_ok: "transcripts_ok s \<Longrightarrow> transcripts_ok (fake_step e s)"
proof (cases e)
  case (Pair env i)
  assume "transcripts_ok s"
  then show ?thesis unfolding Pair using step_serves [of i s env] injected [of i env s]
    by (cases "scripted i") (auto simp: serves_def transcripts_ok_def numbered_def keyed_def transcript_def)
qed

interpretation fake_transcripts: preserved fake_step transcripts_ok
  by unfold_locales (rule fake_step_ok)

interpretation fake_growth: preserved fake_step "grown s0"
  by unfold_locales (rule grown_trans [OF _ fake_step_grown])

lemma new_fake_ok [simp]: "transcripts_ok (new_fake_server now)" "honest (new_fake_server now)"
  by (simp_all add: transcripts_ok_def honest_def numbered_def keyed_def new_fake_server_def transcript_def)

lemmas fake_run_grown = fake_growth.run_good [OF grown_refl]

section \<open>Numbering\<close>

text \<open>
  C12. Whatever a test and the agents do to the fake server, every conversation's transcript is a list of
  objects, and the one at position \<open>i\<close> carries the number \<open>i + 1\<close> as its \<open>seq\<close>: there are no gaps and no repeats.
\<close>

theorem fake_transcripts_typed:
  "list_all2 (\<lambda>f n. isRecord f \<and> field f ''seq'' = Some (JNum (of_nat n)))
     (transcript cid (run fake_step es (new_fake_server now)))
     [1..<Suc (length (transcript cid (run fake_step es (new_fake_server now))))]"
  using fake_transcripts.run_good [OF new_fake_ok(1), of es now]
  by (simp add: list_all2_conv_all_nth transcripts_ok_def numbered_def numbered_frame_def del: upt_Suc)

section \<open>Replay\<close>

lemma numbered_newer:
  assumes "numbered s" "i < length (transcript cid s)"
  shows "newer (Some (of_nat w)) (transcript cid s ! i) \<longleftrightarrow> w \<le> i"
  using assms by (auto simp: numbered_def numbered_frame_def newer_def)

lemma filter_from: "(\<And>i. i < length xs \<Longrightarrow> P (xs ! i) \<longleftrightarrow> w \<le> i) \<Longrightarrow> filter P xs = drop w xs"
proof (induction xs arbitrary: w)
  case (Cons x xs)
  have "P x \<longleftrightarrow> w = 0" "\<And>i. i < length xs \<Longrightarrow> P (xs ! i) \<longleftrightarrow> w - 1 \<le> i" using Cons.prems [of 0] Cons.prems [of "Suc i" for i] by auto
  then show ?case using Cons.IH [of "w - 1"] by (cases w) auto
qed simp

lemma send_all: "fe_open env k \<Longrightarrow> fold (\<lambda>x. f_send env k (g x)) xs s = s\<lparr>fs_out := fs_out s @ map (\<lambda>x. FSend k (g x)) xs\<rparr>"
  by (induction xs arbitrary: s) (simp_all add: f_send_def f_perform_def)

lemma replay_drops:
  assumes "transcripts_ok s" "fe_open env k"
  shows "fake_replay env k cid (Some (of_nat w)) s
    = s\<lparr>fs_out := fs_out s @ map (\<lambda>f. FSend k (f_envelope cid f)) (drop w (transcript cid s))\<rparr>"
  using assms filter_from [of "transcript cid s" "newer (Some (of_nat w))" w] numbered_newer [of s _ cid w]
  by (simp add: fake_replay_def transcripts_ok_def send_all)

section \<open>Sends\<close>

text \<open>Frames that are neither transient nor a bare native one: they are stored under their client id.\<close>

definition is_send :: "json \<Rightarrow> bool" where
  "is_send f \<longleftrightarrow> (case as_str (field f ''type'') of
     Some ty \<Rightarrow> ty \<noteq> ''sync'' \<and> ty \<notin> set FAKE_TRANSIENT \<and> ty \<notin> set FAKE_NATIVE | None \<Rightarrow> False)"

definition noted :: "nat \<Rightarrow> string \<Rightarrow> json \<Rightarrow> fake_server \<Rightarrow> fake_server" where
  "noted k cid f s = s\<lparr>fs_received := fs_received s @ [\<lparr>rf_conversationId = Some cid, rf_frame = f, rf_connection = k\<rparr>]\<rparr>"

lemma noted_rest [simp]:
  "fs_keys (noted k cid f s) = fs_keys s" "transcript c (noted k cid f s) = transcript c s" "fs_out (noted k cid f s) = fs_out s"
  "fs_swallowAcks (noted k cid f s) = fs_swallowAcks s"
  by (simp_all add: noted_def)

lemma onMessage_send:
  assumes "is_send f" "fs_sendErrors s = []" "fake_clientId f = Some c" "map_of (fs_keys s) (fake_key cid c) = old"
  shows "fake_onMessage env k (f_envelope cid f) s
    = (let (stored, s2) = (case old of Some e \<Rightarrow> (e, noted k cid f s) | None \<Rightarrow> store_message env cid f (Some (fake_key cid c)) (noted k cid f s))
       in if fs_swallowAcks s2 then s2 else f_send env k (f_envelope cid (ack_json env c stored (old \<noteq> None))) s2)"
proof -
  obtain ty where ty: "field f ''type'' = Some (JStr ty)" "ty \<noteq> ''sync''" "ty \<notin> set FAKE_TRANSIENT" "ty \<notin> set FAKE_NATIVE"
    using assms(1) by (auto simp: is_send_def split: option.splits)
  have "fake_onMessage env k (f_envelope cid f) s = fake_message env k cid ty f (noted k cid f s)"
    using ty by (simp add: fake_onMessage_def f_envelope_def fake_enveloped_def str_field_def noted_def)
  moreover have "fs_sendErrors (noted k cid f s) = []" using assms(2) by (simp add: noted_def)
  ultimately show ?thesis using assms(3,4) by (cases old) (simp_all add: fake_message_def Let_def split_beta)
qed

lemma store_message_transcript: "transcript cid (snd (store_message env cid f key s)) = transcript cid s @ [fst (store_message env cid f key s)]"
  by (simp add: store_message_def Let_def split_beta store_transcript split: option.split)

lemma send_rest [simp]: "transcript cid (f_send env k j s) = transcript cid s" "fs_keys (f_send env k j s) = fs_keys s"
  by (simp_all add: f_send_def f_perform_def)

lemma first_send:
  assumes "is_send f" "fs_sendErrors s = []" "fake_clientId f = Some c" "map_of (fs_keys s) (fake_key cid c) = None"
  obtains st where "transcript cid (fake_onMessage env k (f_envelope cid f) s) = transcript cid s @ [st]"
    "map_of (fs_keys (fake_onMessage env k (f_envelope cid f) s)) (fake_key cid c) = Some st"
proof -
  let ?m = "store_message env cid f (Some (fake_key cid c)) (noted k cid f s)"
  have "map_of (fs_keys (snd ?m)) (fake_key cid c) = Some (fst ?m)"
    using message_stores(2) [of "Some (fake_key cid c)" cid "Some c" "noted k cid f s"] assms(4) by simp
  then show ?thesis using that store_message_transcript [of cid env f "Some (fake_key cid c)" "noted k cid f s"]
    by (simp add: onMessage_send [OF assms] Let_def split_beta)
qed

lemma repeated_send:
  assumes "is_send f" "fs_sendErrors s = []" "fake_clientId f = Some c" "map_of (fs_keys s) (fake_key cid c) = Some st"
  shows "transcript cid' (fake_onMessage env k (f_envelope cid f) s) = transcript cid' s"
    "fs_out (fake_onMessage env k (f_envelope cid f) s)
      = fs_out s @ (if fs_swallowAcks s \<or> \<not> fe_open env k then [] else [FSend k (f_envelope cid (ack_json env c st True))])"
  by (simp_all add: onMessage_send [OF assms] f_send_def f_perform_def)

text \<open>
  C13. A send is stored exactly once. A message with a client id the conversation has not seen is appended to the
  transcript with the next number. However the run goes on, a later message of the same conversation with the
  same client id leaves every transcript as it is, and is answered by an ack of the frame that was stored first,
  marked as a duplicate.
\<close>

theorem fake_send_exactly_once:
  assumes "transcripts_ok s" "is_send f" "fs_sendErrors s = []" "fake_clientId f = Some c"
    and "map_of (fs_keys s) (fake_key cid c) = None"
    and "s1 = fake_onMessage env k (f_envelope cid f) s" "s2 = run fake_step es s1"
    and "is_send f'" "fs_sendErrors s2 = []" "fake_clientId f' = Some c"
  shows "\<exists>st. transcript cid s1 = transcript cid s @ [st]
    \<and> field st ''seq'' = Some (JNum (of_nat (Suc (length (transcript cid s)))))
    \<and> transcript cid' (fake_onMessage env' k' (f_envelope cid f') s2) = transcript cid' s2
    \<and> fs_out (fake_onMessage env' k' (f_envelope cid f') s2)
      = fs_out s2 @ (if fs_swallowAcks s2 \<or> \<not> fe_open env' k' then [] else [FSend k' (f_envelope cid (ack_json env' c st True))])"
proof -
  obtain st where st: "transcript cid s1 = transcript cid s @ [st]" "map_of (fs_keys s1) (fake_key cid c) = Some st"
    using first_send [OF assms(2-5)] assms(6) by metis
  have "transcripts_ok s1" using assms(1,6) onMessage_serves by (simp add: serves_def)
  then have "numbered_frame (Suc (length (transcript cid s))) st"
    using st(1) unfolding transcripts_ok_def numbered_def by (metis length_append_singleton lessI nth_append_length)
  moreover have "map_of (fs_keys s2) (fake_key cid c) = Some st"
    using fake_run_grown [of s1 es] st(2) unfolding assms(7) grown_def map_le_def by (metis domI)
  ultimately show ?thesis using st(1) repeated_send [OF assms(8-10)] by (simp add: numbered_frame_def)
qed

definition sample_fenv :: fenv where
  "sample_fenv = \<lparr>fe_now = 1, fe_open = (\<lambda>_. True), fe_number = (\<lambda>_. None), fe_holds = (\<lambda>_. False)\<rparr>"

definition sample_message :: json where
  "sample_message = JObj [(''type'', JStr ''text''), (''clientId'', JStr ''k1''), (''data'', JObj [(''text'', JStr ''hi'')])]"

definition sample_stored :: fake_server where
  "sample_stored = run fake_step [(sample_fenv, FBotSays ''c'' ''x'')]
     (fake_onMessage sample_fenv 0 (f_envelope ''c'' sample_message) (new_fake_server 0))"

lemma sample_stored_facts:
  "is_send sample_message \<and> fake_clientId sample_message = Some ''k1'' \<and> fs_sendErrors (new_fake_server 0) = []
   \<and> fs_keys (new_fake_server 0) = [] \<and> fs_sendErrors sample_stored = [] \<and> length (transcript ''c'' sample_stored) = 2"
  by code_simp

theorem fake_send_exactly_once_witness:
  "length (transcript ''c'' (fake_onMessage sample_fenv 0 (f_envelope ''c'' sample_message) sample_stored)) = 2"
  using fake_send_exactly_once [of "new_fake_server 0" sample_message "''k1''" "''c''"
      _ sample_fenv 0 sample_stored "[(sample_fenv, FBotSays ''c'' ''x'')]" sample_message "''c''" sample_fenv 0,
      OF new_fake_ok(1) _ _ _ _ refl sample_stored_def] sample_stored_facts by auto

end
