(* ===== verification/Agent_Server.thy ===== *)
theory Agent_Server
  imports Agent_Turns Fake_Props
begin

text \<open>
  The agent against the fake server. The network carries the texts the server sends to the agent in any
  order, any number of times or never, over any sequence of connections; what reaches the server is any text
  at all. What the agent then knows is true of the server: the turns it handles are stored messages, each
  handled once, and the sends it resolves are stored. Its hello is answered with what it missed.
\<close>

section \<open>Frames the agent received\<close>

fun frames_of :: "g_effect \<Rightarrow> (string \<times> json) list" where
  "frames_of (GNotify f (Some cid)) = [(cid, f)]"
| "frames_of _ = []"

definition agent_frames :: "agent \<Rightarrow> (string \<times> json) list" where
  "agent_frames s = concat (map frames_of (g_out s))"

definition switched :: "string list" where
  "switched = [''ack'', ''error'', ''replayTruncated'', ''resume'', ''abort'']"

text \<open>What the agent reports of turns and acks stems from frames it received.\<close>

definition traced :: "g_effect list \<Rightarrow> bool" where
  "traced es \<longleftrightarrow> (\<forall>cid f. Dispatched cid f \<in> set es \<longrightarrow> GNotify f (Some cid) \<in> set es \<and> type_str f \<notin> set switched)
     \<and> (\<forall>n ack. SendDone n (Some ack) \<in> set es \<longrightarrow> (\<exists>cid. GNotify ack (Some cid) \<in> set es \<and> type_str ack = ''ack''))"

definition traced_ok :: "agent \<Rightarrow> bool" where
  "traced_ok s \<longleftrightarrow> traced (g_out s)"

lemma traced_iff: "traced (filter turn_event es) = traced es"
  by (simp add: traced_def)

lemma traced_still: "still s s' \<Longrightarrow> traced_ok s \<Longrightarrow> traced_ok s'"
  using traced_iff [of "g_out s"] traced_iff [of "g_out s'"] by (simp add: still_def lane_view_def traced_ok_def)

lemma traced_updates [simp]:
  "traced_ok (s\<lparr>g_lanes := a\<rparr>) = traced_ok s" "traced_ok (s\<lparr>g_active := b\<rparr>) = traced_ok s"
  "traced_ok (s\<lparr>g_waiters := c\<rparr>) = traced_ok s" "traced_ok (s\<lparr>g_histories := h\<rparr>) = traced_ok s"
  "traced_ok (s\<lparr>g_tracker := t\<rparr>) = traced_ok s"
  by (simp_all add: traced_ok_def)

fun claims :: "g_effect \<Rightarrow> bool" where
  "claims (Dispatched _ _) = True"
| "claims (SendDone _ (Some _)) = True"
| "claims _ = False"

lemma traced_perform: "\<not> claims e \<Longrightarrow> traced_ok s \<Longrightarrow> traced_ok (g_perform e s)"
proof -
  assume "\<not> claims e" and t: "traced_ok s"
  then have "Dispatched cid f \<in> set (g_out s @ [e]) \<Longrightarrow> Dispatched cid f \<in> set (g_out s)"
    "SendDone n (Some a) \<in> set (g_out s @ [e]) \<Longrightarrow> SendDone n (Some a) \<in> set (g_out s)" for cid f n a by auto
  then show ?thesis using t unfolding traced_ok_def traced_def g_perform_def by fastforce
qed

lemma traced_lane [simp]: "traced_ok (with_phase c ph s) = traced_ok s" "traced_ok (lane_next c s) = traced_ok s"
  "traced_ok (agent_release s) = traced_ok s" "traced_ok (agent_acquire c s) = traced_ok s"
proof -
  show w: "traced_ok (with_phase c ph s) = traced_ok s" for c ph s by (simp add: with_phase_def split: option.split)
  show "traced_ok (lane_next c s) = traced_ok s" by (simp add: lane_next_def split: option.split)
  show "traced_ok (agent_release s) = traced_ok s" "traced_ok (agent_acquire c s) = traced_ok s"
    by (simp_all add: agent_release_def agent_acquire_def w split: list.split)
qed

text \<open>A frame that was just reported.\<close>

definition hears :: "string \<Rightarrow> json \<Rightarrow> agent \<Rightarrow> bool" where
  "hears cid f s \<longleftrightarrow> traced_ok s \<and> GNotify f (Some cid) \<in> set (g_out s)"

lemma hears_notify: "traced_ok s \<Longrightarrow> hears cid f (g_perform (GNotify f (Some cid)) s)"
  using traced_perform [of "GNotify f (Some cid)" s] by (simp add: hears_def g_perform_def)

lemma hears_tracker [simp]: "hears cid f (s\<lparr>g_tracker := t\<rparr>) = hears cid f s" "hears cid f (s\<lparr>g_histories := h\<rparr>) = hears cid f s"
  by (simp_all add: hears_def)

lemma traced_acked: "hears cid f s \<Longrightarrow> type_str f = ''ack'' \<Longrightarrow> traced_ok (acked cid f s)"
  by (auto simp: hears_def acked_def traced_ok_def g_perform_def Let_def split: option.split) (auto simp: traced_def)

lemma traced_dispatch: "hears cid f s \<Longrightarrow> type_str f \<notin> set switched \<Longrightarrow> traced_ok (dispatch_turn cid f s)"
  by (auto simp: hears_def dispatch_turn_def agent_dispatch_def traced_ok_def g_perform_def Let_def split: option.split)
    (auto simp: traced_def)

lemma traced_frame: "hears cid f s \<Longrightarrow> type_str f \<notin> set switched \<Longrightarrow> traced_ok (onConversationFrame cid f s)"
proof -
  assume h: "hears cid f s" and t: "type_str f \<notin> set switched"
  have d: "traced_ok (dispatch_turn cid f (s\<lparr>g_tracker := tr\<rparr>))" "traced_ok s" for tr
    using traced_dispatch [of cid f "s\<lparr>g_tracker := tr\<rparr>"] h t by (simp_all add: hears_def)
  have "traced_ok (history_frame cid x f c s)" for x c
    using d(2) traced_still [OF history_done_still] by (simp add: history_frame_def Let_def)
  then show ?thesis using d traced_dispatch [OF h t] by (simp add: onConversationFrame_def Let_def split_beta split: option.split)
qed

lemma onMessage_traced: "traced_ok s \<Longrightarrow> traced_ok (agent_onMessage env j s)"
proof -
  assume ok: "traced_ok s"
  have "traced_ok (onEnveloped env cid f s)" for cid f
  proof -
    define s1 where "s1 = g_perform (GNotify f (Some cid)) s"
    have s1: "hears cid f s1" "traced_ok s1" using hears_notify [OF ok] by (simp_all add: s1_def hears_def)
    then show ?thesis using traced_still [OF onAck_still traced_acked [OF s1(1)]] traced_frame [OF s1(1)]
      traced_still [OF enveloped_still(1)] traced_still [OF enveloped_still(2)]
      traced_still [OF enveloped_still(3)] traced_still [OF enveloped_still(4)]
      unfolding onEnveloped_def s1_def [symmetric] Let_def by (simp add: switched_def)
  qed
  then show ?thesis using ok traced_still [OF quiet_still [OF onBare_quiet]]
    by (auto simp: agent_onMessage_def split: option.split json.split)
qed

lemma run_handler_traced: "traced_ok s \<Longrightarrow> traced_ok (run_handler env cid s)"
  using traced_still [OF quiet_still [OF new_reply_quiet]]
  by (auto simp: run_handler_def split: option.split intro!: traced_perform)

lemma handler_returns_traced: "traced_ok s \<Longrightarrow> traced_ok (handler_returns env cid cause s)"
  by (auto simp: handler_returns_def Let_def emitError_def split: option.split turn_phase.split
      intro!: traced_perform traced_still [OF quiet_still [OF reply_apply_quiet]] traced_still [OF quiet_still [OF reject_asks_quiet]])

interpretation origins: turn_invariant traced_ok "\<lambda>_. True"
proof unfold_locales
  show "traced_ok s \<Longrightarrow> traced_ok (runTurn cid s)" "traced_ok s \<Longrightarrow> traced_ok (turn_done cid s)" for s cid
    by (simp_all add: runTurn_def turn_done_def split: option.split turn_phase.split)
qed (simp_all add: traced_still onMessage_traced run_handler_traced handler_returns_traced)

section \<open>Frames a message brings\<close>

definition heard_in :: "(string \<times> json) set \<Rightarrow> agent \<Rightarrow> bool" where
  "heard_in H s \<longleftrightarrow> set (agent_frames s) \<subseteq> H"

definition carried_in :: "(string \<times> json) set \<Rightarrow> json \<Rightarrow> bool" where
  "carried_in H j \<longleftrightarrow> as_str (field j ''type'') = None \<longrightarrow>
     (\<forall>cid f. field j ''conversationId'' = Some (JStr cid) \<and> field j ''frame'' = Some f \<longrightarrow> (cid, f) \<in> H)"

lemma heard_still: "still s s' \<Longrightarrow> heard_in H s \<Longrightarrow> heard_in H s'"
proof -
  assume "still s s'" "heard_in H s"
  moreover have "agent_frames s = concat (map frames_of (filter turn_event (g_out s)))" for s
  proof -
    have "\<not> turn_event e \<Longrightarrow> frames_of e = []" for e by (cases e rule: frames_of.cases) simp_all
    then show ?thesis by (simp add: agent_frames_def concat_filter)
  qed
  ultimately show ?thesis by (simp add: still_def lane_view_def heard_in_def)
qed

lemma heard_updates [simp]:
  "heard_in H (s\<lparr>g_lanes := a\<rparr>) = heard_in H s" "heard_in H (s\<lparr>g_active := b\<rparr>) = heard_in H s"
  "heard_in H (s\<lparr>g_waiters := c\<rparr>) = heard_in H s" "heard_in H (s\<lparr>g_histories := h\<rparr>) = heard_in H s"
  "heard_in H (s\<lparr>g_tracker := t\<rparr>) = heard_in H s"
  "heard_in H (g_perform e s) \<longleftrightarrow> heard_in H s \<and> set (frames_of e) \<subseteq> H"
  by (simp_all add: heard_in_def agent_frames_def g_perform_def)

lemma heard_lane [simp]: "heard_in H (with_phase c ph s) = heard_in H s" "heard_in H (lane_next c s) = heard_in H s"
  "heard_in H (agent_release s) = heard_in H s" "heard_in H (agent_acquire c s) = heard_in H s"
proof -
  show w: "heard_in H (with_phase c ph s) = heard_in H s" for c ph s by (simp add: with_phase_def split: option.split)
  show "heard_in H (lane_next c s) = heard_in H s" by (simp add: lane_next_def split: option.split)
  show "heard_in H (agent_release s) = heard_in H s" "heard_in H (agent_acquire c s) = heard_in H s"
    by (simp_all add: agent_release_def agent_acquire_def w split: list.split)
qed

lemma heard_dispatch [simp]: "heard_in H (dispatch_turn cid f s) = heard_in H s"
  by (simp add: dispatch_turn_def agent_dispatch_def Let_def split: option.split)

lemma heard_frame: "heard_in H s \<Longrightarrow> heard_in H (onConversationFrame cid f s)"
  using heard_still [OF history_done_still]
  by (simp add: onConversationFrame_def history_frame_def Let_def split_beta split: option.split)

lemma heard_acked: "heard_in H (acked cid f s) = heard_in H s"
  by (simp add: acked_def Let_def split: option.split)

lemma onMessage_heard: "carried_in H j \<Longrightarrow> heard_in H s \<Longrightarrow> heard_in H (agent_onMessage env j s)"
proof -
  assume j: "carried_in H j" and ok: "heard_in H s"
  have "heard_in H (onEnveloped env cid f s)" if "(cid, f) \<in> H" for cid f
  proof -
    define s1 where "s1 = g_perform (GNotify f (Some cid)) s"
    have s1: "heard_in H s1" using ok that by (simp add: s1_def)
    then show ?thesis using heard_still [OF onAck_still [of cid f s1 env]] heard_frame [OF s1]
      heard_still [OF enveloped_still(1)] heard_still [OF enveloped_still(2)]
      heard_still [OF enveloped_still(3)] heard_still [OF enveloped_still(4)]
      unfolding onEnveloped_def s1_def [symmetric] Let_def by (simp add: heard_acked)
  qed
  then show ?thesis using j ok heard_still [OF quiet_still [OF onBare_quiet]]
    by (auto simp: agent_onMessage_def carried_in_def split: option.split json.split)
qed

lemma run_handler_heard: "heard_in H s \<Longrightarrow> heard_in H (run_handler env cid s)"
  using heard_still [OF quiet_still [OF new_reply_quiet]] by (auto simp: run_handler_def split: option.split)

lemma handler_returns_heard: "heard_in H s \<Longrightarrow> heard_in H (handler_returns env cid cause s)"
  by (auto simp: handler_returns_def Let_def emitError_def split: option.split turn_phase.split
      intro!: heard_still [OF quiet_still [OF reply_apply_quiet]] heard_still [OF quiet_still [OF reject_asks_quiet]])

interpretation hearing: turn_invariant "heard_in H" "carried_in H"
proof unfold_locales
  show "heard_in H s \<Longrightarrow> heard_in H (runTurn cid s)" "heard_in H s \<Longrightarrow> heard_in H (turn_done cid s)" for s cid
    by (simp_all add: runTurn_def turn_done_def split: option.split turn_phase.split)
qed (simp_all add: heard_still onMessage_heard run_handler_heard handler_returns_heard)

section \<open>The system\<close>

fun hears_nothing :: "g_input \<Rightarrow> bool" where
  "hears_nothing (GSocket (KMessage (Some _))) = False"
| "hears_nothing _ = True"

text \<open>
  The agent, the server and the network between them. Texts reach the server freely; the agent gets those the
  server sent, if they survive \<open>JSON.stringify\<close>. Frames a test injects are left out.
\<close>

inductive system :: "agent \<Rightarrow> fake_server \<Rightarrow> agent \<times> fake_server \<Rightarrow> bool" for a0 f0 where
  begins: "system a0 f0 (a0, f0)"
| server_acts: "system a0 f0 (a, f) \<Longrightarrow> scripted i \<Longrightarrow> system a0 f0 (a, fake_step (env, i) f)"
| agent_acts: "system a0 f0 (a, f) \<Longrightarrow> hears_nothing i \<Longrightarrow> system a0 f0 (agent_step (genv, i) a, f)"
| delivers: "system a0 f0 (a, f) \<Longrightarrow> FSend k j \<in> set (fs_out f) \<Longrightarrow> json_ok j \<Longrightarrow>
    system a0 f0 (agent_step (genv, GSocket (KMessage (Some (JSON_stringify j)))) a, f)"

lemma system_runs:
  assumes "system a0 f0 (a, f)"
  shows "\<exists>es. a = run agent_step es a0"
proof -
  have snoc: "run agent_step (es @ [e]) a0 = agent_step e (run agent_step es a0)" for e es by simp
  have "\<exists>es. fst x = run agent_step es a0" if "system a0 f0 x" for x
    using that
  proof induction
    case begins
    show ?case by (rule exI [of _ "[]"]) simp
  qed (metis fst_conv snoc)+
  then show ?thesis using assms by fastforce
qed

text \<open>The frames the server answers for.\<close>

definition genuines :: "fake_server \<Rightarrow> (string \<times> json) set" where
  "genuines f = {(cid, g). genuine cid g f}"

lemma says_carried: "sayable f j \<Longrightarrow> carried_in (genuines f) j"
  by (auto simp: sayable_def carried_in_def genuines_def f_envelope_def)

lemma system_ok:
  assumes "system a0 f0 (a, f)" "sends_ok a0" "traced_ok a0" "g_out a0 = []" "transcripts_ok f0" "honest f0"
  shows "sends_ok a \<and> traced_ok a \<and> transcripts_ok f \<and> honest f \<and> heard_in (genuines f) a"
proof -
  have "sends_ok (fst x) \<and> traced_ok (fst x) \<and> transcripts_ok (snd x) \<and> honest (snd x) \<and> heard_in (genuines (snd x)) (fst x)"
    if "system a0 f0 x" for x
    using that
  proof induction
    case begins
    then show ?case using assms by (simp add: heard_in_def agent_frames_def)
  next
    case (server_acts a f i env)
    then have s: "serves f (fake_step (env, i) f)" by (intro step_serves)
    then have "genuines f \<subseteq> genuines (fake_step (env, i) f)" using genuine_grown by (auto simp: genuines_def serves_def)
    then show ?case using s server_acts.IH by (auto simp: serves_def heard_in_def)
  next
    case (agent_acts a f i genv)
    then have "brings (carried_in (genuines f)) i" by (cases i rule: hears_nothing.cases) simp_all
    then show ?case using agent_acts.IH origins.keeps_step [of a i genv] hearing.keeps_step [of a _ i genv] sends_ok_step [of a "(genv, i)"]
      by (simp add: sends_ok_def)
  next
    case (delivers a f k j genv)
    let ?i = "GSocket (KMessage (Some (JSON_stringify j)))"
    have "brings (carried_in (genuines f)) ?i"
      using delivers says_carried [of f j] JSON_parse_stringify [of j] by (auto simp: honest_def)
    then show ?case using delivers.IH origins.keeps_step [of a ?i genv] hearing.keeps_step [of a _ ?i genv] sends_ok_step [of a "(genv, ?i)"]
      by (simp add: sends_ok_def)
  qed
  then show ?thesis using assms(1) by fastforce
qed

section \<open>Genuine frames\<close>

lemma types_genuine:
  assumes "genuine cid f s" "type_str f \<notin> set switched"
  shows "stored_frame cid f s"
proof -
  have "\<not> acks cid f s" using assms(2) by (auto simp: acks_def ack_json_def type_str_def switched_def)
  then show ?thesis using assms by (auto simp: genuine_def of_type_def type_str_def switched_def)
qed

lemma meta_field [simp]: "k \<noteq> ''meta'' \<Longrightarrow> field (with_field ''meta'' m g) k = field g k"
  by (cases g) (simp_all add: update_conv')

lemma stored_position:
  assumes "stored_frame cid f s" "transcripts_ok s"
  obtains p where "p < length (transcript cid s)" "f = transcript cid s ! p \<or> (\<exists>m. f = with_field ''meta'' m (transcript cid s ! p))"
    "field f ''seq'' = Some (JNum (of_nat (Suc p)))" "field f ''id'' = field (transcript cid s ! p) ''id''"
proof -
  obtain g where g: "g \<in> set (transcript cid s)" "f = g \<or> (\<exists>m. f = with_field ''meta'' m g)" using assms(1) by (auto simp: stored_frame_def)
  then obtain p where p: "p < length (transcript cid s)" "g = transcript cid s ! p" by (auto simp: in_set_conv_nth)
  then have "field g ''seq'' = Some (JNum (of_nat (Suc p)))"
    using assms(2) by (simp add: transcripts_ok_def numbered_def numbered_frame_def)
  then show ?thesis using that [of p] p g(2) by auto
qed

text \<open>Keys tell conversations apart when the ids of conversations have no colon.\<close>

lemma fake_key_inj: "CHR '':'' \<notin> set cid \<Longrightarrow> CHR '':'' \<notin> set cid' \<Longrightarrow> fake_key cid c = fake_key cid' c' \<Longrightarrow> cid = cid'"
proof -
  assume a: "CHR '':'' \<notin> set cid" "CHR '':'' \<notin> set cid'" and k: "fake_key cid c = fake_key cid' c'"
  have t: "takeWhile (\<lambda>x. x \<noteq> CHR '':'') (fake_key i c) = i" if "CHR '':'' \<notin> set i" for i c
  proof -
    have "\<forall>x \<in> set i. x \<noteq> CHR '':''" using that by blast
    then show ?thesis by (simp add: fake_key_def takeWhile_append2)
  qed
  show ?thesis using t [OF a(1), of c] t [OF a(2), of c'] k by simp
qed

lemma acked_position:
  assumes "genuine cid ack s" "type_str ack = ''ack''" "transcripts_ok s" "CHR '':'' \<notin> set cid"
    and "\<And>c. transcript c s \<noteq> [] \<Longrightarrow> CHR '':'' \<notin> set c"
  shows "\<exists>p < length (transcript cid s). field ack ''seq'' = Some (JNum (of_nat (Suc p))) \<and> field ack ''id'' = field (transcript cid s ! p) ''id''"
proof (cases "stored_frame cid ack s")
  case True
  then show ?thesis by (rule stored_position [OF _ assms(3)]) blast
next
  case False
  then have "acks cid ack s" using assms(1,2) by (auto simp: genuine_def of_type_def type_str_def)
  then obtain env c st d where a: "ack = ack_json env c st d" "map_of (fs_keys s) (fake_key cid c) = Some st" by (auto simp: acks_def)
  then obtain cid' c' where k: "fake_key cid c = fake_key cid' c'" "st \<in> set (transcript cid' s)"
    using assms(3) unfolding transcripts_ok_def keyed_def by blast
  then have "transcript cid' s \<noteq> []" by auto
  then have "cid' = cid" using fake_key_inj [OF assms(4) assms(5) k(1)] by simp
  then have "stored_frame cid st s" using k(2) by (auto simp: stored_frame_def)
  moreover have "field ack ''seq'' = field st ''seq''" if "field st ''seq'' \<noteq> None"
    using that by (cases "field st ''id''") (auto simp: a ack_json_def)
  moreover have "field ack ''id'' = field st ''id''" if "field st ''seq'' \<noteq> None"
    using that by (cases "field st ''id''") (auto simp: a ack_json_def)
  ultimately show ?thesis by - (erule stored_position [OF _ assms(3)], auto)
qed

lemma new_agent_traced: "new_agent o' pfx now = Inr s \<Longrightarrow> traced_ok s \<and> g_out s = []"
  by (auto simp: new_agent_def traced_ok_def traced_def split: if_splits)

lemma system_invariant:
  assumes "new_agent o' pfx now = Inr a0" "system a0 (new_fake_server t0) (a, f)"
  shows "lanes_ok a" "seen_ok a" "traced_ok a" "transcripts_ok f" "heard_in (genuines f) a"
proof -
  obtain es where "a = run agent_step es a0" using system_runs [OF assms(2)] by blast
  then show "lanes_ok a" "seen_ok a" using run_turns [OF assms(1)] by simp_all
  show "traced_ok a" "transcripts_ok f" "heard_in (genuines f) a"
    using system_ok [OF assms(2)] new_agent_facts(1) [OF assms(1)] new_agent_traced [OF assms(1)] by simp_all
qed

lemma notified_genuine: "heard_in (genuines f) a \<Longrightarrow> GNotify g (Some cid) \<in> set (g_out a) \<Longrightarrow> genuine cid g f"
  unfolding heard_in_def agent_frames_def genuines_def by force

lemma dispatched_set: "f \<in> set (dispatched_of cid e) \<Longrightarrow> e = Dispatched cid f"
  by (cases e) (auto split: if_splits)

lemma started_stored:
  assumes "lanes_ok a" "traced_ok a" "heard_in (genuines f) a" "t \<in> set (agent_started cid a)"
  shows "stored_frame cid t f"
proof -
  have "t \<in> set (agent_dispatched cid a)" using list_emb_set [OF started_dispatched [OF assms(1)] assms(4)] by blast
  then have d: "Dispatched cid t \<in> set (g_out a)" by (auto simp: agent_dispatched_def dest!: dispatched_set)
  then have "genuine cid t f" "type_str t \<notin> set switched"
    using assms(2) notified_genuine [OF assms(3)] by (auto simp: traced_ok_def traced_def)
  then show ?thesis by (rule types_genuine)
qed

section \<open>Hello\<close>

lemma replay_from:
  assumes "transcripts_ok s" "fe_open env k"
  shows "fake_replay env k cid (Some (of_int w)) s
    = s\<lparr>fs_out := fs_out s @ map (\<lambda>f. FSend k (f_envelope cid f)) (drop (nat w) (transcript cid s))\<rparr>"
proof -
  have "newer (Some (of_int w)) (transcript cid s ! i) \<longleftrightarrow> nat w \<le> i" if "i < length (transcript cid s)" for i
    using assms(1) that by (auto simp: transcripts_ok_def numbered_def numbered_frame_def newer_def)
  then show ?thesis using filter_from [of "transcript cid s" "newer (Some (of_int w))" "nat w"] assms(2)
    by (simp add: fake_replay_def send_all)
qed

text \<open>What an agent at these watermarks missed.\<close>

definition missed :: "nat \<Rightarrow> (string \<times> int) list \<Rightarrow> fake_server \<Rightarrow> f_effect list" where
  "missed k ws f = concat (map (\<lambda>(cid, w). map (\<lambda>g. FSend k (f_envelope cid g)) (drop (nat w) (transcript cid f))) ws)"

lemma transcripts_ok_out [simp]: "transcripts_ok (s\<lparr>fs_out := x\<rparr>) = transcripts_ok s"
  by (simp add: transcripts_ok_def numbered_def keyed_def)

lemma missed_out [simp]: "missed k ws (s\<lparr>fs_out := x\<rparr>) = missed k ws s"
  by (simp add: missed_def)

lemma replays:
  assumes "transcripts_ok s" "fe_open env k"
  shows "fold (\<lambda>(cid, w). fake_replay env k cid (to_number env w)) (map (\<lambda>(cid, n). (cid, JNum (of_int n))) ws) s
    = s\<lparr>fs_out := fs_out s @ missed k ws s\<rparr>"
  using assms(1)
proof (induction ws arbitrary: s)
  case (Cons w ws)
  obtain cid n where w: "w = (cid, n)" by fastforce
  define s1 where "s1 = s\<lparr>fs_out := fs_out s @ map (\<lambda>f. FSend k (f_envelope cid f)) (drop (nat n) (transcript cid s))\<rparr>"
  have "fake_replay env k cid (to_number env (JNum (of_int n))) s = s1"
    unfolding s1_def by (simp add: to_number_def replay_from [OF Cons.prems assms(2)])
  then have "fold (\<lambda>(cid, w). fake_replay env k cid (to_number env w)) (map (\<lambda>(cid, n). (cid, JNum (of_int n))) (w # ws)) s
    = s1\<lparr>fs_out := fs_out s1 @ missed k ws s1\<rparr>" using Cons.IH [of s1] Cons.prems by (simp add: w s1_def)
  also have "\<dots> = s\<lparr>fs_out := fs_out s @ missed k (w # ws) s\<rparr>" by (simp add: s1_def) (simp add: missed_def w)
  finally show ?case .
qed (simp add: missed_def)

lemma hello_fields:
  "field (agent_hello token a) ''type'' = Some (JStr ''hello'')" "field (agent_hello token a) ''token'' = Some (JStr token)"
  "members (case nullish (field (agent_hello token a) ''watermarks'') None of Some j \<Rightarrow> j | None \<Rightarrow> JObj [])
    = map (\<lambda>(cid, n). (cid, JNum (of_int n))) (agent_watermarks a)"
  by (auto simp: agent_hello_def nullish_def watermarks_json_def)

lemma hello_json_ok: "tracker_ok (g_tracker a) \<Longrightarrow> json_ok (agent_hello token a)"
proof -
  assume "tracker_ok (g_tracker a)"
  moreover have "map fst (map (\<lambda>(cid, n). (cid, JNum (of_int n))) (agent_watermarks a)) = tracked (g_tracker a)"
    by (simp add: agent_watermarks_def tracker_snapshot_def tracked_def split_beta comp_def)
  ultimately have "json_ok (watermarks_json (agent_watermarks a))"
    by (auto simp: watermarks_json_def tracker_ok_def is_integer_def simp del: map_map)
  then show ?thesis by (auto simp: agent_hello_def)
qed

lemma hello_handled:
  assumes "transcripts_ok f" "fe_open env k" "token \<notin> set (fs_rejectedTokens f)"
  shows "fs_out (fake_onMessage env k (agent_hello token a) f) = fs_out f @ FSend k (welcome_json k f) # missed k (agent_watermarks a) f"
proof -
  define r where "r = fs_received f @ [\<lparr>rf_conversationId = None, rf_frame = agent_hello token a, rf_connection = k\<rparr>]"
  define s1 where "s1 = f\<lparr>fs_received := r, fs_hellos := fs_hellos f @ [agent_hello token a],
    fs_connections := map (\<lambda>c. if fc_index c = k then c\<lparr>fc_hello := Some (agent_hello token a)\<rparr> else c) (fs_connections f)\<rparr>"
  have s1: "transcripts_ok s1" "fs_out s1 = fs_out f" "welcome_json k s1 = welcome_json k f" "missed k ws s1 = missed k ws f" for ws
    using assms(1) by (simp_all add: s1_def transcripts_ok_def numbered_def keyed_def welcome_json_def missed_def)
  have "agent_hello token a \<noteq> JNull" by (simp add: agent_hello_def)
  then have "fake_onMessage env k (agent_hello token a) f = fold (\<lambda>(cid, w). fake_replay env k cid (to_number env w))
    (map (\<lambda>(cid, n). (cid, JNum (of_int n))) (agent_watermarks a)) (f_send env k (welcome_json k s1) s1)"
    using assms(3) by (simp add: fake_onMessage_def hello_fields fake_bare_def fake_hello_def Let_def r_def [symmetric] s1_def)
  then show ?thesis using replays [of "f_send env k (welcome_json k s1) s1" env k "agent_watermarks a"] assms(2) s1
    by (simp add: f_send_def f_perform_def)
qed

section \<open>A sample\<close>

text \<open>
  Conversations of the agent and the server that can be replayed: a step of either, a message of the agent
  that reaches the server, or the \<open>n\<close>-th message of the server that reaches the agent.
\<close>

datatype talk = ServerDoes f_input | AgentDoes genv g_input | Up json | Down genv nat

definition agent_hear :: "genv \<Rightarrow> json \<Rightarrow> agent \<Rightarrow> agent" where
  "agent_hear env j s =
     (case g_socket s of
        None \<Rightarrow> s
      | Some k \<Rightarrow>
          (let k' = (if k_attached k \<and> k_opened k then asocket_record j (k\<lparr>k_lastIn := te_now (ge_t env)\<rparr>) else k)
           in fold (agent_handle env) (drop (length (k_out k)) (k_out k')) (s\<lparr>g_socket := Some k'\<rparr>)))"

definition fake_hear :: "fenv \<Rightarrow> nat \<Rightarrow> json \<Rightarrow> fake_server \<Rightarrow> fake_server" where
  "fake_hear env k j s = (let s1 = fake_onMessage env k j s in fold (check_waiter env) (fs_waiters s1) s1)"

fun sent_by :: "f_effect \<Rightarrow> json list" where
  "sent_by (FSend _ j) = [j]"
| "sent_by _ = []"

definition fake_sent :: "fake_server \<Rightarrow> json list" where
  "fake_sent f = concat (map sent_by (fs_out f))"

fun converse :: "fenv \<Rightarrow> talk list \<Rightarrow> agent \<times> fake_server \<Rightarrow> (agent \<times> fake_server) option" where
  "converse env [] x = Some x"
| "converse env (ServerDoes i # ts) (a, f) = (if scripted i then converse env ts (a, fake_step (env, i) f) else None)"
| "converse env (AgentDoes genv i # ts) (a, f) = (if hears_nothing i then converse env ts (agent_step (genv, i) a, f) else None)"
| "converse env (Up j # ts) (a, f) = (if json_ok j \<and> isRecord j then converse env ts (a, fake_hear env 0 j f) else None)"
| "converse env (Down genv n # ts) (a, f) =
     (if n < length (fake_sent f) \<and> json_ok (fake_sent f ! n) \<and> isRecord (fake_sent f ! n)
      then converse env ts (agent_hear genv (fake_sent f ! n) a, f) else None)"

lemma hear_text:
  assumes "json_ok j" "isRecord j"
  shows "agent_step (env, GSocket (KMessage (Some (JSON_stringify j)))) s = agent_hear env j s"
    and "fake_step (fenv, FText k (JSON_stringify j)) f = fake_hear fenv k j f"
proof -
  note p = JSON_parse_stringify [OF assms(1)]
  have r: "as_record (Some j) = Some j" using assms(2) by simp
  show "agent_step (env, GSocket (KMessage (Some (JSON_stringify j)))) s = agent_hear env j s"
    by (simp add: agent_socket_def agent_hear_def asocket_onmessage_def p r Let_def split: option.split)
  show "fake_step (fenv, FText k (JSON_stringify j)) f = fake_hear fenv k j f"
    using assms(2) p by (cases j) (simp_all add: fake_onText_def fake_hear_def)
qed

lemma converse_system: "system a0 f0 x \<Longrightarrow> converse env ts x = Some y \<Longrightarrow> system a0 f0 y"
proof (induction env ts x rule: converse.induct)
  case (4 env j ts a f)
  then have j: "json_ok j" "isRecord j" by (auto split: if_splits)
  have "system a0 f0 (a, fake_step (env, FText 0 (JSON_stringify j)) f)" using 4 by (intro system.intros) simp_all
  then have "system a0 f0 (a, fake_hear env 0 j f)" unfolding hear_text(2) [OF j] .
  then show ?case using 4 j by simp
next
  case (5 env genv n ts a f)
  define j where "j = fake_sent f ! n"
  have j: "json_ok j" "isRecord j" "n < length (fake_sent f)" using 5 by (auto simp: j_def split: if_splits)
  then have "j \<in> set (fake_sent f)" by (simp add: j_def)
  then obtain e where "e \<in> set (fs_out f)" "j \<in> set (sent_by e)" by (auto simp: fake_sent_def)
  then obtain k where "FSend k j \<in> set (fs_out f)" by (cases e rule: sent_by.cases) auto
  then have "system a0 f0 (agent_step (genv, GSocket (KMessage (Some (JSON_stringify j)))) a, f)" using 5 j by (intro system.intros) simp_all
  then have "system a0 f0 (agent_hear genv j a, f)" unfolding hear_text(1) [OF j(1,2)] .
  then show ?case using 5 j by (simp add: j_def)
qed (auto split: if_splits intro: system.intros)

definition sample_talk :: "talk list" where
  "sample_talk =
     [AgentDoes (sample_genv 0) GOnTurn, AgentDoes (sample_genv 0) GStart, AgentDoes (sample_genv 10) (GSocket KOpen),
      ServerDoes FConnection, Up (agent_hello ''t'' sample_agent), Down (sample_genv 20) 0,
      ServerDoes (FUserSays ''c'' (Inl ''hi'') True None), Down (sample_genv 30) 1, Down (sample_genv 30) 1,
      AgentDoes (sample_genv 30) (GLane ''c''), AgentDoes (sample_genv 30) (GGranted ''c''),
      AgentDoes (sample_genv 40) (GSend ''c'' (JObj [(''type'', JStr ''text''), (''id'', JStr ''a'')])),
      Up (envelope_json ''c'' (JObj [(''type'', JStr ''text''), (''id'', JStr ''a'')])), Down (sample_genv 50) 2]"

fun ack_of :: "g_effect \<Rightarrow> (nat \<times> json) list" where
  "ack_of (SendDone n (Some ack)) = [(n, ack)]"
| "ack_of _ = []"

lemma ack_of_set: "map fst (concat (map ack_of es)) = [n] \<Longrightarrow> \<exists>ack. SendDone n (Some ack) \<in> set es"
proof -
  assume "map fst (concat (map ack_of es)) = [n]"
  then have "n \<in> fst ` set (concat (map ack_of es))" by (metis list.set_intros(1) set_map)
  then obtain e ack where e: "e \<in> set es" "(n, ack) \<in> set (ack_of e)" by auto
  have "e = SendDone n (Some ack)" using e(2) by (cases e rule: ack_of.cases) simp_all
  then show ?thesis using e(1) by blast
qed

definition talk_digest :: "agent \<times> fake_server \<Rightarrow> nat \<times> nat \<times> nat list \<times> string list \<times> (string \<times> int) list \<times> string list" where
  "talk_digest x = (length (agent_started ''c'' (fst x)), length (transcript ''c'' (snd x)),
     map fst (concat (map ack_of (g_out (fst x)))), agent_heard (fst x), agent_watermarks (fst x),
     map fst (fs_transcripts (snd x)))"

lemma sample_talk_digest:
  "map_option talk_digest (converse sample_fenv sample_talk (sample_agent, new_fake_server 0)) = Some (1, 2, [0], [''c'', ''c'', ''c''], [(''c'', 2)], [''c''])"
  by code_simp

definition sample_end :: "agent \<times> fake_server" where
  "sample_end = the (converse sample_fenv sample_talk (sample_agent, new_fake_server 0))"

lemma sample_end_facts:
  "system sample_agent (new_fake_server 0) (fst sample_end, snd sample_end)"
  "length (agent_started ''c'' (fst sample_end)) = 1" "length (transcript ''c'' (snd sample_end)) = 2"
  "\<exists>ack. SendDone 0 (Some ack) \<in> set (g_out (fst sample_end))" "agent_heard (fst sample_end) = [''c'', ''c'', ''c'']"
  "agent_watermarks (fst sample_end) = [(''c'', 2)]" "g_options (fst sample_end) = sample_agent_options"
  "map fst (fs_transcripts (snd sample_end)) = [''c'']"
proof -
  obtain x where x: "converse sample_fenv sample_talk (sample_agent, new_fake_server 0) = Some x"
    "talk_digest x = (1, 2, [0], [''c'', ''c'', ''c''], [(''c'', 2)], [''c''])" using sample_talk_digest by auto
  then have e: "sample_end = x" by (simp add: sample_end_def)
  show s: "system sample_agent (new_fake_server 0) (fst sample_end, snd sample_end)"
    using converse_system [OF system.begins x(1)] by (simp add: e)
  obtain es where "fst sample_end = run agent_step es sample_agent" using system_runs [OF s] by blast
  then show "g_options (fst sample_end) = sample_agent_options" using run_options new_agent_facts [OF sample_new] by simp
  show "length (agent_started ''c'' (fst sample_end)) = 1" "length (transcript ''c'' (snd sample_end)) = 2"
    "agent_heard (fst sample_end) = [''c'', ''c'', ''c'']" "agent_watermarks (fst sample_end) = [(''c'', 2)]"
    "map fst (fs_transcripts (snd sample_end)) = [''c'']"
    using x(2) by (simp_all add: e talk_digest_def)
  show "\<exists>ack. SendDone 0 (Some ack) \<in> set (g_out (fst sample_end))"
    using x(2) by (intro ack_of_set) (simp add: e talk_digest_def)
qed

text \<open>The agent has the first message of two.\<close>

definition sample_missing :: "talk list" where
  "sample_missing =
     [AgentDoes (sample_genv 0) GOnTurn, AgentDoes (sample_genv 0) GStart, AgentDoes (sample_genv 10) (GSocket KOpen),
      ServerDoes FConnection, ServerDoes (FUserSays ''c'' (Inl ''hi'') True None), Down (sample_genv 30) 0,
      ServerDoes (FUserSays ''c'' (Inl ''ho'') False None)]"

lemma sample_missing_digest:
  "map_option (\<lambda>(a, f). (agent_watermarks a, length (transcript ''c'' f), fs_rejectedTokens f))
     (converse sample_fenv sample_missing (sample_agent, new_fake_server 0)) = Some ([(''c'', 1)], 2, [])"
  by code_simp

section \<open>Properties\<close>

text \<open>
  C9. Against the fake server, over a network that loses, repeats and reorders what the server sends, the agent's
  handler runs at most once per stored message: every turn it handled is a message of the conversation's
  transcript (with the \<open>meta\<close> of its delivery, if it had any), and different turns are different messages.
\<close>

theorem handled_turns_are_stored:
  assumes "new_agent o' pfx now = Inr a0" "system a0 (new_fake_server t0) (a, f)"
    and "card (known a) \<le> tracked_capacity (g_options a)"
  shows "\<exists>ps. distinct ps \<and> list_all2 (\<lambda>t p. p < length (transcript cid f)
    \<and> (t = transcript cid f ! p \<or> (\<exists>m. t = with_field ''meta'' m (transcript cid f ! p)))) (agent_started cid a) ps"
proof -
  note inv = system_invariant [OF assms(1,2)]
  define pos where "pos t = (SOME p. p < length (transcript cid f) \<and> field t ''seq'' = Some (JNum (of_nat (Suc p)))
    \<and> (t = transcript cid f ! p \<or> (\<exists>m. t = with_field ''meta'' m (transcript cid f ! p))))" for t
  have pos: "pos t < length (transcript cid f) \<and> field t ''seq'' = Some (JNum (of_nat (Suc (pos t))))
    \<and> (t = transcript cid f ! pos t \<or> (\<exists>m. t = with_field ''meta'' m (transcript cid f ! pos t)))"
    if "t \<in> set (agent_started cid a)" for t
    unfolding pos_def by (rule someI_ex, rule stored_position [OF started_stored [OF inv(1,3,5) that] inv(4)]) blast
  have "turn_key cid t = [(cid, int (Suc (pos t)))]" if "t \<in> set (agent_started cid a)" for t
    using pos [OF that] by (simp add: turn_key_def valid_seq_def is_integer_def)
  then have "concat (map (turn_key cid) ts) = map (\<lambda>p. (cid, int (Suc p))) (map pos ts)" if "set ts \<subseteq> set (agent_started cid a)" for ts
    using that by (induction ts) simp_all
  then have "distinct (map (\<lambda>p. (cid, int (Suc p))) (map pos (agent_started cid a)))"
    using started_once [OF inv(1,2) assms(3), of cid] by (metis order_refl)
  then have "distinct (map pos (agent_started cid a))" using distinct_map by blast
  then show ?thesis using pos by (intro exI [of _ "map pos (agent_started cid a)"]) (auto simp: list_all2_map2 list.rel_refl_strong intro!: list.rel_refl_strong)
qed

theorem handled_turns_are_stored_witness:
  "length (agent_started ''c'' (fst sample_end)) = 1 \<and> (\<exists>p. p < length (transcript ''c'' (snd sample_end))
     \<and> (hd (agent_started ''c'' (fst sample_end)) = transcript ''c'' (snd sample_end) ! p
        \<or> (\<exists>m. hd (agent_started ''c'' (fst sample_end)) = with_field ''meta'' m (transcript ''c'' (snd sample_end) ! p))))"
proof -
  have "known (fst sample_end) = {''c''}" using sample_end_facts by (auto simp: known_def sample_agent_options_def)
  moreover have "tracked_capacity (g_options (fst sample_end)) = 1000"
    using sample_end_facts(7) by (simp add: tracked_capacity_def sample_agent_options_def or_default_def)
  ultimately show ?thesis using handled_turns_are_stored [OF sample_new sample_end_facts(1), of "''c''"] sample_end_facts(2)
    by (cases "agent_started ''c'' (fst sample_end)") (auto simp: list_all2_Cons1)
qed


lemma sample_colon: "CHR '':'' \<notin> set ''c''"
  by simp


text \<open>
  C11. A reconnecting agent misses nothing: the server answers its hello with a welcome and then, for each
  conversation the agent has a position in, exactly the rest of the transcript after that position, in order.
\<close>

theorem hello_is_answered:
  assumes "new_agent o' pfx now = Inr a0" "system a0 (new_fake_server t0) (a, f)"
    and "fe_open env k" "token \<notin> set (fs_rejectedTokens f)"
  shows "prefix (fs_out f @ FSend k (welcome_json k f) # concat (map (\<lambda>(cid, w). map (\<lambda>g. FSend k (f_envelope cid g))
      (drop (nat w) (transcript cid f))) (agent_watermarks a)))
    (fs_out (fake_step (env, FText k (JSON_stringify (agent_hello token a))) f))"
proof -
  note inv = system_invariant [OF assms(1,2)]
  have j: "json_ok (agent_hello token a)" "isRecord (agent_hello token a)"
    using inv(2) hello_json_ok by (simp_all add: seen_ok_def) (simp add: agent_hello_def)
  have "says s (fold (check_waiter env) ws s)" for ws s by (rule says_fold) (auto intro: check_says)
  then have "grown s (fold (check_waiter env) ws s)" for ws s by (rule says_grown)
  then have "prefix (fs_out s) (fs_out (fold (check_waiter env) ws s))" for ws s by (simp add: grown_def)
  from this [of "fake_onMessage env k (agent_hello token a) f"] show ?thesis
    unfolding hear_text(2) [OF j] fake_hear_def Let_def missed_def [symmetric]
    by (simp add: hello_handled [OF inv(4) assms(3,4)])
qed

theorem hello_is_answered_witness:
  "\<exists>a f. system sample_agent (new_fake_server 0) (a, f) \<and> length (transcript ''c'' f) = 2
     \<and> prefix (fs_out f @ [FSend 1 (welcome_json 1 f), FSend 1 (f_envelope ''c'' (transcript ''c'' f ! 1))])
         (fs_out (fake_step (sample_fenv, FText 1 (JSON_stringify (agent_hello ''t'' a))) f))"
proof -
  obtain a f where x: "converse sample_fenv sample_missing (sample_agent, new_fake_server 0) = Some (a, f)"
    "agent_watermarks a = [(''c'', 1)]" "length (transcript ''c'' f) = 2" "fs_rejectedTokens f = []"
    using sample_missing_digest by auto
  have s: "system sample_agent (new_fake_server 0) (a, f)" using converse_system [OF system.begins x(1)] .
  have "drop 1 (transcript ''c'' f) = [transcript ''c'' f ! 1]" using x(3) by (cases "transcript ''c'' f") (auto simp: length_Suc_conv)
  then show ?thesis using hello_is_answered [OF sample_new s, of sample_fenv 1 "''t''"] s x(2-4) by (auto simp: sample_fenv_def)
qed

end
