(* ===== verification/Load_Subscriber.thy ===== *)
theory Load_Subscriber
  imports Transport Backoff
begin

text \<open>
  The subscriber and the sender of the load scenarios, \<open>load/lib/converger.js\<close>. A subscriber follows one
  conversation over reconnects, keeps the highest number up to which it has everything and the numbers beyond
  a hole, and at the end asks for the head and records what it misses as lost. A socket is its number; the
  callbacks of sockets and timers are steps, and what the code adds to a metric is logged.
\<close>

section \<open>Values\<close>

fun js_truthy :: "json option \<Rightarrow> bool" where
  "js_truthy None = False"
| "js_truthy (Some JNull) = False"
| "js_truthy (Some (JBool b)) = b"
| "js_truthy (Some (JNum x)) = (x \<noteq> 0)"
| "js_truthy (Some (JStr t)) = (t \<noteq> [])"
| "js_truthy (Some _) = True"

definition or_json :: "json option \<Rightarrow> json option \<Rightarrow> json option" where
  "or_json a b = (if js_truthy a then a else b)"

text \<open>\<open>a && b\<close> for a property of \<open>a\<close>.\<close>

definition and_field :: "json option \<Rightarrow> string \<Rightarrow> json option" where
  "and_field a k = (if js_truthy a then ofield a k else a)"

text \<open>The text of a load message: its send time.\<close>

definition sentAt :: "json option \<Rightarrow> jsnum option" where
  "sentAt v =
     (let text = (if js_truthy v then js_str (the v) else []);
          ds = takeWhile is_digit (drop 5 text)
      in if take 5 text = ''load '' \<and> ds \<noteq> [] \<and> take 1 (drop (5 + length ds) text) = '' '' then Some (of_nat (str_nat ds)) else None)"

section \<open>State\<close>

datatype s_metric =
    MConnect jsnum | MReconnect jsnum | ME2e jsnum
  | MConnected | MReconnects | MUnexpectedClose | MConnectError
  | MFrame | MReplayed | MGapResynced | MReplayUnavailable | MDuplicate
  | MLost jsnum | MUnverified
  | MAcked | MSendRetry | MSendFailed

datatype s_effect =
    SSocket nat string
  | SSend nat json
  | SClose nat
  | SMetric s_metric
  | SResolved nat
  | SThrow

text \<open>The variables of a call of \<open>finish\<close>; the head is \<open>null\<close> until an answer brought one.\<close>

datatype head_seq = NoHead | Head "json option"

record finishing =
  fi_deadline :: jsnum
  fi_head :: head_seq
  fi_timer :: "unit timer"

record subscriber =
  sub_urls :: "string list"
  sub_node :: nat
  sub_measureLatency :: bool
  sub_pingEveryMs :: jsnum
  sub_lastSeq :: jsnum
  sub_ws :: "nat option"
  sub_stopped :: bool
  sub_closedAt :: "jsnum option"
  sub_welcomed :: bool
  sub_headAtWelcome :: "jsnum option"
  sub_pending :: "nat option"
  sub_nonce :: nat
  sub_everConnected :: bool
  sub_startedAt :: "jsnum option"
  sub_failures :: nat
  sub_retryAfterMs :: jsnum
  sub_maxSeen :: jsnum
  sub_ahead :: "jsnum list"
  sub_connSeen :: "jsnum list"
  sub_connSynced :: bool
  sub_syncTimer :: "unit timer"
  sub_pendingReplay :: bool
  sub_pinger :: "unit timer"
  sub_sockets :: nat
  sub_closed :: "nat list"
  sub_reconnects :: "jsnum list"
  sub_finishes :: "finishing list"
  sub_out :: "s_effect list"

text \<open>The clock, \<open>Math.random\<close>, whether a socket takes a text, \<open>Number(value)\<close> of what is no number (\<open>None\<close> is \<open>NaN\<close>).\<close>

record senv =
  se_now :: jsnum
  se_node_random :: jsnum
  se_random :: jsnum
  se_sends :: bool
  se_number :: "json \<Rightarrow> jsnum option"

definition s_perform :: "s_effect \<Rightarrow> subscriber \<Rightarrow> subscriber" where
  "s_perform e s = s\<lparr>sub_out := sub_out s @ [e]\<rparr>"

definition s_add :: "s_metric \<Rightarrow> subscriber \<Rightarrow> subscriber" where
  "s_add m s = s_perform (SMetric m) s"

definition s_number :: "senv \<Rightarrow> json option \<Rightarrow> jsnum option" where
  "s_number env v = (case v of None \<Rightarrow> None | Some (JNum x) \<Rightarrow> Some x | Some j \<Rightarrow> se_number env j)"

definition BACKOFF_MAX_MS :: jsnum where "BACKOFF_MAX_MS = 5000"

definition new_subscriber :: "string list \<Rightarrow> nat \<Rightarrow> string \<Rightarrow> bool \<Rightarrow> jsnum \<Rightarrow> subscriber" where
  "new_subscriber urls start token measureLatency pingEveryMs =
     \<lparr>sub_urls = map (\<lambda>u. u @ ''?token='' @ encodeURIComponent token) urls, sub_node = start mod length urls,
      sub_measureLatency = measureLatency, sub_pingEveryMs = pingEveryMs, sub_lastSeq = 0, sub_ws = None, sub_stopped = False,
      sub_closedAt = None, sub_welcomed = False, sub_headAtWelcome = Some 0, sub_pending = None, sub_nonce = 0,
      sub_everConnected = False, sub_startedAt = None, sub_failures = 0, sub_retryAfterMs = 0, sub_maxSeen = 0, sub_ahead = [],
      sub_connSeen = [], sub_connSynced = False, sub_syncTimer = Unset, sub_pendingReplay = False, sub_pinger = Unset,
      sub_sockets = 0, sub_closed = [], sub_reconnects = [], sub_finishes = [], sub_out = []\<rparr>"

section \<open>Connections\<close>

definition sub_connect :: "subscriber \<Rightarrow> subscriber" where
  "sub_connect s =
     (s_perform (SSocket (sub_sockets s) (sub_urls s ! sub_node s)) s)
       \<lparr>sub_ws := Some (sub_sockets s), sub_sockets := Suc (sub_sockets s), sub_welcomed := False, sub_retryAfterMs := 0\<rparr>"

definition sub_start :: "senv \<Rightarrow> subscriber \<Rightarrow> subscriber" where
  "sub_start env s = (sub_connect (s\<lparr>sub_startedAt := Some (se_now env)\<rparr>))\<lparr>sub_pinger := Armed (sub_pingEveryMs s) ()\<rparr>"

definition sub_send :: "senv \<Rightarrow> json \<Rightarrow> subscriber \<Rightarrow> subscriber" where
  "sub_send env frame s =
     (case sub_ws s of
        Some w \<Rightarrow> if sub_welcomed s \<and> se_sends env then s_perform (SSend w frame) s else s
      | None \<Rightarrow> s)"

definition ping_json :: "string \<Rightarrow> json" where
  "ping_json nonce = JObj [(''type'', JStr ''ping''), (''nonce'', JStr nonce)]"

definition ping_fires :: "senv \<Rightarrow> subscriber \<Rightarrow> subscriber" where
  "ping_fires env s =
     (case sub_pinger s of
        Armed _ _ \<Rightarrow> sub_send env (ping_json (''k-'' @ nat_str (Suc (sub_nonce s)))) (s\<lparr>sub_nonce := Suc (sub_nonce s)\<rparr>)
      | _ \<Rightarrow> s)"

definition sub_hello :: "subscriber \<Rightarrow> json" where
  "sub_hello s = JObj ([(''type'', JStr ''hello''), (''protocol'', JStr ''converger/1'')]
     @ (if sub_lastSeq s > 0 then [(''watermark'', JNum (sub_lastSeq s))] else []))"

definition sub_onopen :: "nat \<Rightarrow> subscriber \<Rightarrow> subscriber" where
  "sub_onopen w s = s_perform (SSend w (sub_hello s)) (s\<lparr>sub_connSeen := [], sub_connSynced := False\<rparr>)"

definition noteRetryAfter :: "jsnum option \<Rightarrow> subscriber \<Rightarrow> subscriber" where
  "noteRetryAfter ms s =
     (case ms of Some x \<Rightarrow> if x > 0 then s\<lparr>sub_retryAfterMs := max (sub_retryAfterMs s) x\<rparr> else s | None \<Rightarrow> s)"

definition next_node :: "senv \<Rightarrow> subscriber \<Rightarrow> nat" where
  "next_node env s =
     (if length (sub_urls s) > 1
      then (sub_node s + 1 + nat \<lfloor>se_node_random env * of_nat (length (sub_urls s) - 1)\<rfloor>) mod length (sub_urls s)
      else sub_node s)"

definition reconnect_delay :: "senv \<Rightarrow> subscriber \<Rightarrow> jsnum" where
  "reconnect_delay env s =
     (let backoff = min BACKOFF_MAX_MS (250 * 2 ^ sub_failures s)
      in max (sub_retryAfterMs s) (backoff / 2 + se_random env * backoff / 2))"

definition dropped :: "senv \<Rightarrow> nat \<Rightarrow> subscriber \<Rightarrow> subscriber" where
  "dropped env w s =
     (if sub_ws s \<noteq> Some w then s
      else
        (let s1 = s\<lparr>sub_ws := None\<rparr> in
         if sub_stopped s1 then s1
         else
           (let s2 = (if sub_welcomed s1 then s_add MUnexpectedClose s1 else s1);
                s3 = s2\<lparr>sub_closedAt := (case sub_closedAt s2 of None \<Rightarrow> Some (se_now env) | Some t \<Rightarrow> Some t),
                        sub_node := next_node env s2\<rparr>
            in s3\<lparr>sub_failures := Suc (sub_failures s3), sub_reconnects := sub_reconnects s3 @ [reconnect_delay env s3]\<rparr>)))"

definition sub_onerror :: "senv \<Rightarrow> nat \<Rightarrow> subscriber \<Rightarrow> subscriber" where
  "sub_onerror env w s = dropped env w (if sub_welcomed s then s else s_add MConnectError s)"

definition retryAfterFromClose :: "string option \<Rightarrow> jsnum option" where
  "retryAfterFromClose reason = (case reason of Some r \<Rightarrow> retryAfterFromReason r | None \<Rightarrow> None)"

definition sub_onclose :: "senv \<Rightarrow> nat \<Rightarrow> string option \<Rightarrow> subscriber \<Rightarrow> subscriber" where
  "sub_onclose env w reason s = dropped env w (noteRetryAfter (retryAfterFromClose reason) s)"

definition reconnect_fires :: "nat \<Rightarrow> subscriber \<Rightarrow> subscriber" where
  "reconnect_fires i s =
     (if i < length (sub_reconnects s) then
        (let s1 = s\<lparr>sub_reconnects := take i (sub_reconnects s) @ drop (Suc i) (sub_reconnects s)\<rparr>
         in if sub_stopped s1 then s1 else sub_connect s1)
      else s)"

definition close_socket :: "nat \<Rightarrow> subscriber \<Rightarrow> subscriber" where
  "close_socket w s = s_perform (SClose w) (s\<lparr>sub_ws := None, sub_closed := w # sub_closed s\<rparr>)"

definition forceReconnect :: "senv \<Rightarrow> subscriber \<Rightarrow> subscriber" where
  "forceReconnect env s =
     (case sub_ws s of
        None \<Rightarrow> s
      | Some w \<Rightarrow> sub_connect (close_socket w (s\<lparr>sub_closedAt := Some (se_now env)\<rparr>)))"

definition sub_stop :: "subscriber \<Rightarrow> subscriber" where
  "sub_stop s =
     (let s1 = s\<lparr>sub_stopped := True, sub_pinger := clear_timeout (sub_pinger s)\<rparr>
      in case sub_ws s1 of Some w \<Rightarrow> close_socket w s1 | None \<Rightarrow> s1)"

section \<open>Frames\<close>

definition sync :: "senv \<Rightarrow> subscriber \<Rightarrow> subscriber" where
  "sync env s =
     sub_send env (JObj [(''type'', JStr ''sync''), (''watermark'', JNum (sub_lastSeq s))]) (s\<lparr>sub_connSynced := True\<rparr>)"

definition scheduleSync :: "jsnum \<Rightarrow> subscriber \<Rightarrow> subscriber" where
  "scheduleSync afterMs s =
     (if timer_truthy (sub_syncTimer s) then s
      else s\<lparr>sub_syncTimer := Armed afterMs (), sub_pendingReplay := (sub_ahead s = [] \<or> sub_pendingReplay s)\<rparr>)"

definition sync_fires :: "senv \<Rightarrow> subscriber \<Rightarrow> subscriber" where
  "sync_fires env s =
     (case sub_syncTimer s of
        Armed _ _ \<Rightarrow>
          (let s1 = s\<lparr>sub_syncTimer := Unset\<rparr> in
           if sub_stopped s1 then s1
           else if sub_ahead s1 = [] \<and> \<not> sub_pendingReplay s1 then s1
           else sync env (s1\<lparr>sub_pendingReplay := False\<rparr>))
      | _ \<Rightarrow> s)"

text \<open>\<open>while (this.ahead.delete(this.lastSeq + 1)) this.lastSeq += 1\<close>.\<close>

function fill :: "jsnum \<Rightarrow> jsnum list \<Rightarrow> jsnum \<times> jsnum list" where
  "fill lastSeq ahead =
     (if lastSeq + 1 \<in> set ahead then fill (lastSeq + 1) (set_delete (lastSeq + 1) ahead) else (lastSeq, ahead))"
  by pat_completeness auto
termination
  by (relation "measure (length \<circ> snd)") (auto intro: length_set_delete_less)

declare fill.simps [simp del]

text \<open>\<open>onPersistent\<close>: the frame is noted and measured, and its number placed.\<close>

definition note_frame :: "jsnum \<Rightarrow> subscriber \<Rightarrow> subscriber" where
  "note_frame seq s =
     (let s1 = s_add MFrame s;
          s2 = (if seq \<in> set (sub_connSeen s1) \<and> \<not> sub_connSynced s1 then s_add MDuplicate s1 else s1)
      in s2\<lparr>sub_connSeen := set_add seq (sub_connSeen s2)\<rparr>)"

definition measure_frame :: "senv \<Rightarrow> json \<Rightarrow> jsnum \<Rightarrow> subscriber \<Rightarrow> subscriber" where
  "measure_frame env frame seq s =
     (let live = (seq > sub_maxSeen s \<and> (case sub_headAtWelcome s of Some h \<Rightarrow> seq > h | None \<Rightarrow> False));
          s1 = s\<lparr>sub_maxSeen := max (sub_maxSeen s) seq\<rparr>
      in if \<not> live then s_add MReplayed s1
         else if sub_measureLatency s1 then
           (case sentAt (and_field (field frame ''data'') ''text'') of
              Some sent \<Rightarrow> s_add (ME2e (se_now env - sent)) s1
            | None \<Rightarrow> s1)
         else s1)"

definition place_seq :: "jsnum \<Rightarrow> subscriber \<Rightarrow> subscriber" where
  "place_seq seq s =
     (if seq = sub_lastSeq s + 1 then
        (let (lastSeq, ahead) = fill seq (sub_ahead s) in s\<lparr>sub_lastSeq := lastSeq, sub_ahead := ahead\<rparr>)
      else
        (let s1 = (if sub_ahead s = [] then s_add MGapResynced s else s)
         in scheduleSync 1000 (s1\<lparr>sub_ahead := set_add seq (sub_ahead s1)\<rparr>)))"

definition onPersistent :: "senv \<Rightarrow> json \<Rightarrow> jsnum \<Rightarrow> subscriber \<Rightarrow> subscriber" where
  "onPersistent env frame seq s0 =
     (let s = note_frame seq s0 in
      if seq \<le> sub_lastSeq s \<or> seq \<in> set (sub_ahead s) then s
      else place_seq seq (measure_frame env frame seq s))"

definition onWelcome_frame :: "senv \<Rightarrow> json \<Rightarrow> subscriber \<Rightarrow> subscriber" where
  "onWelcome_frame env frame s0 =
     (let s = s0\<lparr>sub_welcomed := True\<rparr> in
      case property_of (field frame ''data'') ''watermark'' of
        None \<Rightarrow> s_perform SThrow s
      | Some w \<Rightarrow>
          (let s1 = s_add MConnected (s\<lparr>sub_headAtWelcome := s_number env (or_json w (Some (JNum 0)))\<rparr>);
               s2 = (if sub_everConnected s1 then
                       (let r = s_add MReconnects s1
                        in case sub_closedAt r of Some t \<Rightarrow> s_add (MReconnect (se_now env - t)) r | None \<Rightarrow> r)
                     else s_add (MConnect (se_now env - or_default (sub_startedAt s1) 0)) s1);
               s3 = s2\<lparr>sub_everConnected := True, sub_failures := 0, sub_closedAt := None\<rparr>
           in if sub_pending s3 \<noteq> None then sub_send env (ping_json ''final'') s3 else s3))"

text \<open>The head an answer to the last ping brought; \<open>done\<close>, \<open>ask\<close> and \<open>pending\<close> of the \<open>i\<close>-th call of \<open>finish\<close>.\<close>

definition finish_done :: "senv \<Rightarrow> nat \<Rightarrow> subscriber \<Rightarrow> subscriber" where
  "finish_done env i s =
     (if sub_pending s = None then s
      else
        (let c = sub_finishes s ! i;
             s1 = s\<lparr>sub_pending := None, sub_finishes := (sub_finishes s)[i := c\<lparr>fi_timer := clear_timeout (fi_timer c)\<rparr>],
                    sub_syncTimer := clear_timeout (sub_syncTimer s)\<rparr>;
             s2 = (case fi_head c of
                     NoHead \<Rightarrow> s_add MUnverified s1
                   | Head h \<Rightarrow>
                       (case s_number env h of
                          Some n \<Rightarrow> if n > sub_lastSeq s1 then s_add (MLost (n - sub_lastSeq s1)) s1 else s1
                        | None \<Rightarrow> s1))
         in s_perform (SResolved i) (sub_stop s2)))"

definition arm_ask :: "nat \<Rightarrow> subscriber \<Rightarrow> subscriber" where
  "arm_ask i s = s\<lparr>sub_finishes := (sub_finishes s)[i := (sub_finishes s ! i)\<lparr>fi_timer := Armed 2000 ()\<rparr>]\<rparr>"

definition ask :: "senv \<Rightarrow> nat \<Rightarrow> subscriber \<Rightarrow> subscriber" where
  "ask env i s =
     (if se_now env \<ge> fi_deadline (sub_finishes s ! i) then finish_done env i s
      else arm_ask i (sub_send env (ping_json ''final'') s))"

definition ask_fires :: "senv \<Rightarrow> nat \<Rightarrow> subscriber \<Rightarrow> subscriber" where
  "ask_fires env i s =
     (if i < length (sub_finishes s) then
        (case fi_timer (sub_finishes s ! i) of
           Armed _ _ \<Rightarrow> ask env i (s\<lparr>sub_finishes := (sub_finishes s)[i := (sub_finishes s ! i)\<lparr>fi_timer := Spent\<rparr>]\<rparr>)
         | _ \<Rightarrow> s)
      else s)"

definition finish_head :: "senv \<Rightarrow> nat \<Rightarrow> json option \<Rightarrow> subscriber \<Rightarrow> subscriber" where
  "finish_head env i headSeq s0 =
     (let c = sub_finishes s0 ! i;
          s = s0\<lparr>sub_finishes := (sub_finishes s0)[i := c\<lparr>fi_head := Head headSeq, fi_timer := clear_timeout (fi_timer c)\<rparr>]\<rparr>
      in if (case s_number env headSeq of Some n \<Rightarrow> sub_lastSeq s \<ge> n | None \<Rightarrow> False) \<or> se_now env \<ge> fi_deadline c
         then finish_done env i s
         else arm_ask i (sync env s))"

definition finish :: "senv \<Rightarrow> jsnum option \<Rightarrow> subscriber \<Rightarrow> subscriber" where
  "finish env timeoutMs s =
     (let i = length (sub_finishes s)
      in ask env i (s\<lparr>sub_pending := Some i, sub_finishes := sub_finishes s @
           [\<lparr>fi_deadline = se_now env + or_default timeoutMs 30000, fi_head = NoHead, fi_timer = Unset\<rparr>]\<rparr>))"

text \<open>The delay of a retry the server asks for; \<open>setTimeout\<close> takes \<open>NaN\<close> for 0.\<close>

definition replay_delay :: "senv \<Rightarrow> json option \<Rightarrow> jsnum" where
  "replay_delay env data =
     or_default (s_number env (or_json (or_json (ofield data ''retryAfterMs'') (and_field (ofield data ''details'') ''retryAfterMs''))
       (Some (JNum 1000)))) 0"

definition onError_frame :: "senv \<Rightarrow> json \<Rightarrow> subscriber \<Rightarrow> subscriber" where
  "onError_frame env frame s =
     (let data = or_json (field frame ''data'') (Some (JObj []));
          code = ofield data ''code'';
          s1 = (if code = Some (JStr ''unavailable'') \<and> \<not> sub_welcomed s then noteRetryAfter (as_num (ofield data ''retryAfterMs'')) s else s)
      in if code = Some (JStr ''replay_unavailable'') then scheduleSync (replay_delay env data) (s_add MReplayUnavailable s1) else s1)"

definition sub_onFrame :: "senv \<Rightarrow> json \<Rightarrow> subscriber \<Rightarrow> subscriber" where
  "sub_onFrame env frame s =
     (if frame = JNull then s_perform SThrow s
      else if field frame ''type'' = Some (JStr ''welcome'') then onWelcome_frame env frame s
      else if field frame ''type'' = Some (JStr ''heartbeat'') then
        (case sub_pending s of
           Some i \<Rightarrow> if field frame ''nonce'' = Some (JStr ''final'') then finish_head env i (field frame ''headSeq'') s else s
         | None \<Rightarrow> s)
      else if field frame ''type'' = Some (JStr ''error'') then onError_frame env frame s
      else if field frame ''type'' = Some (JStr ''replayTruncated'') then s
      else (case as_num (field frame ''seq'') of Some seq \<Rightarrow> onPersistent env frame seq s | None \<Rightarrow> s))"

definition sub_onmessage :: "senv \<Rightarrow> nat \<Rightarrow> string \<Rightarrow> subscriber \<Rightarrow> subscriber" where
  "sub_onmessage env w data s =
     (if sub_ws s = Some w
      then (case JSON_parse data of Some frame \<Rightarrow> sub_onFrame env frame s | None \<Rightarrow> s_perform SThrow s)
      else s)"

section \<open>Steps\<close>

text \<open>
  The scenarios call \<open>start\<close> once. A socket the code closed does not open any more; it may still bring
  messages and its close.
\<close>

datatype s_input =
    SStart
  | SOpen nat
  | SMessage nat string
  | SError nat
  | SClosed nat "string option"
  | SReconnectFires nat
  | SForceReconnect
  | SPingFires
  | SSyncFires
  | SFinish "jsnum option"
  | SAskFires nat
  | SStop

fun sub_step :: "senv \<times> s_input \<Rightarrow> subscriber \<Rightarrow> subscriber" where
  "sub_step (env, SStart) s = (if sub_startedAt s = None then sub_start env s else s)"
| "sub_step (env, SOpen w) s = (if w < sub_sockets s \<and> w \<notin> set (sub_closed s) then sub_onopen w s else s)"
| "sub_step (env, SMessage w data) s = sub_onmessage env w data s"
| "sub_step (env, SError w) s = (if w < sub_sockets s then sub_onerror env w s else s)"
| "sub_step (env, SClosed w reason) s = (if w < sub_sockets s then sub_onclose env w reason s else s)"
| "sub_step (env, SReconnectFires i) s = reconnect_fires i s"
| "sub_step (env, SForceReconnect) s = forceReconnect env s"
| "sub_step (env, SPingFires) s = ping_fires env s"
| "sub_step (env, SSyncFires) s = sync_fires env s"
| "sub_step (env, SFinish ms) s = finish env ms s"
| "sub_step (env, SAskFires i) s = ask_fires env i s"
| "sub_step (env, SStop) s = sub_stop s"

section \<open>Sending\<close>

datatype post_answer = PostThrows | PostStatus int

datatype p_effect = PPost string | PSleep jsnum | PMetric s_metric | PRejected int

definition appUrl :: "string list \<Rightarrow> nat \<Rightarrow> string" where
  "appUrl urls i = urls ! (i mod length urls)"

definition activities_url :: "string list \<Rightarrow> nat \<Rightarrow> string \<Rightarrow> string" where
  "activities_url urls i cid = appUrl urls i @ ''/api/v1/conversations/'' @ cid @ ''/activities''"

text \<open>
  \<open>postActivity\<close>: each round of the loop reads the clock and gets the answer to its request. \<open>None\<close> as the
  result: the rounds given are over and the loop is not.
\<close>

fun post_rounds ::
  "string list \<Rightarrow> nat \<Rightarrow> string \<Rightarrow> jsnum \<Rightarrow> nat \<Rightarrow> jsnum \<Rightarrow> (jsnum \<times> post_answer) list \<Rightarrow> p_effect list \<times> bool option" where
  "post_rounds urls start cid deadline attempt backoff [] = ([], None)"
| "post_rounds urls start cid deadline attempt backoff ((now, answer) # rounds) =
     (if \<not> now < deadline then ([PMetric MSendFailed], Some False)
      else
        (let es = (if attempt > 0 then [PMetric MSendRetry] else []) @ [PPost (activities_url urls (start + attempt) cid)];
             again = (let (fs, r) = post_rounds urls start cid deadline (Suc attempt) (min (backoff * 2) 1000) rounds
                      in (es @ PSleep backoff # fs, r))
         in case answer of
              PostThrows \<Rightarrow> again
            | PostStatus c \<Rightarrow>
                if 200 \<le> c \<and> c < 300 then (es @ [PMetric MAcked], Some True)
                else if 400 \<le> c \<and> c < 500 \<and> c \<noteq> 408 \<and> c \<noteq> 429 then (es @ [PRejected c, PMetric MSendFailed], Some False)
                else again))"

definition postActivity :: "string list \<Rightarrow> nat \<Rightarrow> string \<Rightarrow> jsnum \<Rightarrow> (jsnum \<times> post_answer) list \<Rightarrow> p_effect list \<times> bool option" where
  "postActivity urls start cid deadline rounds = post_rounds urls start cid deadline 0 100 rounds"

end
