(* ===== verification/Load_Props.thy ===== *)
theory Load_Props
  imports Load_Subscriber
begin

text \<open>
  What the zero-loss check of the load scenarios rests on: the position of a subscriber implements the set of
  the numbers it received, its verdict on losses is right, it keeps reconnecting, and a send ends with exactly
  one outcome.
\<close>

section \<open>The numbers a subscriber has\<close>

definition have_seqs :: "jsnum \<Rightarrow> jsnum list \<Rightarrow> nat set" where
  "have_seqs l ahead = {k. 1 \<le> k \<and> (of_nat k \<le> l \<or> of_nat k \<in> set ahead)}"

definition position_ok :: "jsnum \<Rightarrow> jsnum list \<Rightarrow> bool" where
  "position_ok l ahead \<longleftrightarrow>
     (\<exists>n :: nat. l = of_nat n \<and> (\<forall>k :: nat. of_nat k \<in> set ahead \<longrightarrow> n < k) \<and> of_nat (Suc n) \<notin> set ahead)"

definition sub_have :: "subscriber \<Rightarrow> nat set" where
  "sub_have s = have_seqs (sub_lastSeq s) (sub_ahead s)"

definition sub_ok :: "subscriber \<Rightarrow> bool" where
  "sub_ok s \<longleftrightarrow> position_ok (sub_lastSeq s) (sub_ahead s)"

lemma have_next:
  assumes "of_nat (Suc n) \<in> set ahead"
  shows "have_seqs (of_nat (Suc n)) (set_delete (of_nat (Suc n)) ahead) = have_seqs (of_nat n) ahead"
proof -
  have "real k \<le> real (Suc n) \<longleftrightarrow> real k \<le> real n \<or> real k = real (Suc n)" for k :: nat
    by (simp only: of_nat_le_iff of_nat_eq_iff) auto
  then show ?thesis using assms by (auto simp: have_seqs_def simp del: of_nat_Suc)
qed

lemma fill_spec:
  assumes "\<And>k :: nat. of_nat k \<in> set ahead \<Longrightarrow> n < k"
  shows "position_ok (fst (fill (of_nat n) ahead)) (snd (fill (of_nat n) ahead))
    \<and> have_seqs (fst (fill (of_nat n) ahead)) (snd (fill (of_nat n) ahead)) = have_seqs (of_nat n) ahead"
  using assms
proof (induction "length ahead" arbitrary: n ahead rule: less_induct)
  case less
  have n: "(of_nat n + 1 :: jsnum) = of_nat (Suc n)" by simp
  show ?case
  proof (cases "of_nat (Suc n) \<in> set ahead")
    case True
    have "Suc n < k" if "of_nat k \<in> set (set_delete (of_nat (Suc n)) ahead)" for k :: nat
      using less.prems [of k] that by (cases "k = Suc n") (auto simp del: of_nat_Suc)
    then show ?thesis using less.hyps [OF length_set_delete_less [OF True], of "Suc n"] True have_next [OF True]
      by (simp add: fill.simps [of "of_nat n"] n del: of_nat_Suc)
  next
    case False
    then show ?thesis using less.prems by (auto simp: fill.simps [of "of_nat n"] n position_ok_def simp del: of_nat_Suc)
  qed
qed

text \<open>What does not touch the position.\<close>

definition same_position :: "subscriber \<Rightarrow> subscriber \<Rightarrow> bool" where
  "same_position s s' \<longleftrightarrow> sub_lastSeq s' = sub_lastSeq s \<and> sub_ahead s' = sub_ahead s"

lemma same_position_simps [simp]:
  "same_position s s" "same_position s (s_perform e s') = same_position s s'" "same_position s (s_add m s') = same_position s s'"
  by (simp_all add: same_position_def s_perform_def s_add_def)

lemma same_position_trans: "same_position s s1 \<Longrightarrow> same_position s1 s2 \<Longrightarrow> same_position s s2"
  by (simp add: same_position_def)

lemma same_position_have: "same_position s s' \<Longrightarrow> sub_have s' = sub_have s" "same_position s s' \<Longrightarrow> sub_ok s' = sub_ok s"
  by (simp_all add: same_position_def sub_have_def sub_ok_def)

lemmas sub_defs = s_perform_def s_add_def sub_connect_def sub_start_def sub_send_def ping_fires_def sub_onopen_def noteRetryAfter_def
  dropped_def sub_onerror_def sub_onclose_def reconnect_fires_def close_socket_def forceReconnect_def sub_stop_def sync_def
  scheduleSync_def sync_fires_def onWelcome_frame_def finish_done_def arm_ask_def ask_def ask_fires_def finish_head_def finish_def
  onError_frame_def Let_def

lemma position_connections [simp]:
  "same_position s (sub_connect s') = same_position s s'" "same_position s (sub_start env s') = same_position s s'"
  "same_position s (sub_send env j s') = same_position s s'" "same_position s (ping_fires env s') = same_position s s'"
  "same_position s (sub_onopen w s') = same_position s s'" "same_position s (noteRetryAfter ms s') = same_position s s'"
  "same_position s (dropped env w s') = same_position s s'" "same_position s (close_socket w s') = same_position s s'"
  "same_position s (reconnect_fires i s') = same_position s s'" "same_position s (sub_stop s') = same_position s s'"
  "same_position s (scheduleSync d s') = same_position s s'" "same_position s (sync env s') = same_position s s'"
  by (simp_all add: same_position_def sub_defs split: option.split timer.split)

lemma position_calls [simp]:
  "same_position s (sub_onerror env w s') = same_position s s'" "same_position s (sub_onclose env w r s') = same_position s s'"
  "same_position s (forceReconnect env s') = same_position s s'" "same_position s (sync_fires env s') = same_position s s'"
  by (simp_all add: sub_onerror_def sub_onclose_def forceReconnect_def sync_fires_def Let_def same_position_def [of s "s'\<lparr>sub_closedAt := t\<rparr>" for t]
      split: option.split timer.split) (simp_all add: same_position_def)

lemma position_finish [simp]:
  "same_position s (finish_done env i s') = same_position s s'" "same_position s (arm_ask i s') = same_position s s'"
  "same_position s (ask env i s') = same_position s s'" "same_position s (ask_fires env i s') = same_position s s'"
  "same_position s (finish_head env i h s') = same_position s s'" "same_position s (finish env t s') = same_position s s'"
proof -
  have f: "same_position s (s'\<lparr>sub_finishes := fs\<rparr>) = same_position s s'" "same_position s (s'\<lparr>sub_pending := p\<rparr>) = same_position s s'" "same_position s (s'\<lparr>sub_pending := p, sub_finishes := fs\<rparr>) = same_position s s'"
    "same_position s (s'\<lparr>sub_pending := p, sub_finishes := fs, sub_syncTimer := x\<rparr>) = same_position s s'" for s' fs p x
    by (simp_all add: same_position_def)
  show d: "same_position s (finish_done env i s') = same_position s s'" for s' i by (simp add: finish_done_def Let_def f split: head_seq.split option.split)
  show r: "same_position s (arm_ask i s') = same_position s s'" for s' i by (simp add: arm_ask_def f)
  show a: "same_position s (ask env i s') = same_position s s'" for s' i by (simp add: ask_def d r)
  show "same_position s (ask_fires env i s') = same_position s s'" by (simp add: ask_fires_def a f split: timer.split)
  show "same_position s (finish_head env i h s') = same_position s s'" by (simp add: finish_head_def Let_def d r f)
  show "same_position s (finish env t s') = same_position s s'" by (simp add: finish_def Let_def a f)
qed

lemma position_frames [simp]:
  "same_position s (onWelcome_frame env f s') = same_position s s'" "same_position s (onError_frame env f s') = same_position s s'"
  by (simp_all add: onWelcome_frame_def onError_frame_def Let_def split: option.split) (auto simp: same_position_def s_add_def s_perform_def)

section \<open>Receiving\<close>

lemma have_hole: "have_seqs l (set_add x ahead) = have_seqs l ahead \<union> {k. 1 \<le> k \<and> of_nat k = x}"
  by (auto simp: have_seqs_def)

lemma have_add: "have_seqs (of_nat (Suc n)) ahead = have_seqs (of_nat n) ahead \<union> {Suc n}"
proof -
  have "real k \<le> real (Suc n) \<longleftrightarrow> real k \<le> real n \<or> k = Suc n" for k by (simp only: of_nat_le_iff) auto
  then show ?thesis by (auto simp: have_seqs_def simp del: of_nat_Suc)
qed

lemma position_noted [simp]:
  "same_position s (note_frame x s') = same_position s s'" "same_position s (measure_frame env f x s') = same_position s s'"
  by (simp_all add: note_frame_def measure_frame_def Let_def split: option.split) (auto simp: same_position_def s_add_def s_perform_def)

lemma onPersistent_position:
  assumes "sub_ok s"
  shows "sub_ok (onPersistent env f x s) \<and> sub_have (onPersistent env f x s) = sub_have s \<union> {k. 1 \<le> k \<and> of_nat k = x}"
proof -
  obtain n where n: "sub_lastSeq s = of_nat n" "\<And>k :: nat. of_nat k \<in> set (sub_ahead s) \<Longrightarrow> n < k" "of_nat (Suc n) \<notin> set (sub_ahead s)"
    using assms by (auto simp: sub_ok_def position_ok_def simp del: of_nat_Suc)
  define s' where "s' = onPersistent env f x s"
  have o: "x \<le> sub_lastSeq s \<or> x \<in> set (sub_ahead s) \<Longrightarrow> same_position s s'"
    using position_noted(1) [of s x s] by (simp add: s'_def onPersistent_def Let_def same_position_def)
  define m where "m = measure_frame env f x (note_frame x s)"
  have "same_position s m" by (simp add: m_def)
  then have m: "sub_lastSeq m = sub_lastSeq s" "sub_ahead m = sub_ahead s" by (simp_all add: same_position_def)
  have p: "\<not> (x \<le> sub_lastSeq s \<or> x \<in> set (sub_ahead s)) \<Longrightarrow> s' = place_seq x m"
    using position_noted(1) [of s x s] by (simp add: s'_def m_def onPersistent_def Let_def same_position_def)
  have nw: "x = sub_lastSeq s + 1 \<Longrightarrow> x \<notin> set (sub_ahead s) \<Longrightarrow> (sub_lastSeq s', sub_ahead s') = fill x (sub_ahead s)"
    using p by (simp add: place_seq_def m split_beta)
  have h: "\<not> x \<le> sub_lastSeq s \<Longrightarrow> x \<notin> set (sub_ahead s) \<Longrightarrow> x \<noteq> sub_lastSeq s + 1 \<Longrightarrow>
      sub_lastSeq s' = sub_lastSeq s \<and> sub_ahead s' = set_add x (sub_ahead s)"
    using p by (simp add: place_seq_def m s_add_def s_perform_def scheduleSync_def Let_def)
  consider (old) "x \<le> sub_lastSeq s \<or> x \<in> set (sub_ahead s)" | (new) "x = sub_lastSeq s + 1" "x \<notin> set (sub_ahead s)"
    | (hole) "\<not> x \<le> sub_lastSeq s" "x \<notin> set (sub_ahead s)" "x \<noteq> sub_lastSeq s + 1" by blast
  then have "sub_ok s' \<and> sub_have s' = sub_have s \<union> {k. 1 \<le> k \<and> of_nat k = x}"
  proof cases
    case old
    then show ?thesis using same_position_have [OF o [OF old]] assms by (auto simp: sub_have_def have_seqs_def)
  next
    case new
    then have x: "x = of_nat (Suc n)" using n(1) by simp
    have gt: "Suc n < k" if "of_nat k \<in> set (sub_ahead s)" for k :: nat using n(2) [OF that] n(3) that by (cases "k = Suc n") auto
    have "fst (fill x (sub_ahead s)) = sub_lastSeq s'" "snd (fill x (sub_ahead s)) = sub_ahead s'"
      using nw [OF new, symmetric] by simp_all
    moreover have "{k. 1 \<le> k \<and> of_nat k = x} = {Suc n}" unfolding x of_nat_eq_iff by auto
    ultimately show ?thesis using fill_spec [of "sub_ahead s" "Suc n", OF gt] unfolding x by (simp add: sub_ok_def sub_have_def n(1) have_add del: of_nat_Suc)
  next
    case hole
    then show ?thesis using h [OF hole] n
      by (auto simp: sub_ok_def position_ok_def sub_have_def have_hole simp del: of_nat_Suc)
  qed
  then show ?thesis by (simp add: s'_def)
qed

text \<open>The number an input brings, if it is a persistent frame on the current socket.\<close>

definition persistent_seq :: "json \<Rightarrow> jsnum option" where
  "persistent_seq f =
     (if f = JNull \<or> (case field f ''type'' of
           Some (JStr t) \<Rightarrow> t \<in> {''welcome'', ''heartbeat'', ''error'', ''replayTruncated''} | _ \<Rightarrow> False) then None
      else as_num (field f ''seq''))"

fun input_seq :: "s_input \<Rightarrow> subscriber \<Rightarrow> jsnum option" where
  "input_seq (SMessage w data) s =
     (if sub_ws s = Some w then (case JSON_parse data of Some f \<Rightarrow> persistent_seq f | None \<Rightarrow> None) else None)"
| "input_seq _ s = None"

fun received :: "(senv \<times> s_input) list \<Rightarrow> subscriber \<Rightarrow> nat set" where
  "received [] s = {}"
| "received (e # es) s = {k. 1 \<le> k \<and> input_seq (snd e) s = Some (of_nat k)} \<union> received es (sub_step e s)"

lemma onFrame_position:
  "persistent_seq f = None \<Longrightarrow> same_position s (sub_onFrame env f s)"
  "persistent_seq f = Some x \<Longrightarrow> sub_onFrame env f s = onPersistent env f x s"
  by (auto simp: sub_onFrame_def persistent_seq_def split: option.splits json.splits if_splits)

lemma step_position:
  assumes "sub_ok s"
  shows "sub_ok (sub_step e s) \<and> sub_have (sub_step e s) = sub_have s \<union> {k. 1 \<le> k \<and> input_seq (snd e) s = Some (of_nat k)}"
proof (cases "input_seq (snd e) s")
  case None
  have "same_position s (sub_step e s)"
  proof (cases "(e, s)" rule: sub_step.cases)
    case (3 env w data s')
    then show ?thesis using None onFrame_position(1) by (auto simp: sub_onmessage_def split: option.splits if_splits)
  qed simp_all
  then show ?thesis using same_position_have assms None by auto
next
  case (Some x)
  then obtain env w data f where e: "e = (env, SMessage w data)" "sub_ws s = Some w" "JSON_parse data = Some f" "persistent_seq f = Some x"
    by (cases "(snd e, s)" rule: input_seq.cases; cases e) (auto split: if_splits option.splits)
  then show ?thesis using onPersistent_position [OF assms, of env f x] Some
    by (auto simp: sub_onmessage_def onFrame_position(2))
qed

lemma run_position:
  "sub_ok s \<Longrightarrow> sub_ok (run sub_step es s) \<and> sub_have (run sub_step es s) = sub_have s \<union> received es s"
proof (induction es arbitrary: s)
  case (Cons e es)
  then show ?case using step_position [OF Cons.prems, of e] Cons.IH [of "sub_step e s"] by (simp add: Un_assoc)
qed simp

lemma new_subscriber_position [simp]: "sub_ok (new_subscriber u i t m p)" "sub_have (new_subscriber u i t m p) = {}"
  by (auto simp: sub_ok_def sub_have_def have_seqs_def position_ok_def new_subscriber_def intro: exI [of _ 0])

section \<open>A sample\<close>

definition sample_senv :: senv where
  "sample_senv = \<lparr>se_now = 1, se_node_random = 0, se_random = 0, se_sends = True, se_number = (\<lambda>_. None)\<rparr>"

definition sample_seq :: "nat \<Rightarrow> senv \<times> s_input" where
  "sample_seq n = (sample_senv, SMessage 0 (JSON_stringify (JObj [(''type'', JStr ''text''), (''seq'', JNum (of_nat n))])))"

text \<open>Numbers 1, 3 and 4 arrive, and the head is 4.\<close>

definition sample_load :: "(senv \<times> s_input) list" where
  "sample_load = [(sample_senv, SStart), (sample_senv, SOpen 0), sample_seq 1, sample_seq 4, sample_seq 3, (sample_senv, SFinish None),
     (sample_senv, SMessage 0 (JSON_stringify (JObj [(''type'', JStr ''heartbeat''), (''nonce'', JStr ''final''), (''headSeq'', JNum 4)])))]"

definition sample_new_sub :: subscriber where
  "sample_new_sub = new_subscriber [''ws://a'', ''ws://b''] 0 ''t'' True 25"

definition load_digest :: "subscriber \<Rightarrow> jsnum \<times> jsnum list \<times> nat option \<times> bool \<times> bool \<times> bool \<times> nat" where
  "load_digest s = (sub_lastSeq s, sub_ahead s, sub_pending s,
     (case fi_head (sub_finishes s ! 0) of Head (Some (JNum x)) \<Rightarrow> x = 4 | _ \<Rightarrow> False), sub_startedAt s = None, sub_stopped s, length (sub_reconnects s))"

lemma sample_load_digest: "load_digest (run sub_step sample_load sample_new_sub) = (1, [4, 3], Some 0, True, False, False, 0)"
  by code_simp

definition sample_loaded :: subscriber where
  "sample_loaded = run sub_step sample_load (new_subscriber [''ws://a'', ''ws://b''] 0 ''t'' True 25)"

lemma sample_loaded_facts:
  "sub_lastSeq sample_loaded = 1" "sub_ahead sample_loaded = [4, 3]" "sub_pending sample_loaded \<noteq> None"
  "fi_head (sub_finishes sample_loaded ! 0) = Head (Some (JNum (of_nat 4)))" "sub_startedAt sample_loaded \<noteq> None"
  "\<not> sub_stopped sample_loaded" "sub_reconnects sample_loaded = []"
  using sample_load_digest by (auto simp: load_digest_def sample_loaded_def sample_new_sub_def split: head_seq.splits option.splits json.splits)

lemma sample_hole: "2 \<notin> received sample_load (new_subscriber [''ws://a'', ''ws://b''] 0 ''t'' True 25)"
proof -
  have "sub_have sample_loaded = received sample_load (new_subscriber [''ws://a'', ''ws://b''] 0 ''t'' True 25)"
    using run_position [of "new_subscriber [''ws://a'', ''ws://b''] 0 ''t'' True 25" sample_load] by (simp add: sample_loaded_def)
  moreover have "2 \<notin> sub_have sample_loaded" by (simp add: sub_have_def have_seqs_def sample_loaded_facts(1,2))
  ultimately show ?thesis by simp
qed

text \<open>
  The position of a subscriber refines the set of the numbers it received since it started, over however
  many connections and in whatever order: \<open>lastSeq\<close> is the end of the run of numbers from 1 it has without a
  hole, and \<open>ahead\<close> holds the received whole numbers beyond it.
\<close>

theorem subscriber_refines_received:
  assumes "s = run sub_step es (new_subscriber urls start token m p)" "R = received es (new_subscriber urls start token m p)"
  shows "\<exists>n. sub_lastSeq s = of_nat n \<and> {1..n} \<subseteq> R \<and> Suc n \<notin> R
    \<and> (\<forall>k. of_nat k \<in> set (sub_ahead s) \<longleftrightarrow> k \<in> R \<and> n < k)"
proof -
  have s: "sub_ok s" "sub_have s = R" using run_position [of "new_subscriber urls start token m p" es] assms by simp_all
  then obtain n where n: "sub_lastSeq s = of_nat n" "\<And>k :: nat. of_nat k \<in> set (sub_ahead s) \<Longrightarrow> n < k" "of_nat (Suc n) \<notin> set (sub_ahead s)"
    by (auto simp: sub_ok_def position_ok_def simp del: of_nat_Suc)
  have "k \<in> R \<longleftrightarrow> 1 \<le> k \<and> (k \<le> n \<or> of_nat k \<in> set (sub_ahead s))" for k
    unfolding s(2) [symmetric] by (simp add: sub_have_def have_seqs_def n(1))
  then show ?thesis using n by (intro exI [of _ n]) (auto simp del: of_nat_Suc dest: n(2))
qed

theorem subscriber_refines_received_witness:
  "sub_lastSeq sample_loaded = 1 \<and> 3 \<in> received sample_load (new_subscriber [''ws://a'', ''ws://b''] 0 ''t'' True 25)
   \<and> 2 \<notin> received sample_load (new_subscriber [''ws://a'', ''ws://b''] 0 ''t'' True 25)"
proof -
  obtain n where n: "sub_lastSeq sample_loaded = of_nat n" "Suc n \<notin> received sample_load (new_subscriber [''ws://a'', ''ws://b''] 0 ''t'' True 25)"
    "\<And>k. of_nat k \<in> set (sub_ahead sample_loaded) \<longleftrightarrow> k \<in> received sample_load (new_subscriber [''ws://a'', ''ws://b''] 0 ''t'' True 25) \<and> n < k"
    using subscriber_refines_received [OF sample_loaded_def refl] by blast
  then have "n = 1" using sample_loaded_facts(1) by simp
  then show ?thesis using n(2) n(3) [of 3] sample_loaded_facts(1,2) by (simp add: numeral_2_eq_2)
qed


section \<open>The verdict\<close>

definition lost_of :: "s_effect list \<Rightarrow> jsnum list" where
  "lost_of es = concat (map (\<lambda>e. case e of SMetric (MLost x) \<Rightarrow> [x] | _ \<Rightarrow> []) es)"

lemma stop_out: "\<exists>es. sub_out (sub_stop s) = sub_out s @ es \<and> lost_of es = []"
  by (auto simp: sub_stop_def close_socket_def s_perform_def lost_of_def Let_def split: option.split)

lemma done_out:
  assumes "sub_pending s \<noteq> None" "fi_head (sub_finishes s ! i) = Head (Some (JNum h))"
  shows "\<exists>es. sub_out (finish_done env i s) = sub_out s @ es
    \<and> lost_of es = (if h > sub_lastSeq s then [h - sub_lastSeq s] else [])"
proof -
  define s1 where "s1 = s\<lparr>sub_pending := None, sub_finishes := (sub_finishes s)[i := (sub_finishes s ! i)
    \<lparr>fi_timer := clear_timeout (fi_timer (sub_finishes s ! i))\<rparr>], sub_syncTimer := clear_timeout (sub_syncTimer s)\<rparr>"
  define s2 where "s2 = (if h > sub_lastSeq s then s_add (MLost (h - sub_lastSeq s)) s1 else s1)"
  have "finish_done env i s = s_perform (SResolved i) (sub_stop s2)"
    using assms(1) by (auto simp: finish_done_def assms(2) s2_def s1_def s_number_def Let_def)
  moreover obtain es where "sub_out (sub_stop s2) = sub_out s2 @ es" "lost_of es = []" using stop_out by blast
  ultimately show ?thesis by (auto simp: s2_def s1_def s_add_def s_perform_def lost_of_def)
qed

text \<open>
  C26. The zero-loss verdict is right. When a subscriber that asked for the head of its conversation ends with
  head \<open>h\<close>, it records a loss exactly when some number from 1 to \<open>h\<close> never arrived, and the loss it records is
  at least the number of those.
\<close>

theorem loss_verdict_right:
  assumes "s = run sub_step es (new_subscriber urls start token m p)" "R = received es (new_subscriber urls start token m p)"
    and "sub_pending s \<noteq> None" "fi_head (sub_finishes s ! i) = Head (Some (JNum (of_nat h)))"
  shows "\<exists>fs. sub_out (finish_done env i s) = sub_out s @ fs \<and> (lost_of fs = [] \<longleftrightarrow> {1..h} \<subseteq> R)
    \<and> of_nat (card ({1..h} - R)) \<le> sum_list (lost_of fs)"
proof -
  have s: "sub_ok s" "sub_have s = R" using run_position [of "new_subscriber urls start token m p" es] assms(1,2) by simp_all
  obtain n where n: "sub_lastSeq s = of_nat n" "of_nat (Suc n) \<notin> set (sub_ahead s)"
    using s(1) by (auto simp: sub_ok_def position_ok_def simp del: of_nat_Suc)
  have R: "{1..n} \<subseteq> R" "Suc n \<notin> R" unfolding s(2) [symmetric] using n by (auto simp: sub_have_def have_seqs_def simp del: of_nat_Suc)
  obtain fs where fs: "sub_out (finish_done env i s) = sub_out s @ fs" "lost_of fs = (if n < h then [of_nat h - of_nat n] else [])"
    using done_out [OF assms(3,4), of env] unfolding n(1) of_nat_less_iff by blast
  have "{1..h} \<subseteq> R \<longleftrightarrow> h \<le> n" using R by (cases "n < h") (auto dest: subsetD [of _ _ "Suc n"])
  moreover have "card ({1..h} - R) \<le> h - n"
  proof -
    have "{1..h} - R \<subseteq> {Suc n..h}" using R(1) by (auto simp: not_less_eq_eq) (metis atLeastAtMost_iff not_less_eq_eq subsetD)
    then show ?thesis using card_mono [of "{Suc n..h}" "{1..h} - R"] by simp
  qed
  ultimately show ?thesis using fs by (cases "n < h") (auto simp: of_nat_diff intro!: exI [of _ fs])
qed

theorem loss_verdict_right_witness:
  "\<exists>fs. sub_out (finish_done sample_senv 0 sample_loaded) = sub_out sample_loaded @ fs \<and> lost_of fs \<noteq> []"
proof -
  have "\<not> {1..4} \<subseteq> received sample_load (new_subscriber [''ws://a'', ''ws://b''] 0 ''t'' True 25)"
    using sample_hole by (auto dest: subsetD [of _ _ 2])
  then show ?thesis using loss_verdict_right [OF sample_loaded_def refl sample_loaded_facts(3,4)] by blast
qed


section \<open>Reconnecting\<close>

definition sub_links :: "subscriber \<Rightarrow> nat" where
  "sub_links s = (if sub_ws s = None then 0 else 1) + length (sub_reconnects s)"

definition sub_linked :: "subscriber \<Rightarrow> bool" where
  "sub_linked s \<longleftrightarrow> (if sub_startedAt s = None then sub_links s = 0 else sub_stopped s \<or> sub_links s = 1)"

definition same_link :: "subscriber \<Rightarrow> subscriber \<Rightarrow> bool" where
  "same_link s s' \<longleftrightarrow> sub_startedAt s' = sub_startedAt s \<and> sub_stopped s' = sub_stopped s \<and> sub_ws s' = sub_ws s
     \<and> sub_reconnects s' = sub_reconnects s"

lemma same_link_ok: "same_link s s' \<Longrightarrow> sub_linked s' = sub_linked s"
  by (simp add: same_link_def sub_linked_def sub_links_def)

lemma same_link_simps [simp]:
  "same_link s s" "same_link s (s_perform e s') = same_link s s'" "same_link s (s_add m s') = same_link s s'"
  by (simp_all add: same_link_def s_perform_def s_add_def)

lemma same_link_updates [simp]:
  "same_link s (s'\<lparr>sub_finishes := fs\<rparr>) = same_link s s'" "same_link s (s'\<lparr>sub_pending := p\<rparr>) = same_link s s'"
  "same_link s (s'\<lparr>sub_syncTimer := x\<rparr>) = same_link s s'" "same_link s (s'\<lparr>sub_pendingReplay := r\<rparr>) = same_link s s'"
  "same_link s (s'\<lparr>sub_ahead := a\<rparr>) = same_link s s'" "same_link s (s'\<lparr>sub_lastSeq := l\<rparr>) = same_link s s'"
  "same_link s (s'\<lparr>sub_maxSeen := m\<rparr>) = same_link s s'" "same_link s (s'\<lparr>sub_connSeen := c\<rparr>) = same_link s s'"
  "same_link s (s'\<lparr>sub_connSynced := b\<rparr>) = same_link s s'" "same_link s (s'\<lparr>sub_welcomed := w\<rparr>) = same_link s s'"
  "same_link s (s'\<lparr>sub_headAtWelcome := h\<rparr>) = same_link s s'" "same_link s (s'\<lparr>sub_everConnected := e\<rparr>) = same_link s s'"
  "same_link s (s'\<lparr>sub_failures := f\<rparr>) = same_link s s'" "same_link s (s'\<lparr>sub_closedAt := t\<rparr>) = same_link s s'"
  "same_link s (s'\<lparr>sub_retryAfterMs := q\<rparr>) = same_link s s'" "same_link s (s'\<lparr>sub_nonce := n\<rparr>) = same_link s s'"
  by (simp_all add: same_link_def)

lemma same_link_calls [simp]:
  "same_link s (sub_send env j s') = same_link s s'" "same_link s (sync env s') = same_link s s'"
  "same_link s (scheduleSync d s') = same_link s s'" "same_link s (sync_fires env s') = same_link s s'"
  "same_link s (ping_fires env s') = same_link s s'" "same_link s (sub_onopen w s') = same_link s s'"
  "same_link s (noteRetryAfter ms s') = same_link s s'" "same_link s (arm_ask i s') = same_link s s'"
proof -
  show a: "same_link s (sub_send env j s') = same_link s s'" for j s' by (simp add: sub_send_def split: option.split)
  show b: "same_link s (sync env s') = same_link s s'" for s' by (simp add: sync_def a)
  show "same_link s (scheduleSync d s') = same_link s s'" by (simp add: scheduleSync_def)
  show "same_link s (sync_fires env s') = same_link s s'" by (simp add: sync_fires_def Let_def b split: timer.split)
  show "same_link s (ping_fires env s') = same_link s s'" by (simp add: ping_fires_def a split: timer.split)
  show "same_link s (sub_onopen w s') = same_link s s'" by (simp add: sub_onopen_def)
  show "same_link s (noteRetryAfter ms s') = same_link s s'" by (simp add: noteRetryAfter_def split: option.split)
  show "same_link s (arm_ask i s') = same_link s s'" by (simp add: arm_ask_def)
qed

lemma same_link_frames [simp]:
  "same_link s (onWelcome_frame env f s') = same_link s s'" "same_link s (onError_frame env f s') = same_link s s'"
  "same_link s (onPersistent env f x s') = same_link s s'"
proof -
  show "same_link s (onWelcome_frame env f s') = same_link s s'" by (simp add: onWelcome_frame_def Let_def split: option.split)
  show "same_link s (onError_frame env f s') = same_link s s'" by (simp add: onError_frame_def Let_def)
  have n: "same_link s (note_frame x s') = same_link s s'" for s' by (simp add: note_frame_def Let_def)
  have m: "same_link s (measure_frame env f x s') = same_link s s'" for s' by (simp add: measure_frame_def Let_def split: option.split)
  have p: "same_link s (place_seq x s') = same_link s s'" for s' by (simp add: place_seq_def Let_def split_beta)
  show "same_link s (onPersistent env f x s') = same_link s s'" by (simp add: onPersistent_def Let_def n m p)
qed

lemma stop_linked: "sub_linked s \<Longrightarrow> sub_linked (sub_stop s)"
  by (auto simp: sub_linked_def sub_links_def sub_stop_def close_socket_def s_perform_def Let_def split: option.split)

lemma done_linked: "sub_linked s \<Longrightarrow> sub_linked (finish_done env i s)"
proof -
  assume l: "sub_linked s"
  have "sub_linked (s_perform (SResolved i) (sub_stop s2))" if "same_link s s2" for s2
    using stop_linked [of s2] same_link_ok [OF that] same_link_ok [of "sub_stop s2" "s_perform (SResolved i) (sub_stop s2)"] l by simp
  then show ?thesis using l by (simp add: finish_done_def Let_def split: head_seq.split option.split)
qed

lemma ask_linked: "sub_linked s \<Longrightarrow> sub_linked (ask env i s)"
  using done_linked [of s env i] same_link_ok [of s "arm_ask i (sub_send env (ping_json ''final'') s)"] by (simp add: ask_def)

lemma dropped_linked: "sub_linked s \<Longrightarrow> sub_linked (dropped env w s)"
  by (cases "sub_startedAt s") (auto simp: sub_linked_def sub_links_def dropped_def s_add_def s_perform_def Let_def)

lemma onFrame_linked: "sub_linked s \<Longrightarrow> sub_linked (sub_onFrame env f s)"
proof -
  assume l: "sub_linked s"
  have "sub_linked s'" if "same_link s s'" for s' using same_link_ok [OF that] l by simp
  moreover have "sub_linked (finish_head env i h s)" for i h
    unfolding finish_head_def Let_def using l by (simp add: done_linked calculation)
  ultimately show ?thesis using l by (simp add: sub_onFrame_def split: option.split)
qed

lemma linked_later:
  assumes "sub_linked s" "same_link s s'"
  shows "sub_linked s'" "sub_linked (ask env i s')" "sub_linked (dropped env w s')"
  using assms same_link_ok ask_linked dropped_linked by blast+

lemma step_linked: "sub_linked s \<Longrightarrow> sub_linked (sub_step e s)"
proof -
  assume l: "sub_linked s"
  have connect: "sub_linked (sub_start env s)" if "sub_startedAt s = None" for env
    using l that by (simp add: sub_linked_def sub_links_def sub_start_def sub_connect_def s_perform_def)
  have fires: "sub_linked (reconnect_fires i s)" for i
    using l by (cases "sub_startedAt s") (auto simp: sub_linked_def sub_links_def reconnect_fires_def sub_connect_def s_perform_def Let_def min_def)
  have force: "sub_linked (forceReconnect env s)" for env
    using l by (cases "sub_startedAt s") (auto simp: sub_linked_def sub_links_def forceReconnect_def sub_connect_def close_socket_def s_perform_def split: option.split if_splits)
  show ?thesis using l connect fires force stop_linked [OF l]
    by (cases "(e, s)" rule: sub_step.cases)
      (auto simp: sub_onmessage_def sub_onerror_def sub_onclose_def ask_fires_def finish_def Let_def split: option.split timer.split
        intro: onFrame_linked linked_later [OF l])
qed

interpretation subscriber_link: preserved sub_step sub_linked
  by unfold_locales (rule step_linked)

text \<open>A drop moves the subscriber to another node.\<close>

lemma next_node_other:
  assumes "sub_node s < length (sub_urls s)" "0 \<le> se_node_random env" "se_node_random env < 1"
  shows "next_node env s < length (sub_urls s) \<and> (1 < length (sub_urls s) \<longrightarrow> next_node env s \<noteq> sub_node s)"
proof (cases "1 < length (sub_urls s)")
  case True
  define n d where "n = length (sub_urls s)" and "d = nat \<lfloor>se_node_random env * of_nat (n - 1)\<rfloor>"
  have "se_node_random env * of_nat (n - 1) < of_nat (n - 1)" using assms(3) True by (simp add: n_def)
  then have "\<lfloor>se_node_random env * of_nat (n - 1)\<rfloor> < int (n - 1)" unfolding floor_less_iff of_int_of_nat_eq .
  moreover have "0 \<le> \<lfloor>se_node_random env * of_nat (n - 1)\<rfloor>" using assms(2) by simp
  ultimately have d: "d < n - 1" unfolding d_def by (simp only: nat_less_iff)
  have i: "sub_node s < n" using assms(1) by (simp add: n_def)
  have "(sub_node s + 1 + d) mod n \<noteq> sub_node s"
  proof (cases "sub_node s + 1 + d < n")
    case False
    then have "(sub_node s + 1 + d) mod n = sub_node s + 1 + d - n" using i d by (simp add: le_mod_geq)
    then show ?thesis using d False by arith
  qed simp
  moreover have "(sub_node s + 1 + d) mod n < n" using i by (intro mod_less_divisor) simp
  ultimately show ?thesis using True unfolding next_node_def d_def n_def by simp
qed (use assms in \<open>simp add: next_node_def\<close>)

text \<open>
  A subscriber that was started and not stopped is always connected, connecting or about to: it has a socket
  or exactly one pending reconnect, never both, and when the reconnect is due it opens a new socket.
\<close>

theorem subscriber_reconnects:
  assumes "s = run sub_step es (new_subscriber urls start token m p)" "sub_startedAt s \<noteq> None" "\<not> sub_stopped s"
  shows "(sub_ws s \<noteq> None \<and> sub_reconnects s = [])
    \<or> (sub_ws s = None \<and> length (sub_reconnects s) = 1 \<and> sub_ws (sub_step (env, SReconnectFires 0) s) = Some (sub_sockets s))"
proof -
  have "sub_linked (new_subscriber urls start token m p)" by (simp add: sub_linked_def sub_links_def new_subscriber_def)
  then have "sub_linked s" using subscriber_link.run_good assms(1) by blast
  then show ?thesis using assms(2,3)
    by (auto simp: sub_linked_def sub_links_def reconnect_fires_def sub_connect_def s_perform_def Let_def split: if_splits)
qed

theorem subscriber_reconnects_witness:
  "sub_ws sample_loaded \<noteq> None \<and> sub_reconnects sample_loaded = []"
  using subscriber_reconnects [OF sample_loaded_def sample_loaded_facts(5,6)] sample_loaded_facts(7) by auto


section \<open>Sends\<close>

definition outcomes :: "p_effect list \<Rightarrow> p_effect list" where
  "outcomes es = filter (\<lambda>e. e = PMetric MAcked \<or> e = PMetric MSendFailed) es"

fun posted :: "p_effect \<Rightarrow> string list" where
  "posted (PPost u) = [u]"
| "posted _ = []"

definition posts :: "p_effect list \<Rightarrow> string list" where
  "posts es = concat (map posted es)"

definition retries :: "p_effect list \<Rightarrow> nat" where
  "retries es = length (filter (\<lambda>e. e = PMetric MSendRetry) es)"

fun accepted :: "post_answer \<Rightarrow> bool" where
  "accepted PostThrows = False"
| "accepted (PostStatus c) = (200 \<le> c \<and> c < 300)"

fun refused :: "post_answer \<Rightarrow> bool" where
  "refused PostThrows = False"
| "refused (PostStatus c) = (400 \<le> c \<and> c < 500 \<and> c \<noteq> 408 \<and> c \<noteq> 429)"

lemma effects_simps [simp]:
  "posts [] = []" "posts (e # es) = posted e @ posts es" "posts (es @ fs) = posts es @ posts fs"
  "outcomes [] = []" "outcomes (es @ fs) = outcomes es @ outcomes fs"
  "outcomes (e # es) = (if e = PMetric MAcked \<or> e = PMetric MSendFailed then [e] else []) @ outcomes es"
  "retries [] = 0" "retries (e # es) = (if e = PMetric MSendRetry then 1 else 0) + retries es" "retries (es @ fs) = retries es + retries fs"
  by (simp_all add: posts_def outcomes_def retries_def)

text \<open>The four ways a round goes.\<close>

lemma post_cases:
  fixes urls start cid deadline a b now answer rounds
  defines "es \<equiv> (if a > 0 then [PMetric MSendRetry] else []) @ [PPost (activities_url urls (start + a) cid)]"
    and "r \<equiv> post_rounds urls start cid deadline a b ((now, answer) # rounds)"
    and "r' \<equiv> post_rounds urls start cid deadline (Suc a) (min (b * 2) 1000) rounds"
  obtains (late) "deadline \<le> now" "r = ([PMetric MSendFailed], Some False)"
  | (acked) "now < deadline" "accepted answer" "r = (es @ [PMetric MAcked], Some True)"
  | (refused) c where "now < deadline" "\<not> accepted answer" "refused answer" "r = (es @ [PRejected c, PMetric MSendFailed], Some False)"
  | (again) "now < deadline" "\<not> accepted answer" "\<not> refused answer" "r = (es @ PSleep b # fst r', snd r')"
proof (cases "deadline \<le> now")
  case True
  then show ?thesis using late by (simp add: r_def)
next
  case False
  show ?thesis
  proof (cases answer)
    case PostThrows
    then show ?thesis using False again by (simp add: r_def r'_def es_def Let_def split_beta)
  next
    case (PostStatus c)
    consider "accepted answer" | "\<not> accepted answer" "refused answer" | "\<not> accepted answer" "\<not> refused answer" by blast
    then show ?thesis using False PostStatus acked refused [of c] again
      by cases (simp_all add: r_def r'_def es_def Let_def split_beta)
  qed
qed

declare post_rounds.simps(2) [simp del]

lemma post_returns:
  "snd (post_rounds urls start cid deadline a b rounds) \<noteq> None \<longleftrightarrow>
     (\<exists>(t, x) \<in> set rounds. deadline \<le> t \<or> accepted x \<or> refused x)"
proof (induction rounds arbitrary: a b)
  case (Cons r rounds)
  obtain t x where r: "r = (t, x)" by fastforce
  show ?case unfolding r by (rule post_cases [of deadline t urls start cid a b x rounds]) (use Cons.IH in auto)
qed simp

lemma post_outcome:
  "snd (post_rounds urls start cid deadline a b rounds) = Some ok \<Longrightarrow>
     outcomes (fst (post_rounds urls start cid deadline a b rounds)) = [PMetric (if ok then MAcked else MSendFailed)]"
proof (induction rounds arbitrary: a b)
  case (Cons r rounds)
  obtain t x where r: "r = (t, x)" by fastforce
  show ?case by (rule post_cases [of deadline t urls start cid a b x rounds]) (use Cons.IH Cons.prems r in auto)
qed simp

lemma post_acked:
  "snd (post_rounds urls start cid deadline a b rounds) = Some True \<Longrightarrow> \<exists>(t, x) \<in> set rounds. t < deadline \<and> accepted x"
proof (induction rounds arbitrary: a b)
  case (Cons r rounds)
  obtain t x where r: "r = (t, x)" by fastforce
  show ?case by (rule post_cases [of deadline t urls start cid a b x rounds]) (use Cons.IH Cons.prems r in auto)
qed simp

lemma post_urls:
  "\<exists>n. posts (fst (post_rounds urls start cid deadline a b rounds)) = map (\<lambda>k. activities_url urls (start + k) cid) [a..<a + n]
     \<and> retries (fst (post_rounds urls start cid deadline a b rounds)) = n - (if a = 0 then 1 else 0)"
proof (induction rounds arbitrary: a b)
  case (Cons r rounds)
  obtain t x where r: "r = (t, x)" by fastforce
  obtain n where n: "posts (fst (post_rounds urls start cid deadline (Suc a) (min (b * 2) 1000) rounds))
      = map (\<lambda>k. activities_url urls (start + k) cid) [Suc a..<Suc a + n]"
    "retries (fst (post_rounds urls start cid deadline (Suc a) (min (b * 2) 1000) rounds)) = n" using Cons.IH [of "Suc a"] by fastforce
  have u: "[a..<a + 1] = [a]" by (simp add: upt_conv_Cons del: upt_Suc)
  show ?case
  proof (rule post_cases [of deadline t urls start cid a b x rounds])
    assume "post_rounds urls start cid deadline a b ((t, x) # rounds) = ([PMetric MSendFailed], Some False)"
    then show ?thesis by (intro exI [of _ 0]) (simp add: r)
  next
    assume "post_rounds urls start cid deadline a b ((t, x) # rounds) = (((if a > 0 then [PMetric MSendRetry] else [])
      @ [PPost (activities_url urls (start + a) cid)]) @ [PMetric MAcked], Some True)"
    then show ?thesis by (intro exI [of _ 1]) (simp add: r u)
  next
    fix c assume "post_rounds urls start cid deadline a b ((t, x) # rounds) = (((if a > 0 then [PMetric MSendRetry] else [])
      @ [PPost (activities_url urls (start + a) cid)]) @ [PRejected c, PMetric MSendFailed], Some False)"
    then show ?thesis by (intro exI [of _ 1]) (simp add: r u)
  next
    assume "post_rounds urls start cid deadline a b ((t, x) # rounds) = (((if a > 0 then [PMetric MSendRetry] else [])
      @ [PPost (activities_url urls (start + a) cid)]) @ PSleep b # fst (post_rounds urls start cid deadline (Suc a) (min (b * 2) 1000) rounds),
      snd (post_rounds urls start cid deadline (Suc a) (min (b * 2) 1000) rounds))"
    then show ?thesis using n by (intro exI [of _ "Suc n"]) (auto simp: r upt_conv_Cons simp del: upt_Suc)
  qed
qed (auto intro: exI [of _ 0])

text \<open>
  C27. A send ends with one outcome. It returns once the deadline has passed, or before with an answer that accepts
  or refuses it for good; it then counts exactly one acknowledged or one failed message, and acknowledged only
  with a 2xx answer before the deadline. The attempts go to the nodes in turn, and every one after the first
  counts as a retry.
\<close>

theorem post_ends_once:
  assumes "r = postActivity urls start cid deadline rounds"
  shows "((\<exists>(t, x) \<in> set rounds. deadline \<le> t \<or> accepted x \<or> refused x) \<longleftrightarrow> snd r \<noteq> None)
    \<and> (\<forall>ok. snd r = Some ok \<longrightarrow> outcomes (fst r) = [PMetric (if ok then MAcked else MSendFailed)])
    \<and> (snd r = Some True \<longrightarrow> (\<exists>(t, x) \<in> set rounds. t < deadline \<and> accepted x))
    \<and> (\<exists>n. posts (fst r) = map (\<lambda>k. activities_url urls (start + k) cid) [0..<n] \<and> retries (fst r) = n - 1)"
  unfolding assms postActivity_def
  using post_returns [of urls start cid deadline 0 100 rounds] post_outcome [of urls start cid deadline 0 100 rounds]
    post_acked [of urls start cid deadline 0 100 rounds] post_urls [of urls start cid deadline 0 100 rounds] by simp

theorem post_ends_once_witness:
  "snd (postActivity [''a''] 0 ''c'' 9 [(1, PostThrows), (2, PostStatus 200)]) = Some True
   \<and> outcomes (fst (postActivity [''a''] 0 ''c'' 9 [(1, PostThrows), (2, PostStatus 200)])) = [PMetric MAcked]"
proof -
  have "snd (postActivity [''a''] 0 ''c'' 9 [(1, PostThrows), (2, PostStatus 200)]) = Some True" by (simp add: postActivity_def post_rounds.simps)
  then show ?thesis using post_ends_once [OF refl, where urls = "[''a'']" and start = 0 and cid = "''c''" and deadline = 9 and rounds = "[(1, PostThrows), (2, PostStatus 200)]"] by auto
qed


end
