(* ===== verification/Load_Provider.thy ===== *)
theory Load_Provider
  imports Load_Subscriber "HOL-Library.Multiset"
begin

text \<open>
  The mock provider of the load harness, \<open>load/mock_provider/server.js\<close>: the endpoint deliveries go to. It fails
  a share of the requests, answers after a delay, counts each activity once and keeps the latencies of first
  deliveries. The statistics of a path are objects that answers in progress refer to, also after a reset, so
  the model keeps them in a store. The percentiles of \<open>load/results.js\<close> are modelled here as well.
\<close>

section \<open>State\<close>

record path_stats =
  ps_requests :: nat
  ps_failed :: nat
  ps_duplicates :: nat
  ps_hanging :: int
  ps_seen :: "json list"
  ps_latencies :: "jsnum list"
  ps_samples :: "(jsnum \<times> jsnum) list"

definition new_stats :: path_stats where
  "new_stats = \<lparr>ps_requests = 0, ps_failed = 0, ps_duplicates = 0, ps_hanging = 0, ps_seen = [], ps_latencies = [], ps_samples = []\<rparr>"

record provider_config =
  pc_latencyMs :: jsnum
  pc_jitterMs :: jsnum
  pc_errorRate :: jsnum

text \<open>An answer in progress: its statistics, whether it fails, the body and the delivery id of the request.\<close>

record answering =
  an_stats :: nat
  an_fail :: bool
  an_body :: string
  an_deliveryId :: "string option"

record latency_summary =
  ls_count :: nat
  ls_p50 :: "jsnum option"
  ls_p95 :: "jsnum option"
  ls_p99 :: "jsnum option"
  ls_max :: "jsnum option"

record path_summary =
  sm_requests :: nat
  sm_failed :: nat
  sm_delivered :: nat
  sm_duplicates :: nat
  sm_hanging :: int
  sm_latency :: latency_summary

datatype v_effect =
    VStats "(string \<times> path_summary) list" path_summary
  | VSamples "(jsnum \<times> jsnum) list"
  | VAnswer nat int
  | VCrash

record provider =
  pv_paths :: "(string \<times> nat) list"
  pv_store :: "path_stats list"
  pv_reading :: "(nat \<times> string) list"
  pv_answering :: "(nat \<times> answering) list"
  pv_held :: "(nat \<times> nat) list"
  pv_crashed :: bool
  pv_out :: "v_effect list"

definition new_provider :: provider where
  "new_provider = \<lparr>pv_paths = [], pv_store = [], pv_reading = [], pv_answering = [], pv_held = [], pv_crashed = False, pv_out = []\<rparr>"

definition v_perform :: "v_effect \<Rightarrow> provider \<Rightarrow> provider" where
  "v_perform e s = s\<lparr>pv_out := pv_out s @ [e]\<rparr>"

definition update_stats :: "nat \<Rightarrow> (path_stats \<Rightarrow> path_stats) \<Rightarrow> provider \<Rightarrow> provider" where
  "update_stats o' f s = s\<lparr>pv_store := (pv_store s)[o' := f (pv_store s ! o')]\<rparr>"

definition pathStats :: "string \<Rightarrow> provider \<Rightarrow> nat \<times> provider" where
  "pathStats path s =
     (case map_of (pv_paths s) path of
        Some o' \<Rightarrow> (o', s)
      | None \<Rightarrow>
          (length (pv_store s),
           s\<lparr>pv_store := pv_store s @ [new_stats], pv_paths := pv_paths s @ [(path, length (pv_store s))]\<rparr>))"

section \<open>Statistics\<close>

definition percentile :: "jsnum list \<Rightarrow> jsnum \<Rightarrow> jsnum option" where
  "percentile xs p =
     (if xs = [] then None
      else (let i = min (int (length xs) - 1) (\<lceil>p / 100 * of_nat (length xs)\<rceil> - 1) in Some (xs ! nat (max 0 i))))"

text \<open>\<open>pctOf\<close> of \<open>load/results.js\<close>.\<close>

definition pctOf :: "jsnum list \<Rightarrow> jsnum \<Rightarrow> jsnum option" where
  "pctOf xs p =
     (if xs \<noteq> []
      then Some (xs ! nat (min (int (length xs) - 1) (max 0 (\<lceil>p / 100 * of_nat (length xs)\<rceil> - 1))))
      else None)"

definition latency_of :: "jsnum list \<Rightarrow> latency_summary" where
  "latency_of latencies =
     (let xs = sort latencies
      in \<lparr>ls_count = length xs, ls_p50 = percentile xs 50, ls_p95 = percentile xs 95, ls_p99 = percentile xs 99,
          ls_max = (if xs \<noteq> [] then Some (last xs) else None)\<rparr>)"

definition summarise_path :: "path_stats \<Rightarrow> path_summary" where
  "summarise_path s =
     \<lparr>sm_requests = ps_requests s, sm_failed = ps_failed s, sm_delivered = length (ps_seen s), sm_duplicates = ps_duplicates s,
      sm_hanging = ps_hanging s, sm_latency = latency_of (ps_latencies s)\<rparr>"

text \<open>The sum over the paths; its \<open>seen\<close> holds the texts \<open>path/id\<close>.\<close>

definition all_seen :: "(string \<times> path_stats) list \<Rightarrow> string list" where
  "all_seen ps = remdups (concat (map (\<lambda>(path, s). map (\<lambda>i. path @ ''/'' @ js_str i) (ps_seen s)) ps))"

definition total_summary :: "(string \<times> path_stats) list \<Rightarrow> path_summary" where
  "total_summary ps =
     \<lparr>sm_requests = sum_list (map (ps_requests \<circ> snd) ps), sm_failed = sum_list (map (ps_failed \<circ> snd) ps),
      sm_delivered = length (all_seen ps), sm_duplicates = sum_list (map (ps_duplicates \<circ> snd) ps), sm_hanging = 0,
      sm_latency = latency_of (concat (map (ps_latencies \<circ> snd) ps))\<rparr>"

definition path_table :: "provider \<Rightarrow> (string \<times> path_stats) list" where
  "path_table s = map (\<lambda>(path, o'). (path, pv_store s ! o')) (pv_paths s)"

definition stats :: "provider \<Rightarrow> v_effect" where
  "stats s = VStats (map (\<lambda>(path, x). (path, summarise_path x)) (path_table s)) (total_summary (path_table s))"

section \<open>Requests\<close>

definition path_char :: "char \<Rightarrow> bool" where
  "path_char c \<longleftrightarrow> (let n = of_char c :: nat in 65 \<le> n \<and> n \<le> 90 \<or> 97 \<le> n \<and> n \<le> 122 \<or> 48 \<le> n \<and> n \<le> 57 \<or> n = 95 \<or> n = 45)"

text \<open>\<open>/^\/prefix\/([A-Za-z0-9_-]+)$/\<close>.\<close>

definition url_path :: "string \<Rightarrow> string \<Rightarrow> string option" where
  "url_path pfx url =
     (let path = drop (length pfx) url
      in if take (length pfx) url = pfx \<and> path \<noteq> [] \<and> list_all path_char path then Some path else None)"

definition provider_request :: "nat \<Rightarrow> string \<Rightarrow> string \<Rightarrow> provider \<Rightarrow> provider" where
  "provider_request r verb url s =
     (if verb = ''GET'' \<and> url = ''/stats'' then v_perform (stats s) s
      else case (if verb = ''GET'' then url_path ''/samples/'' url else None) of
        Some path \<Rightarrow>
          v_perform (VSamples (case map_of (pv_paths s) path of Some o' \<Rightarrow> ps_samples (pv_store s ! o') | None \<Rightarrow> [])) s
      | None \<Rightarrow>
          if verb = ''POST'' \<and> url = ''/reset'' then v_perform (VAnswer r 200) (s\<lparr>pv_paths := []\<rparr>)
          else case (if verb = ''POST'' then url_path ''/hook/'' url else None) of
            Some path \<Rightarrow> s\<lparr>pv_reading := AList.update r path (pv_reading s)\<rparr>
          | None \<Rightarrow> v_perform (VAnswer r 404) s)"

fun primitive :: "json \<Rightarrow> bool" where
  "primitive (JArr _) = False"
| "primitive (JObj _) = False"
| "primitive _ = True"

text \<open>Counting a delivery; a \<open>Set\<close> tells objects apart by identity, and each parse makes a new one.\<close>

definition count_delivery :: "jsnum \<Rightarrow> json \<Rightarrow> json option \<Rightarrow> path_stats \<Rightarrow> path_stats" where
  "count_delivery now body i s =
     (case i of
        None \<Rightarrow> s
      | Some i' \<Rightarrow>
          if \<not> js_truthy i then s
          else if primitive i' \<and> i' \<in> set (ps_seen s) then s\<lparr>ps_duplicates := Suc (ps_duplicates s)\<rparr>
          else
            (let s1 = s\<lparr>ps_seen := ps_seen s @ [i']\<rparr>
             in case sentAt (or_json (field body ''text'') (and_field (field body ''data'') ''text'')) of
                  Some t \<Rightarrow> s1\<lparr>ps_latencies := ps_latencies s1 @ [now - t], ps_samples := ps_samples s1 @ [(now, now - t)]\<rparr>
                | None \<Rightarrow> s1))"

text \<open>\<open>answer\<close>; a body that is \<open>null\<close> has no properties, and the exception ends the process.\<close>

definition answer :: "jsnum \<Rightarrow> nat \<Rightarrow> answering \<Rightarrow> provider \<Rightarrow> provider" where
  "answer now r a s =
     (if an_fail a then v_perform (VAnswer r 500) (update_stats (an_stats a) (\<lambda>x. x\<lparr>ps_failed := Suc (ps_failed x)\<rparr>) s)
      else
        (let body = (case JSON_parse (an_body a) of Some j \<Rightarrow> j | None \<Rightarrow> JObj []) in
         if body = JNull then v_perform VCrash (s\<lparr>pv_crashed := True\<rparr>)
         else
           (let i = or_json (field body ''id'') (map_option JStr (an_deliveryId a))
            in v_perform (VAnswer r 200) (update_stats (an_stats a) (count_delivery now body i) s))))"

record venv =
  ve_now :: jsnum
  ve_fail :: jsnum
  ve_jitter :: jsnum

definition provider_end :: "provider_config \<Rightarrow> venv \<Rightarrow> nat \<Rightarrow> string \<Rightarrow> string option \<Rightarrow> provider \<Rightarrow> provider" where
  "provider_end cfg env r body deliveryId s0 =
     (case map_of (pv_reading s0) r of
        None \<Rightarrow> s0
      | Some path \<Rightarrow>
          (let (o', s1) = pathStats path (s0\<lparr>pv_reading := AList.delete r (pv_reading s0)\<rparr>);
               s = update_stats o' (\<lambda>x. x\<lparr>ps_requests := Suc (ps_requests x)\<rparr>) s1
           in if take 4 path = ''hang''
              then (update_stats o' (\<lambda>x. x\<lparr>ps_hanging := ps_hanging x + 1\<rparr>) s)\<lparr>pv_held := pv_held s @ [(r, o')]\<rparr>
              else
                (let a = \<lparr>an_stats = o', an_fail = (pc_errorRate cfg > 0 \<and> ve_fail env < pc_errorRate cfg), an_body = body,
                          an_deliveryId = deliveryId\<rparr>;
                     delay = pc_latencyMs cfg + (if pc_jitterMs cfg > 0 then ve_jitter env * pc_jitterMs cfg else 0)
                 in if delay > 0 then s\<lparr>pv_answering := pv_answering s @ [(r, a)]\<rparr> else answer (ve_now env) r a s)))"

definition answer_fires :: "venv \<Rightarrow> nat \<Rightarrow> provider \<Rightarrow> provider" where
  "answer_fires env i s =
     (if i < length (pv_answering s) then
        (case pv_answering s ! i of
           (r, a) \<Rightarrow> answer (ve_now env) r a (s\<lparr>pv_answering := take i (pv_answering s) @ drop (Suc i) (pv_answering s)\<rparr>))
      else s)"

definition held_closes :: "nat \<Rightarrow> provider \<Rightarrow> provider" where
  "held_closes i s =
     (if i < length (pv_held s) then
        update_stats (snd (pv_held s ! i)) (\<lambda>x. x\<lparr>ps_hanging := ps_hanging x - 1\<rparr>)
          (s\<lparr>pv_held := take i (pv_held s) @ drop (Suc i) (pv_held s)\<rparr>)
      else s)"

section \<open>Steps\<close>

datatype v_input =
    VRequest nat string string
  | VEnd nat string "string option"
  | VAnswerFires nat
  | VHeldCloses nat

fun provider_step :: "provider_config \<Rightarrow> venv \<times> v_input \<Rightarrow> provider \<Rightarrow> provider" where
  "provider_step cfg (env, i) s =
     (if pv_crashed s then s
      else case i of
        VRequest r verb url \<Rightarrow> provider_request r verb url s
      | VEnd r body d \<Rightarrow> provider_end cfg env r body d s
      | VAnswerFires k \<Rightarrow> answer_fires env k s
      | VHeldCloses k \<Rightarrow> held_closes k s)"

section \<open>Percentiles\<close>

definition rank :: "nat \<Rightarrow> jsnum \<Rightarrow> nat" where
  "rank n p = nat (max 0 (min (int n - 1) (\<lceil>p / 100 * of_nat n\<rceil> - 1)))"

lemma percentile_rank: "xs \<noteq> [] \<Longrightarrow> percentile xs p = Some (xs ! rank (length xs) p)" "xs \<noteq> [] \<Longrightarrow> pctOf xs p = Some (xs ! rank (length xs) p)"
proof -
  assume xs: "xs \<noteq> []"
  then have "0 \<le> int (length xs) - 1" by (cases xs) simp_all
  then have "min (int (length xs) - 1) (max 0 k) = max 0 (min (int (length xs) - 1) k)" for k by linarith
  then show "percentile xs p = Some (xs ! rank (length xs) p)" "pctOf xs p = Some (xs ! rank (length xs) p)"
    using xs by (simp_all add: percentile_def pctOf_def rank_def Let_def)
qed

lemma rank_bounds:
  assumes "0 < n" "0 < p" "p \<le> 100"
  shows "rank n p < n" "p / 100 * of_nat n \<le> of_nat (Suc (rank n p))" "of_nat (rank n p) < p / 100 * of_nat n"
proof -
  define q where "q = p / 100 * of_nat n"
  have q: "0 < q" "q \<le> of_nat n" using assms by (simp_all add: q_def field_simps mult_right_mono)
  have k0: "0 < \<lceil>q\<rceil>" using q(1) by simp
  have kn: "\<lceil>q\<rceil> \<le> int n" using q(2) by (simp add: ceiling_le_iff)
  have "int (rank n p) = \<lceil>q\<rceil> - 1"
    unfolding rank_def q_def [symmetric] using k0 kn assms(1) by (simp add: max_def min_def)
  then have r: "\<lceil>q\<rceil> = int (Suc (rank n p))" by simp
  show "rank n p < n" using r kn by simp
  have "of_int \<lceil>q\<rceil> = (of_nat (Suc (rank n p)) :: real)" unfolding r by simp
  then show "p / 100 * of_nat n \<le> of_nat (Suc (rank n p))" "of_nat (rank n p) < p / 100 * of_nat n"
    unfolding q_def [symmetric] using ceiling_correct [of q] by simp_all
qed

lemma sorted_counts:
  assumes "sorted xs" "i < length xs"
  shows "Suc i \<le> length (filter (\<lambda>x. x \<le> xs ! i) xs)" "length (filter (\<lambda>x. x < xs ! i) xs) \<le> i"
proof -
  have "\<forall>x \<in> set (take (Suc i) xs). x \<le> xs ! i"
    using assms by (auto simp: in_set_conv_nth sorted_nth_mono less_Suc_eq_le)
  then have "filter (\<lambda>x. x \<le> xs ! i) (take (Suc i) xs) = take (Suc i) xs" by (simp add: filter_id_conv)
  moreover have "filter P xs = filter P (take (Suc i) xs) @ filter P (drop (Suc i) xs)" for P by (metis append_take_drop_id filter_append)
  ultimately have "length (filter (\<lambda>x. x \<le> xs ! i) xs) = length (take (Suc i) xs) + length (filter (\<lambda>x. x \<le> xs ! i) (drop (Suc i) xs))" by simp
  then show "Suc i \<le> length (filter (\<lambda>x. x \<le> xs ! i) xs)" using assms(2) by simp
  have "\<forall>x \<in> set (drop i xs). \<not> x < xs ! i"
    using assms by (auto simp: in_set_conv_nth not_less intro!: sorted_nth_mono)
  then have "filter (\<lambda>x. x < xs ! i) (drop i xs) = []" by (simp add: filter_empty_conv)
  moreover have "filter P xs = filter P (take i xs) @ filter P (drop i xs)" for P by (metis append_take_drop_id filter_append)
  ultimately have "filter (\<lambda>x. x < xs ! i) xs = filter (\<lambda>x. x < xs ! i) (take i xs)" by simp
  then show "length (filter (\<lambda>x. x < xs ! i) xs) \<le> i" using length_filter_le [of "\<lambda>x. x < xs ! i" "take i xs"] by simp
qed

text \<open>
  C29. The provider and the report compute the same percentiles, and they are nearest-rank percentiles: the \<open>p\<close>-th
  is a latency that at least \<open>p\<close> per cent of the latencies do not exceed and fewer than \<open>p\<close> per cent are below.
\<close>

theorem percentiles_agree:
  assumes "sorted xs" "xs \<noteq> []" "0 < p" "p \<le> 100"
  shows "\<exists>x \<in> set xs. percentile xs p = Some x \<and> pctOf xs p = Some x
    \<and> p / 100 * of_nat (length xs) \<le> of_nat (length (filter (\<lambda>y. y \<le> x) xs))
    \<and> of_nat (length (filter (\<lambda>y. y < x) xs)) < p / 100 * of_nat (length xs)"
proof -
  define i where "i = rank (length xs) p"
  have i: "i < length xs" "p / 100 * of_nat (length xs) \<le> of_nat (Suc i)" "of_nat i < p / 100 * of_nat (length xs)"
    unfolding i_def using rank_bounds [of "length xs" p] assms by simp_all
  note c = sorted_counts [OF assms(1) i(1)]
  have "(of_nat (Suc i) :: real) \<le> of_nat (length (filter (\<lambda>x. x \<le> xs ! i) xs))" "(of_nat (length (filter (\<lambda>x. x < xs ! i) xs)) :: real) \<le> of_nat i"
    using c by (simp_all only: of_nat_le_iff)
  then have "p / 100 * of_nat (length xs) \<le> of_nat (length (filter (\<lambda>y. y \<le> xs ! i) xs))"
    "of_nat (length (filter (\<lambda>y. y < xs ! i) xs)) < p / 100 * of_nat (length xs)" using i(2,3) by linarith+
  then show ?thesis using percentile_rank [OF assms(2), of p] i(1) by (intro bexI [of _ "xs ! i"]) (simp_all add: i_def)
qed

theorem percentiles_agree_witness:
  "\<exists>x \<in> set [1, 2, 5 :: jsnum]. percentile [1, 2, 5] 50 = Some x \<and> pctOf [1, 2, 5] 50 = Some x"
  using percentiles_agree [of "[1, 2, 5]" 50] by auto

section \<open>Counting\<close>

definition answering_on :: "nat \<Rightarrow> provider \<Rightarrow> nat" where
  "answering_on o' s = length (filter (\<lambda>(r, a). an_stats a = o') (pv_answering s))"

definition held_on :: "nat \<Rightarrow> provider \<Rightarrow> nat" where
  "held_on o' s = length (filter (\<lambda>(r, x). x = o') (pv_held s))"

definition stats_ok :: "nat \<Rightarrow> nat \<Rightarrow> path_stats \<Rightarrow> bool" where
  "stats_ok n h x \<longleftrightarrow> ps_failed x + ps_duplicates x + length (ps_seen x) + n \<le> ps_requests x \<and> ps_hanging x = int h
     \<and> distinct (filter primitive (ps_seen x)) \<and> length (ps_latencies x) \<le> length (ps_seen x) \<and> map snd (ps_samples x) = ps_latencies x"

definition provider_ok :: "provider \<Rightarrow> bool" where
  "provider_ok s \<longleftrightarrow> (\<forall>o' < length (pv_store s). stats_ok (answering_on o' s) (held_on o' s) (pv_store s ! o'))
     \<and> (\<forall>(path, o') \<in> set (pv_paths s). o' < length (pv_store s))
     \<and> (\<forall>(r, a) \<in> set (pv_answering s). an_stats a < length (pv_store s)) \<and> (\<forall>(r, o') \<in> set (pv_held s). o' < length (pv_store s))"

lemma delivery_ok:
  assumes "stats_ok (Suc n) h x"
  shows "stats_ok n h (count_delivery now body i x)"
  using assms by (auto simp: stats_ok_def count_delivery_def Let_def split: option.split)

lemma stats_ok_updates:
  "stats_ok (Suc n) h x \<Longrightarrow> stats_ok n h (x\<lparr>ps_failed := Suc (ps_failed x)\<rparr>)"
  "stats_ok n h x \<Longrightarrow> stats_ok (Suc n) h (x\<lparr>ps_requests := Suc (ps_requests x)\<rparr>)"
  "stats_ok (Suc n) h x \<Longrightarrow> stats_ok n (Suc h) (x\<lparr>ps_hanging := ps_hanging x + 1\<rparr>)"
  "stats_ok n (Suc h) x \<Longrightarrow> stats_ok n h (x\<lparr>ps_hanging := ps_hanging x - 1\<rparr>)"
  "stats_ok 0 0 new_stats" "stats_ok (Suc n) h x \<Longrightarrow> stats_ok n h x"
  by (auto simp: stats_ok_def new_stats_def)

text \<open>Updates of one entry of the store.\<close>

lemma counts_on_update [simp]:
  "answering_on o' (update_stats k f s) = answering_on o' s" "held_on o' (update_stats k f s) = held_on o' s"
  "answering_on o' (v_perform e s) = answering_on o' s" "held_on o' (v_perform e s) = held_on o' s"
  "length (pv_store (update_stats k f s)) = length (pv_store s)" "pv_store (v_perform e s) = pv_store s"
  by (simp_all add: answering_on_def held_on_def update_stats_def v_perform_def)

text \<open>The invariant, with the answers and held requests still to be counted at \<open>k\<close>.\<close>

definition counted :: "(nat \<Rightarrow> nat) \<Rightarrow> (nat \<Rightarrow> nat) \<Rightarrow> provider \<Rightarrow> bool" where
  "counted n h s \<longleftrightarrow> (\<forall>o' < length (pv_store s). stats_ok (n o') (h o') (pv_store s ! o'))"

definition refers :: "provider \<Rightarrow> bool" where
  "refers s \<longleftrightarrow> (\<forall>(path, o') \<in> set (pv_paths s). o' < length (pv_store s))
     \<and> (\<forall>(r, a) \<in> set (pv_answering s). an_stats a < length (pv_store s)) \<and> (\<forall>(r, o') \<in> set (pv_held s). o' < length (pv_store s))"

lemma provider_ok_alt: "provider_ok s \<longleftrightarrow> counted (\<lambda>o'. answering_on o' s) (\<lambda>o'. held_on o' s) s \<and> refers s"
  by (simp add: provider_ok_def counted_def refers_def)

lemma counted_update:
  assumes "counted n h s" "k < length (pv_store s)" "stats_ok (n k) (h k) (pv_store s ! k) \<Longrightarrow> stats_ok (n' k) (h' k) (f (pv_store s ! k))"
    "\<And>o'. o' \<noteq> k \<Longrightarrow> n' o' = n o' \<and> h' o' = h o'"
  shows "counted n' h' (update_stats k f s)"
  using assms by (auto simp: counted_def update_stats_def nth_list_update)

lemma counted_rest [simp]: "counted n h (v_perform e s) = counted n h s" "counted n h (s\<lparr>pv_answering := a\<rparr>) = counted n h s"
  "counted n h (s\<lparr>pv_held := b\<rparr>) = counted n h s" "counted n h (s\<lparr>pv_reading := c\<rparr>) = counted n h s"
  "counted n h (s\<lparr>pv_crashed := d\<rparr>) = counted n h s" "counted n h (s\<lparr>pv_paths := g\<rparr>) = counted n h s"
  by (simp_all add: counted_def v_perform_def)

lemma refers_rest [simp]: "refers (v_perform e s) = refers s" "refers (update_stats k f s) = refers s"
  "refers (s\<lparr>pv_reading := c\<rparr>) = refers s" "refers (s\<lparr>pv_crashed := d\<rparr>) = refers s"
  by (simp_all add: refers_def v_perform_def update_stats_def)

lemma on_rest [simp]: "answering_on o' (s\<lparr>pv_reading := c\<rparr>) = answering_on o' s" "held_on o' (s\<lparr>pv_reading := c\<rparr>) = held_on o' s"
  "answering_on o' (s\<lparr>pv_crashed := d\<rparr>) = answering_on o' s" "held_on o' (s\<lparr>pv_crashed := d\<rparr>) = held_on o' s"
  "answering_on o' (s\<lparr>pv_paths := g\<rparr>) = answering_on o' s" "held_on o' (s\<lparr>pv_paths := g\<rparr>) = held_on o' s"
  "answering_on o' (s\<lparr>pv_held := b\<rparr>) = answering_on o' s" "held_on o' (s\<lparr>pv_answering := a\<rparr>) = held_on o' s"
  by (simp_all add: answering_on_def held_on_def)

lemma answer_ok:
  assumes "counted ((\<lambda>o'. answering_on o' s)(an_stats a := Suc (answering_on (an_stats a) s))) (\<lambda>o'. held_on o' s) s" "refers s"
    "an_stats a < length (pv_store s)"
  shows "provider_ok (answer now r a s)"
proof -
  have u: "counted (\<lambda>o'. answering_on o' s) (\<lambda>o'. held_on o' s) (update_stats (an_stats a) f s)"
    if "\<And>x. stats_ok (Suc (answering_on (an_stats a) s)) (held_on (an_stats a) s) x \<Longrightarrow> stats_ok (answering_on (an_stats a) s) (held_on (an_stats a) s) (f x)" for f
    by (rule counted_update [OF assms(1,3)]) (simp_all add: that)
  have "counted (\<lambda>o'. answering_on o' s) (\<lambda>o'. held_on o' s) s" using assms(1) stats_ok_updates(6)
    by (auto simp: counted_def split: if_splits)
  then show ?thesis using u assms(2) delivery_ok stats_ok_updates(1)
    by (simp add: answer_def provider_ok_alt Let_def)
qed

lemma take_drop_count:
  "i < length xs \<Longrightarrow> length (filter P xs) = (if P (xs ! i) then 1 else 0) + length (filter P (take i xs @ drop (Suc i) xs))"
  by (subst id_take_nth_drop [of i xs]) auto

lemma fires_ok: "provider_ok s \<Longrightarrow> provider_ok (answer_fires env i s)"
proof (cases "i < length (pv_answering s)")
  case True
  assume ok: "provider_ok s"
  obtain r a where ra: "pv_answering s ! i = (r, a)" by fastforce
  define s1 where "s1 = s\<lparr>pv_answering := take i (pv_answering s) @ drop (Suc i) (pv_answering s)\<rparr>"
  have n: "answering_on o' s = (if an_stats a = o' then 1 else 0) + answering_on o' s1" for o'
    unfolding answering_on_def s1_def using take_drop_count [OF True, of "\<lambda>(r, a). an_stats a = o'"] by (simp add: ra)
  have "(r, a) \<in> set (pv_answering s)" using True ra by (metis nth_mem)
  then have a: "an_stats a < length (pv_store s1)" using ok by (auto simp: provider_ok_def s1_def)
  have "(\<lambda>o'. answering_on o' s1)(an_stats a := Suc (answering_on (an_stats a) s1)) = (\<lambda>o'. answering_on o' s)" by (rule ext) (simp add: n)
  then have "counted ((\<lambda>o'. answering_on o' s1)(an_stats a := Suc (answering_on (an_stats a) s1))) (\<lambda>o'. held_on o' s1) s1"
    using ok by (simp only: provider_ok_alt s1_def on_rest counted_rest)
  moreover have "refers s1" using ok by (auto simp: provider_ok_alt refers_def s1_def dest: in_set_takeD in_set_dropD)
  ultimately show ?thesis using answer_ok [OF _ _ a] True by (simp add: answer_fires_def ra s1_def)
qed (simp add: answer_fires_def)

lemma closes_ok: "provider_ok s \<Longrightarrow> provider_ok (held_closes i s)"
proof (cases "i < length (pv_held s)")
  case True
  assume ok: "provider_ok s"
  obtain r k where rk: "pv_held s ! i = (r, k)" by fastforce
  define s1 where "s1 = s\<lparr>pv_held := take i (pv_held s) @ drop (Suc i) (pv_held s)\<rparr>"
  have n: "held_on o' s = (if k = o' then 1 else 0) + held_on o' s1" for o'
    unfolding held_on_def s1_def using take_drop_count [OF True, of "\<lambda>(r, x). x = o'"] by (simp add: rk)
  have "(r, k) \<in> set (pv_held s)" using True rk by (metis nth_mem)
  then have k: "k < length (pv_store s1)" using ok by (auto simp: provider_ok_def s1_def)
  have "counted (\<lambda>o'. answering_on o' s) (\<lambda>o'. held_on o' s) s1" using ok by (simp add: provider_ok_alt s1_def)
  then have "counted (\<lambda>o'. answering_on o' s) (\<lambda>o'. held_on o' s1) (update_stats k (\<lambda>x. x\<lparr>ps_hanging := ps_hanging x - 1\<rparr>) s1)"
    by (rule counted_update [OF _ k]) (simp_all add: n stats_ok_updates(4))
  moreover have "refers s1" using ok by (auto simp: provider_ok_alt refers_def s1_def dest: in_set_takeD in_set_dropD)
  ultimately show ?thesis using True by (simp add: held_closes_def rk provider_ok_alt s1_def [symmetric]) (simp add: s1_def)
qed (simp add: held_closes_def)

lemma pathStats_ok:
  assumes "provider_ok s" "pathStats path s = (k, s')"
  shows "provider_ok s' \<and> k < length (pv_store s') \<and> pv_held s' = pv_held s \<and> pv_answering s' = pv_answering s"
proof (cases "map_of (pv_paths s) path")
  case None
  have s': "k = length (pv_store s)" "s' = s\<lparr>pv_store := pv_store s @ [new_stats], pv_paths := pv_paths s @ [(path, length (pv_store s))]\<rparr>"
    using None assms(2) by (auto simp: pathStats_def)
  have z: "answering_on (length (pv_store s)) s = 0" "held_on (length (pv_store s)) s = 0"
    using assms(1) by (auto simp: provider_ok_def answering_on_def held_on_def filter_empty_conv)
  have "answering_on o' s' = answering_on o' s" "held_on o' s' = held_on o' s" for o' by (simp_all add: s' answering_on_def held_on_def)
  then have "counted (\<lambda>o'. answering_on o' s') (\<lambda>o'. held_on o' s') s'"
    using assms(1) z stats_ok_updates(5) by (auto simp: provider_ok_alt counted_def s'(2) nth_append less_Suc_eq)
  moreover have "refers s'" using assms(1) by (auto simp: provider_ok_alt refers_def s'(2) less_SucI)
  ultimately show ?thesis by (simp add: provider_ok_alt s')
next
  case (Some o')
  then show ?thesis using assms by (auto simp: pathStats_def provider_ok_def dest!: map_of_SomeD)
qed

lemma end_ok: "provider_ok s \<Longrightarrow> provider_ok (provider_end cfg env r body d s)"
proof (cases "map_of (pv_reading s) r")
  case (Some path)
  assume "provider_ok s"
  then have ok: "provider_ok (s\<lparr>pv_reading := AList.delete r (pv_reading s)\<rparr>)" by (simp add: provider_ok_alt refers_def)
  obtain k s1 where p: "pathStats path (s\<lparr>pv_reading := AList.delete r (pv_reading s)\<rparr>) = (k, s1)" by fastforce
  have s1: "provider_ok s1" "k < length (pv_store s1)" using pathStats_ok [OF ok p] by simp_all
  define s2 where "s2 = update_stats k (\<lambda>x. x\<lparr>ps_requests := Suc (ps_requests x)\<rparr>) s1"
  have s2: "counted ((\<lambda>o'. answering_on o' s2)(k := Suc (answering_on k s2))) (\<lambda>o'. held_on o' s2) s2" "refers s2" "k < length (pv_store s2)"
    using s1 by (auto simp: provider_ok_alt s2_def intro!: counted_update stats_ok_updates(2))
  define a where "a = \<lparr>an_stats = k, an_fail = (pc_errorRate cfg > 0 \<and> ve_fail env < pc_errorRate cfg), an_body = body, an_deliveryId = d\<rparr>"
  have now: "provider_ok (answer (ve_now env) r a s2)" by (rule answer_ok) (use s2 in \<open>simp_all add: a_def\<close>)
  have later: "provider_ok (s2\<lparr>pv_answering := pv_answering s2 @ [(r, a)]\<rparr>)"
  proof -
    have "(\<lambda>o'. answering_on o' (s2\<lparr>pv_answering := pv_answering s2 @ [(r, a)]\<rparr>)) = (\<lambda>o'. answering_on o' s2)(k := Suc (answering_on k s2))"
      by (rule ext) (simp add: answering_on_def a_def)
    then show ?thesis using s2 by (simp add: provider_ok_alt) (auto simp: refers_def a_def)
  qed
  have held: "provider_ok ((update_stats k (\<lambda>x. x\<lparr>ps_hanging := ps_hanging x + 1\<rparr>) s2)\<lparr>pv_held := pv_held s2 @ [(r, k)]\<rparr>)"
  proof -
    let ?s = "update_stats k (\<lambda>x. x\<lparr>ps_hanging := ps_hanging x + 1\<rparr>) s2"
    have "counted (\<lambda>o'. answering_on o' s2) ((\<lambda>o'. held_on o' s2)(k := Suc (held_on k s2))) ?s"
      by (rule counted_update [OF s2(1,3)]) (simp_all add: stats_ok_updates(3))
    moreover have "(\<lambda>o'. held_on o' (?s\<lparr>pv_held := pv_held s2 @ [(r, k)]\<rparr>)) = (\<lambda>o'. held_on o' s2)(k := Suc (held_on k s2))"
      by (rule ext) (simp add: held_on_def)
    moreover have "refers (?s\<lparr>pv_held := pv_held s2 @ [(r, k)]\<rparr>)" using s2(2,3) by (auto simp: refers_def update_stats_def)
    ultimately show ?thesis by (simp add: provider_ok_alt)
  qed
  show ?thesis using now later held
    unfolding provider_end_def Some option.case p split_conv s2_def [symmetric] a_def Let_def by simp
qed (simp add: provider_end_def)

lemma request_ok: "provider_ok s \<Longrightarrow> provider_ok (provider_request r verb url s)"
  by (simp add: provider_request_def provider_ok_alt split: option.split) (simp add: refers_def)

lemma provider_step_ok: "provider_ok s \<Longrightarrow> provider_ok (provider_step cfg e s)"
  using request_ok end_ok fires_ok closes_ok by (cases e) (simp split: v_input.split)

interpretation provider_counts: preserved "provider_step cfg" provider_ok
  by unfold_locales (rule provider_step_ok)

lemma new_provider_ok: "provider_ok new_provider"
  by (simp add: provider_ok_def new_provider_def)

text \<open>
  C28. The provider's counts are consistent at every moment, with answers in progress and across resets: of the
  requests of a path, no one is counted as more than one of failed, duplicate and delivered; each id that
  is not an object counts once as delivered, however often it comes; only first deliveries have a latency; and the requests counted as
  hanging are those being held.
\<close>

theorem provider_counts_once:
  assumes "s = run (provider_step cfg) es new_provider" "(path, k) \<in> set (pv_paths s)" "x = pv_store s ! k"
  shows "ps_failed x + ps_duplicates x + length (ps_seen x) + answering_on k s \<le> ps_requests x \<and> distinct (filter primitive (ps_seen x))
    \<and> length (ps_latencies x) \<le> length (ps_seen x) \<and> map snd (ps_samples x) = ps_latencies x \<and> ps_hanging x = int (held_on k s)"
proof -
  have ok: "provider_ok s" using provider_counts.run_good [OF new_provider_ok] assms(1) by simp
  then have "stats_ok (answering_on k s) (held_on k s) x" using assms(2,3) by (auto simp: provider_ok_def)
  then show ?thesis by (simp add: stats_ok_def)
qed

definition sample_hooks :: "(venv \<times> v_input) list" where
  "sample_hooks =
     (let env = \<lparr>ve_now = 9, ve_fail = 0, ve_jitter = 0\<rparr>; b = JSON_stringify (JObj [(''id'', JStr ''x''), (''text'', JStr ''load 7 k'')])
      in [(env, VRequest 0 ''POST'' ''/hook/a''), (env, VEnd 0 b None), (env, VRequest 1 ''POST'' ''/hook/a''), (env, VEnd 1 b None)])"

definition sample_provider :: provider where
  "sample_provider = run (provider_step \<lparr>pc_latencyMs = 0, pc_jitterMs = 0, pc_errorRate = 0\<rparr>) sample_hooks new_provider"

lemma sample_provider_digest:
  "(pv_paths sample_provider, map ps_requests (pv_store sample_provider), map ps_duplicates (pv_store sample_provider),
    map (length \<circ> ps_seen) (pv_store sample_provider)) = ([(''a'', 0)], [2], [1], [1])"
  unfolding sample_provider_def by code_simp

theorem provider_counts_once_witness:
  "pv_paths sample_provider = [(''a'', 0)] \<and> distinct (filter primitive (ps_seen (pv_store sample_provider ! 0)))
   \<and> length (ps_latencies (pv_store sample_provider ! 0)) \<le> length (ps_seen (pv_store sample_provider ! 0))"
  using provider_counts_once [OF sample_provider_def, of "''a''" 0 "pv_store sample_provider ! 0"] sample_provider_digest by simp

end
