(* ===== verification/Spec2Isabelle.thy ===== *)
theory Spec2Isabelle
  imports Emitter Storage Conv_Faults Rest_Props Client_Props Reply_Props Agent_Turns Agent_Faults Agent_Server
    Load_Props Load_Provider
begin

text \<open>
  \<^bold>\<open>Converger: the client, the agent and the load harness.\<close>

  Converger carries conversations between people and bots. Two packages of the repository speak its
  protocol: \<open>packages/client-ts\<close>, with which an application takes part in conversations, and
  \<open>packages/agent-ts\<close>, with which a bot answers them. Both keep a connection to the server, resume after it
  breaks, send with acknowledgements and retries, and deliver what the server replays exactly once. This
  library models both packages, the test server that the agent package ships, and the parts of the load
  harness (\<open>load/\<close>) whose counts decide a benchmark, and proves what makes them correct.

  \<^bold>\<open>How the code is modelled.\<close> A class is a record of its fields. A method, a timer's callback, a socket's
  event or the part of an \<open>async\<close> function between two \<open>await\<close>s is a function on that record; the
  continuations that wait are fields of it. The step functions (\<open>step\<close> of a session, \<open>session_step\<close> of
  a client's sessions, \<open>native_step\<close>, \<open>phoenix_step\<close>, \<open>sse_step\<close>, \<open>asocket_step\<close>, \<open>reply_step\<close>,
  \<open>agent_step\<close>, \<open>sub_step\<close>, \<open>provider_step\<close>) take one callback with the answers the platform
  gives it (clock, \<open>Math.random\<close>, whether a write succeeds, parsers of the platform), so a run of steps is an
  interleaving of callbacks, and a theorem about all runs holds for every interleaving. What the code does to
  the outside (events, frames, settled promises) is appended to a log. JavaScript numbers are reals where the
  code calculates with them and integers where it counts; a \<open>Map\<close> is an association list in insertion
  order, a \<open>Set\<close> a list without duplicates, \<open>undefined\<close> is \<open>None\<close>, an exception is a value of a sum
  type. A timer is \<open>Unset\<close>, \<open>Armed\<close> or \<open>Spent\<close>: the difference between the last two is a handle that the code
  forgot to reset.

  \<^bold>\<open>Foundations.\<close>
  \<^item> \<open>Prelude\<close>: numbers, text, association lists, timers, \<open>run\<close>, and the locale \<open>preserved\<close> by which every
    invariant is carried over runs.
  \<^item> \<open>Json\<close>: the values of \<open>JSON.parse\<close> and \<open>JSON.stringify\<close>, with a parser and a printer.
  \<^item> \<open>Transport\<close> (\<open>transport/types.ts\<close>): what a session gives a transport, and the locale
    \<open>transport_contract\<close>, interpreted on the three transports of the client and on the agent's socket: a
    connection attempt reports its end when it closes, exactly once.

  \<^bold>\<open>The client\<close> (\<open>client-ts/src\<close>).
  \<^item> \<open>Backoff\<close> (\<open>backoff.ts\<close>, of both packages), \<open>Watermark\<close> (\<open>protocol/watermark.ts\<close>), \<open>Frames\<close> (\<open>protocol/frames.ts\<close>),
    \<open>Errors\<close> (\<open>errors.ts\<close>), \<open>Emitter\<close> (\<open>emitter.ts\<close>), \<open>Storage\<close> and \<open>Outbox\<close> (\<open>storage/\<close>),
    \<open>Token\<close> (\<open>token.ts\<close>): the parts a session is made of, with the bounds of the reconnect delay, the
    round trips of watermarks and of the stored outbox, and the reuse of a token the server rejected.
  \<^item> \<open>Native\<close>, \<open>Phoenix\<close> with \<open>Phoenix_Props\<close>, \<open>Sse\<close> with \<open>Sse_Props\<close> (\<open>transport/\<close>): an
    attempt always ends, stale joins are ignored, the numbers of an activity set, the parser of the event
    stream gives the same events however the stream is cut, and acknowledgements match in any order.
  \<^item> \<open>Rest\<close> with \<open>Rest_Props\<close> (\<open>rest/client.ts\<close>): the requests and the paged history, which is complete.
  \<^item> \<open>Conversation\<close> (\<open>conversation.ts\<close>): the session. \<open>Conv_Fields\<close> and \<open>Conv_Link\<close> hold the lemmas on
    its operations. \<open>Conv_Progress\<close>: a started session always has exactly one thing that drives it on, and
    a stopped one stays stopped. \<open>Conv_Receive\<close>: frames are emitted once, the watermark never passes
    a gap, \<open>markSeen\<close> refines a set of numbers. \<open>Conv_Send\<close>: promises settle once, no send is lost before
    its acknowledgement, a replayed own turn settles its send. \<open>Conv_Faults\<close>: what goes wrong.
  \<^item> \<open>Client\<close> with \<open>Client_Props\<close> (\<open>client.ts\<close>): the sessions of a client, their progress, and closing.

  \<^bold>\<open>The agent\<close> (\<open>agent-ts/src\<close>).
  \<^item> \<open>Tracker\<close> (\<open>watermarks.ts\<close>): the window of seen numbers per conversation and its eviction; it refines
    the set of recorded numbers and keeps the most recently active conversations.
  \<^item> \<open>Agent_Base\<close> (\<open>frames.ts\<close>, \<open>errors.ts\<close>, \<open>token.ts\<close>, \<open>turn.ts\<close> and the URL functions of \<open>socket.ts\<close>)
    and \<open>Agent_Socket\<close> (\<open>socket.ts\<close>).
  \<^item> \<open>Reply\<close> with \<open>Reply_Props\<close> (\<open>reply.ts\<close>): the helpers of a turn; a stream delivers the text it is given.
  \<^item> \<open>Agent\<close> (\<open>agent.ts\<close>): connection, sends, turns, asks, history and stopping. \<open>Agent_Sends\<close> and
    \<open>Agent_Moves\<close> relate the states before and after each operation: sends are conserved, the token bucket
    pays for each frame, connection and turns are left alone. \<open>Agent_Props\<close> draws from that, over all runs,
    that a send settles at most once and at most \<open>maxInFlight\<close> are unacknowledged, that the frames of any
    stretch of time obey the rate (the locale \<open>metered\<close>), and that a running agent is always connected or about
    to be. \<open>Agent_Turns\<close> (the locale \<open>turn_invariant\<close>): turns are handled in order, at most
    \<open>maxConcurrentTurns\<close> at a time, no slot is lost, and a numbered message is handled once.
    \<open>Agent_Faults\<close>: a send that stopping loses.
  \<^item> \<open>Fake_Server\<close> with \<open>Fake_Props\<close> (\<open>testing/index.ts\<close>): the test server; its transcripts are well typed and
    numbered, and a send is stored once however often it is repeated.
  \<^item> \<open>Agent_Server\<close>: the agent and the test server as one system, joined by the frames each writes. Every
    numbered turn that is handled, and every acknowledged send, is one the server stored; a hello is
    answered with what the agent has not seen.

  \<^bold>\<open>The load harness\<close> (\<open>load/\<close>).
  \<^item> \<open>Load_Subscriber\<close> with \<open>Load_Props\<close> (\<open>lib/converger.js\<close>): the subscriber that measures deliveries and
    the sender that retries. The position of a subscriber refines the set of numbers that arrived, its verdict
    on losses is right, it reconnects until it is stopped, and a send ends with one outcome.
  \<^item> \<open>Load_Provider\<close> (\<open>mock_provider/server.js\<close>, and \<open>pctOf\<close> of \<open>results.js\<close>): the counts of the mock provider
    are consistent, and both programs compute the same percentiles.

  \<^bold>\<open>Composition.\<close> The client's model holds its sessions, and a session holds the outbox, the tokens and the
  transport's handlers; the agent's model holds its socket, its tracker and its replies and passes each
  callback on as the code does. The transports of the client run beside the session: what a session
  relies on is that a transport calls \<open>onClose\<close> once, which \<open>transport_contract\<close> gives for each.

  \<^bold>\<open>Bounds.\<close> The JSON parser takes fuel and is given more than the length of the text. The paged history of
  \<open>Rest\<close> is a partial function whose \<open>None\<close> is a loop that never ends; that it returns every page is the
  theorem, for a server that ends. The recursion of a throwing error listener in \<open>Emitter\<close> takes a bound on
  its depth, and no bound suffices. Every other function is total.

  \<^bold>\<open>Parameters.\<close> \<open>fetch\<close>, \<open>new URL\<close>, \<open>Date.parse\<close>, \<open>new WebSocket\<close>, storage and the
  application's functions are arguments or answers in the environment of a step.

  \<^bold>\<open>Not modelled.\<close> The logger; the decoding of bytes to text; the type declarations that are only types
  (\<open>rest/types.ts\<close>, \<open>generated/protocol.ts\<close>); the agent's emitter, which is the client's again;
  scaffolding, the scenarios and the report of the load harness, website and web assets, which are scripts and
  configuration. The Elixir server and the SDKs in other languages are programs of their own: outside
  \<open>Agent_Server\<close>, which has the test server in its place, the server appears only as the frames and answers it
  may send, with no assumption on which.
\<close>

end
